(* ===== verification/XPrelude.thy ===== *)
theory XPrelude
  imports Main "HOL-Library.Word"
begin

text \<open>
  Shared vocabulary of the development: machine integers at the widths the Go
  code uses, slices, the big-endian accessors of \<open>encoding/binary\<close>, and the
  generic list and word lemmas the component theories rely on.  The collection
  \<open>wire_simps\<close> holds the rewrite rules for reading back what was written.
\<close>

unbundle bit_operations_syntax

named_theorems wire_simps \<open>reading fields of a byte string that was assembled field by field\<close>

section \<open>Machine integers and byte strings\<close>

type_synonym byte = "8 word"
type_synonym u16 = "16 word"
type_synonym u32 = "32 word"
type_synonym u64 = "64 word"
type_synonym bytes = "byte list"

text \<open>Go's subslice expression \<open>xs[i:j]\<close>, for indices within range.\<close>

definition subslice :: "nat \<Rightarrow> nat \<Rightarrow> 'a list \<Rightarrow> 'a list" where
  "subslice i j xs = take (j - i) (drop i xs)"

lemma length_subslice [simp]: "j \<le> length xs \<Longrightarrow> length (subslice i j xs) = j - i"
  by (simp add: subslice_def)

lemma subslice_append_left: "j \<le> length xs \<Longrightarrow> subslice i j (xs @ ys) = subslice i j xs"
  by (simp add: subslice_def)

lemma subslice_append_right:
  "length xs \<le> i \<Longrightarrow> subslice i j (xs @ ys) = subslice (i - length xs) (j - length xs) ys"
  by (simp add: subslice_def)

lemma subslice_full [simp]: "subslice 0 (length xs) xs = xs"
  by (simp add: subslice_def)

section \<open>Big-endian integers (\<open>encoding/binary.BigEndian\<close>)\<close>

definition put_u16 :: "u16 \<Rightarrow> bytes" where
  "put_u16 w = [ucast (drop_bit 8 w), ucast w]"

definition put_u32 :: "u32 \<Rightarrow> bytes" where
  "put_u32 w = [ucast (drop_bit 24 w), ucast (drop_bit 16 w), ucast (drop_bit 8 w), ucast w]"

text \<open>\<open>Uint16\<close>/\<open>Uint32\<close> read the first bytes of their argument; on a shorter subslice
  Go panics, and every caller below checks the length first.\<close>

definition get_u16 :: "bytes \<Rightarrow> u16" where
  "get_u16 b = push_bit 8 (ucast (b ! 0)) OR ucast (b ! 1)"

definition get_u32 :: "bytes \<Rightarrow> u32" where
  "get_u32 b = push_bit 24 (ucast (b ! 0)) OR push_bit 16 (ucast (b ! 1))
     OR push_bit 8 (ucast (b ! 2)) OR ucast (b ! 3)"

lemma length_put_u16 [simp]: "length (put_u16 w) = 2"
  by (simp add: put_u16_def)

lemma length_put_u32 [simp]: "length (put_u32 w) = 4"
  by (simp add: put_u32_def)

lemma get_put_u16: "get_u16 (put_u16 w @ r) = w"
  by (rule bit_word_eqI) (auto simp: get_u16_def put_u16_def bit_simps)

lemma get_put_u32: "get_u32 (put_u32 w @ r) = w"
proof (rule bit_word_eqI)
  fix n :: nat
  assume "n < LENGTH(32)"
  then consider "n < 8" | "8 \<le> n" "n < 16" | "16 \<le> n" "n < 24" | "24 \<le> n" "n < 32"
    by fastforce
  then show "bit (get_u32 (put_u32 w @ r)) n = bit w n"
    by cases (auto simp: get_u32_def put_u32_def bit_simps)
qed

lemma get_u16_prefix: "2 \<le> length b \<Longrightarrow> get_u16 (b @ r) = get_u16 b"
  by (cases b rule: list.exhaust) (auto simp: get_u16_def nth_append)

lemma get_u32_prefix: "4 \<le> length b \<Longrightarrow> get_u32 (b @ r) = get_u32 b"
  by (cases b rule: list.exhaust) (auto simp: get_u32_def nth_append)

text \<open>Reading a field back out of an assembled byte string: skip what precedes it.\<close>

lemma subslice_Cons [wire_simps]: "0 < i \<Longrightarrow> subslice i j (x # xs) = subslice (i - 1) (j - 1) xs"
  by (cases i) (simp_all add: subslice_def)

lemma subslice_skip_u16 [wire_simps]: "2 \<le> i \<Longrightarrow> subslice i j (put_u16 w @ r) = subslice (i - 2) (j - 2) r"
  by (simp add: subslice_append_right)

lemma subslice_skip_u32 [wire_simps]: "4 \<le> i \<Longrightarrow> subslice i j (put_u32 w @ r) = subslice (i - 4) (j - 4) r"
  by (simp add: subslice_append_right)

lemma subslice_at_u32 [wire_simps]: "subslice 0 4 (put_u32 w @ r) = put_u32 w" "subslice 0 4 (put_u32 w) = put_u32 w"
  by (simp_all add: subslice_def)

lemma subslice_at_u16 [wire_simps]: "subslice 0 2 (put_u16 w @ r) = put_u16 w" "subslice 0 2 (put_u16 w) = put_u16 w"
  by (simp_all add: subslice_def)

lemma get_put_plain [wire_simps]: "get_u32 (put_u32 v) = v" "get_u16 (put_u16 w) = w"
  using get_put_u32 [of v "[]"] get_put_u16 [of w "[]"] by simp_all

lemma nth_skip_u32 [wire_simps]: "4 \<le> i \<Longrightarrow> (put_u32 w @ r) ! i = r ! (i - 4)"
  by (simp add: nth_append)

lemma nth_skip_u16 [wire_simps]: "2 \<le> i \<Longrightarrow> (put_u16 w @ r) ! i = r ! (i - 2)"
  by (simp add: nth_append)

section \<open>Exhaustive checks\<close>

lemma list_all_uptD: "list_all P [a..<b] \<Longrightarrow> a \<le> i \<Longrightarrow> i < b \<Longrightarrow> P i"
  by (simp add: list_all_iff)

lemma all_bytesD: "list_all (\<lambda>n. P (word_of_nat n)) [0..<256] \<Longrightarrow> P (b :: byte)"
  using list_all_uptD [of "\<lambda>n. P (word_of_nat n)" 0 256 "unat b"] unsigned_less [of b] by simp

end
