(* ===== verification/Rtp.thy ===== *)
theory Rtp
  imports XPrelude
begin

text \<open>
  The RTP packet the media code passes around: the header fields and the payload of
  \<open>rtp.Packet\<close> that the sources read or write.
\<close>

record rtp_packet =
  Marker :: bool
  PayloadType :: byte
  SequenceNumber :: u16
  Timestamp :: u32
  SSRC :: u32
  Payload :: bytes

end
