(* ===== verification/JitterBuffer.thy ===== *)
theory JitterBuffer
  imports Rtp "HOL-Library.Multiset"
begin

text \<open>
  The jitter buffer of \<open>internal/media/jitterbuffer.go\<close>.  Time is the integer number of
  nanoseconds of the clock; \<open>Push\<close> and \<open>Pop\<close> take the reading of \<open>time.Now\<close> as an
  argument.  The \<open>seen\<close> map is the set of its true keys.  \<open>Pop\<close>'s compaction copies the slice
  and leaves its contents, which is all the model has of it.
\<close>

definition seqLess :: "u16 \<Rightarrow> u16 \<Rightarrow> bool" where
  "seqLess a b = (let diff = b - a in diff > 0 \<and> diff < 0x8000)"

record jitterEntry =
  pkt :: rtp_packet
  arrival :: int

record JitterBuffer =
  depth :: int
  entries :: "jitterEntry list"
  seen :: "u16 set"

definition NewJitterBuffer :: "int \<Rightarrow> JitterBuffer" where
  "NewJitterBuffer d = \<lparr>depth = d, entries = [], seen = {}\<rparr>"

abbreviation eseq :: "jitterEntry \<Rightarrow> u16" where
  "eseq e \<equiv> SequenceNumber (pkt e)"

text \<open>The walk from the tail that finds the insertion point.\<close>

fun insert_at :: "jitterEntry list \<Rightarrow> u16 \<Rightarrow> nat \<Rightarrow> nat" where
  "insert_at es sq 0 = 0"
| "insert_at es sq (Suc i) = (if \<not> seqLess (eseq (es ! i)) sq then insert_at es sq i else Suc i)"

definition Push :: "int \<Rightarrow> rtp_packet \<Rightarrow> JitterBuffer \<Rightarrow> JitterBuffer" where
  "Push now p jb =
     (let sq = SequenceNumber p in
      if sq \<in> seen jb then jb
      else
        let jb = jb\<lparr>seen := insert sq (seen jb)\<rparr>;
            entry = \<lparr>pkt = p, arrival = now\<rparr>;
            n = length (entries jb) in
        if n = 0 then jb\<lparr>entries := entries jb @ [entry]\<rparr>
        else if seqLess (eseq (entries jb ! (n - 1))) sq then jb\<lparr>entries := entries jb @ [entry]\<rparr>
        else let i = insert_at (entries jb) sq n
             in jb\<lparr>entries := take i (entries jb) @ [entry] @ drop i (entries jb)\<rparr>)"

definition Pop :: "int \<Rightarrow> JitterBuffer \<Rightarrow> rtp_packet option \<times> JitterBuffer" where
  "Pop now jb =
     (case entries jb of
        [] \<Rightarrow> (None, jb)
      | e # es \<Rightarrow>
          if now - arrival e < depth jb then (None, jb)
          else (Some (pkt e), jb\<lparr>seen := seen jb - {eseq e}, entries := es\<rparr>))"

definition Flush :: "JitterBuffer \<Rightarrow> rtp_packet list \<times> JitterBuffer" where
  "Flush jb =
     (if entries jb = [] then ([], jb)
      else (map pkt (entries jb), jb\<lparr>entries := [], seen := {}\<rparr>))"

section \<open>Invariants\<close>

text \<open>\<open>seen\<close> is the set of held sequence numbers, each held once.\<close>

definition jb_ok :: "JitterBuffer \<Rightarrow> bool" where
  "jb_ok jb \<longleftrightarrow> seen jb = eseq ` set (entries jb) \<and> distinct (map eseq (entries jb))"

text \<open>The position of a sequence number relative to a base, and the span the code relies on.\<close>

definition rank :: "u16 \<Rightarrow> u16 \<Rightarrow> nat" where
  "rank b sq = unat (sq - b)"

definition in_window :: "u16 \<Rightarrow> u16 \<Rightarrow> bool" where
  "in_window b sq \<longleftrightarrow> rank b sq < 0x8000"

definition jb_sorted :: "u16 \<Rightarrow> JitterBuffer \<Rightarrow> bool" where
  "jb_sorted b jb \<longleftrightarrow> (\<forall>e \<in> set (entries jb). in_window b (eseq e))
     \<and> sorted (map (rank b \<circ> eseq) (entries jb))"

lemma rank_inj: "rank b s = rank b t \<Longrightarrow> s = t"
  using word_unat_eq_iff [of "s - b" "t - b"] by (simp add: rank_def)

lemma seqLess_rank:
  assumes "in_window b s" "in_window b t"
  shows "seqLess s t \<longleftrightarrow> rank b s < rank b t"
proof -
  have eq: "t - s = (t - b) - (s - b)" by simp
  have ineq: "unat (s - b) < 32768" "unat (t - b) < 32768"
    using assms by (simp_all add: in_window_def rank_def)
  show ?thesis
  proof (cases "s - b \<le> t - b")
    case True
    then have "unat (t - s) = rank b t - rank b s"
      unfolding eq rank_def by (rule unat_sub)
    then show ?thesis using ineq True
      by (auto simp: seqLess_def rank_def word_less_nat_alt word_le_nat_alt)
  next
    case False
    have "\<not> seqLess s t"
    proof
      assume "seqLess s t"
      then have "unat (t - s) + unat (s - b) < 2 ^ LENGTH(16)"
        using ineq by (simp add: seqLess_def word_less_nat_alt Let_def)
      then have "unat ((t - s) + (s - b)) = unat (t - s) + unat (s - b)" by (simp only: unat_add_lem)
      with False show False by (simp add: word_le_nat_alt)
    qed
    then show ?thesis using False by (simp add: rank_def word_le_nat_alt)
  qed
qed

lemma insert_at_le: "insert_at es sq i \<le> i"
  by (induction es sq i rule: insert_at.induct) auto

lemma insert_at_stop: "0 < insert_at es sq i \<Longrightarrow> seqLess (eseq (es ! (insert_at es sq i - 1))) sq"
  by (induction es sq i rule: insert_at.induct) auto

lemma insert_at_passed: "insert_at es sq i \<le> j \<Longrightarrow> j < i \<Longrightarrow> \<not> seqLess (eseq (es ! j)) sq"
  by (induction es sq i rule: insert_at.induct) (auto split: if_splits simp: less_Suc_eq)

text \<open>The three insertion branches are one insertion at the point the walk finds.\<close>

lemma Push_entries:
  "SequenceNumber p \<notin> seen jb \<Longrightarrow>
   entries (Push now p jb) =
     (let i = insert_at (entries jb) (SequenceNumber p) (length (entries jb))
      in take i (entries jb) @ [\<lparr>pkt = p, arrival = now\<rparr>] @ drop i (entries jb))"
  by (cases "length (entries jb)") (auto simp: Push_def Let_def)

lemma Push_seen: "seen (Push now p jb) = insert (SequenceNumber p) (seen jb)"
  by (auto simp: Push_def Let_def)

lemma Push_dup: "SequenceNumber p \<in> seen jb \<Longrightarrow> Push now p jb = jb"
  by (simp add: Push_def)

lemma mset_take_drop: "mset (take i xs) + mset (drop i xs) = mset xs"
  by (simp flip: mset_append)

lemma Push_mset:
  "SequenceNumber p \<notin> seen jb \<Longrightarrow>
   mset (entries (Push now p jb)) = add_mset \<lparr>pkt = p, arrival = now\<rparr> (mset (entries jb))"
  by (simp add: Push_entries Let_def mset_take_drop)

lemma Push_set:
  "SequenceNumber p \<notin> seen jb \<Longrightarrow>
   set (entries (Push now p jb)) = insert \<lparr>pkt = p, arrival = now\<rparr> (set (entries jb))"
  using arg_cong [OF Push_mset, of p jb set_mset now] by simp

lemma Push_ok:
  assumes "jb_ok jb" shows "jb_ok (Push now p jb)"
proof (cases "SequenceNumber p \<in> seen jb")
  case True
  with assms show ?thesis by (simp add: Push_dup)
next
  case False
  have "mset (map eseq (entries (Push now p jb))) = mset (SequenceNumber p # map eseq (entries jb))"
    by (simp only: mset_map Push_mset [OF False] image_mset_add_mset mset.simps) simp
  then have "distinct (map eseq (entries (Push now p jb))) = distinct (SequenceNumber p # map eseq (entries jb))"
    by (rule mset_eq_imp_distinct_iff)
  with assms False show ?thesis by (auto simp: jb_ok_def Push_seen Push_set)
qed

lemma Pop_ok: "jb_ok jb \<Longrightarrow> jb_ok (snd (Pop now jb))"
  by (cases "entries jb") (auto simp: Pop_def jb_ok_def image_iff)

lemma Flush_ok: "jb_ok jb \<Longrightarrow> jb_ok (snd (Flush jb))"
  by (auto simp: Flush_def jb_ok_def)

lemma Push_sorted:
  assumes srt: "jb_sorted b jb" and win: "in_window b (SequenceNumber p)"
  shows "jb_sorted b (Push now p jb)"
proof (cases "SequenceNumber p \<in> seen jb")
  case True
  with srt show ?thesis by (simp add: Push_dup)
next
  case False
  let ?es = "entries jb" and ?s = "SequenceNumber p"
  define i where "i = insert_at ?es ?s (length ?es)"
  let ?r = "rank b \<circ> eseq"
  have i: "i \<le> length ?es" by (simp add: i_def insert_at_le)
  have win': "in_window b (eseq (?es ! j))" if "j < length ?es" for j
    using srt that by (simp add: jb_sorted_def)
  have s: "sorted (map ?r ?es)" using srt by (simp add: jb_sorted_def)
  have mono: "?r (?es ! j) \<le> ?r (?es ! k)" if "j \<le> k" "k < length ?es" for j k
    using s that by (auto simp: sorted_iff_nth_mono)
  have lo: "?r e \<le> rank b ?s" if "e \<in> set (take i ?es)" for e
  proof -
    from that obtain j where j: "j < i" "e = ?es ! j" using i by (auto simp: in_set_conv_nth)
    then have "seqLess (eseq (?es ! (i - 1))) ?s" using insert_at_stop [of ?es ?s "length ?es"]
      by (simp add: i_def)
    moreover have "in_window b (eseq (?es ! (i - 1)))" using j i by (intro win') simp
    ultimately have "?r (?es ! (i - 1)) < rank b ?s" using win by (simp add: seqLess_rank [of b])
    moreover have "?r (?es ! j) \<le> ?r (?es ! (i - 1))" using j i by (intro mono) simp_all
    ultimately show ?thesis using j by simp
  qed
  have hi: "rank b ?s \<le> ?r e" if "e \<in> set (drop i ?es)" for e
  proof -
    from that obtain k where k: "k < length ?es - i" "e = drop i ?es ! k" by (auto simp: in_set_conv_nth)
    then obtain j where j: "i \<le> j" "j < length ?es" "e = ?es ! j"
      using i by (intro that [of "i + k"]) auto
    then have "\<not> seqLess (eseq e) ?s" using insert_at_passed [of ?es ?s "length ?es" j] by (simp add: i_def)
    then show ?thesis using j win win' by (simp add: seqLess_rank [of b])
  qed
  have "sorted (map ?r (take i ?es @ [\<lparr>pkt = p, arrival = now\<rparr>] @ drop i ?es))"
    using lo hi sorted_wrt_take [OF s] sorted_wrt_drop [OF s]
    by (auto simp: sorted_append take_map drop_map intro: order.trans)
  then show ?thesis using srt win False
    by (auto simp: jb_sorted_def Push_set) (simp add: Push_entries Let_def i_def)
qed

lemma Pop_sorted: "jb_sorted b jb \<Longrightarrow> jb_sorted b (snd (Pop now jb))"
  by (auto simp: Pop_def jb_sorted_def split: list.splits)

lemma NewJitterBuffer_ok [simp]: "jb_ok (NewJitterBuffer d)" "jb_sorted b (NewJitterBuffer d)"
  by (simp_all add: NewJitterBuffer_def jb_ok_def jb_sorted_def)

section \<open>Runs\<close>

text \<open>A run of the buffer: the calls its owner makes, with the packets they hand out.\<close>

datatype jb_call = PushCall int rtp_packet | PopCall int | FlushCall

fun jb_step :: "jb_call \<Rightarrow> JitterBuffer \<Rightarrow> rtp_packet list \<times> JitterBuffer" where
  "jb_step (PushCall now p) jb = ([], Push now p jb)"
| "jb_step (PopCall now) jb =
     (case Pop now jb of (None, jb') \<Rightarrow> ([], jb') | (Some p, jb') \<Rightarrow> ([p], jb'))"
| "jb_step FlushCall jb = Flush jb"

fun jb_run :: "jb_call list \<Rightarrow> JitterBuffer \<Rightarrow> rtp_packet list \<times> JitterBuffer" where
  "jb_run [] jb = ([], jb)"
| "jb_run (c # cs) jb =
     (let (out, jb') = jb_step c jb; (outs, jb'') = jb_run cs jb' in (out @ outs, jb''))"

text \<open>The packets \<open>Push\<close> takes in, the duplicates of held packets left out.\<close>

fun taken :: "jb_call list \<Rightarrow> JitterBuffer \<Rightarrow> rtp_packet list" where
  "taken [] jb = []"
| "taken (c # cs) jb =
     (case c of PushCall now p \<Rightarrow> if SequenceNumber p \<in> seen jb then [] else [p] | _ \<Rightarrow> [])
       @ taken cs (snd (jb_step c jb))"

abbreviation held :: "JitterBuffer \<Rightarrow> rtp_packet list" where
  "held jb \<equiv> map pkt (entries jb)"

lemma jb_step_ok: "jb_ok jb \<Longrightarrow> jb_ok (snd (jb_step c jb))"
proof (cases c)
  case (PopCall now)
  moreover assume "jb_ok jb"
  then have "jb_ok (snd (Pop now jb))" by (rule Pop_ok)
  ultimately show ?thesis by (auto split: prod.splits option.splits)
qed (simp_all add: Push_ok Flush_ok)

lemma jb_run_ok: "jb_ok jb \<Longrightarrow> jb_ok (snd (jb_run cs jb))"
proof (induction cs arbitrary: jb)
  case (Cons c cs)
  from Cons.IH [OF jb_step_ok [OF Cons.prems]] show ?case by (simp add: case_prod_beta)
qed simp

lemma jb_step_conserves:
  "mset (fst (jb_step c jb)) + mset (held (snd (jb_step c jb))) = mset (taken [c] jb) + mset (held jb)"
proof (cases c)
  case (PushCall now p)
  then show ?thesis by (cases "SequenceNumber p \<in> seen jb") (simp_all add: Push_dup Push_mset)
next
  case (PopCall now)
  then show ?thesis by (auto simp: Pop_def split: list.splits)
next
  case FlushCall
  then show ?thesis by (simp add: Flush_def)
qed

lemma jb_run_conserves:
  "mset (fst (jb_run cs jb)) + mset (held (snd (jb_run cs jb))) = mset (taken cs jb) + mset (held jb)"
proof (induction cs arbitrary: jb)
  case (Cons c cs)
  obtain out jb' where s: "jb_step c jb = (out, jb')" by (cases "jb_step c jb")
  have "mset (fst (jb_run (c # cs) jb)) + mset (held (snd (jb_run (c # cs) jb)))
      = mset out + (mset (fst (jb_run cs jb')) + mset (held (snd (jb_run cs jb'))))"
    by (simp add: s case_prod_beta)
  also have "\<dots> = mset (taken cs jb') + (mset out + mset (held jb'))"
    unfolding Cons.IH by (simp add: ac_simps)
  also have "mset out + mset (held jb') = mset (taken [c] jb) + mset (held jb)"
    using jb_step_conserves [of c jb] by (simp add: s)
  finally show ?case by (simp add: s ac_simps)
qed simp


section \<open>Sorting\<close>

text \<open>The first arrival of each sequence number.\<close>

fun first_arrivals :: "u16 set \<Rightarrow> rtp_packet list \<Rightarrow> rtp_packet list" where
  "first_arrivals S [] = []"
| "first_arrivals S (p # ps) =
     (if SequenceNumber p \<in> S then first_arrivals S ps
      else p # first_arrivals (insert (SequenceNumber p) S) ps)"

abbreviation push_all :: "(int \<times> rtp_packet) list \<Rightarrow> JitterBuffer \<Rightarrow> JitterBuffer" where
  "push_all aps \<equiv> fold (\<lambda>(now, p). Push now p) aps"

lemma push_all_held:
  "mset (held (push_all aps jb)) = mset (held jb) + mset (first_arrivals (seen jb) (map snd aps))"
proof (induction aps arbitrary: jb)
  case (Cons ap aps)
  obtain now p where ap: "ap = (now, p)" by (cases ap)
  show ?case using Cons.IH [of "Push now p jb"]
    by (cases "SequenceNumber p \<in> seen jb") (simp_all add: ap Push_dup Push_mset Push_seen)
qed simp

lemma push_all_ok: "jb_ok jb \<Longrightarrow> jb_ok (push_all aps jb)"
  by (induction aps arbitrary: jb) (auto simp: Push_ok)

lemma push_all_sorted:
  "jb_sorted b jb \<Longrightarrow> \<forall>ap \<in> set aps. in_window b (SequenceNumber (snd ap)) \<Longrightarrow> jb_sorted b (push_all aps jb)"
  by (induction aps arbitrary: jb) (auto simp: Push_sorted)

lemma sorted_distinct_is_sort_key:
  assumes "sorted (map f xs)" "distinct (map f xs)" "mset xs = mset ys"
  shows "xs = sort_key f ys"
proof -
  have "sort_key f ys = xs"
  proof (rule properties_for_sort_key)
    show "mset xs = mset ys" by fact
    show "sorted (map f xs)" by fact
    show "filter (\<lambda>x. f k = f x) xs = filter (\<lambda>x. f k = f x) ys" if "k \<in> set xs" for k
    proof -
      have inj: "inj_on f (set xs)" using assms(2) by (simp add: distinct_map)
      have "set ys = set xs" using assms(3) by (metis set_mset_mset)
      with that inj have eq: "filter (\<lambda>x. f k = f x) zs = filter (\<lambda>x. x = k) zs" if "set zs \<subseteq> set xs" for zs
        using that by (intro filter_cong) (auto dest: inj_onD)
      have "filter (\<lambda>x. x = k) zs = replicate (count (mset zs) k) k" for zs
        by (induction zs) auto
      then show ?thesis using eq [of xs] eq [of ys] \<open>set ys = set xs\<close> assms(3) by simp
    qed
  qed
  then show ?thesis ..
qed

text \<open>
  The buffer is a sorting network with duplicate removal.  For packets whose sequence numbers
  lie in one window of \<open>2^15\<close> consecutive numbers modulo \<open>2^16\<close> (wherever it starts, so wrap-around
  included), in whatever order and with whatever duplicates they arrive, \<open>Flush\<close> returns the
  first arrival of each sequence number, sorted by position in the window.
\<close>

theorem flush_sorts:
  assumes "\<forall>ap \<in> set aps. in_window b (SequenceNumber (snd ap))"
  shows "fst (Flush (push_all aps (NewJitterBuffer d))) =
    sort_key (\<lambda>p. rank b (SequenceNumber p)) (first_arrivals {} (map snd aps))"
proof -
  let ?jb = "push_all aps (NewJitterBuffer d)"
  have ok: "jb_ok ?jb" "jb_sorted b ?jb" using assms by (simp_all add: push_all_ok push_all_sorted)
  have "sorted (map (\<lambda>p. rank b (SequenceNumber p)) (held ?jb))"
    using ok(2) by (simp add: jb_sorted_def comp_def)
  moreover have "distinct (map (\<lambda>p. rank b (SequenceNumber p)) (held ?jb))"
    using ok(1) by (auto simp: jb_ok_def distinct_map inj_on_def comp_def dest!: rank_inj)
  moreover have "mset (held ?jb) = mset (first_arrivals {} (map snd aps))"
    using push_all_held [of aps "NewJitterBuffer d"] by (simp add: NewJitterBuffer_def)
  ultimately have "held ?jb = sort_key (\<lambda>p. rank b (SequenceNumber p)) (first_arrivals {} (map snd aps))"
    by (rule sorted_distinct_is_sort_key)
  moreover have "fst (Flush ?jb) = held ?jb" by (simp add: Flush_def)
  ultimately show ?thesis by simp
qed

abbreviation demo_pkt :: "u16 \<Rightarrow> byte \<Rightarrow> rtp_packet" where
  "demo_pkt s b \<equiv> \<lparr>Marker = False, PayloadType = 0, SequenceNumber = s, Timestamp = 0, SSRC = 1, Payload = [b]\<rparr>"

theorem flush_sorts_witness:
  "fst (Flush (push_all [(0, demo_pkt 1 1), (1, demo_pkt 0xFFFF 2), (2, demo_pkt 0 3), (3, demo_pkt 0xFFFF 4)]
      (NewJitterBuffer 50))) = [demo_pkt 0xFFFF 2, demo_pkt 0 3, demo_pkt 1 1]"
  by (subst flush_sorts [where b = "0xFFF0"]) (simp_all add: in_window_def rank_def)

text \<open>
  What \<open>Pop\<close> hands out.  A packet comes out exactly when the buffer is not empty and its
  first packet has been held for the playout depth; it is the packet of least position in the
  window of the held sequence numbers, it leaves the buffer, and the rest stays in order.
\<close>

theorem pop_delivers_least:
  assumes "jb_sorted b jb" "jb_ok jb"
  shows "case Pop now jb of
      (None, jb') \<Rightarrow> jb' = jb \<and> (entries jb = [] \<or> now - arrival (hd (entries jb)) < depth jb)
    | (Some p, jb') \<Rightarrow> held jb = p # held jb' \<and> depth jb \<le> now - arrival (hd (entries jb))
        \<and> (\<forall>e \<in> set (entries jb'). seqLess (SequenceNumber p) (eseq e))
        \<and> SequenceNumber p \<notin> seen jb' \<and> jb_sorted b jb' \<and> jb_ok jb'"
proof (cases "entries jb")
  case Nil
  then show ?thesis by (simp add: Pop_def)
next
  case (Cons e es)
  have "seqLess (eseq e) (eseq e')" if "e' \<in> set es" for e'
  proof -
    have "eseq e \<noteq> eseq e'" using assms(2) that Cons by (auto simp: jb_ok_def)
    then have "rank b (eseq e) \<noteq> rank b (eseq e')" using rank_inj by blast
    moreover have "rank b (eseq e) \<le> rank b (eseq e')" using assms(1) that Cons by (auto simp: jb_sorted_def)
    ultimately have "rank b (eseq e) < rank b (eseq e')" by simp
    then show ?thesis using assms(1) that Cons by (simp add: jb_sorted_def seqLess_rank [of b])
  qed
  then show ?thesis using assms Pop_ok [OF assms(2), of now] Pop_sorted [OF assms(1), of now] Cons
    by (auto simp: Pop_def)
qed

theorem pop_delivers_least_witness:
  "case Pop 100 (Push 20 (demo_pkt 0xFFFF 2) (Push 10 (demo_pkt 3 1) (NewJitterBuffer 50))) of
     (Some p, _) \<Rightarrow> p = demo_pkt 0xFFFF 2 | _ \<Rightarrow> False"
proof -
  let ?jb = "Push 20 (demo_pkt 0xFFFF 2) (Push 10 (demo_pkt 3 1) (NewJitterBuffer 50))"
  have "jb_sorted 0xFFF0 ?jb" "jb_ok ?jb"
    by (simp_all add: Push_sorted Push_ok in_window_def rank_def)
  from pop_delivers_least [OF this, of 100] show ?thesis
    by (simp add: Push_def NewJitterBuffer_def seqLess_def Pop_def)
qed

text \<open>
  \<open>Push\<close> drops duplicates of held packets only.  Once a packet has been popped, a copy of it
  that arrives late is taken in and handed out a second time.
\<close>

theorem popped_duplicate_redelivered:
  assumes "0 \<le> d"
  shows "fst (jb_run [PushCall 0 p, PopCall d, PushCall d p, PopCall (2 * d)] (NewJitterBuffer d)) = [p, p]"
  using assms by (simp add: NewJitterBuffer_def Push_def Pop_def)

theorem popped_duplicate_redelivered_witness:
  "fst (jb_run [PushCall 0 (demo_pkt 7 1), PopCall 50, PushCall 50 (demo_pkt 7 1), PopCall (2 * 50)]
     (NewJitterBuffer 50)) = [demo_pkt 7 1, demo_pkt 7 1]"
  by (rule popped_duplicate_redelivered) simp

end
