(* ===== verification/Rtcp.thy ===== *)
theory Rtcp
  imports XPrelude Complex_Main
begin

text \<open>
  RTCP statistics and reports, \<open>internal/rtcp/rtcp.go\<close>.  Readings of the clock are arguments, in
  nanoseconds.  The \<open>float64\<close> jitter estimate is an exact rational (rounding is not modelled);
  everything the report properties below speak of is computed on machine words as in Go.
\<close>

abbreviation ptSR :: byte where "ptSR \<equiv> 200"
abbreviation ptRR :: byte where "ptRR \<equiv> 201"
abbreviation ptPSFB :: byte where "ptPSFB \<equiv> 206"
abbreviation rtcpVer :: byte where "rtcpVer \<equiv> 2"
abbreviation reportLen :: nat where "reportLen \<equiv> 24"

record Stats =
  PacketsSent :: u32
  OctetsSent :: u32
  LastRTPTimestamp :: u32
  PacketsReceived :: u32
  RemoteSSRC :: u32
  baseSeq :: u16
  maxSeq :: u16
  cycles :: u32
  seqInitialized :: bool
  jitter :: rat
  prevTransit :: int
  jitterInitialized :: bool
  baseline :: int
  expectedPrior :: u32
  receivedPrior :: u32
  lastSRNTPMiddle :: u32
  lastSRRecvTime :: int
  lastSRReceived :: bool

definition NewStats :: "int \<Rightarrow> Stats" where
  "NewStats now = \<lparr>PacketsSent = 0, OctetsSent = 0, LastRTPTimestamp = 0, PacketsReceived = 0,
     RemoteSSRC = 0, baseSeq = 0, maxSeq = 0, cycles = 0, seqInitialized = False, jitter = 0,
     prevTransit = 0, jitterInitialized = False, baseline = now, expectedPrior = 0, receivedPrior = 0,
     lastSRNTPMiddle = 0, lastSRRecvTime = 0, lastSRReceived = False\<rparr>"

definition RecordRTPSent :: "nat \<Rightarrow> u32 \<Rightarrow> Stats \<Rightarrow> Stats" where
  "RecordRTPSent payloadLen rtpTimestamp s =
     s\<lparr>PacketsSent := PacketsSent s + 1, OctetsSent := OctetsSent s + word_of_nat payloadLen,
       LastRTPTimestamp := rtpTimestamp\<rparr>"

definition trackSeq :: "u16 \<Rightarrow> Stats \<Rightarrow> Stats" where
  "trackSeq sq s =
     (if \<not> seqInitialized s then s\<lparr>baseSeq := sq, maxSeq := sq, seqInitialized := True\<rparr>
      else if sq - maxSeq s < 0x8000
      then (if sq < maxSeq s then s\<lparr>cycles := cycles s + 1\<rparr> else s)\<lparr>maxSeq := sq\<rparr>
      else s)"

definition trackJitter :: "int \<Rightarrow> u32 \<Rightarrow> u32 \<Rightarrow> Stats \<Rightarrow> Stats" where
  "trackJitter now timestamp clockRate s =
     (if clockRate > 0 then
        let elapsed = now - baseline s;
            arrival = elapsed * uint clockRate div 1000000000;
            transit = arrival - uint timestamp;
            s = (if jitterInitialized s then
                   let d = \<bar>transit - prevTransit s\<bar>
                   in s\<lparr>jitter := jitter s + (of_int d - jitter s) / 16\<rparr>
                 else s)
        in s\<lparr>prevTransit := transit, jitterInitialized := True\<rparr>
      else s)"

definition RecordRTPReceived :: "int \<Rightarrow> u16 \<Rightarrow> u32 \<Rightarrow> u32 \<Rightarrow> u32 \<Rightarrow> Stats \<Rightarrow> Stats" where
  "RecordRTPReceived now sq timestamp ssrc clockRate s =
     trackJitter now timestamp clockRate
       (trackSeq sq (s\<lparr>PacketsReceived := PacketsReceived s + 1, RemoteSSRC := ssrc\<rparr>))"

definition ProcessIncomingSR :: "int \<Rightarrow> u32 \<Rightarrow> u32 \<Rightarrow> Stats \<Rightarrow> Stats" where
  "ProcessIncomingSR now ntpSec ntpFrac s =
     s\<lparr>lastSRNTPMiddle := push_bit 16 (ntpSec AND 0xFFFF) OR (drop_bit 16 ntpFrac AND 0xFFFF),
       lastSRRecvTime := now, lastSRReceived := True\<rparr>"

definition extendedMaxSeq :: "Stats \<Rightarrow> u32" where
  "extendedMaxSeq s = push_bit 16 (cycles s) OR ucast (maxSeq s)"

definition expected :: "Stats \<Rightarrow> u32" where
  "expected s = (if \<not> seqInitialized s then 0 else extendedMaxSeq s - ucast (baseSeq s) + 1)"

definition cumulativeLost :: "Stats \<Rightarrow> u32" where
  "cumulativeLost s =
     (let ex = expected s in if PacketsReceived s \<ge> ex then 0 else ex - PacketsReceived s)"

definition fractionLost :: "Stats \<Rightarrow> byte \<times> Stats" where
  "fractionLost s =
     (let ex = expected s;
          expectedInterval = ex - expectedPrior s;
          receivedInterval = PacketsReceived s - receivedPrior s;
          s' = s\<lparr>expectedPrior := ex, receivedPrior := PacketsReceived s\<rparr>
      in if expectedInterval = 0 \<or> receivedInterval \<ge> expectedInterval then (0, s')
         else
           let lostInterval = expectedInterval - receivedInterval;
               frac = (lostInterval * 256) div expectedInterval
           in if frac > 255 then (255, s') else (ucast frac, s'))"

definition delaySinceLastSR :: "int \<Rightarrow> Stats \<Rightarrow> u32" where
  "delaySinceLastSR now s =
     (if \<not> lastSRReceived s then 0
      else
        let elapsed = now - lastSRRecvTime s;
            secs = word_of_int (elapsed div 1000000000) :: u32;
            frac = word_of_int (elapsed mod 1000000000 * 65536 div 1000000000) :: u32
        in push_bit 16 secs OR (frac AND 0xFFFF))"

text \<open>\<open>now\<close> in nanoseconds since 1970.\<close>

definition NTPNow :: "int \<Rightarrow> u32 \<times> u32" where
  "NTPNow now = (word_of_int (now div 1000000000 + 2208988800),
     word_of_int (now mod 1000000000 * 2 ^ 32 div 1000000000))"

definition appendReportBlock :: "int \<Rightarrow> bytes \<Rightarrow> Stats \<Rightarrow> bytes \<times> Stats" where
  "appendReportBlock now buf s =
     (let buf = buf @ put_u32 (RemoteSSRC s);
          (fl, s) = fractionLost s;
          cumLost = cumulativeLost s;
          cumLost = (if cumLost > 0x7FFFFF then 0x7FFFFF else cumLost);
          buf = buf @ [fl, ucast (drop_bit 16 cumLost AND 0xFF), ucast (drop_bit 8 cumLost AND 0xFF),
                       ucast (cumLost AND 0xFF)];
          buf = buf @ put_u32 (extendedMaxSeq s);
          buf = buf @ put_u32 (word_of_int \<lfloor>jitter s\<rfloor>);
          buf = buf @ put_u32 (lastSRNTPMiddle s);
          buf = buf @ put_u32 (delaySinceLastSR now s)
      in (buf, s))"

definition BuildSR :: "int \<Rightarrow> u32 \<Rightarrow> Stats \<Rightarrow> bytes \<times> Stats" where
  "BuildSR now ssrc s =
     (let hasReport = seqInitialized s;
          rc = (if hasReport then 1 else 0 :: byte);
          (ntpSec, ntpFrac) = NTPNow now;
          lengthWords = (if hasReport then 12 else 6 :: u16);
          buf = [push_bit 6 rtcpVer OR rc, ptSR] @ put_u16 lengthWords @ put_u32 ssrc
                @ put_u32 ntpSec @ put_u32 ntpFrac @ put_u32 (LastRTPTimestamp s)
                @ put_u32 (PacketsSent s) @ put_u32 (OctetsSent s)
      in if hasReport then appendReportBlock now buf s else (buf, s))"

definition BuildRR :: "int \<Rightarrow> u32 \<Rightarrow> Stats \<Rightarrow> bytes \<times> Stats" where
  "BuildRR now ssrc s =
     (let hasReport = seqInitialized s;
          rc = (if hasReport then 1 else 0 :: byte);
          lengthWords = (if hasReport then 7 else 1 :: u16);
          buf = [push_bit 6 rtcpVer OR rc, ptRR] @ put_u16 lengthWords @ put_u32 ssrc
      in if hasReport then appendReportBlock now buf s else (buf, s))"

record ReportBlock =
  rb_SSRC :: u32
  rb_FractionLost :: byte
  rb_CumLost :: u32
  rb_HighestSeq :: u32
  rb_Jitter :: u32
  rb_LastSR :: u32
  rb_DelaySinceSR :: u32

record rtcp_Packet =
  rp_Type :: byte
  rp_SSRC :: u32
  rp_NTPSec :: u32
  rp_NTPFrac :: u32
  rp_RTPTimestamp :: u32
  rp_PacketCount :: u32
  rp_OctetCount :: u32
  rp_Reports :: "ReportBlock list"

definition IsSenderReport :: "rtcp_Packet \<Rightarrow> bool" where
  "IsSenderReport p \<longleftrightarrow> rp_Type p = ptSR"

definition parseBlock :: "bytes \<Rightarrow> ReportBlock" where
  "parseBlock b = \<lparr>rb_SSRC = get_u32 (subslice 0 4 b), rb_FractionLost = b ! 4,
     rb_CumLost = push_bit 16 (ucast (b ! 5)) OR push_bit 8 (ucast (b ! 6)) OR ucast (b ! 7),
     rb_HighestSeq = get_u32 (subslice 8 12 b), rb_Jitter = get_u32 (subslice 12 16 b),
     rb_LastSR = get_u32 (subslice 16 20 b), rb_DelaySinceSR = get_u32 (subslice 20 24 b)\<rparr>"

text \<open>The loop, with the number of blocks still to read and the rest of the data.\<close>

fun parseReportBlocks :: "bytes \<Rightarrow> nat \<Rightarrow> ReportBlock list" where
  "parseReportBlocks data 0 = []"
| "parseReportBlocks data (Suc n) =
     (if reportLen > length data then []
      else parseBlock (subslice 0 24 data) # parseReportBlocks (drop reportLen data) n)"

definition rtcp_Parse :: "bytes \<Rightarrow> rtcp_Packet option" where
  "rtcp_Parse data =
     (if length data < 8 then None
      else if drop_bit 6 (data ! 0) AND 3 \<noteq> rtcpVer then None
      else
        let rc = unat (data ! 0 AND 0x1F);
            pt = data ! 1;
            ssrc = get_u32 (subslice 4 8 data)
        in if pt = ptSR then
             (if length data < 28 then None
              else Some \<lparr>rp_Type = ptSR, rp_SSRC = ssrc,
                rp_NTPSec = get_u32 (subslice 8 12 data), rp_NTPFrac = get_u32 (subslice 12 16 data),
                rp_RTPTimestamp = get_u32 (subslice 16 20 data),
                rp_PacketCount = get_u32 (subslice 20 24 data),
                rp_OctetCount = get_u32 (subslice 24 28 data),
                rp_Reports = parseReportBlocks (drop 28 data) rc\<rparr>)
           else if pt = ptRR then
             Some \<lparr>rp_Type = ptRR, rp_SSRC = ssrc, rp_NTPSec = 0, rp_NTPFrac = 0, rp_RTPTimestamp = 0,
                rp_PacketCount = 0, rp_OctetCount = 0, rp_Reports = parseReportBlocks (drop 8 data) rc\<rparr>
           else None)"

definition BuildPLI :: "u32 \<Rightarrow> u32 \<Rightarrow> bytes" where
  "BuildPLI senderSSRC mediaSSRC =
     [push_bit 6 rtcpVer OR 1, ptPSFB] @ put_u16 2 @ put_u32 senderSSRC @ put_u32 mediaSSRC"

definition BuildFIR :: "u32 \<Rightarrow> u32 \<Rightarrow> byte \<Rightarrow> bytes" where
  "BuildFIR senderSSRC mediaSSRC seqNr =
     [push_bit 6 rtcpVer OR 4, ptPSFB] @ put_u16 4 @ put_u32 senderSSRC @ put_u32 0
       @ put_u32 mediaSSRC @ [seqNr, 0, 0, 0]"

section \<open>Extended sequence numbers\<close>

text \<open>The state that has seen true sequence numbers (not reduced modulo \<open>2^16\<close>) with first \<open>b\<close>
  and maximum \<open>m\<close>.\<close>

definition tracks :: "nat \<Rightarrow> nat \<Rightarrow> Stats \<Rightarrow> bool" where
  "tracks b m s \<longleftrightarrow> seqInitialized s \<and> baseSeq s = word_of_nat b \<and> maxSeq s = word_of_nat m
     \<and> cycles s = word_of_nat (m div 2 ^ 16)"

lemma extended_split: "push_bit 16 (word_of_nat (m div 2 ^ 16)) OR ucast (word_of_nat m :: u16) = (word_of_nat m :: u32)"
proof (rule bit_word_eqI)
  fix n :: nat
  assume "n < LENGTH(32)"
  moreover have "m div 65536 = drop_bit 16 m" by (simp add: drop_bit_eq_div)
  ultimately show "bit (push_bit 16 (word_of_nat (m div 2 ^ 16)) OR ucast (word_of_nat m :: u16) :: u32) n
      = bit (word_of_nat m :: u32) n"
    by (auto simp: bit_simps)
qed

lemma tracks_extended: "tracks b m s \<Longrightarrow> extendedMaxSeq s = word_of_nat m"
  using extended_split [of m] by (simp add: tracks_def extendedMaxSeq_def)

lemma seq_delta:
  assumes "m \<le> x + 2 ^ 15" "x < m + 2 ^ 15"
  shows "(word_of_nat x - word_of_nat m :: u16) < 0x8000 \<longleftrightarrow> m \<le> x"
proof (cases "m \<le> x")
  case True
  then obtain k where x: "x = m + k" by (auto simp: le_iff_add)
  then have "word_of_nat x - word_of_nat m = (word_of_nat k :: u16)" by simp
  then show ?thesis using x assms by (simp add: word_less_nat_alt unat_of_nat)
next
  case False
  define d where "d = m - x"
  have d: "m = x + d" "0 < d" "d \<le> 2 ^ 15" using False assms by (simp_all add: d_def)
  define e where "e = 2 ^ 16 - d"
  have "(word_of_nat (d + e) :: u16) = 0" using d by (simp add: e_def word_unat_eq_iff unat_of_nat del: of_nat_add)
  then have "word_of_nat x - word_of_nat m = (word_of_nat e :: u16)" 
    by (simp add: d(1) neg_eq_iff_add_eq_0)
  moreover have "2 ^ 15 \<le> e" "e < 2 ^ 16" using d by (simp_all add: e_def)
  ultimately show ?thesis using d False by (simp add: word_less_nat_alt unat_of_nat)
qed

lemma seq_wrapped:
  assumes "m \<le> x" "x < m + 2 ^ 15"
  shows "(word_of_nat x :: u16) < word_of_nat m \<longleftrightarrow> x div 2 ^ 16 = Suc (m div 2 ^ 16)"
    and "\<not> (word_of_nat x :: u16) < word_of_nat m \<longleftrightarrow> x div 2 ^ 16 = m div 2 ^ 16"
proof -
  obtain k where x: "x = m + k" "k < 2 ^ 15" using assms by (auto simp: le_iff_add)
  define c q where "c = m div 2 ^ 16" and "q = m mod 2 ^ 16"
  have m: "m = q + c * 2 ^ 16" "q < 2 ^ 16" by (simp_all add: c_def q_def)
  have less: "(word_of_nat x :: u16) < word_of_nat m \<longleftrightarrow> x mod 2 ^ 16 < q"
    by (simp add: word_less_nat_alt unat_of_nat q_def)
  have "(if q + k < 2 ^ 16 then x div 2 ^ 16 = c \<and> x mod 2 ^ 16 = q + k
         else x div 2 ^ 16 = Suc c \<and> x mod 2 ^ 16 = q + k - 2 ^ 16)"
  proof (cases "q + k < 2 ^ 16")
    case True
    have "x = (q + k) + c * 2 ^ 16" by (simp add: x m)
    then show ?thesis using True by (simp only: div_mult_self1 mod_mult_self1) simp
  next
    case False
    have "x = (q + k - 2 ^ 16) + Suc c * 2 ^ 16" "q + k - 2 ^ 16 < 2 ^ 16"
      using False m(2) x(2) by (simp_all add: x m(1))
    then show ?thesis using False by (simp only: div_mult_self1 mod_mult_self1) simp
  qed
  then show "(word_of_nat x :: u16) < word_of_nat m \<longleftrightarrow> x div 2 ^ 16 = Suc (m div 2 ^ 16)"
    and "\<not> (word_of_nat x :: u16) < word_of_nat m \<longleftrightarrow> x div 2 ^ 16 = m div 2 ^ 16"
    using m(2) x(2) unfolding less c_def [symmetric] by (auto split: if_splits)
qed

lemma tracks_step:
  assumes "tracks b m s" "m \<le> x + 2 ^ 15" "x < m + 2 ^ 15"
  shows "tracks b (max m x) (trackSeq (word_of_nat x) s)"
proof (cases "m \<le> x")
  case True
  have "cycles (trackSeq (word_of_nat x) s) = word_of_nat (x div 2 ^ 16)"
    using seq_wrapped [OF True assms(3)] seq_delta [OF assms(2,3)] assms(1) True
    by (auto simp: trackSeq_def tracks_def)
  then show ?thesis using assms(1) True seq_delta [OF assms(2,3)]
    by (simp add: tracks_def trackSeq_def max_def)
next
  case False
  then show ?thesis using assms(1) seq_delta [OF assms(2,3)] by (simp add: tracks_def trackSeq_def max_def)
qed

lemma trackJitter_keeps:
  "tracks b m (trackJitter now ts cr s) = tracks b m s"
  "PacketsReceived (trackJitter now ts cr s) = PacketsReceived s"
  by (simp_all add: trackJitter_def tracks_def Let_def)

lemma tracks_received:
  assumes "tracks b m s" "m \<le> x + 2 ^ 15" "x < m + 2 ^ 15"
  shows "tracks b (max m x) (RecordRTPReceived now (word_of_nat x) ts ssrc cr s)"
proof -
  have "tracks b m (s\<lparr>PacketsReceived := PacketsReceived s + 1, RemoteSSRC := ssrc\<rparr>)"
    using assms(1) by (simp add: tracks_def)
  from tracks_step [OF this assms(2,3)] show ?thesis by (simp add: RecordRTPReceived_def trackJitter_keeps)
qed

text \<open>A stream without a jump of half the sequence space.\<close>

fun steady :: "nat \<Rightarrow> nat list \<Rightarrow> bool" where
  "steady m [] = True"
| "steady m (x # xs) = (m \<le> x + 2 ^ 15 \<and> x < m + 2 ^ 15 \<and> steady (max m x) xs)"

abbreviation receive_all :: "(int \<times> nat \<times> u32) list \<Rightarrow> u32 \<Rightarrow> u32 \<Rightarrow> Stats \<Rightarrow> Stats" where
  "receive_all rs ssrc cr \<equiv> fold (\<lambda>(now, x, ts). RecordRTPReceived now (word_of_nat x) ts ssrc cr) rs"

lemma tracks_stream:
  "tracks b m s \<Longrightarrow> steady m (map (fst \<circ> snd) rs) \<Longrightarrow>
   tracks b (fold max (map (fst \<circ> snd) rs) m) (receive_all rs ssrc cr s)"
proof (induction rs arbitrary: s m)
  case (Cons r rs)
  obtain now x ts where r: "r = (now, x, ts)" by (cases r)
  with Cons.prems have "tracks b (max m x) (RecordRTPReceived now (word_of_nat x) ts ssrc cr s)"
    by (intro tracks_received) simp_all
  from Cons.IH [OF this] Cons.prems show ?case by (simp add: r max.commute)
qed simp

lemma received_count:
  "PacketsReceived (receive_all rs ssrc cr s) = PacketsReceived s + word_of_nat (length rs)"
  by (induction rs arbitrary: s)
     (auto simp: RecordRTPReceived_def trackJitter_keeps trackSeq_def add.assoc)

lemma tracks_first: "tracks x x (RecordRTPReceived now (word_of_nat x) ts ssrc cr (NewStats t))" if "x < 2 ^ 16"
  using that by (simp add: RecordRTPReceived_def trackJitter_keeps) (simp add: tracks_def trackSeq_def NewStats_def)

lemma fold_max_ge: "m \<le> fold max xs (m :: nat)"
proof (induction xs arbitrary: m)
  case (Cons x xs)
  from Cons.IH [of "max x m"] show ?case by simp
qed simp

lemma unat_expected:
  assumes "tracks b m s" "b \<le> m" "b < 2 ^ 16" "m < 2 ^ 32 - 1"
  shows "unat (expected s) = m - b + 1"
proof -
  have "ucast (word_of_nat b :: u16) = (word_of_nat b :: u32)"
    using assms(3) by (simp add: word_unat_eq_iff unat_of_nat unsigned_ucast_eq take_bit_eq_mod)
  then have "expected s = word_of_nat (m - b + 1)"
    using assms tracks_extended [OF assms(1)] by (simp add: expected_def tracks_def of_nat_diff)
  then show ?thesis using assms(4) by (simp add: unat_of_nat del: of_nat_add of_nat_Suc)
qed

text \<open>
  C30: loss accounting across sequence wrap-around.  For a stream whose sequence numbers never jump by
  half the 16-bit space (reordering, duplicates and gaps allowed), the tracker holds the true
  highest extended sequence number although it only sees 16 bits of each, and reports as
  cumulatively lost the packets between the first and the highest that were not received, zero
  when duplicates made up for them.
\<close>

theorem rtcp_loss_exact:
  assumes "x0 < 2 ^ 16" "steady x0 (map (fst \<circ> snd) rs)" "length rs < 2 ^ 32 - 1"
    and "fold max (map (fst \<circ> snd) rs) x0 < 2 ^ 32 - 1"
  shows "unat (extendedMaxSeq (receive_all ((t0, x0, ts0) # rs) ssrc cr (NewStats t)))
           = fold max (map (fst \<circ> snd) rs) x0 \<and>
         unat (cumulativeLost (receive_all ((t0, x0, ts0) # rs) ssrc cr (NewStats t)))
           = (fold max (map (fst \<circ> snd) rs) x0 - x0 + 1) - (1 + length rs)"
proof
  define m where "m = fold max (map (fst \<circ> snd) rs) x0"
  let ?s = "receive_all ((t0, x0, ts0) # rs) ssrc cr (NewStats t)"
  note mm = assms(4) [folded m_def]
  have tr: "tracks x0 m ?s" using tracks_stream [OF tracks_first [OF assms(1)] assms(2)] by (simp add: m_def)
  have "unat (extendedMaxSeq ?s) = m"
    using mm by (simp only: tracks_extended [OF tr] unat_of_nat) simp
  then show "unat (extendedMaxSeq ?s) = fold max (map (fst \<circ> snd) rs) x0" by (simp only: m_def)
  have ex: "unat (expected ?s) = m - x0 + 1"
    using unat_expected [OF tr _ assms(1) mm] fold_max_ge by (simp add: m_def)
  have "PacketsReceived ?s = word_of_nat (1 + length rs)"
    using received_count [of ssrc cr "(t0, x0, ts0) # rs" "NewStats t"] by (simp add: NewStats_def)
  then have rc: "unat (PacketsReceived ?s) = 1 + length rs"
    using assms(3) by (simp add: unat_of_nat del: of_nat_add of_nat_Suc)
  have "unat (cumulativeLost ?s) = unat (expected ?s) - unat (PacketsReceived ?s)"
    by (simp add: cumulativeLost_def Let_def word_le_nat_alt unat_sub_if' del: fold_simps)
  then show "unat (cumulativeLost ?s) = (fold max (map (fst \<circ> snd) rs) x0 - x0 + 1) - (1 + length rs)"
    by (simp only: ex rc m_def)
qed

theorem rtcp_loss_exact_witness:
  "unat (extendedMaxSeq (receive_all [(0, 65534, 0), (1, 65537, 0), (2, 65536, 0), (3, 65540, 0)] 9 8000 (NewStats 0))) = 65540
   \<and> unat (cumulativeLost (receive_all [(0, 65534, 0), (1, 65537, 0), (2, 65536, 0), (3, 65540, 0)] 9 8000 (NewStats 0))) = 3"
  using rtcp_loss_exact [of 65534 "[(1, 65537, 0), (2, 65536, 0), (3, 65540, 0)]" 9 8000 0 0 0]
  by (simp del: of_nat_numeral)

text \<open>
  The loss fraction of a report is the share of the packets expected since the last report that
  did not arrive, in 256ths rounded down and capped at 255, and 0 when as many arrived as
  expected; the interval counters move on.
\<close>

theorem fraction_lost_spec:
  assumes "expected s - expectedPrior s = E" "PacketsReceived s - receivedPrior s = R" "E < 2 ^ 24"
  shows "unat (fst (fractionLost s)) =
      (if R \<ge> E then 0 else min 255 (256 * (unat E - unat R) div unat E))
    \<and> expectedPrior (snd (fractionLost s)) = expected s
    \<and> receivedPrior (snd (fractionLost s)) = PacketsReceived s"
proof (intro conjI)
  show "expectedPrior (snd (fractionLost s)) = expected s" "receivedPrior (snd (fractionLost s)) = PacketsReceived s"
    by (simp_all add: fractionLost_def Let_def)
  show "unat (fst (fractionLost s)) = (if R \<ge> E then 0 else min 255 (256 * (unat E - unat R) div unat E))"
  proof (cases "R \<ge> E")
    case True
    then show ?thesis using assms by (simp add: fractionLost_def Let_def)
  next
    case False
    then have sub: "unat (E - R) = unat E - unat R" by (simp add: unat_sub_if' word_le_nat_alt)
    have "unat E < 2 ^ 24" using assms(3) by (simp add: word_less_nat_alt)
    then have "256 * (unat E - unat R) < 2 ^ 32" by simp
    then have "unat ((E - R) * 256) = 256 * (unat E - unat R)"
      using sub unat_mult_lem [of "E - R" 256] by (simp add: mult.commute)
    then have q: "unat ((E - R) * 256 div E) = 256 * (unat E - unat R) div unat E"
      by (simp only: unat_div_distrib)
    have "fst (fractionLost s) = (if (E - R) * 256 div E > 255 then 255 else ucast ((E - R) * 256 div E))"
      using False assms by (auto simp: fractionLost_def Let_def)
    then show ?thesis using False q by (auto simp: word_less_nat_alt unsigned_ucast_eq take_bit_eq_mod min_def)
  qed
qed

theorem fraction_lost_spec_witness:
  "unat (fst (fractionLost (receive_all [(0, 10, 0), (1, 13, 0)] 9 0 (NewStats 0)))) = 128"
  using fraction_lost_spec [of "receive_all [(0, 10, 0), (1, 13, 0)] 9 0 (NewStats 0)" 4 2]
  by (simp add: expected_def extendedMaxSeq_def RecordRTPReceived_def trackSeq_def trackJitter_def NewStats_def)

section \<open>Reading back what is built\<close>

lemma cum_lost_bytes:
  assumes "c \<le> (0x7FFFFF :: u32)"
  shows "push_bit 16 (ucast (ucast (drop_bit 16 c AND 0xFF) :: byte))
     OR push_bit 8 (ucast (ucast (drop_bit 8 c AND 0xFF) :: byte)) OR ucast (ucast (c AND 0xFF) :: byte) = c"
proof (rule bit_word_eqI)
  fix n :: nat
  assume n: "n < LENGTH(32)"
  have hi: "\<not> bit c n" if "24 \<le> n"
  proof -
    have "unat c < 2 ^ 24" using assms by (simp add: word_le_nat_alt)
    also have "(2 :: nat) ^ 24 \<le> 2 ^ n" using that by (intro power_increasing) simp_all
    finally have "\<not> bit (unat c) n" by (simp add: bit_iff_odd)
    then show ?thesis using n by (simp add: bit_unsigned_iff)
  qed
  have m: "(0xFF :: u32) = mask 8" by (simp add: mask_eq_exp_minus_1)
  show "bit (push_bit 16 (ucast (ucast (drop_bit 16 c AND 0xFF) :: byte))
     OR push_bit 8 (ucast (ucast (drop_bit 8 c AND 0xFF) :: byte)) OR ucast (ucast (c AND 0xFF) :: byte) :: u32) n = bit c n"
  proof -
    from n consider "n < 8" | "8 \<le> n" "n < 16" | "16 \<le> n" "n < 24" | "24 \<le> n" by fastforce
    then show ?thesis using n hi unfolding m by cases (auto simp: bit_simps)
  qed
qed

text \<open>The report block the statistics stand for.\<close>

definition report_of :: "int \<Rightarrow> Stats \<Rightarrow> ReportBlock" where
  "report_of now s = \<lparr>rb_SSRC = RemoteSSRC s, rb_FractionLost = fst (fractionLost s),
     rb_CumLost = min 0x7FFFFF (cumulativeLost s), rb_HighestSeq = extendedMaxSeq s,
     rb_Jitter = word_of_int \<lfloor>jitter s\<rfloor>, rb_LastSR = lastSRNTPMiddle s,
     rb_DelaySinceSR = delaySinceLastSR now s\<rparr>"

definition block_bytes :: "int \<Rightarrow> Stats \<Rightarrow> bytes" where
  "block_bytes now s = fst (appendReportBlock now [] s)"

lemma fractionLost_keeps [simp]:
  "cumulativeLost (snd (fractionLost s)) = cumulativeLost s" "extendedMaxSeq (snd (fractionLost s)) = extendedMaxSeq s"
  "jitter (snd (fractionLost s)) = jitter s" "lastSRNTPMiddle (snd (fractionLost s)) = lastSRNTPMiddle s"
  "delaySinceLastSR now (snd (fractionLost s)) = delaySinceLastSR now s"
  by (simp_all add: fractionLost_def Let_def cumulativeLost_def expected_def extendedMaxSeq_def delaySinceLastSR_def)

lemma appendReportBlock_eq: "appendReportBlock now buf s = (buf @ block_bytes now s, snd (fractionLost s))"
  by (simp add: appendReportBlock_def block_bytes_def case_prod_beta Let_def)

lemma length_block [simp]: "length (block_bytes now s) = 24"
  by (simp add: appendReportBlock_def block_bytes_def case_prod_beta Let_def)

lemma parse_block: "parseBlock (block_bytes now s) = report_of now s"
proof -
  define c where "c = min 0x7FFFFF (cumulativeLost s)"
  have c: "c \<le> 0x7FFFFF" by (simp add: c_def)
  have "block_bytes now s = put_u32 (RemoteSSRC s) @ fst (fractionLost s) # ucast (drop_bit 16 c AND 0xFF)
      # ucast (drop_bit 8 c AND 0xFF) # ucast (c AND 0xFF) # put_u32 (extendedMaxSeq s)
      @ put_u32 (word_of_int \<lfloor>jitter s\<rfloor>) @ put_u32 (lastSRNTPMiddle s) @ put_u32 (delaySinceLastSR now s)"
    by (cases "cumulativeLost s > 0x7FFFFF")
       (simp_all add: block_bytes_def appendReportBlock_def case_prod_beta Let_def c_def min_def)
  then show ?thesis using cum_lost_bytes [OF c]
    by (simp add: parseBlock_def report_of_def wire_simps c_def [symmetric])
qed

lemma parse_one_block: "parseReportBlocks (block_bytes now s) (Suc 0) = [report_of now s]"
  using parse_block [of now s] subslice_full [of "block_bytes now s"] by simp

text \<open>
  Reports are read back as they were built.  Parsing a Sender Report gives the sender's SSRC, the
  NTP and RTP timestamps and the counters, and one report block once a packet has been received,
  with the block's loss, sequence, jitter and round-trip fields; parsing a Receiver Report gives
  the same block.  The length field counts the words behind the first.
\<close>

theorem rtcp_reports_roundtrip:
  "rtcp_Parse (fst (BuildSR now ssrc s)) = Some
     \<lparr>rp_Type = ptSR, rp_SSRC = ssrc, rp_NTPSec = fst (NTPNow now), rp_NTPFrac = snd (NTPNow now),
      rp_RTPTimestamp = LastRTPTimestamp s, rp_PacketCount = PacketsSent s, rp_OctetCount = OctetsSent s,
      rp_Reports = (if seqInitialized s then [report_of now s] else [])\<rparr> \<and>
   rtcp_Parse (fst (BuildRR now ssrc s)) = Some
     \<lparr>rp_Type = ptRR, rp_SSRC = ssrc, rp_NTPSec = 0, rp_NTPFrac = 0, rp_RTPTimestamp = 0,
      rp_PacketCount = 0, rp_OctetCount = 0,
      rp_Reports = (if seqInitialized s then [report_of now s] else [])\<rparr> \<and>
   length (fst (BuildSR now ssrc s)) = 4 * (unat (get_u16 (subslice 2 4 (fst (BuildSR now ssrc s)))) + 1) \<and>
   length (fst (BuildRR now ssrc s)) = 4 * (unat (get_u16 (subslice 2 4 (fst (BuildRR now ssrc s)))) + 1)"
  by (auto simp: BuildSR_def BuildRR_def rtcp_Parse_def Let_def case_prod_beta appendReportBlock_eq
      wire_simps parse_one_block [simplified])

end
