(* ===== verification/Crypto.thy ===== *)
theory Crypto
  imports XPrelude
begin

text \<open>
  The primitives of Go's standard library that the code calls: \<open>crypto/sha1\<close>,
  \<open>crypto/md5\<close>, \<open>crypto/hmac\<close> over SHA-1, the single-block AES-128 encryption of
  \<open>crypto/aes\<close>, and \<open>encoding/base64.StdEncoding\<close>.  All are executable; the
  facts the components need are the output lengths and the base64 round trip.
\<close>

section \<open>Merkle-Damgard padding\<close>

text \<open>Append the bit 1, zeros up to 56 modulo 64, and the bit length in 8 bytes.\<close>

definition put_u64 :: "u64 \<Rightarrow> bytes" where
  "put_u64 w = put_u32 (ucast (drop_bit 32 w)) @ put_u32 (ucast w)"

definition md_pad :: "(u64 \<Rightarrow> bytes) \<Rightarrow> bytes \<Rightarrow> bytes" where
  "md_pad enc m = m @ [0x80] @ replicate ((119 - length m mod 64) mod 64) 0
     @ enc (of_nat (8 * length m))"

fun chunks :: "nat \<Rightarrow> 'a list \<Rightarrow> 'a list list" where
  "chunks n xs = (if xs = [] \<or> n = 0 then [] else take n xs # chunks n (drop n xs))"

declare chunks.simps [simp del]

section \<open>SHA-1 and HMAC-SHA1\<close>

definition sha1_f :: "nat \<Rightarrow> u32 \<Rightarrow> u32 \<Rightarrow> u32 \<Rightarrow> u32" where
  "sha1_f t b c d =
     (if t < 20 then (b AND c) OR (NOT b AND d)
      else if t < 40 then b XOR c XOR d
      else if t < 60 then (b AND c) OR (b AND d) OR (c AND d)
      else b XOR c XOR d)"

definition sha1_k :: "nat \<Rightarrow> u32" where
  "sha1_k t = (if t < 20 then 0x5A827999 else if t < 40 then 0x6ED9EBA1
     else if t < 60 then 0x8F1BBCDC else 0xCA62C1D6)"

text \<open>The schedule is kept newest first: words \<open>t-3\<close>, \<open>t-8\<close>, \<open>t-14\<close>, \<open>t-16\<close> are at
  positions 2, 7, 13 and 15.\<close>

fun sha1_schedule :: "nat \<Rightarrow> u32 list \<Rightarrow> u32 list" where
  "sha1_schedule 0 ws = rev ws"
| "sha1_schedule (Suc n) ws = sha1_schedule n
     (word_rotl 1 (ws ! 2 XOR ws ! 7 XOR ws ! 13 XOR ws ! 15) # ws)"

type_synonym sha1_state = "u32 \<times> u32 \<times> u32 \<times> u32 \<times> u32"

definition sha1_round :: "nat \<times> u32 \<Rightarrow> sha1_state \<Rightarrow> sha1_state" where
  "sha1_round = (\<lambda>(t, w) (a, b, c, d, e).
     (word_rotl 5 a + sha1_f t b c d + e + sha1_k t + w, a, word_rotl 30 b, c, d))"

definition sha1_block :: "bytes \<Rightarrow> sha1_state \<Rightarrow> sha1_state" where
  "sha1_block blk = (\<lambda>(h0, h1, h2, h3, h4).
     let ws = sha1_schedule 64 (rev (map get_u32 (chunks 4 blk)));
         (a, b, c, d, e) = fold sha1_round (zip [0..<80] ws) (h0, h1, h2, h3, h4)
     in (h0 + a, h1 + b, h2 + c, h3 + d, h4 + e))"

definition sha1 :: "bytes \<Rightarrow> bytes" where
  "sha1 m = (case fold sha1_block (chunks 64 (md_pad put_u64 m))
       (0x67452301, 0xEFCDAB89, 0x98BADCFE, 0x10325476, 0xC3D2E1F0) of
     (a, b, c, d, e) \<Rightarrow> put_u32 a @ put_u32 b @ put_u32 c @ put_u32 d @ put_u32 e)"

lemma length_sha1 [simp]: "length (sha1 m) = 20"
  by (simp add: sha1_def split: prod.split)

definition hmac_sha1 :: "bytes \<Rightarrow> bytes \<Rightarrow> bytes" where
  "hmac_sha1 key m =
     (let k0 = (if 64 < length key then sha1 key else key);
          k = k0 @ replicate (64 - length k0) 0
      in sha1 (map ((XOR) 0x5C) k @ sha1 (map ((XOR) 0x36) k @ m)))"

lemma length_hmac_sha1 [simp]: "length (hmac_sha1 key m) = 20"
  by (simp add: hmac_sha1_def Let_def)

section \<open>MD5\<close>

definition put_le32 :: "u32 \<Rightarrow> bytes" where
  "put_le32 w = rev (put_u32 w)"

definition get_le32 :: "bytes \<Rightarrow> u32" where
  "get_le32 b = get_u32 (rev b)"

definition md5_k :: "u32 list" where
  "md5_k = [
     3614090360, 3905402710, 606105819, 3250441966, 4118548399, 1200080426, 2821735955, 4249261313,
     1770035416, 2336552879, 4294925233, 2304563134, 1804603682, 4254626195, 2792965006, 1236535329,
     4129170786, 3225465664, 643717713, 3921069994, 3593408605, 38016083, 3634488961, 3889429448,
     568446438, 3275163606, 4107603335, 1163531501, 2850285829, 4243563512, 1735328473, 2368359562,
     4294588738, 2272392833, 1839030562, 4259657740, 2763975236, 1272893353, 4139469664, 3200236656,
     681279174, 3936430074, 3572445317, 76029189, 3654602809, 3873151461, 530742520, 3299628645,
     4096336452, 1126891415, 2878612391, 4237533241, 1700485571, 2399980690, 4293915773, 2240044497,
     1873313359, 4264355552, 2734768916, 1309151649, 4149444226, 3174756917, 718787259, 3951481745]"

definition md5_s :: "nat \<Rightarrow> nat" where
  "md5_s i = (if i < 16 then [7, 12, 17, 22] ! (i mod 4)
     else if i < 32 then [5, 9, 14, 20] ! (i mod 4)
     else if i < 48 then [4, 11, 16, 23] ! (i mod 4)
     else [6, 10, 15, 21] ! (i mod 4))"

type_synonym md5_state = "u32 \<times> u32 \<times> u32 \<times> u32"

definition md5_round :: "u32 list \<Rightarrow> nat \<Rightarrow> md5_state \<Rightarrow> md5_state" where
  "md5_round ws i = (\<lambda>(a, b, c, d).
     let (f, g) =
       (if i < 16 then ((b AND c) OR (NOT b AND d), i)
        else if i < 32 then ((d AND b) OR (NOT d AND c), (5 * i + 1) mod 16)
        else if i < 48 then (b XOR c XOR d, (3 * i + 5) mod 16)
        else (c XOR (b OR NOT d), (7 * i) mod 16))
     in (d, b + word_rotl (md5_s i) (a + f + md5_k ! i + ws ! g), b, c))"

definition md5_block :: "bytes \<Rightarrow> md5_state \<Rightarrow> md5_state" where
  "md5_block blk = (\<lambda>(a0, b0, c0, d0).
     let (a, b, c, d) = fold (md5_round (map get_le32 (chunks 4 blk))) [0..<64] (a0, b0, c0, d0)
     in (a0 + a, b0 + b, c0 + c, d0 + d))"

definition md5 :: "bytes \<Rightarrow> bytes" where
  "md5 m = (case fold md5_block (chunks 64 (md_pad (\<lambda>n. rev (put_u64 n)) m))
       (0x67452301, 0xEFCDAB89, 0x98BADCFE, 0x10325476) of
     (a, b, c, d) \<Rightarrow> put_le32 a @ put_le32 b @ put_le32 c @ put_le32 d)"

lemma length_md5 [simp]: "length (md5 m) = 16"
  by (simp add: md5_def put_le32_def split: prod.split)

section \<open>AES-128, one block\<close>

definition aes_sbox :: "byte list" where
  "aes_sbox = [
     99, 124, 119, 123, 242, 107, 111, 197, 48, 1, 103, 43, 254, 215, 171, 118,
     202, 130, 201, 125, 250, 89, 71, 240, 173, 212, 162, 175, 156, 164, 114, 192,
     183, 253, 147, 38, 54, 63, 247, 204, 52, 165, 229, 241, 113, 216, 49, 21,
     4, 199, 35, 195, 24, 150, 5, 154, 7, 18, 128, 226, 235, 39, 178, 117,
     9, 131, 44, 26, 27, 110, 90, 160, 82, 59, 214, 179, 41, 227, 47, 132,
     83, 209, 0, 237, 32, 252, 177, 91, 106, 203, 190, 57, 74, 76, 88, 207,
     208, 239, 170, 251, 67, 77, 51, 133, 69, 249, 2, 127, 80, 60, 159, 168,
     81, 163, 64, 143, 146, 157, 56, 245, 188, 182, 218, 33, 16, 255, 243, 210,
     205, 12, 19, 236, 95, 151, 68, 23, 196, 167, 126, 61, 100, 93, 25, 115,
     96, 129, 79, 220, 34, 42, 144, 136, 70, 238, 184, 20, 222, 94, 11, 219,
     224, 50, 58, 10, 73, 6, 36, 92, 194, 211, 172, 98, 145, 149, 228, 121,
     231, 200, 55, 109, 141, 213, 78, 169, 108, 86, 244, 234, 101, 122, 174, 8,
     186, 120, 37, 46, 28, 166, 180, 198, 232, 221, 116, 31, 75, 189, 139, 138,
     112, 62, 181, 102, 72, 3, 246, 14, 97, 53, 87, 185, 134, 193, 29, 158,
     225, 248, 152, 17, 105, 217, 142, 148, 155, 30, 135, 233, 206, 85, 40, 223,
     140, 161, 137, 13, 191, 230, 66, 104, 65, 153, 45, 15, 176, 84, 187, 22]"

definition sub_byte :: "byte \<Rightarrow> byte" where
  "sub_byte b = aes_sbox ! unat b"

definition xtime :: "byte \<Rightarrow> byte" where
  "xtime b = (if bit b 7 then push_bit 1 b XOR 0x1B else push_bit 1 b)"

text \<open>The state is the 16 input bytes in order, that is, column by column.\<close>

definition shift_rows :: "bytes \<Rightarrow> bytes" where
  "shift_rows s = map (\<lambda>i. s ! ((i + 4 * (i mod 4)) mod 16)) [0..<16]"

definition mix_columns :: "bytes \<Rightarrow> bytes" where
  "mix_columns s = map (\<lambda>i. let c = i - i mod 4; r = i mod 4 in
     xtime (s ! (c + r)) XOR (xtime (s ! (c + (r + 1) mod 4)) XOR s ! (c + (r + 1) mod 4))
       XOR s ! (c + (r + 2) mod 4) XOR s ! (c + (r + 3) mod 4)) [0..<16]"

definition add_round_key :: "bytes \<Rightarrow> bytes \<Rightarrow> bytes" where
  "add_round_key k s = map (\<lambda>i. s ! i XOR k ! i) [0..<16]"

definition next_round_key :: "byte \<Rightarrow> bytes \<Rightarrow> bytes" where
  "next_round_key rcon k =
     (let t = [sub_byte (k ! 13) XOR rcon, sub_byte (k ! 14), sub_byte (k ! 15), sub_byte (k ! 12)];
          w0 = map2 (XOR) (subslice 0 4 k) t;
          w1 = map2 (XOR) (subslice 4 8 k) w0;
          w2 = map2 (XOR) (subslice 8 12 k) w1;
          w3 = map2 (XOR) (subslice 12 16 k) w2
      in w0 @ w1 @ w2 @ w3)"

fun aes_rounds :: "nat \<Rightarrow> byte \<Rightarrow> bytes \<Rightarrow> bytes \<Rightarrow> bytes" where
  "aes_rounds 0 rcon k s = add_round_key (next_round_key rcon k) (shift_rows (map sub_byte s))"
| "aes_rounds (Suc n) rcon k s =
     (let k' = next_round_key rcon k
      in aes_rounds n (xtime rcon) k' (add_round_key k' (mix_columns (shift_rows (map sub_byte s)))))"

definition aes128_encrypt :: "bytes \<Rightarrow> bytes \<Rightarrow> bytes" where
  "aes128_encrypt key blk = aes_rounds 9 1 key (add_round_key key blk)"

lemma length_add_round_key [simp]: "length (add_round_key k s) = 16"
  by (simp add: add_round_key_def)

lemma length_aes_rounds [simp]: "length (aes_rounds n rcon k s) = 16"
  by (induction n arbitrary: rcon k s) (simp_all add: Let_def)

lemma length_aes128 [simp]: "length (aes128_encrypt key blk) = 16"
  by (simp add: aes128_encrypt_def)

section \<open>Base64, standard alphabet with padding\<close>

definition b64_digit :: "nat \<Rightarrow> char" where
  "b64_digit n = char_of (if n < 26 then n + 65 else if n < 52 then n + 71
     else if n < 62 then n - 4 else if n = 62 then 43 else 47)"

definition b64_value :: "char \<Rightarrow> nat option" where
  "b64_value c = (let n = of_char c in
     if 65 \<le> n \<and> n \<le> 90 then Some (n - 65)
     else if 97 \<le> n \<and> n \<le> 122 then Some (n - 71)
     else if 48 \<le> n \<and> n \<le> 57 then Some (n + 4)
     else if n = 43 then Some 62
     else if n = 47 then Some 63
     else None)"

fun b64_encode :: "bytes \<Rightarrow> string" where
  "b64_encode [] = []"
| "b64_encode [a] =
     [b64_digit (unat a div 4), b64_digit (unat a mod 4 * 16), CHR ''='', CHR ''='']"
| "b64_encode [a, b] =
     [b64_digit (unat a div 4), b64_digit (unat a mod 4 * 16 + unat b div 16),
      b64_digit (unat b mod 16 * 4), CHR ''='']"
| "b64_encode (a # b # c # r) =
     b64_digit (unat a div 4) # b64_digit (unat a mod 4 * 16 + unat b div 16)
     # b64_digit (unat b mod 16 * 4 + unat c div 64) # b64_digit (unat c mod 64)
     # b64_encode r"

text \<open>The three octets of four sextets.\<close>

definition b64_octet1 :: "nat \<Rightarrow> nat \<Rightarrow> byte" where
  "b64_octet1 x y = of_nat (x * 4 + y div 16)"

definition b64_octet2 :: "nat \<Rightarrow> nat \<Rightarrow> byte" where
  "b64_octet2 y z = of_nat (y mod 16 * 16 + z div 4)"

definition b64_octet3 :: "nat \<Rightarrow> nat \<Rightarrow> byte" where
  "b64_octet3 z u = of_nat (z mod 4 * 64 + u)"

fun b64_groups :: "string \<Rightarrow> bytes option" where
  "b64_groups [] = Some []"
| "b64_groups (a # b # c # d # r) =
     (if d = CHR ''='' then
        (if r \<noteq> [] then None
         else if c = CHR ''='' then
           (case (b64_value a, b64_value b) of
              (Some x, Some y) \<Rightarrow> Some [b64_octet1 x y]
            | _ \<Rightarrow> None)
         else
           (case (b64_value a, b64_value b, b64_value c) of
              (Some x, Some y, Some z) \<Rightarrow>
                Some [b64_octet1 x y, b64_octet2 y z]
            | _ \<Rightarrow> None))
      else
        (case (b64_value a, b64_value b, b64_value c, b64_value d, b64_groups r) of
           (Some x, Some y, Some z, Some u, Some bs) \<Rightarrow>
             Some (b64_octet1 x y # b64_octet2 y z
               # b64_octet3 z u # bs)
         | _ \<Rightarrow> None))"
| "b64_groups _ = None"

text \<open>\<open>DecodeString\<close> skips line breaks and fails on any other character outside the alphabet.\<close>

definition b64_decode :: "string \<Rightarrow> bytes option" where
  "b64_decode s = b64_groups (filter (\<lambda>c. c \<noteq> CHR 0x0A \<and> c \<noteq> CHR 0x0D) s)"

lemma b64_value_digit:
  assumes "n < 64"
  shows "b64_value (b64_digit n) = Some n \<and> b64_digit n \<noteq> CHR ''=''
    \<and> b64_digit n \<noteq> CHR 0x0A \<and> b64_digit n \<noteq> CHR 0x0D"
proof -
  have "b64_value (b64_digit n) = Some n"
    using assms by (auto simp: b64_value_def b64_digit_def Let_def)
  moreover have "b64_value (CHR ''='') = None" "b64_value (CHR 0x0A) = None" "b64_value (CHR 0x0D) = None"
    by (simp_all add: b64_value_def)
  ultimately show ?thesis by (metis option.distinct(1))
qed

lemma unat_byte_less: "unat (b :: byte) < 256"
  using unsigned_less [of b] by simp

lemma b64_digit_bounds:
  "unat (a :: byte) div 4 < 64" "unat a mod 4 * 16 + unat (b :: byte) div 16 < 64"
  "unat b mod 16 * 4 + unat (c :: byte) div 64 < 64" "unat c mod 64 < 64"
  "unat a mod 4 * 16 < 64" "unat b mod 16 * 4 < 64"
proof -
  have "unat a < 256" "unat b < 256" "unat c < 256" by (rule unat_byte_less)+
  then have "unat a div 4 < 64" "unat b div 16 < 16" "unat c div 64 < 4" by simp_all
  moreover have "unat a mod 4 \<le> 3" "unat b mod 16 \<le> 15" "unat c mod 64 < 64"
    using mod_less_divisor [of 4 "unat a"] mod_less_divisor [of 16 "unat b"] by simp_all
  ultimately show "unat a div 4 < 64" "unat a mod 4 * 16 + unat b div 16 < 64"
    "unat b mod 16 * 4 + unat c div 64 < 64" "unat c mod 64 < 64"
    "unat a mod 4 * 16 < 64" "unat b mod 16 * 4 < 64" by linarith+
qed

lemma b64_octets:
  "b64_octet1 (unat a div 4) (unat a mod 4 * 16 + unat (b :: byte) div 16) = (a :: byte)"
  "b64_octet2 (unat a mod 4 * 16 + unat b div 16) (unat b mod 16 * 4 + unat (c :: byte) div 64) = b"
  "b64_octet3 (unat b mod 16 * 4 + unat c div 64) (unat c mod 64) = c"
  "b64_octet1 (unat a div 4) (unat a mod 4 * 16) = a"
  "b64_octet2 (unat a mod 4 * 16 + unat b div 16) (unat b mod 16 * 4) = b"
proof -
  have le: "unat b div 16 < 16" "unat c div 64 < 4"
    using unat_byte_less [of b] unat_byte_less [of c] by simp_all
  have join: "of_nat (unat x div m * m + unat x mod m) = x" for x :: byte and m
    by (simp only: div_mult_mod_eq) simp
  have 1: "(unat a mod 4 * 16 + unat b div 16) div 16 = unat a mod 4" using le by simp
  have 2: "(unat a mod 4 * 16 + unat b div 16) mod 16 = unat b div 16" using le by simp
  have 3: "(unat b mod 16 * 4 + unat c div 64) div 4 = unat b mod 16" using le by simp
  have 4: "(unat b mod 16 * 4 + unat c div 64) mod 4 = unat c div 64" using le by simp
  show "b64_octet1 (unat a div 4) (unat a mod 4 * 16 + unat b div 16) = a"
    by (simp only: b64_octet1_def 1 join)
  show "b64_octet2 (unat a mod 4 * 16 + unat b div 16) (unat b mod 16 * 4 + unat c div 64) = b"
    by (simp only: b64_octet2_def 2 3 join)
  show "b64_octet3 (unat b mod 16 * 4 + unat c div 64) (unat c mod 64) = c"
    by (simp only: b64_octet3_def 4 join)
  show "b64_octet1 (unat a div 4) (unat a mod 4 * 16) = a"
    using join [of a 4] by (simp add: b64_octet1_def)
  show "b64_octet2 (unat a mod 4 * 16 + unat b div 16) (unat b mod 16 * 4) = b"
    using join [of b 16] by (simp only: b64_octet2_def 2) simp
qed

lemmas b64_digits = b64_value_digit [OF b64_digit_bounds(1)] b64_value_digit [OF b64_digit_bounds(2)]
  b64_value_digit [OF b64_digit_bounds(3)] b64_value_digit [OF b64_digit_bounds(4)]
  b64_value_digit [OF b64_digit_bounds(5)] b64_value_digit [OF b64_digit_bounds(6)]

lemma b64_encode_no_breaks:
  "filter (\<lambda>c. c \<noteq> CHR 0x0A \<and> c \<noteq> CHR 0x0D) (b64_encode bs) = b64_encode bs"
  by (induction bs rule: b64_encode.induct) (simp_all add: b64_digits)

lemma b64_groups_encode: "b64_groups (b64_encode bs) = Some bs"
  by (induction bs rule: b64_encode.induct) (simp_all add: b64_digits b64_octets)

lemma b64_roundtrip: "b64_decode (b64_encode bs) = Some bs"
  by (simp add: b64_decode_def b64_encode_no_breaks b64_groups_encode)

end
