(* ===== verification/ReplayWindow.thy ===== *)
theory ReplayWindow
  imports XPrelude
begin

text \<open>
  The sliding-window replay protection of \<open>internal/srtp/srtp.go\<close>: the 128-bit
  bitmap held as two 64-bit halves, \<open>isReplay\<close> and \<open>accept\<close>.  The window is
  shown to refine a set of accepted indices (\<open>window_rep\<close>), and it is an
  instance of the contract \<open>replay_guard\<close> the SRTP and SRTCP receivers rely on.
\<close>

section \<open>The window\<close>

record uint128 =
  hi :: u64
  lo :: u64

definition replayWindowSize :: u64 where
  "replayWindowSize = 128"

definition u128_bit :: "uint128 \<Rightarrow> u64 \<Rightarrow> u64" where
  "u128_bit u n = (if n < 64 then drop_bit (unat n) (lo u) AND 1
     else drop_bit (unat (n - 64)) (hi u) AND 1)"

definition u128_setBit :: "uint128 \<Rightarrow> u64 \<Rightarrow> uint128" where
  "u128_setBit u n = (if n < 64 then \<lparr>hi = hi u, lo = lo u OR push_bit (unat n) 1\<rparr>
     else \<lparr>hi = hi u OR push_bit (unat (n - 64)) 1, lo = lo u\<rparr>)"

definition u128_shl :: "uint128 \<Rightarrow> u64 \<Rightarrow> uint128" where
  "u128_shl u n =
     (if n \<ge> 128 then \<lparr>hi = 0, lo = 0\<rparr>
      else if n \<ge> 64 then \<lparr>hi = push_bit (unat (n - 64)) (lo u), lo = 0\<rparr>
      else \<lparr>hi = push_bit (unat n) (hi u) OR drop_bit (unat (64 - n)) (lo u),
            lo = push_bit (unat n) (lo u)\<rparr>)"

record replayWindow =
  top :: u64
  bitmap :: uint128
  initialized :: bool

definition emptyWindow :: replayWindow where
  "emptyWindow = \<lparr>top = 0, bitmap = \<lparr>hi = 0, lo = 0\<rparr>, initialized = False\<rparr>"

definition isReplay :: "replayWindow \<Rightarrow> u64 \<Rightarrow> bool" where
  "isReplay w index =
     (if \<not> initialized w then False
      else if index > top w then False
      else let delta = top w - index in
        if delta \<ge> replayWindowSize then True
        else u128_bit (bitmap w) delta = 1)"

definition accept :: "u64 \<Rightarrow> replayWindow \<Rightarrow> replayWindow" where
  "accept index w =
     (if \<not> initialized w then
        w\<lparr>top := index, bitmap := \<lparr>hi = 0, lo = 1\<rparr>, initialized := True\<rparr>
      else if index > top w then
        let shift = index - top w in
        (if shift \<ge> replayWindowSize
         then w\<lparr>bitmap := \<lparr>hi = 0, lo = 1\<rparr>, top := index\<rparr>
         else w\<lparr>bitmap := u128_setBit (u128_shl (bitmap w) shift) 0, top := index\<rparr>)
      else let delta = top w - index in
        if delta < replayWindowSize then w\<lparr>bitmap := u128_setBit (bitmap w) delta\<rparr> else w)"

section \<open>The bitmap as 128 bits\<close>

definition tb :: "uint128 \<Rightarrow> nat \<Rightarrow> bool" where
  "tb u d = (if d < 64 then bit (lo u) d else bit (hi u) (d - 64))"

lemma and_1_eq_1_iff: "(w :: 'a::len word) AND 1 = 1 \<longleftrightarrow> bit w 0"
  by (simp add: and_one_eq bit_0 odd_iff_mod_2_eq_one)

lemma u128_bit_tb: "n < 128 \<Longrightarrow> u128_bit u n = 1 \<longleftrightarrow> tb u (unat n)"
  by (auto simp: u128_bit_def tb_def and_1_eq_1_iff bit_simps word_less_nat_alt unat_sub word_le_nat_alt)

lemma tb_setBit:
  "n < 128 \<Longrightarrow> d < 128 \<Longrightarrow> tb (u128_setBit u n) d \<longleftrightarrow> tb u d \<or> d = unat n"
  by (auto simp: u128_setBit_def tb_def bit_simps word_less_nat_alt unat_sub word_le_nat_alt)

lemma tb_shl:
  assumes "n < 128" "d < 128"
  shows "tb (u128_shl u n) d \<longleftrightarrow> unat n \<le> d \<and> tb u (d - unat n)"
proof -
  have n: "unat n < 128" using assms(1) by (simp add: word_less_nat_alt)
  show ?thesis
  proof (cases "64 \<le> unat n")
    case True
    with n assms(2) show ?thesis
      by (auto simp: u128_shl_def tb_def bit_simps word_less_nat_alt unat_sub word_le_nat_alt)
  next
    case False
    then have "n < 64" by (simp add: word_less_nat_alt)
    then have sub: "unat (64 - n) = 64 - unat n" by (simp add: unat_sub)
    have "64 - unat n + (d - 64) = d - unat n" if "64 \<le> d" using that False by simp
    moreover have "\<not> bit (lo u) (d - unat n)" if "64 \<le> d - unat n"
      using that bit_imp_le_length [of "lo u" "d - unat n"] by auto
    moreover have "d - 64 - unat n = d - unat n - 64" by simp
    ultimately show ?thesis using False n assms(2)
      by (auto simp: u128_shl_def tb_def bit_simps word_less_nat_alt word_le_nat_alt sub
          simp del: diff_diff_left)
  qed
qed

lemma tb_one: "tb \<lparr>hi = 0, lo = 1\<rparr> d \<longleftrightarrow> d = 0"
  by (simp add: tb_def bit_1_iff)

section \<open>Refinement of a set of accepted indices\<close>

definition window_rep :: "replayWindow \<Rightarrow> nat set \<Rightarrow> bool" where
  "window_rep w S \<longleftrightarrow>
     (if initialized w
      then finite S \<and> S \<noteq> {} \<and> Max S = unat (top w)
        \<and> (\<forall>d < 128. tb (bitmap w) d \<longleftrightarrow> d \<le> unat (top w) \<and> unat (top w) - d \<in> S)
      else S = {})"

lemma window_rep_empty: "window_rep emptyWindow {}"
  by (simp add: window_rep_def emptyWindow_def)

lemma isReplay_rep:
  assumes "window_rep w S"
  shows "isReplay w i \<longleftrightarrow> S \<noteq> {} \<and> (unat i + 128 \<le> Max S \<or> unat i \<in> S)"
proof (cases "initialized w \<and> \<not> top w < i")
  case True
  then have le: "unat i \<le> unat (top w)" and sub: "unat (top w - i) = unat (top w) - unat i"
    by (simp_all add: word_less_nat_alt unat_sub word_le_nat_alt)
  show ?thesis
  proof (cases "unat (top w) - unat i < 128")
    case small: True
    then have "u128_bit (bitmap w) (top w - i) = 1 \<longleftrightarrow> tb (bitmap w) (unat (top w) - unat i)"
      by (simp add: u128_bit_tb word_less_nat_alt sub)
    with small True le assms show ?thesis
      by (auto simp: isReplay_def window_rep_def Let_def replayWindowSize_def word_le_nat_alt sub)
  next
    case False
    with True le assms show ?thesis
      by (auto simp: isReplay_def window_rep_def Let_def replayWindowSize_def word_le_nat_alt sub)
  qed
next
  case False
  then show ?thesis
  proof (cases "initialized w")
    case init: True
    with False have "unat (top w) < unat i" by (simp add: word_less_nat_alt)
    with init assms False show ?thesis
      by (auto simp: isReplay_def window_rep_def dest: Max_ge)
  next
    case False
    with assms show ?thesis by (simp add: isReplay_def window_rep_def)
  qed
qed

lemma accept_rep_ahead:
  assumes rep: "window_rep w S" and init: "initialized w" and ahead: "top w < i"
  shows "window_rep (accept i w) (insert (unat i) S)"
proof -
  from rep init have S: "finite S" "S \<noteq> {}" "Max S = unat (top w)"
    and bits: "\<And>d. d < 128 \<Longrightarrow> tb (bitmap w) d \<longleftrightarrow> d \<le> unat (top w) \<and> unat (top w) - d \<in> S"
    by (auto simp: window_rep_def)
  have less: "unat (top w) < unat i" and sub: "unat (i - top w) = unat i - unat (top w)"
    using ahead by (simp_all add: word_less_nat_alt unat_sub word_le_nat_alt)
  have max: "Max (insert (unat i) S) = unat i" using S less by simp
  have notin: "x \<notin> S" if "unat (top w) < x" for x using S(1,3) that Max_ge [of S x] by auto
  show ?thesis
  proof (cases "i - top w < 128")
    case small: True
    have "tb (u128_setBit (u128_shl (bitmap w) (i - top w)) 0) d \<longleftrightarrow>
        d \<le> unat i \<and> unat i - d \<in> insert (unat i) S" if d: "d < 128" for d
    proof (cases "unat i - unat (top w) \<le> d")
      case True
      moreover from True have "unat (top w) - (d - (unat i - unat (top w))) = unat i - d"
        using less by simp
      moreover have "d - (unat i - unat (top w)) \<le> unat (top w) \<longleftrightarrow> d \<le> unat i" using less by auto
      ultimately show ?thesis using small d bits [of "d - (unat i - unat (top w))"] less
        by (auto simp: tb_setBit tb_shl sub)
    next
      case False
      then show ?thesis using small d notin [of "unat i - d"] by (auto simp: tb_setBit tb_shl sub)
    qed
    moreover have "\<not> 128 \<le> i - top w" using small by simp
    ultimately show ?thesis using init S max ahead
      by (simp add: accept_def window_rep_def Let_def replayWindowSize_def)
  next
    case False
    then have "128 \<le> unat i - unat (top w)" by (simp add: word_less_nat_alt sub)
    then have "tb \<lparr>hi = 0, lo = 1\<rparr> d \<longleftrightarrow> d \<le> unat i \<and> unat i - d \<in> insert (unat i) S"
      if "d < 128" for d
      using that notin [of "unat i - d"] by (auto simp: tb_one)
    with False init S max ahead show ?thesis
      by (simp add: accept_def window_rep_def Let_def replayWindowSize_def not_less)
  qed
qed

lemma accept_rep_behind:
  assumes rep: "window_rep w S" and init: "initialized w" and behind: "\<not> top w < i"
  shows "window_rep (accept i w) (insert (unat i) S)"
proof -
  from rep init have S: "finite S" "S \<noteq> {}" "Max S = unat (top w)"
    and bits: "\<And>d. d < 128 \<Longrightarrow> tb (bitmap w) d \<longleftrightarrow> d \<le> unat (top w) \<and> unat (top w) - d \<in> S"
    by (auto simp: window_rep_def)
  have le: "unat i \<le> unat (top w)" and sub: "unat (top w - i) = unat (top w) - unat i"
    using behind by (simp_all add: word_less_nat_alt unat_sub word_le_nat_alt)
  have max: "Max (insert (unat i) S) = unat (top w)" using S le by (simp add: max_def)
  have pos: "unat (top w) - d = unat i \<longleftrightarrow> d = unat (top w) - unat i" if "d \<le> unat (top w)" for d
    using that le by auto
  show ?thesis
  proof (cases "top w - i < 128")
    case True
    then have "tb (u128_setBit (bitmap w) (top w - i)) d \<longleftrightarrow>
        d \<le> unat (top w) \<and> unat (top w) - d \<in> insert (unat i) S" if "d < 128" for d
      using that bits [of d] pos [of d] by (auto simp: tb_setBit sub)
    with True init S max behind show ?thesis
      by (simp add: accept_def window_rep_def Let_def replayWindowSize_def)
  next
    case False
    then have "128 \<le> unat (top w) - unat i" by (simp add: word_less_nat_alt sub)
    with False init S max behind bits pos show ?thesis
      by (auto simp: accept_def window_rep_def Let_def replayWindowSize_def)
  qed
qed

lemma accept_rep: "window_rep w S \<Longrightarrow> window_rep (accept i w) (insert (unat i) S)"
proof (cases "initialized w")
  case False
  assume "window_rep w S"
  with False show ?thesis by (auto simp: accept_def window_rep_def tb_one)
qed (metis accept_rep_ahead accept_rep_behind)

lemma fold_accept_rep: "window_rep w S \<Longrightarrow> window_rep (fold accept is w) (unat ` set is \<union> S)"
proof (induction "is" arbitrary: w S)
  case (Cons i "is")
  from accept_rep [OF Cons.prems] have "window_rep (fold accept is (accept i w)) (unat ` set is \<union> insert (unat i) S)"
    by (rule Cons.IH)
  then show ?case by simp
qed simp

section \<open>The contract the receivers use\<close>

text \<open>
  What a receiver relies on: an index that was marked is blocked from then on, and marking
  never unblocks.  The clients' lemma: a run that marks only unblocked indices marks no
  index twice.
\<close>

locale replay_guard =
  fixes invar :: "'w \<Rightarrow> bool"
    and blocked :: "'w \<Rightarrow> 'i \<Rightarrow> bool"
    and mark :: "'i \<Rightarrow> 'w \<Rightarrow> 'w"
  assumes invar_mark: "invar w \<Longrightarrow> invar (mark i w)"
    and mark_blocks: "invar w \<Longrightarrow> blocked (mark i w) i"
    and mark_keeps: "invar w \<Longrightarrow> blocked w j \<Longrightarrow> blocked (mark i w) j"
begin

primrec admitted :: "'w \<Rightarrow> 'i list \<Rightarrow> bool" where
  "admitted w [] = True"
| "admitted w (i # is) = (\<not> blocked w i \<and> admitted (mark i w) is)"

lemma admitted_fresh: "invar w \<Longrightarrow> admitted w is \<Longrightarrow> i \<in> set is \<Longrightarrow> \<not> blocked w i"
  by (induction "is" arbitrary: w) (auto dest: invar_mark mark_keeps)

lemma admitted_distinct: "invar w \<Longrightarrow> admitted w is \<Longrightarrow> distinct is"
proof (induction "is" arbitrary: w)
  case (Cons i "is")
  then have "invar (mark i w)" "admitted (mark i w) is" by (simp_all add: invar_mark)
  moreover have "blocked (mark i w) i" using Cons.prems by (simp add: mark_blocks)
  ultimately show ?case using Cons.IH admitted_fresh [of "mark i w" "is" i] by auto
qed simp

lemma invar_fold: "invar w \<Longrightarrow> invar (fold mark is w)"
  by (induction "is" arbitrary: w) (simp_all add: invar_mark)

end

definition window_ok :: "replayWindow \<Rightarrow> bool" where
  "window_ok w \<longleftrightarrow> (\<exists>S. window_rep w S)"

lemma window_ok_empty [simp]: "window_ok emptyWindow"
  using window_rep_empty by (auto simp: window_ok_def)

interpretation rw: replay_guard window_ok isReplay accept
proof
  fix w :: replayWindow and i j :: u64
  assume "window_ok w"
  then obtain S where S: "window_rep w S" by (auto simp: window_ok_def)
  then have S': "window_rep (accept i w) (insert (unat i) S)" by (rule accept_rep)
  then show "window_ok (accept i w)" by (auto simp: window_ok_def)
  from S' show "isReplay (accept i w) i" by (simp add: isReplay_rep)
  assume "isReplay w j"
  moreover have "finite S" using S by (auto simp: window_rep_def split: if_splits)
  ultimately show "isReplay (accept i w) j"
    using isReplay_rep [OF S] isReplay_rep [OF S'] by (auto simp: max_def)
qed

section \<open>Property\<close>

text \<open>
  C21: the 128-bit sliding bitmap computes exactly the replay test of RFC 3711.  After any sequence of
  accepted indices, an index is refused when it was accepted before or lies 128 or more behind the
  highest accepted one, and in no other case; 64-bit wrap-around, word boundaries of the bitmap and
  jumps past the window are all covered.
\<close>

theorem replay_window_exact:
  "isReplay (fold accept is emptyWindow) i \<longleftrightarrow>
     is \<noteq> [] \<and> (i \<in> set is \<or> unat i + 128 \<le> Max (unat ` set is))"
proof -
  have "window_rep (fold accept is emptyWindow) (unat ` set is)"
    using fold_accept_rep [OF window_rep_empty] by simp
  moreover have "unat i \<in> unat ` set is \<longleftrightarrow> i \<in> set is"
    by (auto dest!: word_unat_eq_iff [THEN iffD2])
  ultimately show ?thesis by (auto simp: isReplay_rep)
qed

end
