(* ===== verification/Srtp.thy ===== *)
theory Srtp
  imports Crypto ReplayWindow
begin

text \<open>
  \<open>internal/srtp/srtp.go\<close>: the SRTP/SRTCP context with its key derivation, the
  AES-CM keystream, the rollover counter, \<open>Protect\<close>/\<open>Unprotect\<close> for RTP and
  RTCP, SDES keying and zeroization.  The pointers \<open>block\<close> and \<open>mac\<close> of the Go
  struct are the AES and HMAC keys they were built from, \<open>None\<close> for nil; a call
  through a nil pointer is the error \<open>NilPanic\<close>.  Every operation returns the
  context it leaves behind next to its result, errors included.
\<close>

section \<open>The context\<close>

record srtp_context =
  sessionSalt :: bytes
  authKey :: bytes
  block :: "bytes option"
  mac :: "bytes option"
  roc :: u32
  lastSeq :: u16
  seqInitialized :: bool
  replay :: replayWindow
  srtcpSessionSalt :: bytes
  srtcpAuthKey :: bytes
  srtcpBlock :: "bytes option"
  srtcpMac :: "bytes option"
  srtcpIndex :: u32
  srtcpReplay :: replayWindow

datatype srtp_error =
    InvalidRTP | PacketTooShort | InvalidSRTP | ReplayDetected | AuthFailed
  | DecodeInlineKey | InlineKeyLength nat | NilPanic

definition masterKeyLen :: nat where "masterKeyLen = 16"
definition masterSaltLen :: nat where "masterSaltLen = 14"
definition authTagLen :: nat where "authTagLen = 10"
definition rtcpHeaderMin :: nat where "rtcpHeaderMin = 8"
definition srtcpIndexLen :: nat where "srtcpIndexLen = 4"

lemmas srtp_consts = masterKeyLen_def masterSaltLen_def authTagLen_def rtcpHeaderMin_def srtcpIndexLen_def

section \<open>Keystream and key derivation\<close>

text \<open>The counter loop both callers share: block \<open>k\<close> encrypts the 14-byte prefix of the IV
  followed by the 16-bit counter, and the last block is cut to the length asked for.\<close>

function aes_ctr :: "bytes \<Rightarrow> bytes \<Rightarrow> u16 \<Rightarrow> nat \<Rightarrow> bytes" where
  "aes_ctr key iv counter n =
     (if n = 0 then []
      else take n (aes128_encrypt key (iv @ put_u16 counter)) @ aes_ctr key iv (counter + 1) (n - 16))"
  by pat_completeness auto
termination
  by (relation "measure (\<lambda>(key, iv, counter, n). n)") auto

declare aes_ctr.simps [simp del]

definition xor_bytes :: "bytes \<Rightarrow> bytes \<Rightarrow> bytes" where
  "xor_bytes xs ks = map2 (XOR) xs ks"

definition aesCMKeystream :: "bytes \<Rightarrow> bytes \<Rightarrow> u32 \<Rightarrow> u64 \<Rightarrow> nat \<Rightarrow> bytes" where
  "aesCMKeystream key salt ssrc index n =
     (let iv = [0, 0, 0, 0] @ put_u32 ssrc @ put_u16 (ucast (drop_bit 32 index)) @ put_u32 (ucast index)
      in aes_ctr key (xor_bytes iv salt) 0 n)"

definition deriveSessionKey :: "bytes \<Rightarrow> bytes \<Rightarrow> byte \<Rightarrow> nat \<Rightarrow> bytes" where
  "deriveSessionKey masterKey masterSalt label outLen =
     (let x = (replicate 14 0)[6 := label];
          iv = xor_bytes masterSalt x
      in aes_ctr masterKey iv 0 outLen @ replicate (20 - outLen) 0)"

definition New :: "bytes \<Rightarrow> bytes \<Rightarrow> srtp_context" where
  "New masterKey masterSalt =
     (let cipherKey = take 16 (deriveSessionKey masterKey masterSalt 0 16);
          auth = deriveSessionKey masterKey masterSalt 1 20;
          salt = take 14 (deriveSessionKey masterKey masterSalt 2 14);
          srtcpCipherKey = take 16 (deriveSessionKey masterKey masterSalt 3 16);
          srtcpAuth = deriveSessionKey masterKey masterSalt 4 20;
          srtcpSalt = take 14 (deriveSessionKey masterKey masterSalt 5 14)
      in \<lparr>sessionSalt = salt, authKey = auth, block = Some cipherKey, mac = Some auth,
          roc = 0, lastSeq = 0, seqInitialized = False, replay = emptyWindow,
          srtcpSessionSalt = srtcpSalt, srtcpAuthKey = srtcpAuth,
          srtcpBlock = Some srtcpCipherKey, srtcpMac = Some srtcpAuth,
          srtcpIndex = 0, srtcpReplay = emptyWindow\<rparr>)"

definition FromSDESInline :: "string \<Rightarrow> srtp_error + srtp_context" where
  "FromSDESInline inline =
     (case b64_decode inline of
        None \<Rightarrow> Inl DecodeInlineKey
      | Some data \<Rightarrow>
          if length data \<noteq> masterKeyLen + masterSaltLen then Inl (InlineKeyLength (length data))
          else Inr (New (take 16 data) (drop 16 data)))"

text \<open>\<open>rand\<close> is what \<open>crypto/rand\<close> delivers: \<open>None\<close> for its error.\<close>

definition GenerateKeyingMaterial :: "bytes option \<Rightarrow> string option" where
  "GenerateKeyingMaterial rand = map_option b64_encode rand"

definition Zeroize :: "srtp_context \<Rightarrow> srtp_context" where
  "Zeroize c = c\<lparr>authKey := replicate 20 0, sessionSalt := replicate 14 0,
     srtcpAuthKey := replicate 20 0, srtcpSessionSalt := replicate 14 0,
     block := None, mac := None, srtcpBlock := None, srtcpMac := None\<rparr>"

text \<open>The keystream loop touches the cipher only when there is something to encrypt.\<close>

definition generateKeystream :: "srtp_context \<Rightarrow> u32 \<Rightarrow> u64 \<Rightarrow> nat \<Rightarrow> bytes option" where
  "generateKeystream c ssrc index n = (if n = 0 then Some []
     else map_option (\<lambda>k. aesCMKeystream k (sessionSalt c) ssrc index n) (block c))"

definition generateSRTCPKeystream :: "srtp_context \<Rightarrow> u32 \<Rightarrow> u64 \<Rightarrow> nat \<Rightarrow> bytes option" where
  "generateSRTCPKeystream c ssrc index n = (if n = 0 then Some []
     else map_option (\<lambda>k. aesCMKeystream k (srtcpSessionSalt c) ssrc index n) (srtcpBlock c))"

definition computeAuthTag :: "srtp_context \<Rightarrow> bytes \<Rightarrow> u32 \<Rightarrow> bytes option" where
  "computeAuthTag c packet r =
     map_option (\<lambda>k. take authTagLen (hmac_sha1 k (packet @ put_u32 r))) (mac c)"

definition computeSRTCPAuthTag :: "srtp_context \<Rightarrow> bytes \<Rightarrow> bytes option" where
  "computeSRTCPAuthTag c packet = map_option (\<lambda>k. take authTagLen (hmac_sha1 k packet)) (srtcpMac c)"

section \<open>Header length and rollover counter\<close>

definition rtpHeaderLen :: "bytes \<Rightarrow> int" where
  "rtpHeaderLen pkt =
     (if length pkt < 12 then -1
      else if drop_bit 6 (pkt ! 0) AND 3 \<noteq> 2 then -1
      else let headerLen = 12 + unat (pkt ! 0 AND 0x0F) * 4 in
        if headerLen > length pkt then -1
        else if pkt ! 0 AND 0x10 \<noteq> 0 then
          (if headerLen + 4 > length pkt then -1
           else let extLen = unat (get_u16 (subslice (headerLen + 2) (headerLen + 4) pkt)) * 4;
                    headerLen' = headerLen + 4 + extLen
                in if headerLen' > length pkt then -1 else int headerLen')
        else int headerLen)"

definition updateROC :: "u16 \<Rightarrow> srtp_context \<Rightarrow> srtp_context" where
  "updateROC seq c =
     (if \<not> seqInitialized c then c\<lparr>lastSeq := seq, seqInitialized := True\<rparr>
      else let c' = (if seq < lastSeq c \<and> lastSeq c - seq > 0x8000 then c\<lparr>roc := roc c + 1\<rparr> else c)
           in c'\<lparr>lastSeq := seq\<rparr>)"

definition estimateROC :: "srtp_context \<Rightarrow> u16 \<Rightarrow> u32" where
  "estimateROC c seq =
     (if \<not> seqInitialized c then 0
      else if seq < lastSeq c \<and> lastSeq c - seq > 0x8000 then roc c + 1
      else if seq > lastSeq c \<and> seq - lastSeq c > 0x8000 \<and> roc c > 0 then roc c - 1
      else roc c)"

definition pkt_index :: "u32 \<Rightarrow> u16 \<Rightarrow> u64" where
  "pkt_index r seq = push_bit 16 (ucast r) OR ucast seq"

definition pkt_seq :: "bytes \<Rightarrow> u16" where
  "pkt_seq p = get_u16 (subslice 2 4 p)"

definition pkt_ssrc :: "bytes \<Rightarrow> u32" where
  "pkt_ssrc p = get_u32 (subslice 8 12 p)"

section \<open>Protect and Unprotect\<close>

definition Protect :: "srtp_context \<Rightarrow> bytes \<Rightarrow> srtp_context \<times> (srtp_error + bytes)" where
  "Protect c rtpPacket =
     (let headerLen = rtpHeaderLen rtpPacket in
      if headerLen < 0 \<or> headerLen > int (length rtpPacket) then (c, Inl InvalidRTP)
      else
        let h = nat headerLen;
            seq = pkt_seq rtpPacket;
            ssrc = pkt_ssrc rtpPacket;
            c = updateROC seq c;
            index = pkt_index (roc c) seq
        in case generateKeystream c ssrc index (length rtpPacket - h) of
             None \<Rightarrow> (c, Inl NilPanic)
           | Some ks \<Rightarrow>
               let enc = take h rtpPacket @ xor_bytes (drop h rtpPacket) ks
               in case computeAuthTag c enc (roc c) of
                    None \<Rightarrow> (c, Inl NilPanic)
                  | Some tag \<Rightarrow> (c, Inr (enc @ tag)))"

text \<open>The commit after authentication: the replay window always, the rollover state only for
  an index above the highest seen so far.\<close>

definition commitRTP :: "u32 \<Rightarrow> u16 \<Rightarrow> srtp_context \<Rightarrow> srtp_context" where
  "commitRTP r seq c =
     (let c = c\<lparr>replay := accept (pkt_index r seq) (replay c)\<rparr> in
      if \<not> seqInitialized c \<or> pkt_index r seq > pkt_index (roc c) (lastSeq c)
      then c\<lparr>roc := r, lastSeq := seq, seqInitialized := True\<rparr> else c)"

definition Unprotect :: "srtp_context \<Rightarrow> bytes \<Rightarrow> srtp_context \<times> (srtp_error + bytes)" where
  "Unprotect c srtpPacket =
     (if length srtpPacket < authTagLen then (c, Inl PacketTooShort)
      else
        let authOffset = length srtpPacket - authTagLen;
            authPortion = take authOffset srtpPacket;
            receivedTag = drop authOffset srtpPacket;
            headerLen = rtpHeaderLen authPortion
        in if headerLen < 0 \<or> headerLen > int (length authPortion) then (c, Inl InvalidSRTP)
           else
             let h = nat headerLen;
                 seq = pkt_seq authPortion;
                 ssrc = pkt_ssrc authPortion;
                 estimatedROC = estimateROC c seq;
                 index = pkt_index estimatedROC seq
             in if isReplay (replay c) index then (c, Inl ReplayDetected)
                else case computeAuthTag c authPortion estimatedROC of
                       None \<Rightarrow> (c, Inl NilPanic)
                     | Some expectedTag \<Rightarrow>
                         if receivedTag \<noteq> expectedTag then (c, Inl AuthFailed)
                         else let c = commitRTP estimatedROC seq c in
                           case generateKeystream c ssrc index (length authPortion - h) of
                             None \<Rightarrow> (c, Inl NilPanic)
                           | Some ks \<Rightarrow>
                               (c, Inr (take h authPortion @ xor_bytes (drop h authPortion) ks)))"

definition ProtectRTCP :: "srtp_context \<Rightarrow> bytes \<Rightarrow> srtp_context \<times> (srtp_error + bytes)" where
  "ProtectRTCP c rtcpPacket =
     (if length rtcpPacket < rtcpHeaderMin then (c, Inl PacketTooShort)
      else
        let ssrc = get_u32 (subslice 4 8 rtcpPacket);
            index = srtcpIndex c;
            c = c\<lparr>srtcpIndex := srtcpIndex c + 1\<rparr>
        in case generateSRTCPKeystream c ssrc (ucast index) (length rtcpPacket - rtcpHeaderMin) of
             None \<Rightarrow> (c, Inl NilPanic)
           | Some ks \<Rightarrow>
               let out = take rtcpHeaderMin rtcpPacket @ xor_bytes (drop rtcpHeaderMin rtcpPacket) ks
                         @ put_u32 (0x80000000 OR index)
               in case computeSRTCPAuthTag c out of
                    None \<Rightarrow> (c, Inl NilPanic)
                  | Some tag \<Rightarrow> (c, Inr (out @ tag)))"

definition UnprotectRTCP :: "srtp_context \<Rightarrow> bytes \<Rightarrow> srtp_context \<times> (srtp_error + bytes)" where
  "UnprotectRTCP c srtcpPacket =
     (if length srtcpPacket < rtcpHeaderMin + srtcpIndexLen + authTagLen then (c, Inl PacketTooShort)
      else
        let tagStart = length srtcpPacket - authTagLen;
            indexStart = tagStart - srtcpIndexLen;
            receivedTag = drop tagStart srtcpPacket;
            authenticatedPortion = take tagStart srtcpPacket;
            indexWord = get_u32 (subslice indexStart (indexStart + 4) srtcpPacket);
            encrypted = indexWord AND 0x80000000 \<noteq> 0;
            index = indexWord AND 0x7FFFFFFF
        in if isReplay (srtcpReplay c) (ucast index) then (c, Inl ReplayDetected)
           else case computeSRTCPAuthTag c authenticatedPortion of
                  None \<Rightarrow> (c, Inl NilPanic)
                | Some expectedTag \<Rightarrow>
                    if receivedTag \<noteq> expectedTag then (c, Inl AuthFailed)
                    else
                      let c = c\<lparr>srtcpReplay := accept (ucast index) (srtcpReplay c)\<rparr>;
                          out = take indexStart srtcpPacket
                      in if encrypted \<and> length out > rtcpHeaderMin then
                           (case generateSRTCPKeystream c (get_u32 (subslice 4 8 out)) (ucast index)
                                   (length out - rtcpHeaderMin) of
                              None \<Rightarrow> (c, Inl NilPanic)
                            | Some ks \<Rightarrow>
                                (c, Inr (take rtcpHeaderMin out @ xor_bytes (drop rtcpHeaderMin out) ks)))
                         else (c, Inr out))"

section \<open>Keystreams cancel\<close>

lemma length_aes_ctr [simp]: "length (aes_ctr k iv ctr n) = n"
proof (induction k iv ctr n rule: aes_ctr.induct)
  case (1 k iv ctr n)
  then show ?case by (subst aes_ctr.simps) auto
qed

lemma length_xor_bytes [simp]: "length (xor_bytes xs ks) = min (length xs) (length ks)"
  by (simp add: xor_bytes_def)

lemma xor_bytes_twice: "length xs \<le> length ks \<Longrightarrow> xor_bytes (xor_bytes xs ks) ks = xs"
  by (rule nth_equalityI) (simp_all add: xor_bytes_def xor.assoc)

lemma length_aesCMKeystream [simp]: "length (aesCMKeystream k s ssrc i n) = n"
  by (simp add: aesCMKeystream_def Let_def)

lemma generateKeystream_some:
  "block c = Some k \<Longrightarrow> generateKeystream c ssrc i n = Some (aesCMKeystream k (sessionSalt c) ssrc i n)"
  by (simp add: generateKeystream_def aesCMKeystream_def aes_ctr.simps)

lemma generateSRTCPKeystream_some:
  "srtcpBlock c = Some k \<Longrightarrow>
   generateSRTCPKeystream c ssrc i n = Some (aesCMKeystream k (srtcpSessionSalt c) ssrc i n)"
  by (simp add: generateSRTCPKeystream_def aesCMKeystream_def aes_ctr.simps)

section \<open>Headers survive encryption\<close>

lemma rtpHeaderLen_bounds:
  "0 \<le> rtpHeaderLen p \<Longrightarrow> 12 \<le> rtpHeaderLen p \<and> rtpHeaderLen p \<le> int (length p)"
  by (auto simp: rtpHeaderLen_def Let_def not_less simp del: of_nat_add of_nat_mult
      split: if_splits)

lemma rtpHeaderLen_nat:
  "0 \<le> rtpHeaderLen p \<Longrightarrow>
   12 \<le> nat (rtpHeaderLen p) \<and> nat (rtpHeaderLen p) \<le> length p \<and> rtpHeaderLen p = int (nat (rtpHeaderLen p))"
  using rtpHeaderLen_bounds [of p] by auto

lemma subslice_take: "j \<le> h \<Longrightarrow> subslice i j (take h xs) = subslice i j xs"
  by (simp add: subslice_def drop_take min_def)

lemma subslice_cong_take: "take h p = take h q \<Longrightarrow> j \<le> h \<Longrightarrow> subslice i j p = subslice i j q"
  by (metis subslice_take)

lemma rtpHeaderLen_cong:
  assumes "rtpHeaderLen p = int h" "length q = length p" "take h q = take h p"
  shows "rtpHeaderLen q = int h"
proof -
  have h: "12 \<le> h" using rtpHeaderLen_bounds [of p] assms(1) by simp
  then have 0: "q ! 0 = p ! 0"
    using assms(3) by (metis nth_take gr0I not_numeral_le_zero)
  have "subslice i j q = subslice i j p" if "j \<le> h" for i j
    using subslice_cong_take [OF assms(3) that] .
  with 0 assms(1,2) show ?thesis
    by (auto simp: rtpHeaderLen_def Let_def simp del: of_nat_add of_nat_mult split: if_splits)
qed

lemma pkt_fields_cong:
  "take h q = take h p \<Longrightarrow> 12 \<le> h \<Longrightarrow> pkt_seq q = pkt_seq p \<and> pkt_ssrc q = pkt_ssrc p"
  using subslice_cong_take [of h q p] by (simp add: pkt_seq_def pkt_ssrc_def)

section \<open>The rollover counter\<close>

lemma unat_pkt_index: "unat (pkt_index r seq) = unat r * 65536 + unat seq"
proof -
  have "(push_bit 16 (ucast r) :: u64) AND ucast seq = 0"
    by (rule bit_word_eqI) (auto simp: bit_simps dest: bit_imp_le_length)
  then have "pkt_index r seq = push_bit 16 (ucast r) + ucast seq"
    by (simp add: pkt_index_def disjunctive_add_eq_or)
  moreover have "unat r < 2 ^ 32" using unsigned_less [of r] by simp
  moreover have "unat seq < 2 ^ 16" using unsigned_less [of seq] by simp
  ultimately show ?thesis
    by (simp add: push_bit_eq_mult unat_word_ariths unsigned_ucast_eq take_bit_eq_mod)
qed

lemma pkt_index_less: "pkt_index r s < pkt_index r' s' \<longleftrightarrow>
    unat r * 65536 + unat s < unat r' * 65536 + unat s'"
  by (simp add: word_less_nat_alt unat_pkt_index)

lemma pkt_index_inj: "pkt_index r s = pkt_index r' s' \<longleftrightarrow> r = r' \<and> s = s'"
proof
  assume "pkt_index r s = pkt_index r' s'"
  then have e: "unat r * 65536 + unat s = unat r' * 65536 + unat s'"
    by (metis unat_pkt_index)
  moreover have "unat s < 65536" "unat s' < 65536"
    using unsigned_less [of s] unsigned_less [of s'] by simp_all
  ultimately have "unat r = unat r'" by linarith
  with e show "r = r' \<and> s = s'" by (simp add: word_unat_eq_iff)
qed simp

lemma unat_u16_of_nat: "unat (of_nat i :: u16) = i mod 65536"
  by (simp add: unat_of_nat)

text \<open>The highest index the receiver has committed to.\<close>

definition highest :: "srtp_context \<Rightarrow> nat" where
  "highest c = unat (roc c) * 65536 + unat (lastSeq c)"

lemma estimateROC_near:
  assumes init: "seqInitialized c" and i: "i < 2 ^ 48"
    and near: "i < highest c + 32768" "highest c < i + 32768"
  shows "unat (estimateROC c (of_nat i)) = i div 65536"
proof -
  define s where "s = i mod 65536"
  define q where "q = i div 65536"
  have isq: "i = q * 65536 + s" and s: "s < 65536" by (simp_all add: s_def q_def)
  have q: "q < 2 ^ 32" using i by (simp add: q_def)
  have u: "unat (of_nat i :: u16) = s" by (simp add: unat_u16_of_nat s_def)
  have l: "unat (lastSeq c) < 65536" using unsigned_less [of "lastSeq c"] by simp
  have n1: "q * 65536 + s < unat (roc c) * 65536 + unat (lastSeq c) + 32768"
    and n2: "unat (roc c) * 65536 + unat (lastSeq c) < q * 65536 + s + 32768"
    using near isq by (simp_all add: highest_def)
  have down: "(of_nat i :: u16) < lastSeq c \<longleftrightarrow> s < unat (lastSeq c)"
    and up: "lastSeq c < (of_nat i :: u16) \<longleftrightarrow> unat (lastSeq c) < s"
    by (simp_all add: word_less_nat_alt u)
  have far_down: "0x8000 < lastSeq c - of_nat i \<longleftrightarrow> 32768 < unat (lastSeq c) - s"
    if "s < unat (lastSeq c)"
    using that u by (simp add: word_less_nat_alt unat_sub word_le_nat_alt)
  have far_up: "0x8000 < of_nat i - lastSeq c \<longleftrightarrow> 32768 < s - unat (lastSeq c)"
    if "unat (lastSeq c) < s"
    using that u by (simp add: word_less_nat_alt unat_sub word_le_nat_alt)
  consider "q = unat (roc c)" | "q = unat (roc c) + 1" | "q + 1 = unat (roc c)"
    using n1 n2 s l by linarith
  then have "unat (estimateROC c (of_nat i)) = q"
  proof cases
    case 1
    then show ?thesis using init n1 n2 far_down far_up
      by (auto simp: estimateROC_def down up)
  next
    case 2
    then have "s < unat (lastSeq c)" "32768 < unat (lastSeq c) - s" using n1 n2 s l by linarith+
    moreover have "unat (roc c + 1) = q" using 2 q by (simp add: unat_word_ariths)
    ultimately show ?thesis using init by (simp add: estimateROC_def down far_down)
  next
    case 3
    then have "unat (lastSeq c) < s" "32768 < s - unat (lastSeq c)" using n1 n2 s l by linarith+
    moreover have "0 < roc c" "unat (roc c - 1) = q"
      using 3 by (simp_all add: word_less_nat_alt unat_sub word_le_nat_alt flip: 3)
    ultimately show ?thesis using init by (simp add: estimateROC_def down up far_up)
  qed
  then show ?thesis by (simp add: q_def)
qed

section \<open>Sealed packets\<close>

text \<open>Header kept, payload encrypted and tagged under rollover counter \<open>r\<close>: what \<open>Protect\<close>
  emits once the counter is settled.\<close>

definition sealed_body :: "srtp_context \<Rightarrow> u32 \<Rightarrow> bytes \<Rightarrow> bytes" where
  "sealed_body c r p = (let h = nat (rtpHeaderLen p) in take h p @ xor_bytes (drop h p)
     (aesCMKeystream (the (block c)) (sessionSalt c) (pkt_ssrc p) (pkt_index r (pkt_seq p)) (length p - h)))"

definition sealed :: "srtp_context \<Rightarrow> u32 \<Rightarrow> bytes \<Rightarrow> bytes" where
  "sealed c r p = sealed_body c r p
     @ take authTagLen (hmac_sha1 (the (mac c)) (sealed_body c r p @ put_u32 r))"

definition keyed :: "srtp_context \<Rightarrow> bool" where
  "keyed c \<longleftrightarrow> block c \<noteq> None \<and> mac c \<noteq> None \<and> srtcpBlock c \<noteq> None \<and> srtcpMac c \<noteq> None"

definition same_keys :: "srtp_context \<Rightarrow> srtp_context \<Rightarrow> bool" where
  "same_keys c d \<longleftrightarrow> sessionSalt c = sessionSalt d \<and> block c = block d \<and> mac c = mac d
     \<and> srtcpSessionSalt c = srtcpSessionSalt d \<and> srtcpBlock c = srtcpBlock d \<and> srtcpMac c = srtcpMac d"

lemma same_keys_refl [simp]: "same_keys c c"
  by (simp add: same_keys_def)

lemma updateROC_frame [simp]:
  "sessionSalt (updateROC s c) = sessionSalt c" "block (updateROC s c) = block c"
  "mac (updateROC s c) = mac c" "replay (updateROC s c) = replay c"
  "srtcpSessionSalt (updateROC s c) = srtcpSessionSalt c" "srtcpBlock (updateROC s c) = srtcpBlock c"
  "srtcpMac (updateROC s c) = srtcpMac c" "srtcpIndex (updateROC s c) = srtcpIndex c"
  "srtcpReplay (updateROC s c) = srtcpReplay c"
  "lastSeq (updateROC s c) = s" "seqInitialized (updateROC s c)"
  by (simp_all add: updateROC_def Let_def)

lemma commitRTP_frame [simp]:
  "sessionSalt (commitRTP r s c) = sessionSalt c" "block (commitRTP r s c) = block c"
  "mac (commitRTP r s c) = mac c" "replay (commitRTP r s c) = accept (pkt_index r s) (replay c)"
  "srtcpSessionSalt (commitRTP r s c) = srtcpSessionSalt c" "srtcpBlock (commitRTP r s c) = srtcpBlock c"
  "srtcpMac (commitRTP r s c) = srtcpMac c" "seqInitialized (commitRTP r s c)"
  by (simp_all add: commitRTP_def Let_def)

lemma keyed_frame [simp]:
  "keyed (updateROC s c) = keyed c" "keyed (commitRTP r s c) = keyed c"
  "same_keys (updateROC s c) d = same_keys c d" "same_keys c (commitRTP r s d) = same_keys c d"
  by (simp_all add: keyed_def same_keys_def)

lemma sealed_body_facts:
  assumes "0 \<le> rtpHeaderLen p"
  shows "length (sealed_body c r p) = length p"
    and "take (nat (rtpHeaderLen p)) (sealed_body c r p) = take (nat (rtpHeaderLen p)) p"
  using rtpHeaderLen_nat [OF assms] by (auto simp: sealed_body_def Let_def)

lemma sealed_body_header:
  assumes "0 \<le> rtpHeaderLen p"
  shows "rtpHeaderLen (sealed_body c r p) = rtpHeaderLen p"
    and "pkt_seq (sealed_body c r p) = pkt_seq p" and "pkt_ssrc (sealed_body c r p) = pkt_ssrc p"
proof -
  define h where "h = nat (rtpHeaderLen p)"
  have h: "rtpHeaderLen p = int h" "12 \<le> h"
    using rtpHeaderLen_nat [OF assms] by (simp_all add: h_def)
  note body = sealed_body_facts [OF assms, of c r, folded h_def]
  show "rtpHeaderLen (sealed_body c r p) = rtpHeaderLen p"
    using rtpHeaderLen_cong [OF h(1) body] h(1) by simp
  show "pkt_seq (sealed_body c r p) = pkt_seq p" "pkt_ssrc (sealed_body c r p) = pkt_ssrc p"
    using pkt_fields_cong [OF body(2) h(2)] by simp_all
qed

lemma Protect_sealed:
  assumes "0 \<le> rtpHeaderLen p" and "keyed c"
  shows "Protect c p = (updateROC (pkt_seq p) c, Inr (sealed c (roc (updateROC (pkt_seq p) c)) p))"
proof -
  obtain k a where "block c = Some k" "mac c = Some a" using assms(2) by (auto simp: keyed_def)
  then show ?thesis using rtpHeaderLen_bounds [OF assms(1)] assms(1)
    by (simp add: Protect_def Let_def generateKeystream_some computeAuthTag_def sealed_def sealed_body_def)
qed

lemma Unprotect_sealed:
  assumes valid: "0 \<le> rtpHeaderLen p" and keys: "keyed rx" "same_keys tx rx"
    and roc: "estimateROC rx (pkt_seq p) = r"
    and fresh: "\<not> isReplay (replay rx) (pkt_index r (pkt_seq p))"
  shows "Unprotect rx (sealed tx r p) = (commitRTP r (pkt_seq p) rx, Inr p)"
proof -
  obtain k a where ka: "block rx = Some k" "mac rx = Some a" using keys(1) by (auto simp: keyed_def)
  then have ka': "block tx = Some k" "mac tx = Some a" "sessionSalt tx = sessionSalt rx"
    using keys(2) by (simp_all add: same_keys_def)
  define h where "h = nat (rtpHeaderLen p)"
  have h: "rtpHeaderLen p = int h" "h \<le> length p"
    using rtpHeaderLen_nat [OF valid] by (simp_all add: h_def)
  let ?body = "sealed_body tx r p"
  let ?ks = "aesCMKeystream k (sessionSalt rx) (pkt_ssrc p) (pkt_index r (pkt_seq p)) (length p - h)"
  have body: "?body = take h p @ xor_bytes (drop h p) ?ks"
    by (simp add: sealed_body_def Let_def ka' h_def)
  have "take h ?body @ xor_bytes (drop h ?body) ?ks = p"
    using h(2) by (simp add: body xor_bytes_twice)
  moreover have "length (sealed tx r p) = length p + 10"
    by (simp add: sealed_def sealed_body_facts [OF valid] srtp_consts)
  moreover have "take (length p) (sealed tx r p) = ?body"
    "drop (length p) (sealed tx r p) = take authTagLen (hmac_sha1 a (?body @ put_u32 r))"
    by (simp_all add: sealed_def sealed_body_facts [OF valid] ka')
  ultimately show ?thesis
    using fresh roc h ka
    by (simp add: Unprotect_def Let_def srtp_consts sealed_body_header [OF valid]
        sealed_body_facts [OF valid] computeAuthTag_def generateKeystream_some)
qed

end
