(* ===== verification/SrtpProps.thy ===== *)
theory SrtpProps
  imports Srtp
begin

text \<open>
  The guarantees of the SRTP layer: what a sender seals a receiver with the same keys opens,
  over wrap-arounds, losses and reordering; no packet index is accepted twice; a packet that
  is refused changes nothing; SRTCP likewise; SDES keying material reaches the context.
\<close>

section \<open>Advancing the sequence number\<close>

lemma unat_u16_diff:
  "unat (s - l :: u16) = (if unat l \<le> unat s then unat s - unat l else unat s + 65536 - unat l)"
  using unat_sub_if' [of s l] by (simp add: word_le_nat_alt)

lemma updateROC_advance:
  assumes "seqInitialized c" and "0 < d" "d < 32768" and d: "d = unat (s - lastSeq c)"
    and "highest c + d < 2 ^ 48"
  shows "highest (updateROC s c) = highest c + d"
proof -
  have l: "unat (lastSeq c) < 65536" and s: "unat s < 65536"
    using unsigned_less [of "lastSeq c"] unsigned_less [of s] by simp_all
  show ?thesis
  proof (cases "unat (lastSeq c) \<le> unat s")
    case True
    then have "d = unat s - unat (lastSeq c)" by (simp add: d unat_u16_diff)
    with True assms(1) show ?thesis by (simp add: highest_def updateROC_def word_less_nat_alt)
  next
    case False
    then have e: "d + unat (lastSeq c) = unat s + 65536" using l by (simp add: d unat_u16_diff)
    then have far: "32768 < unat (lastSeq c) - unat s" using assms(3) by linarith
    have "unat (roc c) + 1 < 2 ^ 32" using assms(5) e by (simp add: highest_def)
    then have "unat (roc c + 1) = unat (roc c) + 1" by (simp add: unat_word_ariths)
    then show ?thesis using False far assms(1) e
      by (simp add: highest_def updateROC_def word_less_nat_alt unat_sub word_le_nat_alt)
  qed
qed

lemma u16_of_highest: "of_nat (highest c) = lastSeq c"
proof -
  have "unat (lastSeq c) < 65536" using unsigned_less [of "lastSeq c"] by simp
  then have "unat (of_nat (highest c) :: u16) = unat (lastSeq c)"
    by (simp only: unat_u16_of_nat highest_def) simp
  then show ?thesis by (simp only: word_unat_eq_iff)
qed

lemma estimateROC_of_sender:
  assumes "seqInitialized tx" "seqInitialized rx"
    and "highest tx < highest rx + 32768" "highest rx < highest tx + 32768"
  shows "estimateROC rx (lastSeq tx) = roc tx"
proof -
  have r: "unat (roc tx) < 2 ^ 32" and l: "unat (lastSeq tx) < 65536"
    using unsigned_less [of "roc tx"] unsigned_less [of "lastSeq tx"] by simp_all
  then have "highest tx < 2 ^ 48" by (simp add: highest_def)
  from estimateROC_near [OF assms(2) this assms(3,4)] l show ?thesis
    by (simp add: u16_of_highest word_unat_eq_iff) (simp add: highest_def)
qed

section \<open>Loss and reordering\<close>

text \<open>
  A receiver with the sender's keys recovers a protected packet exactly, whatever was lost
  or reordered before it, as long as the packet's 48-bit index lies within half the sequence
  space of the highest index the receiver has seen and the replay window does not hold it.
\<close>

theorem unprotect_recovers:
  assumes valid: "0 \<le> rtpHeaderLen p" and keys: "keyed rx" "same_keys tx rx"
    and init: "seqInitialized rx"
    and tx': "tx' = updateROC (pkt_seq p) tx"
    and near: "highest tx' < highest rx + 32768" "highest rx < highest tx' + 32768"
    and fresh: "\<not> isReplay (replay rx) (pkt_index (roc tx') (pkt_seq p))"
  shows "\<exists>out. Protect tx p = (tx', Inr out)
     \<and> Unprotect rx out = (commitRTP (roc tx') (pkt_seq p) rx, Inr p)"
proof -
  have "keyed tx" using keys by (simp add: keyed_def same_keys_def)
  then have "Protect tx p = (tx', Inr (sealed tx (roc tx') p))"
    using Protect_sealed [OF valid] by (simp add: tx')
  moreover have "estimateROC rx (pkt_seq p) = roc tx'"
    using estimateROC_of_sender [of tx' rx] init near by (simp add: tx')
  ultimately show ?thesis using Unprotect_sealed [OF valid keys _ fresh] by simp
qed

section \<open>Streams\<close>

text \<open>A sender and a receiver connected by a lossless channel, packet by packet.\<close>

fun srtp_stream :: "srtp_context \<Rightarrow> srtp_context \<Rightarrow> bytes list \<Rightarrow> (srtp_error + bytes) list" where
  "srtp_stream tx rx [] = []"
| "srtp_stream tx rx (p # ps) =
     (case Protect tx p of
        (tx', Inl e) \<Rightarrow> Inl e # srtp_stream tx' rx ps
      | (tx', Inr out) \<Rightarrow> (case Unprotect rx out of (rx', res) \<Rightarrow> res # srtp_stream tx' rx' ps))"

text \<open>Each packet advances the sequence number by less than half its range, modulo \<open>2^16\<close>.\<close>

fun advancing :: "u16 \<Rightarrow> bytes list \<Rightarrow> bool" where
  "advancing s [] = True"
| "advancing s (p # ps) \<longleftrightarrow> 0 < unat (pkt_seq p - s) \<and> unat (pkt_seq p - s) < 32768
     \<and> advancing (pkt_seq p) ps"

definition linked :: "srtp_context \<Rightarrow> srtp_context \<Rightarrow> bool" where
  "linked tx rx \<longleftrightarrow> keyed rx \<and> same_keys tx rx \<and> seqInitialized tx \<and> seqInitialized rx
     \<and> roc tx = roc rx \<and> lastSeq tx = lastSeq rx
     \<and> (\<exists>S. window_rep (replay rx) S \<and> S \<noteq> {} \<and> Max S = highest rx)"

lemma linked_step:
  assumes link: "linked tx rx" and valid: "0 \<le> rtpHeaderLen p"
    and d: "d = unat (pkt_seq p - lastSeq tx)" "0 < d" "d < 32768" and bound: "highest tx + d < 2 ^ 48"
  shows "\<exists>tx' rx' out. Protect tx p = (tx', Inr out) \<and> Unprotect rx out = (rx', Inr p)
     \<and> linked tx' rx' \<and> highest tx' = highest tx + d \<and> lastSeq tx' = pkt_seq p"
proof -
  define tx' where "tx' = updateROC (pkt_seq p) tx"
  define rx' where "rx' = commitRTP (roc tx') (pkt_seq p) rx"
  from link obtain S where S: "window_rep (replay rx) S" "S \<noteq> {}" "Max S = highest rx"
    and keys: "keyed rx" "same_keys tx rx" "keyed tx"
    and sync: "seqInitialized tx" "seqInitialized rx" "highest tx = highest rx"
      "roc tx = roc rx" "lastSeq tx = lastSeq rx"
    by (auto simp: linked_def highest_def keyed_def same_keys_def)
  have hi: "highest tx' = highest tx + d"
    unfolding tx'_def using updateROC_advance [OF sync(1) d(2,3,1) bound] .
  have last: "lastSeq tx' = pkt_seq p" by (simp add: tx'_def)
  have idx: "unat (pkt_index (roc tx') (pkt_seq p)) = highest tx'"
    by (simp add: unat_pkt_index highest_def last)
  have "finite S" using S(1,2) by (auto simp: window_rep_def split: if_splits)
  then have "highest tx' \<notin> S" using S hi sync d(2) Max_ge [of S "highest tx'"] by auto
  then have fresh: "\<not> isReplay (replay rx) (pkt_index (roc tx') (pkt_seq p))"
    using isReplay_rep [OF S(1)] S(3) idx hi sync(3) by simp
  have roc: "estimateROC rx (pkt_seq p) = roc tx'"
    using estimateROC_of_sender [of tx' rx] sync hi d by (simp add: tx'_def)
  have P: "Protect tx p = (tx', Inr (sealed tx (roc tx') p))"
    using Protect_sealed [OF valid keys(3)] by (simp add: tx'_def)
  have U: "Unprotect rx (sealed tx (roc tx') p) = (rx', Inr p)"
    unfolding rx'_def by (rule Unprotect_sealed [OF valid keys(1,2) roc fresh])
  have ahead: "pkt_index (roc rx) (lastSeq rx) < pkt_index (roc tx') (pkt_seq p)"
    using hi sync d(2) by (simp add: word_less_nat_alt idx unat_pkt_index) (simp add: highest_def last)
  then have rx': "roc rx' = roc tx'" "lastSeq rx' = pkt_seq p" "seqInitialized rx'"
    by (simp_all add: rx'_def commitRTP_def Let_def)
  then have hrx: "highest rx' = highest tx'" by (simp add: highest_def last)
  have "window_rep (replay rx') (insert (highest tx') S)"
    using accept_rep [OF S(1), of "pkt_index (roc tx') (pkt_seq p)"] by (simp add: rx'_def idx)
  moreover have "Max (insert (highest tx') S) = highest rx'"
    using S \<open>finite S\<close> hi sync(3) by (simp add: hrx)
  ultimately have "linked tx' rx'"
    using keys rx' last by (auto simp: linked_def tx'_def rx'_def)
  with P U hi last show ?thesis by blast
qed

lemma linked_stream:
  "linked tx rx \<Longrightarrow> advancing (lastSeq tx) ps \<Longrightarrow> \<forall>p \<in> set ps. 0 \<le> rtpHeaderLen p \<Longrightarrow>
   highest tx + 32768 * length ps < 2 ^ 48 \<Longrightarrow> srtp_stream tx rx ps = map Inr ps"
proof (induction ps arbitrary: tx rx)
  case (Cons p ps)
  define d where "d = unat (pkt_seq p - lastSeq tx)"
  have "0 < d" "d < 32768" "highest tx + d < 2 ^ 48" "0 \<le> rtpHeaderLen p"
    using Cons.prems by (simp_all add: d_def)
  with linked_step [OF Cons.prems(1) _ d_def] obtain tx' rx' out where
    step: "Protect tx p = (tx', Inr out)" "Unprotect rx out = (rx', Inr p)" "linked tx' rx'"
      "highest tx' = highest tx + d" "lastSeq tx' = pkt_seq p" by blast
  have "srtp_stream tx' rx' ps = map Inr ps"
    using Cons.prems step \<open>d < 32768\<close> by (intro Cons.IH) auto
  then show ?case by (simp add: step)
qed simp

lemma New_fields [simp]:
  "keyed (New k s)" "roc (New k s) = 0" "seqInitialized (New k s) = False"
  "replay (New k s) = emptyWindow" "srtcpReplay (New k s) = emptyWindow" "srtcpIndex (New k s) = 0"
  by (simp_all add: New_def Let_def keyed_def)

lemma linked_first:
  assumes "0 \<le> rtpHeaderLen p"
  shows "\<exists>tx rx out. Protect (New k s) p = (tx, Inr out) \<and> Unprotect (New k s) out = (rx, Inr p)
     \<and> linked tx rx \<and> highest tx < 65536 \<and> lastSeq tx = pkt_seq p"
proof -
  define tx where "tx = updateROC (pkt_seq p) (New k s)"
  define rx where "rx = commitRTP 0 (pkt_seq p) (New k s)"
  have tx: "roc tx = 0" "lastSeq tx = pkt_seq p" by (simp_all add: tx_def updateROC_def)
  have rx: "roc rx = 0" "lastSeq rx = pkt_seq p" by (simp_all add: rx_def commitRTP_def)
  have P: "Protect (New k s) p = (tx, Inr (sealed (New k s) 0 p))"
    using Protect_sealed [OF assms, of "New k s"] tx(1) by (simp add: tx_def)
  have U: "Unprotect (New k s) (sealed (New k s) 0 p) = (rx, Inr p)"
    unfolding rx_def
    by (rule Unprotect_sealed [OF assms]) (simp_all add: estimateROC_def isReplay_def emptyWindow_def)
  have "window_rep (replay rx) {highest rx}"
    using accept_rep [OF window_rep_empty, of "pkt_index 0 (pkt_seq p)"]
    by (simp add: rx_def unat_pkt_index) (simp add: highest_def rx [unfolded rx_def])
  then have "linked tx rx"
    using rx tx by (auto simp: linked_def tx_def rx_def intro!: exI [of _ "{highest rx}"])
  moreover have "highest tx < 65536"
    using unsigned_less [of "pkt_seq p"] by (simp add: highest_def tx)
  ultimately show ?thesis using P U tx by blast
qed

text \<open>
  C1: A stream of RTP packets protected by one fresh context and opened by another context
  built from the same master key comes out unchanged, packet by packet, however often the
  16-bit sequence number wraps around (for up to \<open>2^32\<close> packets, the life of a key).
\<close>

theorem srtp_stream_roundtrip:
  assumes "\<forall>q \<in> set (p # ps). 0 \<le> rtpHeaderLen q" and "advancing (pkt_seq p) ps"
    and "length ps < 2 ^ 32"
  shows "srtp_stream (New key salt) (New key salt) (p # ps) = map Inr (p # ps)"
proof -
  obtain tx rx out where first: "Protect (New key salt) p = (tx, Inr out)"
    "Unprotect (New key salt) out = (rx, Inr p)" "linked tx rx" "highest tx < 65536"
    "lastSeq tx = pkt_seq p"
    using linked_first [of p key salt] assms(1) by auto
  have "srtp_stream tx rx ps = map Inr ps"
    using first assms by (intro linked_stream) simp_all
  then show ?thesis by (simp add: first)
qed

definition example_rtp :: "u16 \<Rightarrow> bytes" where
  "example_rtp s = [0x80, 0] @ put_u16 s @ [0, 0, 0, 1, 0, 0, 0, 7, 0xAA, 0xBB]"

lemma example_rtp_facts: "rtpHeaderLen (example_rtp s) = 12" "pkt_seq (example_rtp s) = s"
  by (simp_all add: example_rtp_def rtpHeaderLen_def pkt_seq_def put_u16_def subslice_def)
    (use get_put_u16 [of s "[]"] in \<open>simp add: put_u16_def\<close>)

theorem srtp_stream_roundtrip_witness:
  "srtp_stream (New (replicate 16 1) (replicate 14 2)) (New (replicate 16 1) (replicate 14 2))
     [example_rtp 0xFFFF, example_rtp 0] = [Inr (example_rtp 0xFFFF), Inr (example_rtp 0)]"
  using srtp_stream_roundtrip [of "example_rtp 0xFFFF" "[example_rtp 0]" "replicate 16 1" "replicate 14 2"]
  by (simp add: example_rtp_facts)

theorem unprotect_recovers_witness:
  "\<exists>out. let rx = (New [] [])\<lparr>lastSeq := 5, seqInitialized := True\<rparr>;
             tx = (New [] [])\<lparr>lastSeq := 8, seqInitialized := True\<rparr>
     in Protect tx (example_rtp 9) = (updateROC 9 tx, Inr out)
        \<and> snd (Unprotect rx out) = Inr (example_rtp 9)"
proof -
  define rx where "rx = (New [] [])\<lparr>lastSeq := 5, seqInitialized := True\<rparr>"
  define tx where "tx = (New [] [])\<lparr>lastSeq := 8, seqInitialized := True\<rparr>"
  define tx' where "tx' = updateROC (pkt_seq (example_rtp 9)) tx"
  have "keyed rx" "same_keys tx rx" "seqInitialized rx" "roc rx = 0" "lastSeq rx = 5"
    "\<not> isReplay (replay rx) i" for i
    by (simp_all add: rx_def tx_def keyed_def same_keys_def New_def Let_def isReplay_def emptyWindow_def)
  moreover have "roc tx' = 0" "lastSeq tx' = 9"
    by (simp_all add: tx'_def tx_def updateROC_def example_rtp_facts New_def Let_def)
  ultimately obtain out where "Protect tx (example_rtp 9) = (tx', Inr out)"
    "snd (Unprotect rx out) = Inr (example_rtp 9)"
    using unprotect_recovers [of "example_rtp 9" rx tx tx']
    by (auto simp: example_rtp_facts tx'_def highest_def)
  then show ?thesis by (auto simp: Let_def rx_def tx_def tx'_def example_rtp_facts)
qed

section \<open>Replay\<close>

definition unprotect_index :: "srtp_context \<Rightarrow> bytes \<Rightarrow> u64" where
  "unprotect_index c p = (let seq = pkt_seq (take (length p - authTagLen) p)
     in pkt_index (estimateROC c seq) seq)"

lemma Unprotect_success:
  assumes "Unprotect c p = (c', Inr q)"
  shows "\<not> isReplay (replay c) (unprotect_index c p)"
    and "\<exists>seq. seq = pkt_seq (take (length p - authTagLen) p) \<and> c' = commitRTP (estimateROC c seq) seq c"
  using assms
  by (auto simp: Unprotect_def unprotect_index_def Let_def split: if_splits option.splits)

lemma Unprotect_failure:
  "keyed c \<Longrightarrow> Unprotect c p = (c', Inl e) \<Longrightarrow> c' = c \<and> e \<noteq> NilPanic"
  by (auto simp: Unprotect_def Let_def keyed_def computeAuthTag_def generateKeystream_some
      split: if_splits option.splits)

lemma Unprotect_replay_window:
  "Unprotect c p = (c', Inr q) \<Longrightarrow> replay c' = accept (unprotect_index c p) (replay c)"
  using Unprotect_success(2) [of c p c' q] by (auto simp: unprotect_index_def Let_def)

lemma keyed_Unprotect: "keyed c \<Longrightarrow> keyed (fst (Unprotect c p))"
proof (cases "Unprotect c p")
  case (Pair c' res)
  assume "keyed c"
  with Pair show ?thesis
    using Unprotect_failure [of c p c'] Unprotect_success(2) [of c p c'] by (cases res) auto
qed

text \<open>The indices of the packets a receiver accepts from an arbitrary sequence of datagrams.\<close>

fun accepted_indices :: "srtp_context \<Rightarrow> bytes list \<Rightarrow> u64 list" where
  "accepted_indices c [] = []"
| "accepted_indices c (p # ps) =
     (case Unprotect c p of
        (c', Inl e) \<Rightarrow> accepted_indices c' ps
      | (c', Inr q) \<Rightarrow> unprotect_index c p # accepted_indices c' ps)"

lemma accepted_admitted: "keyed c \<Longrightarrow> rw.admitted (replay c) (accepted_indices c ps)"
proof (induction ps arbitrary: c)
  case (Cons p ps)
  obtain c' res where step: "Unprotect c p = (c', res)" by fastforce
  have "keyed c'" using keyed_Unprotect [OF Cons.prems, of p] step by simp
  with Cons.IH have IH: "rw.admitted (replay c') (accepted_indices c' ps)" by blast
  show ?case
  proof (cases res)
    case (Inl e)
    then have "c' = c" using Unprotect_failure [OF Cons.prems, of p c' e] step by simp
    with Inl step IH show ?thesis by simp
  next
    case (Inr q)
    with Unprotect_success(1) [of c p c' q] Unprotect_replay_window [of c p c' q] step IH
    show ?thesis by simp
  qed
qed simp

text \<open>
  C2: Whatever datagrams reach a receiver, in any order and with any repetition, no packet
  index is accepted twice: the payloads it releases belong to pairwise different indices.
\<close>

theorem no_index_accepted_twice: "distinct (accepted_indices (New key salt) ps)"
  using rw.admitted_distinct [OF _ accepted_admitted [of "New key salt"]] by simp

lemma estimate_after_commit: "estimateROC (commitRTP (estimateROC c s) s c) s = estimateROC c s"
  by (auto simp: commitRTP_def estimateROC_def Let_def)

lemma unprotect_again:
  assumes ok: "window_ok (replay c)" and first: "Unprotect c p = (c', Inr q)"
  shows "Unprotect c' p = (c', Inl ReplayDetected)"
proof -
  define seq where "seq = pkt_seq (take (length p - authTagLen) p)"
  have c': "c' = commitRTP (estimateROC c seq) seq c"
    using Unprotect_success(2) [OF first] by (simp add: seq_def)
  then have "unprotect_index c' p = unprotect_index c p"
    by (simp add: unprotect_index_def seq_def [symmetric] estimate_after_commit)
  then have "isReplay (replay c') (unprotect_index c' p)"
    using rw.mark_blocks [OF ok] Unprotect_replay_window [OF first] by simp
  then show ?thesis using first
    by (auto simp: Unprotect_def unprotect_index_def Let_def split: if_splits option.splits)
qed

text \<open>
  A datagram delivered a second time is refused with the replay error, and a datagram
  that is refused, for whatever reason, leaves the receiver's context exactly as it was.
\<close>

theorem replayed_or_refused_changes_nothing:
  assumes "keyed c" and "window_ok (replay c)"
  shows "case Unprotect c p of
      (c', Inr q) \<Rightarrow> Unprotect c' p = (c', Inl ReplayDetected)
    | (c', Inl e) \<Rightarrow> c' = c"
  using unprotect_again [OF assms(2)] Unprotect_failure [OF assms(1)]
  by (auto split: prod.split sum.split)

theorem replayed_or_refused_changes_nothing_witness:
  "case Unprotect (New [] []) (example_rtp 3) of
      (c', Inr q) \<Rightarrow> Unprotect c' (example_rtp 3) = (c', Inl ReplayDetected)
    | (c', Inl e) \<Rightarrow> c' = New [] []"
  by (rule replayed_or_refused_changes_nothing) simp_all

section \<open>SRTCP\<close>

definition sealed_rtcp_body :: "srtp_context \<Rightarrow> u32 \<Rightarrow> bytes \<Rightarrow> bytes" where
  "sealed_rtcp_body c i p = take 8 p @ xor_bytes (drop 8 p)
     (aesCMKeystream (the (srtcpBlock c)) (srtcpSessionSalt c) (get_u32 (subslice 4 8 p)) (ucast i)
       (length p - 8)) @ put_u32 (0x80000000 OR i)"

definition sealed_rtcp :: "srtp_context \<Rightarrow> u32 \<Rightarrow> bytes \<Rightarrow> bytes" where
  "sealed_rtcp c i p = sealed_rtcp_body c i p
     @ take authTagLen (hmac_sha1 (the (srtcpMac c)) (sealed_rtcp_body c i p))"

lemma ProtectRTCP_sealed:
  assumes "8 \<le> length p" and "keyed c"
  shows "ProtectRTCP c p = (c\<lparr>srtcpIndex := srtcpIndex c + 1\<rparr>, Inr (sealed_rtcp c (srtcpIndex c) p))"
proof -
  obtain k a where "srtcpBlock c = Some k" "srtcpMac c = Some a"
    using assms(2) by (auto simp: keyed_def)
  then show ?thesis using assms(1)
    by (simp add: ProtectRTCP_def Let_def srtp_consts generateSRTCPKeystream_some
        computeSRTCPAuthTag_def sealed_rtcp_def sealed_rtcp_body_def)
qed

lemma srtcp_index_word:
  assumes "unat i < 2 ^ 31"
  shows "(0x80000000 OR i :: u32) AND 0x7FFFFFFF = i" and "(0x80000000 OR i :: u32) AND 0x80000000 \<noteq> 0"
proof -
  have m: "(0x7FFFFFFF :: u32) = mask 31" by (simp add: mask_eq_exp_minus_1)
  have "take_bit 31 i = i"
    using assms by (simp add: word_unat_eq_iff unsigned_take_bit_eq take_bit_nat_eq_self)
  moreover have "take_bit 31 (0x80000000 :: u32) = 0" by simp
  ultimately show "(0x80000000 OR i :: u32) AND 0x7FFFFFFF = i"
    by (simp only: m take_bit_eq_mask [symmetric] take_bit_or) simp
  have "bit ((0x80000000 OR i) AND 0x80000000 :: u32) 31" by (simp add: bit_simps)
  then show "(0x80000000 OR i :: u32) AND 0x80000000 \<noteq> 0" by auto
qed

lemma UnprotectRTCP_sealed:
  assumes len: "8 \<le> length p" and keys: "keyed rx" "same_keys tx rx" and i: "unat i < 2 ^ 31"
    and fresh: "\<not> isReplay (srtcpReplay rx) (ucast i)"
  shows "UnprotectRTCP rx (sealed_rtcp tx i p)
     = (rx\<lparr>srtcpReplay := accept (ucast i) (srtcpReplay rx)\<rparr>, Inr p)"
proof -
  obtain k a where ka: "srtcpBlock rx = Some k" "srtcpMac rx = Some a"
    using keys(1) by (auto simp: keyed_def)
  then have ka': "srtcpBlock tx = Some k" "srtcpMac tx = Some a" "srtcpSessionSalt tx = srtcpSessionSalt rx"
    using keys(2) by (simp_all add: same_keys_def)
  let ?n = "length p"
  let ?ks = "aesCMKeystream k (srtcpSessionSalt rx) (get_u32 (subslice 4 8 p)) (ucast i) (?n - 8)"
  let ?enc = "take 8 p @ xor_bytes (drop 8 p) ?ks"
  let ?body = "?enc @ put_u32 (0x80000000 OR i)"
  let ?tag = "take authTagLen (hmac_sha1 a ?body)"
  have pkt: "sealed_rtcp tx i p = ?body @ ?tag"
    by (simp add: sealed_rtcp_def sealed_rtcp_body_def ka')
  have enc: "length ?enc = ?n" using len by simp
  have n: "length (sealed_rtcp tx i p) = ?n + 14" using enc by (simp add: pkt srtp_consts)
  have parts: "take (4 + ?n) (sealed_rtcp tx i p) = ?body" "drop (4 + ?n) (sealed_rtcp tx i p) = ?tag"
    "take ?n (sealed_rtcp tx i p) = ?enc"
    using enc len by (simp_all add: pkt min_def)
  have word: "get_u32 (subslice ?n (?n + 4) (sealed_rtcp tx i p)) = 0x80000000 OR i"
  proof -
    have "drop ?n (sealed_rtcp tx i p) = put_u32 (0x80000000 OR i) @ ?tag" using enc by (simp add: pkt)
    then show ?thesis using get_put_u32 [of "0x80000000 OR i" "[]"] by (simp add: subslice_def)
  qed
  have ssrc: "subslice 4 8 ?enc = subslice 4 8 p" using len by (simp add: subslice_def drop_take)
  have dec: "take 8 ?enc @ xor_bytes (drop 8 ?enc) ?ks = p" using len by (simp add: xor_bytes_twice)
  show ?thesis
  proof (cases "?n = 8")
    case True
    then have "?enc = p" by (simp add: xor_bytes_def)
    with True fresh show ?thesis
      using n parts word srtcp_index_word [OF i] ka
      by (simp add: UnprotectRTCP_def Let_def srtp_consts computeSRTCPAuthTag_def)
  next
    case False
    then show ?thesis
      using len fresh n parts word srtcp_index_word [OF i] ka ssrc dec enc
      by (simp add: UnprotectRTCP_def Let_def srtp_consts computeSRTCPAuthTag_def
          generateSRTCPKeystream_some del: take_append drop_append)
  qed
qed

fun srtcp_stream :: "srtp_context \<Rightarrow> srtp_context \<Rightarrow> bytes list \<Rightarrow> (srtp_error + bytes) list" where
  "srtcp_stream tx rx [] = []"
| "srtcp_stream tx rx (p # ps) =
     (case ProtectRTCP tx p of
        (tx', Inl e) \<Rightarrow> Inl e # srtcp_stream tx' rx ps
      | (tx', Inr out) \<Rightarrow> (case UnprotectRTCP rx out of (rx', res) \<Rightarrow> res # srtcp_stream tx' rx' ps))"

lemma srtcp_linked_stream:
  "keyed rx \<Longrightarrow> same_keys tx rx \<Longrightarrow> srtcpIndex tx = of_nat n \<Longrightarrow>
   window_rep (srtcpReplay rx) {..<n} \<Longrightarrow> n + length ps \<le> 2 ^ 31 \<Longrightarrow>
   \<forall>p \<in> set ps. 8 \<le> length p \<Longrightarrow> srtcp_stream tx rx ps = map Inr ps"
proof (induction ps arbitrary: tx rx n)
  case (Cons p ps)
  define i where "i = srtcpIndex tx"
  have ui: "unat i = n" and uj: "unat (ucast i :: u64) = n"
    using Cons.prems(3,5) by (simp_all add: i_def unat_of_nat unsigned_ucast_eq take_bit_eq_mod)
  then have "unat i < 2 ^ 31" using Cons.prems(5) by simp
  moreover have "\<not> isReplay (srtcpReplay rx) (ucast i)"
  proof (cases "n = 0")
    case False
    then have "Max {..<n} < n" by (metis Max_in empty_iff finite_lessThan lessThan_iff not_gr0)
    then show ?thesis using isReplay_rep [OF Cons.prems(4), of "ucast i"] by (simp add: uj)
  qed (use isReplay_rep [OF Cons.prems(4), of "ucast i"] in simp)
  moreover have "keyed tx" "8 \<le> length p" using Cons.prems by (auto simp: keyed_def same_keys_def)
  moreover define tx' where "tx' = tx\<lparr>srtcpIndex := i + 1\<rparr>"
  moreover define rx' where "rx' = rx\<lparr>srtcpReplay := accept (ucast i) (srtcpReplay rx)\<rparr>"
  ultimately have step: "ProtectRTCP tx p = (tx', Inr (sealed_rtcp tx i p))"
    "UnprotectRTCP rx (sealed_rtcp tx i p) = (rx', Inr p)"
    using ProtectRTCP_sealed [of p tx] UnprotectRTCP_sealed [OF _ Cons.prems(1,2)] by (auto simp: i_def)
  have "window_rep (srtcpReplay rx') {..<Suc n}"
    using accept_rep [OF Cons.prems(4), of "ucast i"] by (simp add: rx'_def uj lessThan_Suc)
  then have "srtcp_stream tx' rx' ps = map Inr ps"
    using Cons.prems by (intro Cons.IH) (auto simp: tx'_def rx'_def i_def keyed_def same_keys_def)
  then show ?case by (simp add: step)
qed simp

text \<open>
  A stream of RTCP packets protected by one fresh context is recovered exactly by another
  context with the same master key, for the whole range of the 31-bit SRTCP index.
\<close>

theorem srtcp_stream_roundtrip:
  assumes "\<forall>p \<in> set ps. 8 \<le> length p" and "length ps \<le> 2 ^ 31"
  shows "srtcp_stream (New key salt) (New key salt) ps = map Inr ps"
  using assms window_rep_empty by (intro srtcp_linked_stream [where n = 0]) simp_all

theorem srtcp_stream_roundtrip_witness:
  "srtcp_stream (New [1] [2]) (New [1] [2]) [replicate 8 0x81, replicate 28 0x81]
     = [Inr (replicate 8 0x81), Inr (replicate 28 0x81)]"
  using srtcp_stream_roundtrip [of "[replicate 8 0x81, replicate 28 0x81]" "[1]" "[2]"] by simp

section \<open>Keys\<close>

text \<open>
  Keying material generated for the SDP \<open>a=crypto\<close> line builds, at the peer, the context
  of exactly the generated master key and salt; every other inline key that decodes to a
  length different from 30 is refused with that length.
\<close>

theorem sdes_inline_roundtrip:
  "FromSDESInline (b64_encode raw) =
     (if length raw = 30 then Inr (New (take 16 raw) (drop 16 raw))
      else Inl (InlineKeyLength (length raw)))"
  by (simp add: FromSDESInline_def b64_roundtrip srtp_consts)

text \<open>
  After \<open>Zeroize\<close> every byte of key and salt held by the context is zero, and the context
  can neither protect nor release a packet again: each attempt on a well-formed packet dies on
  the nil cipher state and none yields data.
\<close>

theorem zeroized_context_is_dead:
  "set (authKey (Zeroize c) @ sessionSalt (Zeroize c) @ srtcpAuthKey (Zeroize c)
        @ srtcpSessionSalt (Zeroize c)) = {0}
   \<and> (\<forall>p out. snd (Protect (Zeroize c) p) \<noteq> Inr out \<and> snd (Unprotect (Zeroize c) p) \<noteq> Inr out
        \<and> snd (ProtectRTCP (Zeroize c) p) \<noteq> Inr out \<and> snd (UnprotectRTCP (Zeroize c) p) \<noteq> Inr out)"
proof -
  have z: "block (Zeroize c) = None" "mac (Zeroize c) = None" "srtcpMac (Zeroize c) = None"
    by (simp_all add: Zeroize_def)
  have "computeAuthTag d q r = None" if "mac d = None" for d q r using that by (simp add: computeAuthTag_def)
  moreover have "computeSRTCPAuthTag d q = None" if "srtcpMac d = None" for d q
    using that by (simp add: computeSRTCPAuthTag_def)
  ultimately show ?thesis using z
    by (auto simp: Protect_def Unprotect_def ProtectRTCP_def UnprotectRTCP_def Let_def Zeroize_def
        split: option.splits)
qed

end
