(* ===== verification/GoStrings.thy ===== *)
theory GoStrings
  imports XPrelude "HOL-Library.Sublist"
begin

text \<open>
  The functions of Go's \<open>strings\<close> and \<open>strconv\<close> packages that the sources call, on strings of
  bytes.  \<open>ToLower\<close>, \<open>EqualFold\<close> and \<open>TrimSpace\<close> are the ASCII cases of the Go functions: the
  model covers strings without multi-byte letters and spaces.
\<close>

named_theorems str_simps \<open>searching, splitting and printing strings\<close>

definition CRLF :: string where
  "CRLF = [CHR 0x0D, CHR 0x0A]"

abbreviation CR :: char where "CR \<equiv> CHR 0x0D"
abbreviation LF :: char where "LF \<equiv> CHR 0x0A"

definition bytes_of :: "string \<Rightarrow> bytes" where
  "bytes_of s = map (\<lambda>c. word_of_nat (of_char c)) s"

definition string_of :: "bytes \<Rightarrow> string" where
  "string_of b = map (\<lambda>x. char_of (unat x)) b"

lemma unat_of_char: "unat (word_of_nat (of_char c) :: byte) = of_char c"
  by (simp add: unat_of_nat)

lemma string_of_bytes_of [simp]: "string_of (bytes_of s) = s"
  by (induction s) (simp_all add: string_of_def bytes_of_def unat_of_char)

lemma bytes_of_string_of [simp]: "bytes_of (string_of b) = b"
proof (induction b)
  case (Cons x b)
  have "unat x < 256" using unsigned_less [of x] by simp
  with Cons show ?case by (simp add: string_of_def bytes_of_def)
qed (simp add: string_of_def bytes_of_def)

lemma length_bytes_of [simp]: "length (bytes_of s) = length s"
  by (simp add: bytes_of_def)

section \<open>Case and spaces\<close>

definition lower_char :: "char \<Rightarrow> char" where
  "lower_char c = (let n = of_char c :: nat in if 65 \<le> n \<and> n \<le> 90 then char_of (n + 32) else c)"

definition ToLower :: "string \<Rightarrow> string" where
  "ToLower s = map lower_char s"

definition EqualFold :: "string \<Rightarrow> string \<Rightarrow> bool" where
  "EqualFold s t \<longleftrightarrow> ToLower s = ToLower t"

definition is_space :: "char \<Rightarrow> bool" where
  "is_space c \<longleftrightarrow> c \<in> {CHR 0x09, CHR 0x0A, CHR 0x0B, CHR 0x0C, CHR 0x0D, CHR '' ''}"

definition TrimLeftIf :: "(char \<Rightarrow> bool) \<Rightarrow> string \<Rightarrow> string" where
  "TrimLeftIf P s = dropWhile P s"

definition TrimRightIf :: "(char \<Rightarrow> bool) \<Rightarrow> string \<Rightarrow> string" where
  "TrimRightIf P s = rev (dropWhile P (rev s))"

definition TrimSpace :: "string \<Rightarrow> string" where
  "TrimSpace s = TrimRightIf is_space (TrimLeftIf is_space s)"

text \<open>\<open>strings.Trim\<close> with a cutset.\<close>

definition Trim :: "string \<Rightarrow> string \<Rightarrow> string" where
  "Trim s cutset = TrimRightIf (\<lambda>c. c \<in> set cutset) (TrimLeftIf (\<lambda>c. c \<in> set cutset) s)"

definition HasPrefix :: "string \<Rightarrow> string \<Rightarrow> bool" where
  "HasPrefix s p \<longleftrightarrow> prefix p s"

section \<open>Searching and splitting\<close>

fun Index :: "string \<Rightarrow> string \<Rightarrow> nat option" where
  "Index [] sub = (if sub = [] then Some 0 else None)"
| "Index (c # s) sub = (if prefix sub (c # s) then Some 0 else map_option Suc (Index s sub))"

fun IndexByte :: "string \<Rightarrow> char \<Rightarrow> nat option" where
  "IndexByte [] b = None"
| "IndexByte (c # s) b = (if c = b then Some 0 else map_option Suc (IndexByte s b))"

fun IndexAny :: "string \<Rightarrow> string \<Rightarrow> nat option" where
  "IndexAny [] chars = None"
| "IndexAny (c # s) chars = (if c \<in> set chars then Some 0 else map_option Suc (IndexAny s chars))"

lemma Index_le: "Index s sub = Some i \<Longrightarrow> i + length sub \<le> length s"
proof (induction s arbitrary: i)
  case (Cons c s)
  show ?case
  proof (cases "prefix sub (c # s)")
    case True
    then show ?thesis using Cons.prems prefix_length_le [OF True] by simp
  next
    case False
    then obtain j where "Index s sub = Some j" "i = Suc j" using Cons.prems by auto
    then show ?thesis using Cons.IH by simp
  qed
qed (simp split: if_splits)

function Split :: "string \<Rightarrow> string \<Rightarrow> string list" where
  "Split s sep =
     (if sep = [] then map (\<lambda>c. [c]) s
      else case Index s sep of
             None \<Rightarrow> [s]
           | Some i \<Rightarrow> take i s # Split (drop (i + length sep) s) sep)"
  by auto
termination
proof (relation "measure (\<lambda>(s, _). length s)")
  fix s sep :: string and i
  assume "sep \<noteq> []" "Index s sep = Some i"
  then show "((drop (i + length sep) s, sep), s, sep) \<in> measure (\<lambda>(s, _). length s)"
    using Index_le by (cases sep; fastforce)
qed simp

declare Split.simps [simp del]

text \<open>\<open>strings.SplitN\<close> for \<open>n > 0\<close>.\<close>

fun SplitN :: "string \<Rightarrow> string \<Rightarrow> nat \<Rightarrow> string list" where
  "SplitN s sep 0 = []"
| "SplitN s sep (Suc 0) = [s]"
| "SplitN s sep (Suc (Suc n)) =
     (case Index s sep of
        None \<Rightarrow> [s]
      | Some i \<Rightarrow> take i s # SplitN (drop (i + length sep) s) sep (Suc n))"

text \<open>\<open>strings.Fields\<close>: the maximal runs of non-space characters.\<close>

function Fields :: "string \<Rightarrow> string list" where
  "Fields s =
     (let t = dropWhile is_space s in
      if t = [] then []
      else takeWhile (\<lambda>c. \<not> is_space c) t # Fields (dropWhile (\<lambda>c. \<not> is_space c) t))"
  by auto
termination
proof (relation "measure length")
  fix s t :: string
  assume t: "t = dropWhile is_space s" "t \<noteq> []"
  then have "\<not> is_space (hd t)" using hd_dropWhile by blast
  then have "length (dropWhile (\<lambda>c. \<not> is_space c) t) < length t"
    using t(2) by (cases t) (simp_all add: length_dropWhile_le le_imp_less_Suc)
  then show "(dropWhile (\<lambda>c. \<not> is_space c) t, s) \<in> measure length"
    using length_dropWhile_le [of is_space s] t(1) by simp
qed simp

declare Fields.simps [simp del]

fun Join :: "string list \<Rightarrow> string \<Rightarrow> string" where
  "Join [] sep = []"
| "Join [x] sep = x"
| "Join (x # y # ys) sep = x @ sep @ Join (y # ys) sep"

section \<open>Decimal numbers\<close>

definition digit_char :: "nat \<Rightarrow> char" where
  "digit_char d = char_of (48 + d)"

fun nat_str :: "nat \<Rightarrow> string" where
  "nat_str n = (if n < 10 then [digit_char n] else nat_str (n div 10) @ [digit_char (n mod 10)])"

declare nat_str.simps [simp del]

definition Itoa :: "int \<Rightarrow> string" where
  "Itoa i = (if i < 0 then CHR ''-'' # nat_str (nat (- i)) else nat_str (nat i))"

definition digit_val :: "char \<Rightarrow> nat option" where
  "digit_val c = (let n = of_char c :: nat in if 48 \<le> n \<and> n \<le> 57 then Some (n - 48) else None)"

fun digits_val :: "nat \<Rightarrow> string \<Rightarrow> nat option" where
  "digits_val acc [] = Some acc"
| "digits_val acc (c # s) =
     (case digit_val c of None \<Rightarrow> None | Some d \<Rightarrow> digits_val (10 * acc + d) s)"

text \<open>\<open>strconv.Atoi\<close>: a sign, at least one digit, the value within 64 bits; \<open>None\<close> is the error.\<close>

definition Atoi :: "string \<Rightarrow> int option" where
  "Atoi s =
     (let (neg, ds) = (case s of [] \<Rightarrow> (False, [])
                       | c # r \<Rightarrow> if c = CHR ''-'' then (True, r) else if c = CHR ''+'' then (False, r) else (False, s))
      in if ds = [] then None
         else case digits_val 0 ds of
                None \<Rightarrow> None
              | Some n \<Rightarrow>
                  let v = (if neg then - int n else int n)
                  in if - (2 ^ 63) \<le> v \<and> v < 2 ^ 63 then Some v else None)"

text \<open>The value \<open>strconv.Atoi\<close> returns whether or not it also returns an error: zero for a string
  that is no number, the nearest 64-bit number for one out of range.\<close>

definition Atoi_val :: "string \<Rightarrow> int" where
  "Atoi_val s =
     (let (neg, ds) = (case s of [] \<Rightarrow> (False, [])
                       | c # r \<Rightarrow> if c = CHR ''-'' then (True, r) else if c = CHR ''+'' then (False, r) else (False, s))
      in if ds = [] then 0
         else case digits_val 0 ds of
                None \<Rightarrow> 0
              | Some n \<Rightarrow> max (- (2 ^ 63)) (min (2 ^ 63 - 1) (if neg then - int n else int n)))"

lemma Atoi_val_Some: "Atoi s = Some i \<Longrightarrow> Atoi_val s = i"
  by (auto simp: Atoi_def Atoi_val_def Let_def split: prod.splits list.splits option.splits if_splits)

lemma digit_val_char: "d < 10 \<Longrightarrow> digit_val (digit_char d) = Some d"
  by (simp add: digit_val_def digit_char_def)

lemma digits_val_append:
  "digits_val acc (s @ t) = (case digits_val acc s of None \<Rightarrow> None | Some n \<Rightarrow> digits_val n t)"
  by (induction s arbitrary: acc) (simp_all split: option.splits)

lemma digits_val_nat_str: "digits_val 0 (nat_str n) = Some n"
proof (induction n rule: nat_str.induct)
  case (1 n)
  then show ?case
    by (cases "n < 10") (simp_all add: nat_str.simps [of n] digits_val_append digit_val_char)
qed

lemma nat_str_digits: "c \<in> set (nat_str n) \<Longrightarrow> \<exists>d < 10. c = digit_char d"
proof (induction n rule: nat_str.induct)
  case (1 n)
  then show ?case
    by (cases "n < 10") (auto simp: nat_str.simps [of n] intro: exI [of _ "n mod 10"])
qed

lemma nat_str_not_Nil [simp]: "nat_str n \<noteq> []"
  by (simp add: nat_str.simps [of n])

lemma digit_char_ge: "d < 10 \<Longrightarrow> (of_char (digit_char d) :: nat) = 48 + d"
  by (simp add: digit_char_def)

lemma nat_str_range: "c \<in> set (nat_str n) \<Longrightarrow> 48 \<le> (of_char c :: nat) \<and> (of_char c :: nat) \<le> 57"
  using nat_str_digits [of c n] digit_char_ge by fastforce

lemma Itoa_range: "c \<in> set (Itoa i) \<Longrightarrow> c = CHR ''-'' \<or> (48 \<le> (of_char c :: nat) \<and> (of_char c :: nat) \<le> 57)"
  by (auto simp: Itoa_def dest: nat_str_range split: if_splits)

lemma Itoa_no_space: "c \<in> set (Itoa i) \<Longrightarrow> \<not> is_space c"
  by (auto dest!: Itoa_range simp: is_space_def)

lemma Atoi_nat_str: "n < 2 ^ 63 \<Longrightarrow> Atoi (nat_str n) = Some (int n)"
proof -
  assume n: "n < 2 ^ 63"
  obtain c r where s: "nat_str n = c # r" by (cases "nat_str n") auto
  then have "48 \<le> (of_char c :: nat)" using nat_str_range [of c n] by simp
  then have "c \<noteq> CHR ''-''" "c \<noteq> CHR ''+''" by auto
  moreover have "int n < 2 ^ 63" using n by (metis of_nat_less_iff of_nat_numeral of_nat_power)
  ultimately show ?thesis using digits_val_nat_str [of n] by (simp add: Atoi_def s)
qed

lemma Atoi_Itoa: "- (2 ^ 63) \<le> i \<Longrightarrow> i < 2 ^ 63 \<Longrightarrow> Atoi (Itoa i) = Some i"
proof (cases "i < 0")
  case True
  assume "- (2 ^ 63) \<le> i"
  with True show ?thesis using digits_val_nat_str [of "nat (- i)"]
    by (simp add: Atoi_def Itoa_def)
next
  case False
  assume "i < 2 ^ 63"
  moreover have "nat i < 2 ^ 63" using \<open>i < 2 ^ 63\<close> by (simp add: nat_less_iff)
  ultimately show ?thesis using False Atoi_nat_str [of "nat i"] by (simp add: Itoa_def)
qed

section \<open>Splitting what was joined\<close>

lemma prefix_Cons_hd: "prefix (c # sep) (x # xs) \<Longrightarrow> x = c"
  by simp

lemma Index_append:
  assumes "c \<notin> set x" shows "Index (x @ (c # sep) @ r) (c # sep) = Some (length x)"
  using assms by (induction x) auto

lemma Index_none: "c \<notin> set x \<Longrightarrow> Index x (c # sep) = None"
  by (induction x) auto

lemma IndexByte_append: "c \<notin> set x \<Longrightarrow> IndexByte (x @ c # r) c = Some (length x)"
  by (induction x) auto

lemma IndexByte_none: "IndexByte s c = None \<longleftrightarrow> c \<notin> set s"
  by (induction s) auto

lemma Split_none: "c \<notin> set x \<Longrightarrow> Split x (c # sep) = [x]"
  by (simp add: Split.simps [of x] Index_none)

lemma Split_append:
  "c \<notin> set x \<Longrightarrow> Split (x @ (c # sep) @ r) (c # sep) = x # Split r (c # sep)"
  using Index_append [of c x sep r] by (subst Split.simps) simp

lemma Split_Join:
  "xs \<noteq> [] \<Longrightarrow> \<forall>x \<in> set xs. c \<notin> set x \<Longrightarrow> Split (Join xs (c # sep)) (c # sep) = xs"
proof (induction xs rule: induct_list012)
  case (3 x y zs)
  then have "Split (x @ (c # sep) @ Join (y # zs) (c # sep)) (c # sep) = x # Split (Join (y # zs) (c # sep)) (c # sep)"
    by (intro Split_append) simp
  with 3 show ?case by simp
qed (simp_all add: Split_none)

text \<open>A field of a space-separated line.\<close>

definition field :: "string \<Rightarrow> bool" where
  "field s \<longleftrightarrow> s \<noteq> [] \<and> (\<forall>c \<in> set s. \<not> is_space c)"

lemma takeWhile_field: "\<forall>c \<in> set x. \<not> is_space c \<Longrightarrow> takeWhile (\<lambda>c. \<not> is_space c) (x @ CHR '' '' # r) = x"
  "\<forall>c \<in> set x. \<not> is_space c \<Longrightarrow> dropWhile (\<lambda>c. \<not> is_space c) (x @ CHR '' '' # r) = CHR '' '' # r"
  by (induction x) (auto simp: is_space_def)

lemma dropWhile_field: "field x \<Longrightarrow> dropWhile is_space (x @ r) = x @ r"
  by (cases x) (auto simp: field_def)

lemma Fields_single: "field x \<Longrightarrow> Fields x = [x]"
proof -
  assume f: "field x"
  have "takeWhile (\<lambda>c. \<not> is_space c) x = x" "dropWhile (\<lambda>c. \<not> is_space c) x = []"
    using f by (simp_all add: field_def)
  moreover have "dropWhile is_space x = x" using dropWhile_field [OF f, of "[]"] by simp
  ultimately have "Fields x = x # Fields []" using f by (subst Fields.simps) (simp only: Let_def field_def if_False)
  then show ?thesis by (simp add: Fields.simps)
qed

lemma Fields_space: "Fields (CHR '' '' # s) = Fields s"
  by (subst (1 2) Fields.simps) (simp add: is_space_def)

lemma Fields_append: "field x \<Longrightarrow> Fields (x @ CHR '' '' # r) = x # Fields r"
proof -
  assume f: "field x"
  then have w: "takeWhile (\<lambda>c. \<not> is_space c) (x @ CHR '' '' # r) = x"
      "dropWhile (\<lambda>c. \<not> is_space c) (x @ CHR '' '' # r) = CHR '' '' # r"
    by (auto simp: field_def is_space_def)
  have "Fields (x @ CHR '' '' # r) = x # Fields (CHR '' '' # r)"
    using w f dropWhile_field [OF f, of "CHR '' '' # r"]
    by (subst Fields.simps) (simp add: field_def Let_def)
  then show ?thesis by (simp add: Fields_space)
qed

lemma Fields_Join: "\<forall>x \<in> set xs. field x \<Longrightarrow> Fields (Join xs '' '') = xs"
proof (induction xs rule: induct_list012)
  case 1
  then show ?case by (simp add: Fields.simps)
next
  case (3 x y zs)
  then show ?case using Fields_append [of x "Join (y # zs) '' ''"] by simp
qed (simp add: Fields_single)

lemma field_Itoa [simp]: "field (Itoa i)"
  using Itoa_no_space by (auto simp: field_def Itoa_def)

section \<open>Trimming\<close>

text \<open>A string with no space at either end.\<close>

definition trimmed :: "string \<Rightarrow> bool" where
  "trimmed s \<longleftrightarrow> s = [] \<or> (\<not> is_space (hd s) \<and> \<not> is_space (last s))"

lemma TrimSpace_trimmed: "trimmed s \<Longrightarrow> TrimSpace s = s"
proof (cases s)
  case (Cons c r)
  assume "trimmed s"
  then have "\<not> is_space (hd s)" "\<not> is_space (hd (rev s))" 
    unfolding hd_rev using Cons by (simp_all add: trimmed_def)
  then have "dropWhile is_space s = s" "dropWhile is_space (rev s) = rev s"
    by (simp_all only: dropWhile_eq_self_iff simp_thms)
  then show ?thesis by (simp add: TrimSpace_def TrimRightIf_def TrimLeftIf_def)
qed (simp add: TrimSpace_def TrimRightIf_def TrimLeftIf_def)

lemma TrimSpace_space: "is_space c \<Longrightarrow> TrimSpace (c # s) = TrimSpace s"
  by (simp add: TrimSpace_def TrimLeftIf_def)

lemma trimmed_Itoa [simp]: "trimmed (Itoa i)"
  using Itoa_no_space [of "hd (Itoa i)" i] Itoa_no_space [of "last (Itoa i)" i]
  by (cases "Itoa i = []") (auto simp: trimmed_def)

end
