(* ===== verification/Stun.thy ===== *)
theory Stun
  imports Crypto GoStrings
begin

text \<open>
  STUN messages, \<open>internal/stun/message.go\<close>, and the response parser of \<open>internal/stun/stun.go\<close>.
  Loops over an offset are recursions over the rest of the buffer.  A slice shorter than a fixed
  index panics in Go; the definitions that can panic return \<open>None\<close> there.
\<close>

abbreviation BindingRequest :: u16 where "BindingRequest \<equiv> 0x0001"
abbreviation BindingResponse :: u16 where "BindingResponse \<equiv> 0x0101"
abbreviation AttrMappedAddress :: u16 where "AttrMappedAddress \<equiv> 0x0001"
abbreviation AttrUsername :: u16 where "AttrUsername \<equiv> 0x0006"
abbreviation AttrMessageIntegrity :: u16 where "AttrMessageIntegrity \<equiv> 0x0008"
abbreviation AttrErrorCode :: u16 where "AttrErrorCode \<equiv> 0x0009"
abbreviation AttrXORMappedAddress :: u16 where "AttrXORMappedAddress \<equiv> 0x0020"
abbreviation AttrUseCandidate :: u16 where "AttrUseCandidate \<equiv> 0x0025"
abbreviation MagicCookie :: u32 where "MagicCookie \<equiv> 0x2112A442"
abbreviation HeaderSize :: nat where "HeaderSize \<equiv> 20"
abbreviation FamilyIPv4 :: byte where "FamilyIPv4 \<equiv> 0x01"

record Attr =
  attr_Type :: u16
  attr_Value :: bytes

text \<open>A \<open>net.UDPAddr\<close>: an IPv4 address by its four bytes, or an IPv6 address.\<close>

datatype IP = IPv4 byte byte byte byte | IPv6 bytes

record UDPAddr =
  udp_IP :: IP
  udp_Port :: int

datatype stun_error = TooShort | BadFamily byte | BadType u16 | BadCookie | TxnMismatch | Truncated
  | TruncatedAttr | UnknownRequired u16 | NoMappedAddress

definition ip_String :: "byte \<Rightarrow> byte \<Rightarrow> byte \<Rightarrow> byte \<Rightarrow> string" where
  "ip_String a b c d = Join [Itoa (uint a), Itoa (uint b), Itoa (uint c), Itoa (uint d)] ''.''"

definition IsMessage :: "bytes \<Rightarrow> bool" where
  "IsMessage data =
     (if length data < HeaderSize then False
      else if data ! 0 AND 0xC0 \<noteq> 0 then False
      else get_u32 (subslice 4 8 data) = MagicCookie)"

definition MsgType :: "bytes \<Rightarrow> u16 option" where
  "MsgType data = (if length data < 2 then None else Some (get_u16 (subslice 0 2 data)))"

definition TxnID :: "bytes \<Rightarrow> bytes option" where
  "TxnID data = (if length data < HeaderSize then None else Some (subslice 8 20 data))"

text \<open>\<open>(n + 3) & ^3\<close>: the length rounded up to a multiple of four.\<close>

definition pad4 :: "nat \<Rightarrow> nat" where
  "pad4 n = (n + 3) div 4 * 4"

definition attr_bytes :: "Attr \<Rightarrow> bytes" where
  "attr_bytes a = put_u16 (attr_Type a) @ put_u16 (word_of_nat (length (attr_Value a)))
     @ attr_Value a @ replicate (pad4 (length (attr_Value a)) - length (attr_Value a)) 0"

definition BuildMessage :: "u16 \<Rightarrow> bytes \<Rightarrow> Attr list \<Rightarrow> bytes" where
  "BuildMessage msgType txnID attrs =
     (let bodyLen = sum_list (map (\<lambda>a. 4 + pad4 (length (attr_Value a))) attrs)
      in put_u16 msgType @ put_u16 (word_of_nat bodyLen) @ put_u32 MagicCookie @ txnID
           @ concat (map attr_bytes attrs))"

lemma pad4_ge: "n \<le> pad4 n"
  unfolding pad4_def by linarith

function ParseAttrs :: "bytes \<Rightarrow> Attr list" where
  "ParseAttrs data =
     (if 4 \<le> length data then
        let attrType = get_u16 (subslice 0 2 data);
            attrLen = unat (get_u16 (subslice 2 4 data))
        in if 4 + attrLen > length data then []
           else \<lparr>attr_Type = attrType, attr_Value = subslice 4 (4 + attrLen) data\<rparr>
                  # ParseAttrs (drop (4 + pad4 attrLen) data)
      else [])"
  by auto
termination by (relation "measure length") auto

declare ParseAttrs.simps [simp del]

definition set_length :: "bytes \<Rightarrow> u16 \<Rightarrow> bytes" where
  "set_length msg n = take 2 msg @ put_u16 n @ drop 4 msg"

definition AppendIntegrity :: "bytes \<Rightarrow> bytes \<Rightarrow> bytes" where
  "AppendIntegrity msg key =
     (let newLen = word_of_int (int (length msg) - 20 + 24);
          msg = set_length msg newLen;
          hash = hmac_sha1 key msg
      in msg @ put_u16 AttrMessageIntegrity @ put_u16 20 @ hash)"

definition VerifyIntegrity :: "bytes \<Rightarrow> int \<Rightarrow> bytes \<Rightarrow> bool" where
  "VerifyIntegrity msg miOffset key =
     (if miOffset + 24 > int (length msg) \<or> miOffset < 20 then False
      else
        let off = nat miOffset;
            buf = take off msg;
            newLen = word_of_int (miOffset - 20 + 24);
            buf = set_length buf newLen
        in subslice (off + 4) (off + 24) msg = hmac_sha1 key buf)"

definition EncodeXORAddr :: "UDPAddr \<Rightarrow> bytes option" where
  "EncodeXORAddr addr =
     (case udp_IP addr of
        IPv6 _ \<Rightarrow> None
      | IPv4 a b c d \<Rightarrow>
          Some ([0, FamilyIPv4] @ put_u16 (word_of_int (udp_Port addr) XOR ucast (drop_bit 16 MagicCookie))
                @ put_u32 (get_u32 [a, b, c, d] XOR MagicCookie)))"

definition ParseXORAddr :: "bytes \<Rightarrow> stun_error + UDPAddr" where
  "ParseXORAddr data =
     (if length data < 8 then Inl TooShort
      else if data ! 1 \<noteq> FamilyIPv4 then Inl (BadFamily (data ! 1))
      else
        let port = get_u16 (subslice 2 4 data) XOR ucast (drop_bit 16 MagicCookie);
            ip = get_u32 (subslice 4 8 data) XOR MagicCookie
        in Inr \<lparr>udp_IP = IPv4 (ucast (drop_bit 24 ip)) (ucast (drop_bit 16 ip)) (ucast (drop_bit 8 ip)) (ucast ip),
                udp_Port = uint port\<rparr>)"

definition LongTermKey :: "string \<Rightarrow> string \<Rightarrow> string \<Rightarrow> bytes" where
  "LongTermKey username realm password = md5 (bytes_of (username @ '':'' @ realm @ '':'' @ password))"

definition BuildBindingResponse :: "bytes \<Rightarrow> UDPAddr \<Rightarrow> bytes \<Rightarrow> bytes option" where
  "BuildBindingResponse txnID addr key =
     (case EncodeXORAddr addr of
        None \<Rightarrow> None
      | Some v \<Rightarrow>
          Some (AppendIntegrity
                  (BuildMessage BindingResponse txnID [\<lparr>attr_Type = AttrXORMappedAddress, attr_Value = v\<rparr>]) key))"

text \<open>\<open>None\<close> is the nil slice; the value of a found attribute may be empty but is not nil.\<close>

fun FindAttr :: "Attr list \<Rightarrow> u16 \<Rightarrow> bytes option" where
  "FindAttr [] t = None"
| "FindAttr (a # as) t = (if attr_Type a = t then Some (attr_Value a) else FindAttr as t)"

function find_attr_offset :: "bytes \<Rightarrow> nat \<Rightarrow> u16 \<Rightarrow> int" where
  "find_attr_offset msg offset targetType =
     (if offset + 4 \<le> length msg then
        let attrType = push_bit 8 (ucast (msg ! offset)) OR ucast (msg ! (offset + 1));
            attrLen = unat (push_bit 8 (ucast (msg ! (offset + 2))) OR ucast (msg ! (offset + 3)) :: u16)
        in if attrType = targetType then int offset
           else find_attr_offset msg (offset + (4 + pad4 attrLen)) targetType
      else - 1)"
  by auto
termination by (relation "measure (\<lambda>(msg, offset, _). length msg - offset)") auto

declare find_attr_offset.simps [simp del]

definition FindAttrOffset :: "bytes \<Rightarrow> u16 \<Rightarrow> int" where
  "FindAttrOffset msg targetType =
     (if length msg < HeaderSize then - 1 else find_attr_offset msg HeaderSize targetType)"

definition ParseErrorCode :: "Attr list \<Rightarrow> int \<times> string" where
  "ParseErrorCode attrs =
     (let val = (case FindAttr attrs AttrErrorCode of None \<Rightarrow> [] | Some v \<Rightarrow> v) in
      if length val < 4 then (0, [])
      else
        let class = uint (val ! 2 AND 7) * 100;
            number = uint (val ! 3);
            reason = (if length val > 4 then string_of (drop 4 val) else [])
        in (class + number, reason))"

definition parseMappedAddress :: "bytes \<Rightarrow> stun_error + string \<times> int" where
  "parseMappedAddress data =
     (if length data < 8 then Inl TooShort
      else if data ! 1 \<noteq> FamilyIPv4 then Inl (BadFamily (data ! 1))
      else Inr (ip_String (data ! 4) (data ! 5) (data ! 6) (data ! 7), uint (get_u16 (subslice 2 4 data))))"

text \<open>\<open>String()\<close> of a parsed address is an IPv4 one.\<close>

definition udp_String :: "UDPAddr \<Rightarrow> string" where
  "udp_String addr = (case udp_IP addr of IPv4 a b c d \<Rightarrow> ip_String a b c d | IPv6 _ \<Rightarrow> [])"

function binding_attrs :: "bytes \<Rightarrow> string \<Rightarrow> int \<Rightarrow> stun_error + string \<times> int" where
  "binding_attrs attrs mappedIP mappedPort =
     (if 4 \<le> length attrs then
        let attrType = get_u16 (subslice 0 2 attrs);
            attrLen = unat (get_u16 (subslice 2 4 attrs))
        in if 4 + attrLen > length attrs then Inl TruncatedAttr
           else
             let attrData = subslice 4 (4 + attrLen) attrs;
                 rest = drop (4 + pad4 attrLen) attrs
             in if attrType = AttrXORMappedAddress then
                  (case ParseXORAddr attrData of
                     Inl e \<Rightarrow> Inl e
                   | Inr addr \<Rightarrow> Inr (udp_String addr, udp_Port addr))
                else if attrType = AttrMappedAddress then
                  (case parseMappedAddress attrData of
                     Inr (ip, port) \<Rightarrow> binding_attrs rest ip port
                   | Inl _ \<Rightarrow> binding_attrs rest mappedIP mappedPort)
                else if attrType < 0x8000 then Inl (UnknownRequired attrType)
                else binding_attrs rest mappedIP mappedPort
      else if mappedIP \<noteq> [] then Inr (mappedIP, mappedPort)
      else Inl NoMappedAddress)"
  by auto
termination by (relation "measure (\<lambda>(attrs, _). length attrs)") auto

declare binding_attrs.simps [simp del]

definition parseBindingResponse :: "bytes \<Rightarrow> bytes \<Rightarrow> stun_error + string \<times> int" where
  "parseBindingResponse data expectedTxnID =
     (if length data < HeaderSize then Inl TooShort
      else
        let msgType = get_u16 (subslice 0 2 data) in
        if msgType \<noteq> BindingResponse then Inl (BadType msgType)
        else
          let msgLen = unat (get_u16 (subslice 2 4 data)) in
          if get_u32 (subslice 4 8 data) \<noteq> MagicCookie then Inl BadCookie
          else if subslice 8 20 data \<noteq> expectedTxnID then Inl TxnMismatch
          else if length data < HeaderSize + msgLen then Inl Truncated
          else binding_attrs (subslice HeaderSize (HeaderSize + msgLen) data) [] 0)"

section \<open>Reading messages back\<close>

lemma length_attr_bytes [simp]: "length (attr_bytes a) = 4 + pad4 (length (attr_Value a))"
  using pad4_ge by (simp add: attr_bytes_def)

lemma length_attrs: "length (concat (map attr_bytes attrs)) = sum_list (map (\<lambda>a. 4 + pad4 (length (attr_Value a))) attrs)"
  by (induction attrs) simp_all

lemma attr_fields:
  assumes "length (attr_Value a) < 2 ^ 16"
  shows "get_u16 (subslice 0 2 (attr_bytes a @ r)) = attr_Type a"
    and "unat (get_u16 (subslice 2 4 (attr_bytes a @ r))) = length (attr_Value a)"
    and "subslice 4 (4 + length (attr_Value a)) (attr_bytes a @ r) = attr_Value a"
  using assms by (simp_all add: attr_bytes_def wire_simps unat_of_nat subslice_append_right) (simp add: subslice_def)

lemma ParseAttrs_step:
  assumes "length (attr_Value a) < 2 ^ 16"
  shows "ParseAttrs (attr_bytes a @ r) = a # ParseAttrs r"
proof -
  have "\<not> 4 + length (attr_Value a) > length (attr_bytes a @ r)"
    using pad4_ge [of "length (attr_Value a)"] by simp
  then show ?thesis using attr_fields [OF assms, of r]
    by (subst ParseAttrs.simps) simp
qed

lemma ParseAttrs_concat:
  "\<forall>a \<in> set attrs. length (attr_Value a) < 2 ^ 16 \<Longrightarrow>
   ParseAttrs (concat (map attr_bytes attrs) @ r) = attrs @ ParseAttrs r"
  by (induction attrs) (simp_all add: ParseAttrs_step)

lemma ParseAttrs_Nil [simp]: "ParseAttrs [] = []"
  by (simp add: ParseAttrs.simps)

lemma find_attr_offset_rest:
  "find_attr_offset (h @ rest) (length h) t =
     (if 4 \<le> length rest then
        if get_u16 (subslice 0 2 rest) = t then int (length h)
        else find_attr_offset (h @ rest) (length h + (4 + pad4 (unat (get_u16 (subslice 2 4 rest))))) t
      else - 1)"
  by (subst find_attr_offset.simps) (simp add: get_u16_def subslice_def nth_append Let_def)

lemma find_attr_offset_concat:
  assumes "\<forall>a \<in> set attrs. length (attr_Value a) < 2 ^ 16 \<and> attr_Type a \<noteq> t"
  shows "find_attr_offset (h @ concat (map attr_bytes attrs) @ rest) (length h) t =
    find_attr_offset ((h @ concat (map attr_bytes attrs)) @ rest) (length (h @ concat (map attr_bytes attrs))) t"
  using assms
proof (induction attrs arbitrary: h)
  case (Cons a attrs)
  have a: "length (attr_Value a) < 2 ^ 16" "attr_Type a \<noteq> t" using Cons.prems by simp_all
  have "find_attr_offset (h @ attr_bytes a @ concat (map attr_bytes attrs) @ rest) (length h) t =
      find_attr_offset ((h @ attr_bytes a) @ concat (map attr_bytes attrs) @ rest) (length (h @ attr_bytes a)) t"
    using a attr_fields(1,2) [OF a(1)] by (subst find_attr_offset_rest) simp
  also have "\<dots> = find_attr_offset (((h @ attr_bytes a) @ concat (map attr_bytes attrs)) @ rest)
      (length ((h @ attr_bytes a) @ concat (map attr_bytes attrs))) t"
    using Cons.prems by (intro Cons.IH) simp
  finally show ?case by simp
qed simp

section \<open>Headers and integrity\<close>

text \<open>A message with a given length field, and the integrity attribute as an attribute.\<close>

definition with_header :: "u16 \<Rightarrow> u16 \<Rightarrow> bytes \<Rightarrow> bytes \<Rightarrow> bytes" where
  "with_header t n txn body = put_u16 t @ put_u16 n @ put_u32 MagicCookie @ txn @ body"

lemma BuildMessage_header:
  "BuildMessage t txn attrs = with_header t (word_of_nat (length (concat (map attr_bytes attrs)))) txn
     (concat (map attr_bytes attrs))"
  by (simp add: BuildMessage_def with_header_def length_attrs)

lemma with_header_reads:
  assumes "length txn = 12"
  shows "get_u16 (subslice 0 2 (with_header t n txn body)) = t"
    and "get_u16 (subslice 2 4 (with_header t n txn body)) = n"
    and "get_u32 (subslice 4 8 (with_header t n txn body)) = MagicCookie"
    and "subslice 8 20 (with_header t n txn body) = txn"
    and "drop 20 (with_header t n txn body) = body"
    and "length (with_header t n txn body) = 20 + length body"
    and "set_length (with_header t n txn body) m = with_header t m txn body"
    and "with_header t n txn body ! 0 = ucast (drop_bit 8 t)"
  using assms
  by (simp_all add: with_header_def wire_simps set_length_def)
     (simp_all add: subslice_def put_u16_def)

definition mi_attr :: "bytes \<Rightarrow> Attr" where
  "mi_attr hash = \<lparr>attr_Type = AttrMessageIntegrity, attr_Value = hash\<rparr>"

lemma mi_attr_bytes: "length hash = 20 \<Longrightarrow> attr_bytes (mi_attr hash) = put_u16 AttrMessageIntegrity @ put_u16 20 @ hash"
  by (simp add: attr_bytes_def mi_attr_def pad4_def)

text \<open>The message a holder of the key sends.\<close>

definition secured_hash :: "u16 \<Rightarrow> bytes \<Rightarrow> Attr list \<Rightarrow> bytes \<Rightarrow> bytes" where
  "secured_hash t txn attrs key =
     hmac_sha1 key (with_header t (word_of_nat (length (concat (map attr_bytes attrs)) + 24)) txn (concat (map attr_bytes attrs)))"

lemma AppendIntegrity_secured:
  assumes "length txn = 12"
  shows "AppendIntegrity (BuildMessage t txn attrs) key =
    with_header t (word_of_nat (length (concat (map attr_bytes attrs)) + 24)) txn
      (concat (map attr_bytes (attrs @ [mi_attr (secured_hash t txn attrs key)])))"
proof -
  let ?body = "concat (map attr_bytes attrs)"
  have len: "word_of_int (int (length (BuildMessage t txn attrs)) - 20 + 24) = (word_of_nat (length ?body + 24) :: u16)"
    using assms by (simp add: BuildMessage_header with_header_reads(6))
  have h: "length (secured_hash t txn attrs key) = 20" by (simp add: secured_hash_def)
  have "set_length (BuildMessage t txn attrs) (word_of_nat (length ?body + 24)) = with_header t (word_of_nat (length ?body + 24)) txn ?body"
    using assms by (simp only: BuildMessage_header with_header_reads(7))
  then have "AppendIntegrity (BuildMessage t txn attrs) key =
      with_header t (word_of_nat (length ?body + 24)) txn ?body @ attr_bytes (mi_attr (secured_hash t txn attrs key))"
    by (simp only: AppendIntegrity_def Let_def len mi_attr_bytes [OF h, unfolded secured_hash_def] secured_hash_def)
  then show ?thesis by (simp add: with_header_def)
qed

lemma VerifyIntegrity_secured:
  assumes "length txn = 12" "i = int (20 + length (concat (map attr_bytes attrs)))" "length h = 20"
  shows "VerifyIntegrity (with_header t n txn (concat (map attr_bytes attrs) @ attr_bytes (mi_attr h) @ rest)) i key
    \<longleftrightarrow> h = secured_hash t txn attrs key"
proof -
  let ?body = "concat (map attr_bytes attrs)"
  let ?msg = "with_header t n txn (?body @ attr_bytes (mi_attr h) @ rest)"
  have off: "nat i = length (with_header t n txn ?body)" using assms by (simp add: with_header_reads(6))
  have msg: "?msg = with_header t n txn ?body @ put_u16 AttrMessageIntegrity @ put_u16 20 @ h @ rest"
    using assms(3) by (simp add: with_header_def mi_attr_bytes)
  have buf: "take (nat i) ?msg = with_header t n txn ?body" by (simp add: msg off)
  have "subslice (nat i + 4) (nat i + 24) ?msg = h"
    using assms(3) by (simp add: msg off subslice_append_right) (simp add: subslice_def)
  moreover have "\<not> (i + 24 > int (length ?msg) \<or> i < 20)"
    using assms by (simp add: with_header_reads(6) mi_attr_bytes)
  moreover have "word_of_int (i - 20 + 24) = (word_of_nat (length ?body + 24) :: u16)"
    using assms(2) by simp
  ultimately show ?thesis
    by (simp only: VerifyIntegrity_def Let_def if_False buf with_header_reads(7) [OF assms(1)] secured_hash_def)
qed

lemma FindAttrOffset_secured:
  assumes "length txn = 12" "\<forall>a \<in> set attrs. length (attr_Value a) < 2 ^ 16 \<and> attr_Type a \<noteq> AttrMessageIntegrity"
    and "length h = 20"
  shows "FindAttrOffset (with_header t n txn (concat (map attr_bytes attrs) @ attr_bytes (mi_attr h) @ rest)) AttrMessageIntegrity
     = int (20 + length (concat (map attr_bytes attrs)))"
proof -
  let ?hd = "put_u16 t @ put_u16 n @ put_u32 MagicCookie @ txn" and ?body = "concat (map attr_bytes attrs)"
  let ?rest = "attr_bytes (mi_attr h) @ rest"
  have hd: "length ?hd = 20" using assms(1) by simp
  have "find_attr_offset (?hd @ ?body @ ?rest) (length ?hd) AttrMessageIntegrity =
      find_attr_offset ((?hd @ ?body) @ ?rest) (length (?hd @ ?body)) AttrMessageIntegrity"
    by (rule find_attr_offset_concat [OF assms(2)])
  also have "\<dots> = int (length (?hd @ ?body))"
    using assms(3) by (subst find_attr_offset_rest) (simp add: mi_attr_bytes wire_simps)
  finally show ?thesis using hd by (simp add: FindAttrOffset_def with_header_def)
qed

section \<open>Properties\<close>

lemma xor_cancel_word: "(x XOR y) XOR y = (x :: 'a :: len word)"
  by (simp add: xor.assoc)

lemma ipv4_bytes:
  "ucast (drop_bit 24 (get_u32 [a, b, c, d])) = a" "ucast (drop_bit 16 (get_u32 [a, b, c, d])) = b"
  "ucast (drop_bit 8 (get_u32 [a, b, c, d])) = c" "ucast (get_u32 [a, b, c, d]) = d"
  by (rule bit_word_eqI; auto simp: get_u32_def bit_simps dest: bit_imp_le_length)+

lemma ParseXORAddr_Encode:
  assumes "0 \<le> port" "port < 2 ^ 16" "EncodeXORAddr \<lparr>udp_IP = IPv4 a b c d, udp_Port = port\<rparr> = Some v"
  shows "ParseXORAddr v = Inr \<lparr>udp_IP = IPv4 a b c d, udp_Port = port\<rparr>" and "length v = 8"
proof -
  from assms(3) have v: "v = [0, FamilyIPv4] @ put_u16 (word_of_int port XOR ucast (drop_bit 16 MagicCookie))
      @ put_u32 (get_u32 [a, b, c, d] XOR MagicCookie)" by (simp add: EncodeXORAddr_def)
  show "length v = 8" by (simp add: v)
  have "uint (word_of_int port :: u16) = port" using assms(1,2) by (simp add: uint_word_of_int_eq take_bit_eq_mod)
  then show "ParseXORAddr v = Inr \<lparr>udp_IP = IPv4 a b c d, udp_Port = port\<rparr>"
    by (simp add: ParseXORAddr_def v wire_simps xor_cancel_word ipv4_bytes Let_def)
qed

text \<open>
  STUN messages survive the wire.  A message built from a type with clear top bits, a 12-byte
  transaction id and attributes of any length below \<open>2^16\<close> is recognised as STUN and gives back
  type, id and the attributes in order, padding removed.
\<close>

theorem stun_message_roundtrip:
  assumes "length txn = 12" "t AND 0xC000 = 0" "\<forall>a \<in> set attrs. length (attr_Value a) < 2 ^ 16"
  shows "IsMessage (BuildMessage t txn attrs) \<and> MsgType (BuildMessage t txn attrs) = Some t
     \<and> TxnID (BuildMessage t txn attrs) = Some txn
     \<and> ParseAttrs (drop HeaderSize (BuildMessage t txn attrs)) = attrs"
proof -
  have "ucast (drop_bit 8 t) AND (0xC0 :: byte) = ucast (drop_bit 8 (t AND 0xC000))"
    by (rule bit_word_eqI) (auto simp: bit_simps)
  then have "ucast (drop_bit 8 t) AND (0xC0 :: byte) = 0" using assms(2) by simp
  then show ?thesis using assms(1) ParseAttrs_concat [OF assms(3), of "[]"]
    by (simp add: BuildMessage_header with_header_reads IsMessage_def MsgType_def TxnID_def)
qed

theorem stun_message_roundtrip_witness:
  "ParseAttrs (drop HeaderSize (BuildMessage BindingRequest (replicate 12 7)
     [\<lparr>attr_Type = AttrUsername, attr_Value = [1, 2, 3]\<rparr>, \<lparr>attr_Type = AttrUseCandidate, attr_Value = []\<rparr>])) =
     [\<lparr>attr_Type = AttrUsername, attr_Value = [1, 2, 3]\<rparr>, \<lparr>attr_Type = AttrUseCandidate, attr_Value = []\<rparr>]"
  using stun_message_roundtrip [of "replicate 12 7" BindingRequest
     "[\<lparr>attr_Type = AttrUsername, attr_Value = [1, 2, 3]\<rparr>, \<lparr>attr_Type = AttrUseCandidate, attr_Value = []\<rparr>]"]
  by simp

lemma response_parses:
  assumes "length txn = 12" "0 \<le> port" "port < 2 ^ 16"
    and "BuildBindingResponse txn \<lparr>udp_IP = IPv4 a b c d, udp_Port = port\<rparr> key = Some msg"
  shows "parseBindingResponse msg txn = Inr (ip_String a b c d, port)"
    and "txn' \<noteq> txn \<Longrightarrow> parseBindingResponse msg txn' = Inl TxnMismatch"
proof -
  from assms(4) obtain v where v: "EncodeXORAddr \<lparr>udp_IP = IPv4 a b c d, udp_Port = port\<rparr> = Some v"
    and msg: "msg = AppendIntegrity (BuildMessage BindingResponse txn [\<lparr>attr_Type = AttrXORMappedAddress, attr_Value = v\<rparr>]) key"
    by (auto simp: BuildBindingResponse_def split: option.splits)
  let ?a = "\<lparr>attr_Type = AttrXORMappedAddress, attr_Value = v\<rparr>"
  note pv = ParseXORAddr_Encode [OF assms(2,3) v]
  define h where "h = secured_hash BindingResponse txn [?a] key"
  have h: "length h = 20" by (simp add: h_def secured_hash_def)
  have len: "length (attr_bytes ?a) = 12" "length (attr_bytes (mi_attr h)) = 24"
    using pv(2) h by (simp_all add: pad4_def mi_attr_def)
  have m: "msg = with_header BindingResponse 36 txn (attr_bytes ?a @ attr_bytes (mi_attr h))"
    using assms(1) by (simp add: msg AppendIntegrity_secured h_def [symmetric] pv(2) pad4_def)
  have "binding_attrs (attr_bytes ?a @ attr_bytes (mi_attr h)) [] 0 = Inr (ip_String a b c d, port)"
    using attr_fields [of ?a "attr_bytes (mi_attr h)"] pv len
    by (subst binding_attrs.simps) (simp add: udp_String_def)
  moreover have "subslice 20 56 msg = attr_bytes ?a @ attr_bytes (mi_attr h)"
    using len assms(1) by (simp add: m subslice_def with_header_reads)
  ultimately show "parseBindingResponse msg txn = Inr (ip_String a b c d, port)" using assms(1) len
    by (simp add: parseBindingResponse_def m with_header_reads)
  show "parseBindingResponse msg txn' = Inl TxnMismatch" if "txn' \<noteq> txn" using assms(1) that
    by (simp add: parseBindingResponse_def m with_header_reads)
qed

text \<open>
  Address discovery.  The Binding Response the agent builds for a peer at an IPv4 address and
  port, parsed with the same transaction id, yields exactly that address and port, although the
  integrity attribute follows; with another transaction id it is refused.
\<close>

theorem binding_response_roundtrip:
  assumes "length txn = 12" "0 \<le> port" "port < 2 ^ 16"
    and "BuildBindingResponse txn \<lparr>udp_IP = IPv4 a b c d, udp_Port = port\<rparr> key = Some msg"
  shows "parseBindingResponse msg txn = Inr (ip_String a b c d, port)
     \<and> (\<forall>txn'. txn' \<noteq> txn \<longrightarrow> parseBindingResponse msg txn' = Inl TxnMismatch)"
  using response_parses [OF assms] by blast

theorem binding_response_roundtrip_witness:
  "parseBindingResponse
     (the (BuildBindingResponse (replicate 12 7) \<lparr>udp_IP = IPv4 192 0 2 1, udp_Port = 4000\<rparr> [1])) (replicate 12 7)
     = Inr (ip_String 192 0 2 1, 4000)"
  by (rule binding_response_roundtrip [where key = "[1]", THEN conjunct1])
     (simp_all add: BuildBindingResponse_def EncodeXORAddr_def)

end
