(* ===== verification/Ice.thy ===== *)
theory Ice
  imports Stun
begin

text \<open>
  The ICE-Lite agent of \<open>ice/ice.go\<close>: credentials, candidate gathering, and the handler of
  connectivity checks.  The handler's mutex makes each call one step on the agent.
\<close>

datatype CandidateType = CandidateHost | CandidateServerReflexive | CandidateRelay

fun typePreference :: "CandidateType \<Rightarrow> u32" where
  "typePreference CandidateHost = 126"
| "typePreference CandidateServerReflexive = 100"
| "typePreference CandidateRelay = 0"

fun cand_String :: "CandidateType \<Rightarrow> string" where
  "cand_String CandidateHost = ''host''"
| "cand_String CandidateServerReflexive = ''srflx''"
| "cand_String CandidateRelay = ''relay''"

record Candidate =
  Foundation :: string
  Component :: u32
  Transport :: string
  Priority :: u32
  Addr :: UDPAddr
  cand_Type :: CandidateType
  RelAddr :: "UDPAddr option"

definition SDPValue :: "Candidate \<Rightarrow> string" where
  "SDPValue c =
     (let s = Foundation c @ '' '' @ Itoa (uint (Component c)) @ '' '' @ Transport c @ '' ''
              @ Itoa (uint (Priority c)) @ '' '' @ udp_String (Addr c) @ '' '' @ Itoa (udp_Port (Addr c))
              @ '' typ '' @ cand_String (cand_Type c)
      in case RelAddr c of
           None \<Rightarrow> s
         | Some r \<Rightarrow> s @ '' raddr '' @ udp_String r @ '' rport '' @ Itoa (udp_Port r))"

record ice_Credentials =
  Ufrag :: string
  Pwd :: string

record Agent =
  localCreds :: ice_Credentials
  candidates :: "Candidate list"
  ufragPrefix :: string
  remoteCreds :: "ice_Credentials option"
  nominatedAddr :: "UDPAddr option"

definition NewAgent :: "ice_Credentials \<Rightarrow> Candidate list \<Rightarrow> Agent" where
  "NewAgent creds cands = \<lparr>localCreds = creds, candidates = cands, ufragPrefix = Ufrag creds @ '':'',
     remoteCreds = None, nominatedAddr = None\<rparr>"

definition SetRemoteCredentials :: "ice_Credentials \<Rightarrow> Agent \<Rightarrow> Agent" where
  "SetRemoteCredentials creds a = a\<lparr>remoteCreds := Some creds\<rparr>"

text \<open>The outcome of a check: no response, the response bytes, or the panic on an IPv6 peer.\<close>

datatype reply = NoReply | Reply bytes | Panic

definition HandleBindingRequest :: "bytes \<Rightarrow> UDPAddr \<Rightarrow> Agent \<Rightarrow> reply \<times> Agent" where
  "HandleBindingRequest data from a =
     (if \<not> IsMessage data then (NoReply, a)
      else if MsgType data \<noteq> Some BindingRequest then (NoReply, a)
      else case TxnID data of
        None \<Rightarrow> (NoReply, a)
      | Some txnID \<Rightarrow>
          let attrs = ParseAttrs (drop HeaderSize data) in
          case FindAttr attrs AttrUsername of
            None \<Rightarrow> (NoReply, a)
          | Some usernameVal \<Rightarrow>
              if \<not> HasPrefix (string_of usernameVal) (ufragPrefix a) then (NoReply, a)
              else
                let miOffset = FindAttrOffset data AttrMessageIntegrity in
                if miOffset < 0 then (NoReply, a)
                else if \<not> VerifyIntegrity data miOffset (bytes_of (Pwd (localCreds a))) then (NoReply, a)
                else
                  let a = (if FindAttr attrs AttrUseCandidate \<noteq> None
                           then a\<lparr>nominatedAddr := Some from\<rparr> else a)
                  in case BuildBindingResponse txnID from (bytes_of (Pwd (localCreds a))) of
                       None \<Rightarrow> (Panic, a)
                     | Some resp \<Rightarrow> (Reply resp, a))"

definition ComputePriority :: "CandidateType \<Rightarrow> u32 \<Rightarrow> u32 \<Rightarrow> u32" where
  "ComputePriority candType component localPref =
     push_bit 24 1 * typePreference candType + push_bit 8 1 * localPref + (256 - component)"

definition GatherCandidates :: "UDPAddr \<Rightarrow> UDPAddr option \<Rightarrow> UDPAddr option \<Rightarrow> u32 \<Rightarrow> Candidate list" where
  "GatherCandidates localAddr srflxAddr relayAddr component =
     [\<lparr>Foundation = ''1'', Component = component, Transport = ''UDP'',
       Priority = ComputePriority CandidateHost component 65535, Addr = localAddr,
       cand_Type = CandidateHost, RelAddr = None\<rparr>]
     @ (case srflxAddr of None \<Rightarrow> []
        | Some sr \<Rightarrow> [\<lparr>Foundation = ''2'', Component = component, Transport = ''UDP'',
            Priority = ComputePriority CandidateServerReflexive component 65535, Addr = sr,
            cand_Type = CandidateServerReflexive, RelAddr = Some localAddr\<rparr>])
     @ (case relayAddr of None \<Rightarrow> []
        | Some re \<Rightarrow> [\<lparr>Foundation = ''3'', Component = component, Transport = ''UDP'',
            Priority = ComputePriority CandidateRelay component 65535, Addr = re,
            cand_Type = CandidateRelay,
            RelAddr = Some (case srflxAddr of None \<Rightarrow> localAddr | Some sr \<Rightarrow> sr)\<rparr>])"

section \<open>Checks by a peer that knows the password\<close>

lemma FindAttr_append:
  "FindAttr (as @ bs) t = (case FindAttr as t of None \<Rightarrow> FindAttr bs t | Some v \<Rightarrow> Some v)"
  by (induction as) simp_all

lemma FindAttr_None: "FindAttr as t = None \<longleftrightarrow> t \<notin> attr_Type ` set as"
  by (induction as) auto

text \<open>A request as such a peer builds it, followed by further attributes.\<close>

definition check_request :: "bytes \<Rightarrow> Attr list \<Rightarrow> bytes \<Rightarrow> Attr list \<Rightarrow> bytes" where
  "check_request txn attrs key extra =
     AppendIntegrity (BuildMessage BindingRequest txn attrs) key @ concat (map attr_bytes extra)"

lemma check_request_header:
  assumes "length txn = 12"
  shows "\<exists>n h. length h = 20 \<and> h = secured_hash BindingRequest txn attrs key \<and>
    check_request txn attrs key extra =
      with_header BindingRequest n txn (concat (map attr_bytes attrs) @ attr_bytes (mi_attr h) @ concat (map attr_bytes extra))"
  using assms
  by (auto simp: check_request_def AppendIntegrity_secured with_header_def secured_hash_def)

lemma check_request_accepted:
  assumes txn: "length txn = 12"
    and attrs: "\<forall>x \<in> set attrs. length (attr_Value x) < 2 ^ 16 \<and> attr_Type x \<noteq> AttrMessageIntegrity"
    and extra: "\<forall>x \<in> set extra. length (attr_Value x) < 2 ^ 16"
    and user: "FindAttr attrs AttrUsername = Some (bytes_of (ufragPrefix a @ u))"
    and peer: "EncodeXORAddr from \<noteq> None"
  shows "\<exists>resp. BuildBindingResponse txn from (bytes_of (Pwd (localCreds a))) = Some resp \<and>
    HandleBindingRequest (check_request txn attrs (bytes_of (Pwd (localCreds a))) extra) from a =
      (Reply resp, if AttrUseCandidate \<in> attr_Type ` set (attrs @ extra) then a\<lparr>nominatedAddr := Some from\<rparr> else a)"
proof -
  let ?key = "bytes_of (Pwd (localCreds a))"
  obtain n h where h: "length h = 20" "h = secured_hash BindingRequest txn attrs ?key"
    and req: "check_request txn attrs ?key extra =
      with_header BindingRequest n txn (concat (map attr_bytes attrs) @ attr_bytes (mi_attr h) @ concat (map attr_bytes extra))"
    using check_request_header [OF txn] by blast
  note hd = with_header_reads [OF txn]
  have "\<forall>x \<in> set (attrs @ [mi_attr h] @ extra). length (attr_Value x) < 2 ^ 16"
    using attrs extra h(1) by (auto simp: mi_attr_def)
  from ParseAttrs_concat [OF this, of "[]"]
  have pa: "ParseAttrs (concat (map attr_bytes attrs) @ attr_bytes (mi_attr h) @ concat (map attr_bytes extra))
      = attrs @ [mi_attr h] @ extra" by simp
  obtain resp where resp: "BuildBindingResponse txn from ?key = Some resp"
    using peer by (auto simp: BuildBindingResponse_def)
  have use: "FindAttr (attrs @ [mi_attr h] @ extra) AttrUseCandidate \<noteq> None
      \<longleftrightarrow> AttrUseCandidate \<in> attr_Type ` set (attrs @ extra)"
    unfolding FindAttr_None by (auto simp: mi_attr_def)
  have user': "FindAttr (attrs @ [mi_attr h] @ extra) AttrUsername = Some (bytes_of (ufragPrefix a @ u))"
    by (simp add: FindAttr_append user)
  define m where "m = check_request txn attrs ?key extra"
  define off where "off = int (20 + length (concat (map attr_bytes attrs)))"
  have m: "IsMessage m" "MsgType m = Some BindingRequest" "TxnID m = Some txn"
      "ParseAttrs (drop HeaderSize m) = attrs @ [mi_attr h] @ extra"
    by (simp_all add: m_def req IsMessage_def MsgType_def TxnID_def hd pa)
  have offs: "FindAttrOffset m AttrMessageIntegrity = off" "\<not> off < 0"
    unfolding m_def req off_def by (rule FindAttrOffset_secured [OF txn attrs h(1)]) simp
  have ver: "VerifyIntegrity m off ?key"
    unfolding m_def req by (simp only: VerifyIntegrity_secured [OF txn off_def h(1)] h(2) [symmetric])
  have pre: "HasPrefix (string_of (bytes_of (ufragPrefix a @ u))) (ufragPrefix a)"
    by (simp add: HasPrefix_def)
  have "HandleBindingRequest m from a =
      (Reply resp, if AttrUseCandidate \<in> attr_Type ` set (attrs @ extra) then a\<lparr>nominatedAddr := Some from\<rparr> else a)"
    unfolding HandleBindingRequest_def Let_def m option.case user' offs pre ver use
    using resp offs(2) ver pre m(1) by simp
  then show ?thesis using resp by (simp add: m_def)
qed

section \<open>Properties\<close>


definition demo_agent :: Agent where
  "demo_agent = NewAgent \<lparr>Ufrag = ''abcd'', Pwd = ''secret''\<rparr> []"

definition demo_attrs :: "Attr list" where
  "demo_attrs = [\<lparr>attr_Type = AttrUsername, attr_Value = bytes_of ''abcd:peer''\<rparr>,
     \<lparr>attr_Type = AttrUseCandidate, attr_Value = []\<rparr>]"

abbreviation demo_peer :: UDPAddr where
  "demo_peer \<equiv> \<lparr>udp_IP = IPv4 192 0 2 1, udp_Port = 4000\<rparr>"



text \<open>
  Attributes behind the integrity attribute are honoured although no HMAC covers them.  Any
  request of a legitimate peer that does not ask for nomination, with a USE-CANDIDATE attribute
  appended by someone who does not know the password, nominates the address it came from.
\<close>

theorem ice_nomination_not_covered:
  assumes "length txn = 12" "EncodeXORAddr from \<noteq> None"
    and "\<forall>x \<in> set attrs. length (attr_Value x) < 2 ^ 16 \<and> attr_Type x \<noteq> AttrMessageIntegrity"
    and "FindAttr attrs AttrUsername = Some (bytes_of (ufragPrefix a @ u))"
  shows "nominatedAddr (snd (HandleBindingRequest
      (AppendIntegrity (BuildMessage BindingRequest txn attrs) (bytes_of (Pwd (localCreds a)))
        @ put_u16 AttrUseCandidate @ put_u16 0) from a)) = Some from"
proof -
  let ?x = "\<lparr>attr_Type = AttrUseCandidate, attr_Value = []\<rparr>"
  have "attr_bytes ?x = put_u16 AttrUseCandidate @ put_u16 0" by (simp add: attr_bytes_def pad4_def)
  then show ?thesis using check_request_accepted [OF assms(1,3) _ assms(4,2), of "[?x]"]
    by (auto simp: check_request_def)
qed

theorem ice_nomination_not_covered_witness:
  "nominatedAddr (snd (HandleBindingRequest
      (AppendIntegrity (BuildMessage BindingRequest (replicate 12 7) [hd demo_attrs]) (bytes_of ''secret'')
        @ put_u16 AttrUseCandidate @ put_u16 0) demo_peer demo_agent)) = Some demo_peer"
  using ice_nomination_not_covered [of "replicate 12 7" demo_peer "[hd demo_attrs]" demo_agent "''peer''"]
  by (simp add: demo_agent_def demo_attrs_def NewAgent_def EncodeXORAddr_def)

text \<open>
  Candidate priorities follow the type order.  For components up to 256 and local preferences of
  16 bits no product or sum wraps, so the priority is the formula of RFC 8445, and a host
  candidate outranks a reflexive one, which outranks a relayed one, whatever their preferences.
\<close>

theorem candidate_priority_order:
  assumes "unat component \<le> 256" "unat p < 2 ^ 16" "unat q < 2 ^ 16"
  shows "unat (ComputePriority t component p) = 2 ^ 24 * unat (typePreference t) + 2 ^ 8 * unat p + (256 - unat component)
    \<and> ComputePriority CandidateServerReflexive component p < ComputePriority CandidateHost component q
    \<and> ComputePriority CandidateRelay component p < ComputePriority CandidateServerReflexive component q"
proof -
  have eq: "unat (ComputePriority t component p) = 2 ^ 24 * unat (typePreference t) + 2 ^ 8 * unat p + (256 - unat component)"
    if "unat p < 2 ^ 16" for t and p :: u32
  proof -
    define n where "n = 2 ^ 24 * unat (typePreference t) + 2 ^ 8 * unat p + (256 - unat component)"
    have "n < 2 ^ 32" using that by (cases t) (simp_all add: n_def)
    moreover have "ComputePriority t component p = word_of_nat n"
      using assms(1) by (simp add: ComputePriority_def n_def of_nat_diff push_bit_eq_mult)
    ultimately have "unat (ComputePriority t component p) = n" by (simp only: unat_of_nat) simp
    then show ?thesis by (simp only: n_def)
  qed
  show ?thesis using assms by (simp add: word_less_nat_alt eq) linarith
qed

theorem candidate_priority_order_witness:
  "unat (ComputePriority CandidateHost 1 65535) = 2130706431"
  using candidate_priority_order [of 1 65535 0 CandidateHost] by simp

end
