(* ===== verification/Dtmf.thy ===== *)
theory Dtmf
  imports Rtp GoStrings
begin

text \<open>
  DTMF: the RFC 4733 events and SIP INFO bodies of \<open>dtmf.go\<close>, and the receiver \<open>handleDTMF\<close> of
  \<open>media.go\<close>, whose callback calls are the list of digits it returns.
\<close>

abbreviation DTMFPayloadType :: byte where "DTMFPayloadType \<equiv> 101"

record DTMFEvent =
  Digit :: string
  Duration :: u16
  End :: bool
  Volume :: byte

definition dtmfDigits :: "string \<rightharpoonup> int" where
  "dtmfDigits = [''0'' \<mapsto> 0, ''1'' \<mapsto> 1, ''2'' \<mapsto> 2, ''3'' \<mapsto> 3, ''4'' \<mapsto> 4, ''5'' \<mapsto> 5, ''6'' \<mapsto> 6,
     ''7'' \<mapsto> 7, ''8'' \<mapsto> 8, ''9'' \<mapsto> 9, ''*'' \<mapsto> 10, ''#'' \<mapsto> 11, ''A'' \<mapsto> 12, ''B'' \<mapsto> 13, ''C'' \<mapsto> 14, ''D'' \<mapsto> 15]"

definition dtmfCodes :: "int \<rightharpoonup> string" where
  "dtmfCodes = [0 \<mapsto> ''0'', 1 \<mapsto> ''1'', 2 \<mapsto> ''2'', 3 \<mapsto> ''3'', 4 \<mapsto> ''4'', 5 \<mapsto> ''5'', 6 \<mapsto> ''6'',
     7 \<mapsto> ''7'', 8 \<mapsto> ''8'', 9 \<mapsto> ''9'', 10 \<mapsto> ''*'', 11 \<mapsto> ''#'', 12 \<mapsto> ''A'', 13 \<mapsto> ''B'', 14 \<mapsto> ''C'', 15 \<mapsto> ''D'']"

definition DTMFDigitCode :: "string \<Rightarrow> int" where
  "DTMFDigitCode digit = (case dtmfDigits digit of None \<Rightarrow> - 1 | Some code \<Rightarrow> code)"

definition DTMFCodeDigit :: "int \<Rightarrow> string" where
  "DTMFCodeDigit code = (case dtmfCodes code of None \<Rightarrow> [] | Some d \<Rightarrow> d)"

definition dtmf_packet :: "int \<Rightarrow> u32 \<Rightarrow> u16 \<Rightarrow> u32 \<Rightarrow> nat \<Rightarrow> rtp_packet" where
  "dtmf_packet code ts sq ssrc i =
     (let endBit = (if i = 2 then 0x80 else 0 :: byte);
          payload = [word_of_int code, endBit OR 10] @ put_u16 ([160, 320, 320] ! i)
      in \<lparr>Marker = (i = 0), PayloadType = DTMFPayloadType, SequenceNumber = sq + word_of_nat i,
          Timestamp = ts, SSRC = ssrc, Payload = payload\<rparr>)"

text \<open>\<open>None\<close> is \<open>ErrInvalidDTMFDigit\<close>.\<close>

definition EncodeDTMF :: "string \<Rightarrow> u32 \<Rightarrow> u16 \<Rightarrow> u32 \<Rightarrow> rtp_packet list option" where
  "EncodeDTMF digit ts sq ssrc =
     (let code = DTMFDigitCode digit in
      if code < 0 then None else Some (map (dtmf_packet code ts sq ssrc) [0, 1, 2]))"

definition DecodeDTMF :: "bytes \<Rightarrow> DTMFEvent option" where
  "DecodeDTMF payload =
     (if length payload < 4 then None
      else
        let digit = DTMFCodeDigit (uint (payload ! 0)) in
        if digit = [] then None
        else Some \<lparr>Digit = digit, Duration = get_u16 (subslice 2 4 payload),
                   End = (payload ! 1 AND 0x80 \<noteq> 0), Volume = payload ! 1 AND 0x3F\<rparr>)"

definition EncodeInfoDTMF :: "string \<Rightarrow> int \<Rightarrow> string option" where
  "EncodeInfoDTMF digit durationMs =
     (if DTMFDigitCode digit < 0 then None
      else Some (''Signal='' @ digit @ CRLF @ ''Duration='' @ Itoa durationMs @ CRLF))"

definition upper_char :: "char \<Rightarrow> char" where
  "upper_char c = (let n = of_char c :: nat in if 97 \<le> n \<and> n \<le> 122 then char_of (n - 32) else c)"

definition ToUpper :: "string \<Rightarrow> string" where
  "ToUpper s = map upper_char s"

fun info_lines :: "string list \<Rightarrow> string" where
  "info_lines [] = []"
| "info_lines (l # ls) =
     (let line = TrimSpace l in
      case IndexByte line CHR ''='' of
        None \<Rightarrow> info_lines ls
      | Some eq \<Rightarrow>
          if \<not> EqualFold (TrimSpace (take eq line)) ''signal'' then info_lines ls
          else let val = ToUpper (TrimSpace (drop (eq + 1) line))
               in if val \<noteq> [] \<and> DTMFDigitCode val \<ge> 0 then val else info_lines ls)"

definition ParseInfoDTMF :: "string \<Rightarrow> string" where
  "ParseInfoDTMF body = info_lines (Split body [LF])"

section \<open>The receiver\<close>

datatype DtmfMode = DtmfRfc4733 | DtmfSipInfo | DtmfBoth

record dtmf_state =
  lastDTMFTimestamp :: u32
  lastDTMFSeen :: bool

definition dtmf_init :: dtmf_state where
  "dtmf_init = \<lparr>lastDTMFTimestamp = 0, lastDTMFSeen = False\<rparr>"

definition handleDTMF :: "DtmfMode \<Rightarrow> rtp_packet \<Rightarrow> dtmf_state \<Rightarrow> string list \<times> dtmf_state" where
  "handleDTMF mode p s =
     (case DecodeDTMF (Payload p) of
        None \<Rightarrow> ([], s)
      | Some ev \<Rightarrow>
          if \<not> End ev then ([], s)
          else if lastDTMFSeen s \<and> Timestamp p = lastDTMFTimestamp s then ([], s)
          else
            let s = s\<lparr>lastDTMFTimestamp := Timestamp p, lastDTMFSeen := True\<rparr>
            in (if mode \<noteq> DtmfSipInfo then [Digit ev] else [], s))"

fun dtmf_feed :: "DtmfMode \<Rightarrow> rtp_packet list \<Rightarrow> dtmf_state \<Rightarrow> string list \<times> dtmf_state" where
  "dtmf_feed mode [] s = ([], s)"
| "dtmf_feed mode (p # ps) s =
     (let (ds, s') = handleDTMF mode p s; (ds', s'') = dtmf_feed mode ps s' in (ds @ ds', s''))"

section \<open>Tables\<close>

lemma dtmf_tables:
  "DTMFDigitCode d \<ge> 0 \<longleftrightarrow> d \<in> set (map (\<lambda>c. [c]) ''0123456789*#ABCD'')"
  by (auto simp: DTMFDigitCode_def dtmfDigits_def split: if_splits)

lemma dtmf_code_inverse:
  assumes "DTMFDigitCode d \<ge> 0"
  shows "DTMFDigitCode d < 16" and "DTMFCodeDigit (DTMFDigitCode d) = d" and "d \<noteq> []"
  using assms unfolding dtmf_tables
  by (auto simp: DTMFDigitCode_def dtmfDigits_def DTMFCodeDigit_def dtmfCodes_def)

lemma decode_dtmf_packet:
  assumes "DTMFDigitCode d \<ge> 0"
  shows "DecodeDTMF (Payload (dtmf_packet (DTMFDigitCode d) ts sq ssrc i)) =
    Some \<lparr>Digit = d, Duration = [160, 320, 320] ! i, End = (i = 2), Volume = 10\<rparr>"
proof -
  have "uint (word_of_int (DTMFDigitCode d) :: byte) = DTMFDigitCode d"
    using assms dtmf_code_inverse(1) [OF assms] by (simp add: uint_word_of_int_eq take_bit_eq_mod)
  then show ?thesis using dtmf_code_inverse [OF assms]
    by (simp add: DecodeDTMF_def dtmf_packet_def wire_simps)
qed

section \<open>Properties\<close>

text \<open>A burst: whatever the network made of the three packets of a digit, loss, duplication and
  reordering included, as long as the packet with the end bit came through.\<close>

definition burst :: "string \<Rightarrow> u32 \<Rightarrow> rtp_packet list \<Rightarrow> bool" where
  "burst d ts ps \<longleftrightarrow> DTMFDigitCode d \<ge> 0 \<and> (\<exists>sq ssrc. set ps \<subseteq> set (the (EncodeDTMF d ts sq ssrc))
     \<and> the (EncodeDTMF d ts sq ssrc) ! 2 \<in> set ps)"

lemma handle_event:
  assumes "DTMFDigitCode d \<ge> 0"
  shows "handleDTMF mode (dtmf_packet (DTMFDigitCode d) ts sq ssrc i) s =
    (if i = 2 \<and> \<not> (lastDTMFSeen s \<and> lastDTMFTimestamp s = ts)
     then (if mode \<noteq> DtmfSipInfo then [d] else [], \<lparr>lastDTMFTimestamp = ts, lastDTMFSeen = True\<rparr>) else ([], s))"
  using decode_dtmf_packet [OF assms, of ts sq ssrc i]
  by (cases s) (auto simp: handleDTMF_def, simp_all add: dtmf_packet_def)

lemma burst_packets:
  assumes "DTMFDigitCode d \<ge> 0"
  shows "the (EncodeDTMF d ts sq ssrc) = map (dtmf_packet (DTMFDigitCode d) ts sq ssrc) [0, 1, 2]"
  using assms by (simp add: EncodeDTMF_def Let_def)

lemma feed_seen:
  assumes "DTMFDigitCode d \<ge> 0" "set ps \<subseteq> set (the (EncodeDTMF d ts sq ssrc))"
  shows "dtmf_feed mode ps \<lparr>lastDTMFTimestamp = ts, lastDTMFSeen = True\<rparr> = ([], \<lparr>lastDTMFTimestamp = ts, lastDTMFSeen = True\<rparr>)"
  using assms(2) unfolding burst_packets [OF assms(1)]
  by (induction ps) (auto simp: handle_event [OF assms(1)])

lemma feed_burst:
  assumes "burst d ts ps" "\<not> (lastDTMFSeen s \<and> lastDTMFTimestamp s = ts)"
  shows "dtmf_feed mode ps s = (if mode \<noteq> DtmfSipInfo then [d] else [], \<lparr>lastDTMFTimestamp = ts, lastDTMFSeen = True\<rparr>)"
proof -
  from assms(1) obtain sq ssrc where d: "DTMFDigitCode d \<ge> 0"
    and ps: "set ps \<subseteq> set (the (EncodeDTMF d ts sq ssrc))" "the (EncodeDTMF d ts sq ssrc) ! 2 \<in> set ps"
    by (auto simp: burst_def)
  let ?pk = "dtmf_packet (DTMFDigitCode d) ts sq ssrc"
  have "?pk 2 \<in> set ps" using ps(2) by (simp add: burst_packets [OF d])
  then show ?thesis using ps(1)
  proof (induction ps)
    case (Cons p ps)
    then obtain i where i: "i \<in> {0, 1, 2}" "p = ?pk i" by (auto simp: burst_packets [OF d])
    show ?case
    proof (cases "i = 2")
      case True
      then show ?thesis using feed_seen [OF d, of ps ts sq ssrc mode] Cons.prems i assms(2)
        by (simp add: handle_event [OF d])
    next
      case False
      then have "?pk i \<noteq> ?pk 2"
        using decode_dtmf_packet [OF d, of ts sq ssrc i] decode_dtmf_packet [OF d, of ts sq ssrc 2] by auto
      then show ?thesis using False Cons i by (simp add: handle_event [OF d])
    qed
  qed simp
qed

lemma dtmf_feed_append:
  "dtmf_feed mode (ps @ qs) s = (let (ds, s') = dtmf_feed mode ps s; (ds', s'') = dtmf_feed mode qs s' in (ds @ ds', s''))"
  by (induction ps arbitrary: s) (auto simp: Let_def split: prod.splits)

text \<open>Bursts one after the other, each with a timestamp that differs from the one before.\<close>

fun dialled :: "u32 option \<Rightarrow> (string \<times> u32 \<times> rtp_packet list) list \<Rightarrow> bool" where
  "dialled prev [] = True"
| "dialled prev ((d, ts, ps) # bs) = (burst d ts ps \<and> prev \<noteq> Some ts \<and> dialled (Some ts) bs)"

lemma feed_dialled:
  "dialled (if lastDTMFSeen s then Some (lastDTMFTimestamp s) else None) bs \<Longrightarrow>
   fst (dtmf_feed mode (concat (map (snd \<circ> snd) bs)) s) = (if mode \<noteq> DtmfSipInfo then map fst bs else [])"
proof (induction bs arbitrary: s)
  case (Cons b bs)
  obtain d ts ps where b: "b = (d, ts, ps)" by (cases b)
  have bu: "burst d ts ps" "\<not> (lastDTMFSeen s \<and> lastDTMFTimestamp s = ts)" "dialled (Some ts) bs"
    using Cons.prems b by (auto split: if_splits)
  show ?case using feed_burst [OF bu(1,2)] Cons.IH [of "\<lparr>lastDTMFTimestamp = ts, lastDTMFSeen = True\<rparr>"] bu(3)
    by (simp add: b dtmf_feed_append case_prod_beta)
qed simp

text \<open>
  The digits that are dialled are the digits that arrive.  Each digit travels as three packets;
  whatever of them is lost, duplicated or reordered within the digit, as long as the end packet
  arrives, the receiver reports each digit exactly once and in order, provided successive digits
  have different timestamps; in INFO mode it reports none from RTP.
\<close>

theorem dtmf_digits_once:
  assumes "dialled None bs"
  shows "fst (dtmf_feed mode (concat (map (snd \<circ> snd) bs)) dtmf_init) = (if mode \<noteq> DtmfSipInfo then map fst bs else [])"
  using feed_dialled [of dtmf_init bs mode] assms by (simp add: dtmf_init_def)

theorem dtmf_digits_once_witness:
  "fst (dtmf_feed DtmfBoth (concat (map (snd \<circ> snd)
      [(''5'', 160 :: u32, the (EncodeDTMF ''5'' 160 7 9)), (''5'', 960, the (EncodeDTMF ''5'' 960 10 9))])) dtmf_init) = [''5'', ''5'']"
  by (subst dtmf_digits_once)
     (auto simp: burst_def DTMFDigitCode_def dtmfDigits_def EncodeDTMF_def Let_def)

text \<open>
  The sender of this program defeats its own receiver.  \<open>SendDTMF\<close> builds every digit with
  timestamp, sequence number and SSRC zero, so of any number of digits sent in a row the
  receiver reports the first and drops the rest as repetitions of it.
\<close>

theorem dtmf_only_first_digit:
  assumes "ds \<noteq> []" "\<forall>d \<in> set ds. DTMFDigitCode d \<ge> 0" "mode \<noteq> DtmfSipInfo"
  shows "fst (dtmf_feed mode (concat (map (\<lambda>d. the (EncodeDTMF d 0 0 0)) ds)) dtmf_init) = [hd ds]"
proof -
  obtain d ds' where ds: "ds = d # ds'" using assms(1) by (cases ds) auto
  let ?s = "\<lparr>lastDTMFTimestamp = 0, lastDTMFSeen = True\<rparr>"
  have "burst d 0 (the (EncodeDTMF d 0 0 0))"
    using assms(2) ds by (auto simp: burst_def burst_packets)
  from feed_burst [OF this, of dtmf_init mode] assms(3)
  have first: "dtmf_feed mode (the (EncodeDTMF d 0 0 0)) dtmf_init = ([d], ?s)" by (simp add: dtmf_init_def)
  have "dtmf_feed mode (concat (map (\<lambda>d. the (EncodeDTMF d 0 0 0)) ds')) ?s = ([], ?s)"
    if "\<forall>d \<in> set ds'. DTMFDigitCode d \<ge> 0"
    using that by (induction ds') (auto simp: dtmf_feed_append feed_seen [OF _ subset_refl])
  then show ?thesis using first assms(2) by (simp add: ds dtmf_feed_append)
qed

theorem dtmf_only_first_digit_witness:
  "fst (dtmf_feed DtmfRfc4733 (concat (map (\<lambda>d. the (EncodeDTMF d 0 0 0)) [''1'', ''2'', ''3''])) dtmf_init) = [''1'']"
  using dtmf_only_first_digit [of "[''1'', ''2'', ''3'']" DtmfRfc4733]
  by (simp add: DTMFDigitCode_def dtmfDigits_def)

text \<open>
  The INFO body of a digit is parsed as that digit, for every valid digit and duration; an
  invalid digit has no body.
\<close>

theorem info_dtmf_roundtrip:
  "(case EncodeInfoDTMF d ms of
      Some body \<Rightarrow> DTMFDigitCode d \<ge> 0 \<and> ParseInfoDTMF body = d
    | None \<Rightarrow> DTMFDigitCode d < 0)"
proof (cases "DTMFDigitCode d < 0")
  case True
  then show ?thesis by (simp add: EncodeInfoDTMF_def)
next
  case False
  then have d: "d \<in> set (map (\<lambda>c. [c]) ''0123456789*#ABCD'')" using dtmf_tables [of d] by linarith
  have pure: "list_all (\<lambda>d. TrimSpace (''Signal='' @ d @ [CR]) = ''Signal='' @ d \<and> ToUpper (TrimSpace d) = d \<and> LF \<notin> set d)
      (map (\<lambda>c. [c]) ''0123456789*#ABCD'')" by code_simp
  then have p: "TrimSpace (''Signal='' @ d @ [CR]) = ''Signal='' @ d" "ToUpper (TrimSpace d) = d" "LF \<notin> set d"
    using d unfolding list_all_iff by blast+
  have body: "''Signal='' @ d @ CRLF @ ''Duration='' @ Itoa ms @ CRLF
      = (''Signal='' @ d @ [CR]) @ [LF] @ (''Duration='' @ Itoa ms @ CRLF)" by (simp add: CRLF_def)
  have split: "Split (''Signal='' @ d @ CRLF @ ''Duration='' @ Itoa ms @ CRLF) [LF]
      = (''Signal='' @ d @ [CR]) # Split (''Duration='' @ Itoa ms @ CRLF) [LF]"
    unfolding body by (rule Split_append) (use p(3) in simp)
  have idx: "IndexByte (''Signal='' @ d) CHR ''='' = Some 6" by simp
  have key: "EqualFold (TrimSpace ''Signal'') ''signal''" by code_simp
  have "info_lines ((''Signal='' @ d @ [CR]) # ls) = d" for ls
    using p False dtmf_code_inverse(3) [of d] idx key
    by (simp only: info_lines.simps Let_def option.case) (simp add: not_less)
  then show ?thesis using False split by (simp add: EncodeInfoDTMF_def ParseInfoDTMF_def del: info_lines.simps)
qed

end
