(* ===== verification/Video.thy ===== *)
theory Video
  imports Rtp
begin

text \<open>
  The video interfaces of \<open>internal/media/video.go\<close>, the VP8 payload format of
  \<open>internal/media/vp8.go\<close> and the loop of \<open>runVideo\<close> (\<open>media.go\<close>) that turns the payloads of a
  frame into RTP packets.  The Go interfaces \<open>VideoPacketizer\<close> and \<open>VideoDepacketizer\<close> are the
  locale \<open>video_codec\<close>, which the H.264 theory interprets a second time.
\<close>

record VideoFrame =
  vf_Timestamp :: u32
  vf_IsKeyframe :: bool
  vf_Data :: bytes

definition DefaultMTU :: int where "DefaultMTU = 1200"

text \<open>The packets \<open>runVideo\<close> sends for one frame: consecutive sequence numbers from
  \<open>outSeq\<close>, the frame's timestamp, the marker on the last payload.\<close>

fun frame_packets :: "byte \<Rightarrow> u32 \<Rightarrow> u32 \<Rightarrow> u16 \<Rightarrow> bytes list \<Rightarrow> rtp_packet list" where
  "frame_packets pt ssrc ts sq [] = []"
| "frame_packets pt ssrc ts sq (p # ps) =
     \<lparr>Marker = (ps = []), PayloadType = pt, SequenceNumber = sq, Timestamp = ts, SSRC = ssrc, Payload = p\<rparr>
       # frame_packets pt ssrc ts (sq + 1) ps"

text \<open>Feeding packets to a depacketizer, collecting the frames.\<close>

fun feed :: "(rtp_packet \<Rightarrow> 'd \<Rightarrow> VideoFrame list \<times> 'd) \<Rightarrow> rtp_packet list \<Rightarrow> 'd \<Rightarrow> VideoFrame list \<times> 'd" where
  "feed push [] d = ([], d)"
| "feed push (p # ps) d =
     (let (fs, d') = push p d; (fs', d'') = feed push ps d' in (fs @ fs', d''))"

lemma feed_append:
  "feed push (ps @ qs) d =
     (let (fs, d') = feed push ps d; (fs', d'') = feed push qs d' in (fs @ fs', d''))"
  by (induction ps arbitrary: d) (auto simp: Let_def split: prod.splits)

text \<open>The packets of a stream of frames, the sequence number running on.\<close>

fun stream_packets :: "(bytes \<Rightarrow> bytes list) \<Rightarrow> byte \<Rightarrow> u32 \<Rightarrow> u16 \<Rightarrow> (u32 \<times> bytes) list \<Rightarrow> rtp_packet list" where
  "stream_packets pk pt ssrc sq [] = []"
| "stream_packets pk pt ssrc sq ((ts, data) # fs) =
     frame_packets pt ssrc ts sq (pk data)
       @ stream_packets pk pt ssrc (sq + word_of_nat (length (pk data))) fs"

section \<open>The codec contract\<close>

text \<open>
  What the pipeline relies on: from an idle depacketizer, the packets of one admissible frame
  give back exactly that frame and leave the depacketizer idle.  The client's lemma: a whole
  stream of frames comes back.
\<close>

locale video_codec =
  fixes packetize :: "bytes \<Rightarrow> bytes list"
    and push :: "rtp_packet \<Rightarrow> 'd \<Rightarrow> VideoFrame list \<times> 'd"
    and idle :: "'d \<Rightarrow> bool"
    and good :: "bytes \<Rightarrow> bool"
    and keyframe :: "bytes \<Rightarrow> bool"
  assumes one_frame: "idle d \<Longrightarrow> good data \<Longrightarrow>
      fst (feed push (frame_packets pt ssrc ts sq (packetize data)) d) =
        [\<lparr>vf_Timestamp = ts, vf_IsKeyframe = keyframe data, vf_Data = data\<rparr>]"
    and idle_again: "idle d \<Longrightarrow> good data \<Longrightarrow>
      idle (snd (feed push (frame_packets pt ssrc ts sq (packetize data)) d))"
begin

lemma stream_roundtrip:
  "idle d \<Longrightarrow> \<forall>(ts, data) \<in> set fs. good data \<Longrightarrow>
   fst (feed push (stream_packets packetize pt ssrc sq fs) d) =
     map (\<lambda>(ts, data). \<lparr>vf_Timestamp = ts, vf_IsKeyframe = keyframe data, vf_Data = data\<rparr>) fs"
proof (induction fs arbitrary: sq d)
  case (Cons f fs)
  obtain ts data where f: "f = (ts, data)" by (cases f)
  have g: "good data" using Cons.prems(2) f by auto
  note one = one_frame [OF Cons.prems(1) g, of pt ssrc ts sq] idle_again [OF Cons.prems(1) g, of pt ssrc ts sq]
  show ?case using one(1) Cons.IH [OF one(2)] Cons.prems(2)
    by (simp add: f feed_append case_prod_beta)
qed simp

end

section \<open>VP8\<close>

record VP8Depacketizer =
  v_currentTS :: u32
  v_frameBuf :: bytes
  v_hasData :: bool
  v_isKeyframe :: bool

definition vp8_new :: VP8Depacketizer where
  "vp8_new = \<lparr>v_currentTS = 0, v_frameBuf = [], v_hasData = False, v_isKeyframe = False\<rparr>"

definition vp8_flushFrame :: "VP8Depacketizer \<Rightarrow> VideoFrame \<times> VP8Depacketizer" where
  "vp8_flushFrame d =
     (\<lparr>vf_Timestamp = v_currentTS d, vf_IsKeyframe = v_isKeyframe d, vf_Data = v_frameBuf d\<rparr>,
      d\<lparr>v_frameBuf := [], v_hasData := False, v_isKeyframe := False\<rparr>)"

text \<open>The length of the payload descriptor (RFC 7741, section 4.2) as \<open>Push\<close> walks it; it may
  point past the end of a truncated payload.\<close>

definition vp8_descLen :: "bytes \<Rightarrow> nat" where
  "vp8_descLen p =
     (let off = 1 in
      if drop_bit 7 (p ! 0) AND 1 = 1 \<and> off < length p then
        let ext = p ! off;
            iBit = drop_bit 7 ext AND 1;
            lBit = drop_bit 6 ext AND 1;
            tBit = drop_bit 5 ext AND 1;
            kBit = drop_bit 4 ext AND 1;
            off = off + 1;
            off = (if iBit = 1 \<and> off < length p then
                     (if p ! off AND 0x80 \<noteq> 0 \<and> off + 1 < length p then off + 2 else off + 1)
                   else off);
            off = (if lBit = 1 then off + 1 else off);
            off = (if tBit = 1 \<or> kBit = 1 then off + 1 else off)
        in off
      else off)"

definition vp8_Push :: "rtp_packet \<Rightarrow> VP8Depacketizer \<Rightarrow> VideoFrame list \<times> VP8Depacketizer" where
  "vp8_Push p d =
     (if Payload p = [] then ([], d)
      else
        let (frames, d) = (if v_hasData d \<and> Timestamp p \<noteq> v_currentTS d
                           then let (f, d) = vp8_flushFrame d in ([f], d) else ([], d));
            d = d\<lparr>v_currentTS := Timestamp p\<rparr>;
            sBit = drop_bit 4 (Payload p ! 0) AND 1;
            off = vp8_descLen (Payload p)
        in if off > length (Payload p) then (frames, d)
           else
             let vpPayload = drop off (Payload p);
                 d = (if sBit = 1
                      then (if vpPayload \<noteq> [] then d\<lparr>v_isKeyframe := (vpPayload ! 0 AND 1 = 0)\<rparr> else d)
                             \<lparr>v_hasData := True\<rparr>
                      else d);
                 d = (if v_hasData d then d\<lparr>v_frameBuf := v_frameBuf d @ vpPayload\<rparr> else d)
             in if Marker p \<and> v_hasData d
                then let (f, d) = vp8_flushFrame d in (frames @ [f], d)
                else (frames, d))"

text \<open>The fragmentation loop; \<open>Packetize\<close> calls it with \<open>maxPayload \<ge> 1\<close>.\<close>

function vp8_fragments :: "nat \<Rightarrow> bool \<Rightarrow> bytes \<Rightarrow> bytes list" where
  "vp8_fragments maxPayload first data =
     (if data = [] \<or> maxPayload = 0 then []
      else ((if first then 0x10 else 0x00) # take maxPayload data)
             # vp8_fragments maxPayload False (drop maxPayload data))"
  by auto
termination by (relation "measure (\<lambda>(_, _, data). length data)") auto

declare vp8_fragments.simps [simp del]

definition vp8_mtu :: "int \<Rightarrow> nat" where
  "vp8_mtu MTU = (let mtu = (if MTU \<le> 0 then DefaultMTU else MTU) in nat (if mtu < 2 then 2 else mtu))"

definition vp8_Packetize :: "int \<Rightarrow> bytes \<Rightarrow> bytes list" where
  "vp8_Packetize MTU data = (if data = [] then [] else vp8_fragments (vp8_mtu MTU - 1) True data)"

subsection \<open>Round trip\<close>

lemma vp8_desc_plain: "vp8_descLen (0x10 # r) = 1" "vp8_descLen (0x00 # r) = 1"
  by (simp_all add: vp8_descLen_def)

lemma vp8_continuation:
  assumes "v_hasData d" "v_currentTS d = ts" "0 < k" "data \<noteq> []"
  shows "feed vp8_Push (frame_packets pt ssrc ts sq (vp8_fragments k False data)) d =
    ([\<lparr>vf_Timestamp = ts, vf_IsKeyframe = v_isKeyframe d, vf_Data = v_frameBuf d @ data\<rparr>],
     d\<lparr>v_frameBuf := [], v_hasData := False, v_isKeyframe := False\<rparr>)"
  using assms
proof (induction "length data" arbitrary: data sq d rule: less_induct)
  case less
  let ?p = "(0x00 :: byte) # take k data"
  have step: "vp8_fragments k False data = ?p # vp8_fragments k False (drop k data)"
    using less.prems by (subst vp8_fragments.simps) simp
  let ?pkt = "\<lambda>m. \<lparr>Marker = m, PayloadType = pt, SequenceNumber = sq, Timestamp = ts, SSRC = ssrc, Payload = ?p\<rparr>"
  have push: "vp8_Push (?pkt False) d = ([], d\<lparr>v_frameBuf := v_frameBuf d @ take k data\<rparr>)"
    using less.prems by (simp add: vp8_Push_def vp8_desc_plain)
  show ?case
  proof (cases "drop k data = []")
    case True
    then have "vp8_fragments k False (drop k data) = []" by (simp add: vp8_fragments.simps)
    then show ?thesis using less.prems True step
      by (simp add: vp8_Push_def vp8_desc_plain vp8_flushFrame_def)
  next
    case False
    then have ne: "vp8_fragments k False (drop k data) \<noteq> []"
      using less.prems by (subst vp8_fragments.simps) simp
    have "feed vp8_Push (frame_packets pt ssrc ts (sq + 1) (vp8_fragments k False (drop k data)))
        (d\<lparr>v_frameBuf := v_frameBuf d @ take k data\<rparr>) =
      ([\<lparr>vf_Timestamp = ts, vf_IsKeyframe = v_isKeyframe d, vf_Data = (v_frameBuf d @ take k data) @ drop k data\<rparr>],
       (d\<lparr>v_frameBuf := v_frameBuf d @ take k data\<rparr>)\<lparr>v_frameBuf := [], v_hasData := False, v_isKeyframe := False\<rparr>)"
      using less.prems False by (subst less.hyps) auto
    then show ?thesis using push ne by (simp add: step)
  qed
qed

definition vp8_keyframe :: "bytes \<Rightarrow> bool" where
  "vp8_keyframe data \<longleftrightarrow> data ! 0 AND 1 = 0"

definition vp8_idle :: "VP8Depacketizer \<Rightarrow> bool" where
  "vp8_idle d \<longleftrightarrow> \<not> v_hasData d \<and> v_frameBuf d = []"

lemma vp8_frame:
  assumes "vp8_idle d" "data \<noteq> []"
  shows "\<exists>d'. vp8_idle d' \<and> feed vp8_Push (frame_packets pt ssrc ts sq (vp8_Packetize MTU data)) d =
    ([\<lparr>vf_Timestamp = ts, vf_IsKeyframe = vp8_keyframe data, vf_Data = data\<rparr>], d')"
proof -
  define k where "k = vp8_mtu MTU - 1"
  have k: "0 < k" by (simp add: k_def vp8_mtu_def DefaultMTU_def Let_def)
  let ?p = "(0x10 :: byte) # take k data"
  let ?d = "d\<lparr>v_currentTS := ts, v_isKeyframe := vp8_keyframe data, v_hasData := True,
      v_frameBuf := take k data\<rparr>"
  have step: "vp8_Packetize MTU data = ?p # vp8_fragments k False (drop k data)"
    using assms k by (subst vp8_Packetize_def, subst vp8_fragments.simps) (simp add: k_def)
  have hd: "take k data \<noteq> []" "take k data ! 0 = data ! 0" using assms(2) k by simp_all
  have push: "vp8_Push \<lparr>Marker = False, PayloadType = pt, SequenceNumber = sq, Timestamp = ts, SSRC = ssrc, Payload = ?p\<rparr> d
      = ([], ?d)"
    using assms hd by (simp add: vp8_Push_def vp8_desc_plain vp8_idle_def vp8_keyframe_def)
  show ?thesis
  proof (cases "drop k data = []")
    case True
    then have "vp8_fragments k False (drop k data) = []" by (simp add: vp8_fragments.simps)
    then show ?thesis using assms True step hd
      by (simp add: vp8_Push_def vp8_desc_plain vp8_flushFrame_def vp8_idle_def vp8_keyframe_def)
  next
    case False
    then have "vp8_fragments k False (drop k data) \<noteq> []"
      using k by (subst vp8_fragments.simps) simp
    then show ?thesis using push vp8_continuation [of ?d ts k "drop k data" pt ssrc "sq + 1"] k False
      by (simp add: step vp8_idle_def)
  qed
qed

interpretation vp8: video_codec "vp8_Packetize MTU" vp8_Push vp8_idle "\<lambda>data. data \<noteq> []" vp8_keyframe
proof
  fix d pt ssrc ts sq and data :: bytes
  assume "vp8_idle d" "data \<noteq> []"
  from vp8_frame [OF this, of pt ssrc ts sq MTU] obtain d' where
    "vp8_idle d'" "feed vp8_Push (frame_packets pt ssrc ts sq (vp8_Packetize MTU data)) d =
    ([\<lparr>vf_Timestamp = ts, vf_IsKeyframe = vp8_keyframe data, vf_Data = data\<rparr>], d')" by blast
  then show "fst (feed vp8_Push (frame_packets pt ssrc ts sq (vp8_Packetize MTU data)) d) =
      [\<lparr>vf_Timestamp = ts, vf_IsKeyframe = vp8_keyframe data, vf_Data = data\<rparr>]"
    and "vp8_idle (snd (feed vp8_Push (frame_packets pt ssrc ts sq (vp8_Packetize MTU data)) d))" by simp_all
qed

lemma vp8_fragments_bound: "p \<in> set (vp8_fragments k first data) \<Longrightarrow> 2 \<le> length p \<and> length p \<le> k + 1"
  by (induction k first data rule: vp8_fragments.induct)
     (subst (asm) (2) vp8_fragments.simps, auto split: if_splits simp: Suc_le_eq)

text \<open>
  VP8 transport is lossless.  For every configured MTU and every stream of non-empty frames with
  whatever timestamps (equal ones in a row too), the packets \<open>runVideo\<close> builds from
  \<open>Packetize\<close> reassemble to exactly those frames, in order, each with its timestamp and the
  key-frame flag of its first byte.
\<close>

theorem vp8_stream_roundtrip:
  assumes "\<forall>(ts, data) \<in> set fs. data \<noteq> []"
  shows "fst (feed vp8_Push (stream_packets (vp8_Packetize MTU) pt ssrc sq fs) vp8_new) =
     map (\<lambda>(ts, data). \<lparr>vf_Timestamp = ts, vf_IsKeyframe = vp8_keyframe data, vf_Data = data\<rparr>) fs"
  using vp8.stream_roundtrip [OF _ assms] by (simp add: vp8_new_def vp8_idle_def)

theorem vp8_stream_roundtrip_witness:
  "fst (feed vp8_Push (stream_packets (vp8_Packetize 3) 97 7 0xFFFF [(90, [0, 1, 2, 3, 4]), (90, [1])]) vp8_new) =
     [\<lparr>vf_Timestamp = 90, vf_IsKeyframe = True, vf_Data = [0, 1, 2, 3, 4]\<rparr>,
      \<lparr>vf_Timestamp = 90, vf_IsKeyframe = False, vf_Data = [1]\<rparr>]"
  using vp8_stream_roundtrip [of "[(90, [0, 1, 2, 3, 4]), (90, [1])]"] by (simp add: vp8_keyframe_def)

text \<open>
  Every VP8 payload carries at least one byte of the frame behind its descriptor and fits the
  MTU, which is the configured one, 1200 where none is configured and never below 2.
\<close>

theorem vp8_payload_bounds:
  assumes "p \<in> set (vp8_Packetize MTU data)"
  shows "2 \<le> length p \<and> int (length p) \<le> (if MTU \<le> 0 then 1200 else max 2 MTU)"
proof -
  have "p \<in> set (vp8_fragments (vp8_mtu MTU - 1) True data)"
    using assms by (simp add: vp8_Packetize_def split: if_splits)
  from vp8_fragments_bound [OF this] have "2 \<le> length p" "length p \<le> vp8_mtu MTU - 1 + 1" by simp_all
  moreover have "int (vp8_mtu MTU) = (if MTU \<le> 0 then 1200 else max 2 MTU)" "0 < vp8_mtu MTU"
    by (simp_all add: vp8_mtu_def DefaultMTU_def)
  ultimately show ?thesis by simp
qed

theorem vp8_payload_bounds_witness:
  "2 \<le> length [0x10, 5, 6 :: byte] \<and> int (length [0x10, 5, 6 :: byte]) \<le> (if (3 :: int) \<le> 0 then 1200 else max 2 3)"
proof (rule vp8_payload_bounds)
  show "[0x10, 5, 6] \<in> set (vp8_Packetize 3 [5, 6, 7])"
    by (simp add: vp8_Packetize_def vp8_mtu_def vp8_fragments.simps)
qed

end
