(* ===== verification/H264.thy ===== *)
theory H264
  imports Video
begin

text \<open>
  The H.264 payload format of \<open>internal/media/h264.go\<close> (RFC 6184): single NAL units, STAP-A
  aggregation and FU-A fragmentation, Annex-B framing on both sides.  Loops over an index into a
  buffer are recursions over the rest of the buffer behind that index.
\<close>

abbreviation h264NalSTAPA :: byte where "h264NalSTAPA \<equiv> 24"
abbreviation h264NalFUA :: byte where "h264NalFUA \<equiv> 28"

definition annexBStartCode :: bytes where
  "annexBStartCode = [0x00, 0x00, 0x00, 0x01]"

record H264Depacketizer =
  h_currentTS :: u32
  h_nals :: "bytes list"
  h_isKeyframe :: bool
  h_hasData :: bool
  h_fuaBuf :: bytes
  h_fuaActive :: bool

definition h264_new :: H264Depacketizer where
  "h264_new = \<lparr>h_currentTS = 0, h_nals = [], h_isKeyframe = False, h_hasData = False,
     h_fuaBuf = [], h_fuaActive = False\<rparr>"

definition checkKeyframe :: "byte \<Rightarrow> H264Depacketizer \<Rightarrow> H264Depacketizer" where
  "checkKeyframe nalType d =
     (if nalType = 5 \<or> nalType = 7 \<or> nalType = 8 then d\<lparr>h_isKeyframe := True\<rparr> else d)"

definition pushSingleNAL :: "bytes \<Rightarrow> H264Depacketizer \<Rightarrow> H264Depacketizer" where
  "pushSingleNAL payload d =
     checkKeyframe (payload ! 0 AND 0x1F) (d\<lparr>h_nals := h_nals d @ [payload]\<rparr>)"

function stapa_loop :: "bytes \<Rightarrow> H264Depacketizer \<Rightarrow> H264Depacketizer" where
  "stapa_loop rest d =
     (if 2 \<le> length rest then
        let nalSize = unat (get_u16 rest); rest = drop 2 rest in
        if nalSize > length rest then d
        else
          let nal = take nalSize rest;
              d = d\<lparr>h_nals := h_nals d @ [nal]\<rparr>;
              d = (if nalSize > 0 then checkKeyframe (nal ! 0 AND 0x1F) d else d)
          in stapa_loop (drop nalSize rest) d
      else d)"
  by auto
termination by (relation "measure (\<lambda>(rest, _). length rest)") auto

declare stapa_loop.simps [simp del]

definition pushSTAPA :: "bytes \<Rightarrow> H264Depacketizer \<Rightarrow> H264Depacketizer" where
  "pushSTAPA payload d = stapa_loop (drop 1 payload) d"

definition pushFUA :: "bytes \<Rightarrow> H264Depacketizer \<Rightarrow> H264Depacketizer" where
  "pushFUA payload d =
     (if length payload < 2 then d
      else
        let fuIndicator = payload ! 0;
            fuHeader = payload ! 1;
            startBit = drop_bit 7 fuHeader AND 1;
            endBit = drop_bit 6 fuHeader AND 1;
            nalType = fuHeader AND 0x1F;
            d = (if startBit = 1 then
                   checkKeyframe nalType
                     (d\<lparr>h_fuaBuf := ((fuIndicator AND 0xE0) OR nalType) # drop 2 payload, h_fuaActive := True\<rparr>)
                 else if h_fuaActive d then d\<lparr>h_fuaBuf := h_fuaBuf d @ drop 2 payload\<rparr>
                 else d)
        in if endBit = 1 \<and> h_fuaActive d
           then d\<lparr>h_nals := h_nals d @ [h_fuaBuf d], h_fuaBuf := [], h_fuaActive := False\<rparr>
           else d)"

definition h264_flushFrame :: "H264Depacketizer \<Rightarrow> VideoFrame \<times> H264Depacketizer" where
  "h264_flushFrame d =
     (\<lparr>vf_Timestamp = h_currentTS d, vf_IsKeyframe = h_isKeyframe d,
       vf_Data = concat (map (\<lambda>nal. annexBStartCode @ nal) (h_nals d))\<rparr>,
      d\<lparr>h_nals := [], h_isKeyframe := False, h_hasData := False, h_fuaBuf := [], h_fuaActive := False\<rparr>)"

text \<open>The dispatch of \<open>Push\<close> on the NAL type of the payload.\<close>

definition absorb :: "bytes \<Rightarrow> H264Depacketizer \<Rightarrow> H264Depacketizer" where
  "absorb payload d =
     (let nalType = payload ! 0 AND 0x1F in
      if nalType \<ge> 1 \<and> nalType \<le> 23 then pushSingleNAL payload d
      else if nalType = h264NalSTAPA then pushSTAPA payload d
      else if nalType = h264NalFUA then pushFUA payload d
      else d)"

definition h264_Push :: "rtp_packet \<Rightarrow> H264Depacketizer \<Rightarrow> VideoFrame list \<times> H264Depacketizer" where
  "h264_Push p d =
     (if Payload p = [] then ([], d)
      else
        let (frames, d) = (if h_hasData d \<and> Timestamp p \<noteq> h_currentTS d
                           then let (f, d) = h264_flushFrame d in ([f], d) else ([], d));
            d = d\<lparr>h_currentTS := Timestamp p, h_hasData := True\<rparr>;
            d = absorb (Payload p) d
        in if Marker p \<and> h_hasData d
           then let (f, d) = h264_flushFrame d in (frames @ [f], d)
           else (frames, d))"

section \<open>Packetizer\<close>

text \<open>Start codes at the front of the rest of the buffer.\<close>

definition sc3 :: "bytes \<Rightarrow> bool" where
  "sc3 d \<longleftrightarrow> 3 \<le> length d \<and> d ! 0 = 0 \<and> d ! 1 = 0 \<and> d ! 2 = 1"

definition sc4 :: "bytes \<Rightarrow> bool" where
  "sc4 d \<longleftrightarrow> 4 \<le> length d \<and> d ! 0 = 0 \<and> d ! 1 = 0 \<and> d ! 2 = 0 \<and> d ! 3 = 1"

fun skip_to_start :: "bytes \<Rightarrow> bytes" where
  "skip_to_start [] = []"
| "skip_to_start (b # bs) =
     (if sc3 (b # bs) then drop 3 (b # bs) else if sc4 (b # bs) then drop 4 (b # bs) else skip_to_start bs)"

text \<open>The scan for the next start code: the bytes before it and the rest from it on.\<close>

fun scan_nal :: "bytes \<Rightarrow> bytes \<times> bytes" where
  "scan_nal [] = ([], [])"
| "scan_nal (b # bs) =
     (if sc3 (b # bs) \<or> sc4 (b # bs) then ([], b # bs)
      else let (nal, rest) = scan_nal bs in (b # nal, rest))"

lemma scan_nal_append: "fst (scan_nal d) @ snd (scan_nal d) = d"
  by (induction d) (auto simp: case_prod_beta)

lemma scan_nal_shrinks: "length (snd (scan_nal d)) \<le> length d"
  using arg_cong [OF scan_nal_append, of length d] by simp

function split_loop :: "bytes \<Rightarrow> bytes list" where
  "split_loop data =
     (if data = [] then []
      else
        let (nal, rest) = scan_nal data; out = (if nal \<noteq> [] then [nal] else []) in
        if sc4 rest then out @ split_loop (drop 4 rest)
        else if sc3 rest then out @ split_loop (drop 3 rest)
        else out)"
  by auto
termination
proof (relation "measure length")
  fix data :: bytes and x nal rest out
  assume "data \<noteq> []" "x = scan_nal data" "(nal, rest) = x"
  then have "length rest \<le> length data" using scan_nal_shrinks [of data] by (metis snd_conv)
  with \<open>data \<noteq> []\<close> show "(drop 4 rest, data) \<in> measure length" "(drop 3 rest, data) \<in> measure length"
    by (cases data; simp)+
qed simp

declare split_loop.simps [simp del]

definition splitAnnexB :: "bytes \<Rightarrow> bytes list" where
  "splitAnnexB data = split_loop (skip_to_start data)"

text \<open>The FU-A loop; \<open>Packetize\<close> calls it with \<open>maxPayload \<ge> 1\<close>.\<close>

function fua_fragments :: "byte \<Rightarrow> byte \<Rightarrow> nat \<Rightarrow> bool \<Rightarrow> bytes \<Rightarrow> bytes list" where
  "fua_fragments fuIndicator nalType maxPayload first data =
     (if data = [] \<or> maxPayload = 0 then []
      else
        let fuHeader = nalType;
            fuHeader = (if first then fuHeader OR 0x80 else fuHeader);
            fuHeader = (if drop maxPayload data = [] then fuHeader OR 0x40 else fuHeader)
        in (fuIndicator # fuHeader # take maxPayload data)
             # fua_fragments fuIndicator nalType maxPayload False (drop maxPayload data))"
  by auto
termination by (relation "measure (\<lambda>(_, _, _, _, data). length data)") auto

declare fua_fragments.simps [simp del]

definition fragmentFUA :: "bytes \<Rightarrow> nat \<Rightarrow> bytes list" where
  "fragmentFUA nal mtu =
     (if length nal < 1 then []
      else
        let nalHeader = nal ! 0;
            nalType = nalHeader AND 0x1F;
            nri = nalHeader AND 0xE0;
            fuIndicator = nri OR h264NalFUA
        in fua_fragments fuIndicator nalType (mtu - 2) True (drop 1 nal))"

definition h264_mtu :: "int \<Rightarrow> nat" where
  "h264_mtu MTU = (let mtu = (if MTU \<le> 0 then DefaultMTU else MTU) in nat (if mtu < 3 then 3 else mtu))"

definition h264_Packetize :: "int \<Rightarrow> bytes \<Rightarrow> bytes list" where
  "h264_Packetize MTU data =
     (let mtu = h264_mtu MTU; nals = splitAnnexB data in
      concat (map (\<lambda>nal. if nal = [] then []
                         else if length nal \<le> mtu then [nal]
                         else fragmentFUA nal mtu) nals))"

section \<open>Annex-B framing\<close>

definition annexB :: "bytes list \<Rightarrow> bytes" where
  "annexB nals = concat (map (\<lambda>nal. annexBStartCode @ nal) nals)"

lemma length_annexBStartCode [simp]: "length annexBStartCode = 4"
  by (simp add: annexBStartCode_def)

text \<open>A NAL unit as an encoder emits it: not empty, no start code inside.\<close>

fun no_start_code :: "bytes \<Rightarrow> bool" where
  "no_start_code [] = True"
| "no_start_code (b # bs) = (\<not> sc3 (b # bs) \<and> no_start_code bs)"

definition nal_ok :: "bytes \<Rightarrow> bool" where
  "nal_ok nal \<longleftrightarrow> nal \<noteq> [] \<and> no_start_code nal"

lemma sc4_sc3: "sc4 (b # bs) \<Longrightarrow> sc3 bs"
  by (auto simp: sc3_def sc4_def)

lemma sc3_before_start:
  "\<not> sc3 (b # nal) \<Longrightarrow> \<not> sc3 ((b # nal) @ annexBStartCode @ r)"
  by (cases nal; cases "tl nal") (auto simp: sc3_def annexBStartCode_def nth_Cons')

lemma sc4_before_start:
  "no_start_code (b # nal) \<Longrightarrow> \<not> sc4 ((b # nal) @ annexBStartCode @ r)"
proof
  assume ok: "no_start_code (b # nal)" and "sc4 ((b # nal) @ annexBStartCode @ r)"
  then have "sc3 (nal @ annexBStartCode @ r)" using sc4_sc3 by simp
  then show False
    using ok sc3_before_start [of "hd nal" "tl nal" r]
    by (cases nal) (auto simp: sc3_def annexBStartCode_def)
qed

lemma scan_nal_last: "no_start_code nal \<Longrightarrow> scan_nal nal = (nal, [])"
proof (induction nal)
  case (Cons b nal)
  then have "\<not> sc4 (b # nal)" using sc4_sc3 [of b nal] by (cases nal) (auto simp: sc4_def)
  with Cons show ?case by simp
qed simp

lemma scan_nal_before:
  "no_start_code nal \<Longrightarrow> scan_nal (nal @ annexBStartCode @ r) = (nal, annexBStartCode @ r)"
proof (induction nal)
  case Nil
  then show ?case by (simp add: annexBStartCode_def sc4_def)
next
  case (Cons b nal)
  then show ?case using sc3_before_start [of b nal r] sc4_before_start [of b nal r] by simp
qed

lemma split_annexB_loop:
  "\<forall>nal \<in> set (n # nals). nal_ok nal \<Longrightarrow> split_loop (n @ annexB nals) = n # nals"
proof (induction nals arbitrary: n)
  case Nil
  then show ?case
    by (subst split_loop.simps) (simp add: annexB_def nal_ok_def scan_nal_last sc3_def sc4_def)
next
  case (Cons m nals)
  have n: "n \<noteq> []" "no_start_code n" using Cons.prems by (simp_all add: nal_ok_def)
  have "annexB (m # nals) = annexBStartCode @ m @ annexB nals" by (simp add: annexB_def)
  moreover have "sc4 (annexBStartCode @ r)" for r
    by (simp add: annexBStartCode_def sc4_def)
  ultimately show ?case using n Cons.IH [of m] Cons.prems scan_nal_before [OF n(2), of "m @ annexB nals"]
    by (subst split_loop.simps) simp
qed

lemma splitAnnexB_annexB:
  assumes "\<forall>nal \<in> set nals. nal_ok nal" shows "splitAnnexB (annexB nals) = nals"
proof (cases nals)
  case Nil
  then show ?thesis by (simp add: splitAnnexB_def annexB_def split_loop.simps)
next
  case (Cons n ns)
  have "skip_to_start (annexB nals) = n @ annexB ns"
    by (simp add: Cons annexB_def annexBStartCode_def sc3_def sc4_def)
  then show ?thesis using assms Cons split_annexB_loop by (simp add: splitAnnexB_def)
qed

section \<open>Reassembly\<close>

lemma checkKeyframe_simps [simp]:
  "h_hasData (checkKeyframe t d) = h_hasData d" "h_currentTS (checkKeyframe t d) = h_currentTS d"
  "h_nals (checkKeyframe t d) = h_nals d" "h_fuaActive (checkKeyframe t d) = h_fuaActive d"
  "h_fuaBuf (checkKeyframe t d) = h_fuaBuf d"
  by (simp_all add: checkKeyframe_def)

lemma stapa_loop_keeps [simp]:
  "h_hasData (stapa_loop r d) = h_hasData d \<and> h_currentTS (stapa_loop r d) = h_currentTS d"
proof (induction r d rule: stapa_loop.induct)
  case (1 rest d)
  then show ?case by (simp add: stapa_loop.simps [of rest d] Let_def)
qed

lemma absorb_keeps [simp]: "h_hasData (absorb p d) = h_hasData d" "h_currentTS (absorb p d) = h_currentTS d"
  by (simp_all add: absorb_def pushSingleNAL_def pushSTAPA_def pushFUA_def Let_def)

lemma restamp: "h_hasData e \<Longrightarrow> h_currentTS e = ts \<Longrightarrow> e\<lparr>h_currentTS := ts, h_hasData := True\<rparr> = e"
  by simp

text \<open>Feeding the packets of one frame absorbs the payloads and then flushes once.\<close>

lemma feed_absorb:
  assumes "ps \<noteq> []" "\<forall>p \<in> set ps. p \<noteq> []" "h_hasData d \<longrightarrow> h_currentTS d = ts"
  shows "feed h264_Push (frame_packets pt ssrc ts sq ps) d =
    (let (f, d') = h264_flushFrame (fold absorb ps (d\<lparr>h_currentTS := ts, h_hasData := True\<rparr>)) in ([f], d'))"
  using assms
proof (induction ps arbitrary: sq d)
  case (Cons p ps)
  let ?d = "d\<lparr>h_currentTS := ts, h_hasData := True\<rparr>"
  show ?case
  proof (cases "ps = []")
    case True
    then show ?thesis using Cons.prems by (auto simp: h264_Push_def case_prod_beta Let_def)
  next
    case False
    have "h264_Push \<lparr>Marker = False, PayloadType = pt, SequenceNumber = sq, Timestamp = ts, SSRC = ssrc, Payload = p\<rparr> d
        = ([], absorb p ?d)"
      using Cons.prems by (auto simp: h264_Push_def)
    moreover have "(absorb p ?d)\<lparr>h_currentTS := ts, h_hasData := True\<rparr> = absorb p ?d"
      by (rule restamp) simp_all
    moreover note Cons.IH [of "absorb p ?d" "sq + 1", unfolded this]
    ultimately show ?thesis using Cons.prems(2) False
      by (simp only: frame_packets.simps feed.simps) (simp add: case_prod_beta Let_def)
  qed
qed simp

definition is_key_type :: "byte \<Rightarrow> bool" where
  "is_key_type t \<longleftrightarrow> t = 5 \<or> t = 7 \<or> t = 8"

definition take_nal :: "bytes \<Rightarrow> H264Depacketizer \<Rightarrow> H264Depacketizer" where
  "take_nal nal d = d\<lparr>h_nals := h_nals d @ [nal],
     h_isKeyframe := h_isKeyframe d \<or> is_key_type (nal ! 0 AND 0x1F), h_fuaBuf := [], h_fuaActive := False\<rparr>"

lemma nal_header_bits:
  "(b AND 0xE0 OR 28) AND 0x1F = (28 :: byte)"
  "((b AND 0xE0 OR 28) AND 0xE0) OR (b AND 0x1F) = (b :: byte)"
  "drop_bit 7 (b AND 0x1F) AND 1 = 0" "drop_bit 6 (b AND 0x1F) AND 1 = 0"
  "drop_bit 7 (b AND 0x1F OR 0x40) AND 1 = 0" "drop_bit 6 (b AND 0x1F OR 0x40) AND 1 = 1"
  "drop_bit 7 (b AND 0x1F OR 0x80) AND 1 = 1" "drop_bit 6 (b AND 0x1F OR 0x80) AND 1 = 0"
  "(b AND 0x1F OR 0x40) AND 0x1F = b AND 0x1F" "(b AND 0x1F OR 0x80) AND 0x1F = b AND 0x1F"
  "(b AND 0x1F) AND 0x1F = b AND 0x1F"
proof -
  have "(b AND 0xE0) OR (b AND 0x1F) = b AND (0xE0 OR 0x1F)" by (simp only: bit.conj_disj_distrib)
  also have "(0xE0 OR 0x1F :: byte) = - 1" by simp
  finally have id: "(b AND 0xE0) OR (b AND 0x1F) = b" by simp
  show "((b AND 0xE0 OR 28) AND 0xE0) OR (b AND 0x1F) = b"
    by (simp add: bit.conj_disj_distrib2 and.assoc id)
qed (simp_all add: bit.conj_disj_distrib2 and.assoc drop_bit_and drop_bit_or)

lemma fua_continuation:
  assumes "h_fuaActive d" "0 < k" "data \<noteq> []" "ind AND 0x1F = 28" "nt = b AND 0x1F"
  shows "fold absorb (fua_fragments ind nt k False data) d =
    d\<lparr>h_nals := h_nals d @ [h_fuaBuf d @ data], h_fuaBuf := [], h_fuaActive := False\<rparr>"
  using assms
proof (induction "length data" arbitrary: data d rule: less_induct)
  case less
  note bits = nal_header_bits [of b]
  show ?case
  proof (cases "drop k data = []")
    case True
    then have "fua_fragments ind nt k False data = [ind # (nt OR 0x40) # data]"
      using less.prems by (subst fua_fragments.simps) (simp add: fua_fragments.simps)
    then show ?thesis using less.prems bits by (simp add: absorb_def pushFUA_def)
  next
    case False
    then have "fua_fragments ind nt k False data =
        (ind # nt # take k data) # fua_fragments ind nt k False (drop k data)"
      using less.prems by (subst fua_fragments.simps) simp
    moreover have "absorb (ind # nt # take k data) d = d\<lparr>h_fuaBuf := h_fuaBuf d @ take k data\<rparr>"
      using less.prems bits by (simp add: absorb_def pushFUA_def)
    moreover have "fold absorb (fua_fragments ind nt k False (drop k data)) (d\<lparr>h_fuaBuf := h_fuaBuf d @ take k data\<rparr>) =
        d\<lparr>h_nals := h_nals d @ [(h_fuaBuf d @ take k data) @ drop k data], h_fuaBuf := [], h_fuaActive := False\<rparr>"
      using less.prems False by (subst less.hyps) auto
    ultimately show ?thesis by simp
  qed
qed

lemma fragmentFUA_absorb:
  assumes "mtu < length nal" "3 \<le> mtu"
  shows "fold absorb (fragmentFUA nal mtu) d = take_nal nal d"
proof -
  obtain b data where nal: "nal = b # data" using assms by (cases nal) auto
  define k where "k = mtu - 2"
  let ?ind = "(b AND 0xE0) OR 28 :: byte" and ?nt = "b AND 0x1F :: byte"
  note bits = nal_header_bits [of b]
  have k: "0 < k" "k < length data" "data \<noteq> []" using assms by (auto simp: k_def nal)
  let ?d = "d\<lparr>h_fuaBuf := b # take k data, h_fuaActive := True,
      h_isKeyframe := h_isKeyframe d \<or> is_key_type ?nt\<rparr>"
  have frag: "fragmentFUA nal mtu =
      (?ind # (?nt OR 0x80) # take k data) # fua_fragments ?ind ?nt k False (drop k data)"
    using k by (simp add: fragmentFUA_def nal k_def [symmetric] fua_fragments.simps [of ?ind ?nt k True data])
  have "absorb (?ind # (?nt OR 0x80) # take k data) d = ?d"
    using bits by (cases d) (auto simp: absorb_def pushFUA_def checkKeyframe_def is_key_type_def Let_def)
  then show ?thesis using k nal_header_bits(1) [of b]
    by (simp add: frag [unfolded nal] fua_continuation [of _ k _ ?ind ?nt b] take_nal_def nal)
qed

text \<open>A NAL unit the payload format can carry: its type is one of the single NAL unit types.\<close>

definition nal_sendable :: "bytes \<Rightarrow> bool" where
  "nal_sendable nal \<longleftrightarrow> nal_ok nal \<and> 1 \<le> nal ! 0 AND 0x1F \<and> nal ! 0 AND 0x1F \<le> 23"

abbreviation nal_payloads :: "nat \<Rightarrow> bytes \<Rightarrow> bytes list" where
  "nal_payloads mtu nal \<equiv> (if nal = [] then [] else if length nal \<le> mtu then [nal] else fragmentFUA nal mtu)"

lemma nal_payloads_absorb:
  assumes "nal_sendable nal" "3 \<le> mtu" "\<not> h_fuaActive d" "h_fuaBuf d = []"
  shows "fold absorb (nal_payloads mtu nal) d = take_nal nal d"
proof (cases "length nal \<le> mtu")
  case True
  with assms show ?thesis
    by (cases d) (auto simp: nal_sendable_def nal_ok_def absorb_def pushSingleNAL_def checkKeyframe_def
        take_nal_def is_key_type_def Let_def)
next
  case False
  with assms show ?thesis by (simp add: fragmentFUA_absorb nal_sendable_def nal_ok_def)
qed

lemma nals_absorb:
  assumes "\<forall>nal \<in> set nals. nal_sendable nal" "3 \<le> mtu" "\<not> h_fuaActive d" "h_fuaBuf d = []"
  shows "fold absorb (concat (map (nal_payloads mtu) nals)) d =
    d\<lparr>h_nals := h_nals d @ nals,
      h_isKeyframe := h_isKeyframe d \<or> (\<exists>nal \<in> set nals. is_key_type (nal ! 0 AND 0x1F))\<rparr>"
  using assms
proof (induction nals arbitrary: d)
  case (Cons nal nals)
  then have "fold absorb (nal_payloads mtu nal) d = take_nal nal d" by (intro nal_payloads_absorb) simp_all
  then show ?case using Cons by (simp add: take_nal_def disj_assoc)
qed simp

lemma fua_fragments_bound:
  "p \<in> set (fua_fragments ind nt k first data) \<Longrightarrow> 3 \<le> length p \<and> length p \<le> k + 2"
proof (induction ind nt k first data rule: fua_fragments.induct)
  case (1 ind nt k first data)
  then show ?case
    by (auto simp: fua_fragments.simps [of ind nt k first data] Let_def Suc_le_eq split: if_splits)
qed

lemma h264_mtu_ge: "3 \<le> h264_mtu MTU"
  by (auto simp: h264_mtu_def DefaultMTU_def le_nat_iff)

lemma h264_Packetize_bound:
  assumes "p \<in> set (h264_Packetize MTU data)" shows "p \<noteq> [] \<and> length p \<le> h264_mtu MTU"
proof -
  have "3 \<le> h264_mtu MTU" by (rule h264_mtu_ge)
  then show ?thesis using assms fua_fragments_bound
    by (fastforce simp: h264_Packetize_def fragmentFUA_def Let_def split: if_splits)
qed

definition h264_idle :: "H264Depacketizer \<Rightarrow> bool" where
  "h264_idle d \<longleftrightarrow> \<not> h_hasData d \<and> h_nals d = [] \<and> \<not> h_isKeyframe d \<and> \<not> h_fuaActive d \<and> h_fuaBuf d = []"

definition h264_good :: "bytes \<Rightarrow> bool" where
  "h264_good data \<longleftrightarrow> (\<exists>nals. nals \<noteq> [] \<and> (\<forall>nal \<in> set nals. nal_sendable nal) \<and> data = annexB nals)"

definition h264_keyframe :: "bytes \<Rightarrow> bool" where
  "h264_keyframe data \<longleftrightarrow> (\<exists>nal \<in> set (splitAnnexB data). is_key_type (nal ! 0 AND 0x1F))"

lemma h264_frame:
  assumes idle: "h264_idle d" and good: "h264_good data"
  shows "\<exists>d'. h264_idle d' \<and> feed h264_Push (frame_packets pt ssrc ts sq (h264_Packetize MTU data)) d =
    ([\<lparr>vf_Timestamp = ts, vf_IsKeyframe = h264_keyframe data, vf_Data = data\<rparr>], d')"
proof -
  from good obtain nals where nals: "nals \<noteq> []" "\<forall>nal \<in> set nals. nal_sendable nal" "data = annexB nals"
    by (auto simp: h264_good_def)
  have split: "splitAnnexB data = nals"
    using nals by (auto simp: nals(3) nal_sendable_def intro: splitAnnexB_annexB)
  have mtu: "3 \<le> h264_mtu MTU" by (rule h264_mtu_ge)
  let ?ps = "h264_Packetize MTU data" and ?d = "d\<lparr>h_currentTS := ts, h_hasData := True\<rparr>"
  have fold: "fold absorb ?ps ?d = ?d\<lparr>h_nals := nals, h_isKeyframe := h264_keyframe data\<rparr>"
    using nals_absorb [OF nals(2) mtu, of ?d] idle
    by (simp add: h264_Packetize_def split h264_keyframe_def h264_idle_def Let_def)
  then have "?ps \<noteq> []" using idle nals(1) by (cases d) (auto simp: h264_idle_def)
  moreover have "\<forall>p \<in> set ?ps. p \<noteq> []" using h264_Packetize_bound by blast
  moreover have "concat (map (\<lambda>nal. annexBStartCode @ nal) nals) = data" by (simp add: nals(3) annexB_def)
  ultimately show ?thesis using idle
    by (simp add: feed_absorb h264_idle_def fold h264_flushFrame_def)
qed

interpretation h264: video_codec "h264_Packetize MTU" h264_Push h264_idle h264_good h264_keyframe
proof
  fix d pt ssrc ts sq and data :: bytes
  assume "h264_idle d" "h264_good data"
  from h264_frame [OF this, of pt ssrc ts sq MTU] obtain d' where
    "h264_idle d'" "feed h264_Push (frame_packets pt ssrc ts sq (h264_Packetize MTU data)) d =
    ([\<lparr>vf_Timestamp = ts, vf_IsKeyframe = h264_keyframe data, vf_Data = data\<rparr>], d')" by blast
  then show "fst (feed h264_Push (frame_packets pt ssrc ts sq (h264_Packetize MTU data)) d) =
      [\<lparr>vf_Timestamp = ts, vf_IsKeyframe = h264_keyframe data, vf_Data = data\<rparr>]"
    and "h264_idle (snd (feed h264_Push (frame_packets pt ssrc ts sq (h264_Packetize MTU data)) d))" by simp_all
qed

section \<open>Properties\<close>

text \<open>
  Annex-B framing is unambiguous.  Units that are not empty and hold no start code come back
  from \<open>splitAnnexB\<close> exactly as they were framed, trailing zero bytes included.
\<close>

theorem annexB_roundtrip:
  assumes "\<forall>nal \<in> set nals. nal_ok nal"
  shows "splitAnnexB (concat (map (\<lambda>nal. annexBStartCode @ nal) nals)) = nals"
  using splitAnnexB_annexB [OF assms] by (simp add: annexB_def)

theorem annexB_roundtrip_witness:
  "splitAnnexB (concat (map (\<lambda>nal. annexBStartCode @ nal) [[0x65, 0, 0], [0x41, 1]])) = [[0x65, 0, 0], [0x41, 1]]"
  by (rule annexB_roundtrip) (simp add: nal_ok_def sc3_def)

text \<open>
  C22: H.264 transport is lossless.  For every configured MTU, a stream of Annex-B frames made of
  NAL units of the single-unit types comes back from the depacketizer as exactly those frames, in
  order, with their timestamps, marked as key frames when a unit is an IDR slice or a parameter
  set, whether the units travelled whole or as FU-A fragments.
\<close>

theorem h264_stream_roundtrip:
  assumes "\<forall>(ts, nals) \<in> set fs. nals \<noteq> [] \<and> (\<forall>nal \<in> set nals. nal_sendable nal)"
  shows "fst (feed h264_Push (stream_packets (h264_Packetize MTU) pt ssrc sq (map (\<lambda>(ts, nals). (ts, annexB nals)) fs)) h264_new) =
     map (\<lambda>(ts, nals). \<lparr>vf_Timestamp = ts,
        vf_IsKeyframe = (\<exists>nal \<in> set nals. nal ! 0 AND 0x1F \<in> {5, 7, 8}), vf_Data = annexB nals\<rparr>) fs"
proof -
  have good: "\<forall>(ts, data) \<in> set (map (\<lambda>(ts, nals). (ts, annexB nals)) fs). h264_good data"
    using assms by (auto simp: h264_good_def)
  have key: "h264_keyframe (annexB nals) = (\<exists>nal \<in> set nals. nal ! 0 AND 0x1F \<in> {5, 7, 8})"
    if "(ts, nals) \<in> set fs" for ts nals
  proof -
    have "\<forall>nal \<in> set nals. nal_ok nal" using assms that by (auto simp: nal_sendable_def)
    then show ?thesis by (simp add: h264_keyframe_def splitAnnexB_annexB is_key_type_def)
  qed
  show ?thesis using h264.stream_roundtrip [OF _ good, of h264_new MTU pt ssrc sq]
    by (simp add: h264_new_def h264_idle_def key cong: map_cong) (auto simp: key)
qed

text \<open>
  Every H.264 payload is non-empty and fits the MTU, which is the configured one, 1200 where
  none is configured and never below 3.
\<close>

theorem h264_payload_bounds:
  assumes "p \<in> set (h264_Packetize MTU data)"
  shows "p \<noteq> [] \<and> int (length p) \<le> (if MTU \<le> 0 then 1200 else max 3 MTU)"
proof -
  have "int (h264_mtu MTU) = (if MTU \<le> 0 then 1200 else max 3 MTU)"
    by (simp add: h264_mtu_def DefaultMTU_def)
  then show ?thesis using h264_Packetize_bound [OF assms] by simp
qed

theorem h264_payload_bounds_witness:
  "[0x65, 1, 2 :: byte] \<noteq> [] \<and> int (length [0x65, 1, 2 :: byte]) \<le> (if (4 :: int) \<le> 0 then 1200 else max 3 4)"
proof (rule h264_payload_bounds)
  have "splitAnnexB (annexB [[0x65, 1, 2]]) = [[0x65, 1, 2]]"
    by (rule splitAnnexB_annexB) (simp add: nal_ok_def sc3_def)
  then show "[0x65, 1, 2] \<in> set (h264_Packetize 4 (annexB [[0x65, 1, 2]]))"
    by (simp add: h264_Packetize_def h264_mtu_def)
qed

theorem h264_stream_roundtrip_witness:
  "fst (feed h264_Push (stream_packets (h264_Packetize 4) 96 7 0xFFFE
      (map (\<lambda>(ts, nals). (ts, annexB nals)) [(90, [[0x67, 1], [0x65, 2, 3, 4, 5, 6]]), (180, [[0x41, 9]])])) h264_new) =
     [\<lparr>vf_Timestamp = 90, vf_IsKeyframe = True, vf_Data = [0, 0, 0, 1, 0x67, 1, 0, 0, 0, 1, 0x65, 2, 3, 4, 5, 6]\<rparr>,
      \<lparr>vf_Timestamp = 180, vf_IsKeyframe = False, vf_Data = [0, 0, 0, 1, 0x41, 9]\<rparr>]"
  by (subst h264_stream_roundtrip)
     (simp_all add: nal_sendable_def nal_ok_def sc3_def annexB_def annexBStartCode_def)

end
