(* ===== verification/G711.thy ===== *)
theory G711
  imports XPrelude
begin

text \<open>
  The G.711 codecs of \<open>internal/media/pcmu.go\<close> and \<open>internal/media/pcma.go\<close>.  A PCM sample is
  a 16-bit word read with \<open>sint\<close>; the intermediate arithmetic is Go's \<open>int\<close>, which no value
  here overflows.  The lookup tables that the Go \<open>init\<close> functions fill are functions of the
  table index.
\<close>

type_synonym sample = "16 word"

section \<open>mu-law\<close>

definition muLawBias :: int where "muLawBias = 0x84"
definition muLawClip :: int where "muLawClip = 32635"

definition muLawDecodeTable :: "byte \<Rightarrow> sample" where
  "muLawDecodeTable i =
     (let b = i XOR 0xFF;
          t = push_bit 3 (uint (b AND 0x0F)) + muLawBias;
          t = push_bit (unat (drop_bit 4 b AND 7)) t
      in if b AND 0x80 \<noteq> 0 then word_of_int (muLawBias - t) else word_of_int (t - muLawBias))"

fun log2_loop :: "nat \<Rightarrow> nat \<Rightarrow> nat" where
  "log2_loop val exp = (if val > 1 then log2_loop (val div 2) (exp + 1) else exp)"

declare log2_loop.simps [simp del]

definition muLawExpLut :: "nat \<Rightarrow> nat" where
  "muLawExpLut i = (if i = 0 then 0 else min 7 (log2_loop i 0))"

definition encodeMuLaw :: "sample \<Rightarrow> byte" where
  "encodeMuLaw smp =
     (let s = sint smp;
          sign = drop_bit 8 s AND 0x80;
          s = (if sign \<noteq> 0 then - s else s);
          s = (if s > muLawClip then muLawClip else s);
          s = s + muLawBias;
          exp = muLawExpLut (nat (drop_bit 7 s AND 0xFF));
          mantissa = drop_bit (exp + 3) s AND 0x0F
      in word_of_int (NOT (sign OR push_bit 4 (int exp) OR mantissa)))"

definition pcmu_Decode :: "bytes \<Rightarrow> sample list" where
  "pcmu_Decode payload = map muLawDecodeTable payload"

definition pcmu_Encode :: "sample list \<Rightarrow> bytes" where
  "pcmu_Encode samples = map encodeMuLaw samples"

section \<open>A-law\<close>

definition aLawDecodeTable :: "byte \<Rightarrow> sample" where
  "aLawDecodeTable i =
     (let a = i XOR 0x55;
          t = push_bit 4 (uint (a AND 0x0F));
          seg = unat (drop_bit 4 (a AND 0x70));
          t = (if seg = 0 then t + 8 else if seg = 1 then t + 0x108
               else push_bit (seg - 1) (t + 0x108))
      in if a AND 0x80 \<noteq> 0 then word_of_int t else word_of_int (- t))"

definition aLawSegEnd :: "int list" where
  "aLawSegEnd = [0x1F, 0x3F, 0x7F, 0xFF, 0x1FF, 0x3FF, 0x7FF, 0xFFF]"

text \<open>The segment search: the first index whose bound is not below the value, 8 if none.\<close>

fun find_seg :: "int \<Rightarrow> int list \<Rightarrow> nat" where
  "find_seg v [] = 0"
| "find_seg v (e # es) = (if v \<le> e then 0 else Suc (find_seg v es))"

definition encodeALaw :: "sample \<Rightarrow> byte" where
  "encodeALaw smp =
     (let pcmVal = drop_bit 3 (sint smp);
          (mask, pcmVal) = (if pcmVal \<ge> 0 then (0xD5, pcmVal) else (0x55, - pcmVal - 1));
          seg = find_seg pcmVal aLawSegEnd
      in if seg \<ge> 8 then 0x7F XOR mask
         else let aval = (if seg < 2 then word_of_int (drop_bit 1 pcmVal AND 0x0F)
                          else word_of_int (drop_bit seg pcmVal AND 0x0F))
              in (word_of_int (push_bit 4 (int seg)) OR aval) XOR mask)"

definition pcma_Decode :: "bytes \<Rightarrow> sample list" where
  "pcma_Decode payload = map aLawDecodeTable payload"

definition pcma_Encode :: "sample list \<Rightarrow> bytes" where
  "pcma_Encode samples = map encodeALaw samples"

section \<open>The tables by exhaustion\<close>

lemma aLaw_table_fixpoint: "encodeALaw (aLawDecodeTable b) = b"
  by (rule all_bytesD) code_simp

lemma muLaw_table_fixpoint: "b = 0x7F \<or> encodeMuLaw (muLawDecodeTable b) = b"
  by (rule all_bytesD) code_simp

text \<open>The code byte of a sign, an exponent and a mantissa, and the level it stands for.\<close>

definition mu_code :: "bool \<Rightarrow> nat \<Rightarrow> nat \<Rightarrow> byte" where
  "mu_code neg e m = word_of_int (NOT ((if neg then 0x80 else 0) OR push_bit 4 (int e) OR int m))"

definition mu_level :: "nat \<Rightarrow> nat \<Rightarrow> int" where
  "mu_level e m = (8 * int m + 132) * 2 ^ e - 132"

lemma mu_decode_code:
  assumes "e < 8" "m < 16"
  shows "muLawDecodeTable (mu_code neg e m) =
    word_of_int (if neg then - mu_level e m else mu_level e m)"
proof -
  have "list_all (\<lambda>e. list_all (\<lambda>m. list_all (\<lambda>neg. muLawDecodeTable (mu_code neg e m) =
      word_of_int (if neg then - mu_level e m else mu_level e m)) [True, False]) [0..<16]) [0..<8]"
    by code_simp
  from list_all_uptD [OF list_all_uptD [OF this _ assms(1)] _ assms(2)] show ?thesis
    by (cases neg) (simp_all only: list.pred_inject le0)
qed

definition a_code :: "bool \<Rightarrow> nat \<Rightarrow> nat \<Rightarrow> byte" where
  "a_code neg seg m = (word_of_int (push_bit 4 (int seg)) OR word_of_int (int m)) XOR (if neg then 0x55 else 0xD5)"

definition a_level :: "nat \<Rightarrow> nat \<Rightarrow> int" where
  "a_level seg m = (if seg = 0 then 16 * int m + 8 else (16 * int m + 264) * 2 ^ (seg - 1))"

lemma a_decode_code:
  assumes "seg < 8" "m < 16"
  shows "aLawDecodeTable (a_code neg seg m) =
    word_of_int (if neg then - a_level seg m else a_level seg m)"
proof -
  have "list_all (\<lambda>seg. list_all (\<lambda>m. list_all (\<lambda>neg. aLawDecodeTable (a_code neg seg m) =
      word_of_int (if neg then - a_level seg m else a_level seg m)) [True, False]) [0..<16]) [0..<8]"
    by code_simp
  from list_all_uptD [OF list_all_uptD [OF this _ assms(1)] _ assms(2)] show ?thesis
    by (cases neg) (simp_all only: list.pred_inject le0)
qed

lemma log2_loop_spec: "0 < v \<Longrightarrow> \<exists>k. log2_loop v e = e + k \<and> 2 ^ k \<le> v \<and> v < 2 ^ (k + 1)"
proof (induction v e rule: log2_loop.induct)
  case (1 v e)
  show ?case
  proof (cases "v > 1")
    case True
    then obtain k where "log2_loop (v div 2) (e + 1) = e + 1 + k" "2 ^ k \<le> v div 2" "v div 2 < 2 ^ (k + 1)"
      using "1.IH" by (auto simp: div_greater_zero_iff)
    then show ?thesis using True
      by (intro exI [of _ "Suc k"]) (auto simp: log2_loop.simps [of v e])
  next
    case False
    with "1.prems" show ?thesis by (intro exI [of _ 0]) (auto simp: log2_loop.simps [of v e])
  qed
qed

lemma muLawExpLut_log:
  assumes "0 < v" "v < 256"
  shows "2 ^ muLawExpLut v \<le> v" "v < 2 ^ (muLawExpLut v + 1)" "muLawExpLut v < 8"
proof -
  obtain k where k: "log2_loop v 0 = k" "2 ^ k \<le> v" "v < 2 ^ (k + 1)"
    using log2_loop_spec [OF assms(1), of 0] by auto
  then have "(2 :: nat) ^ k < 2 ^ 8" using assms(2) by simp
  then have "k < 8" by (rule power_less_imp_less_exp [rotated]) simp
  then have "muLawExpLut v = k" using k(1) assms(1) by (simp add: muLawExpLut_def)
  with k \<open>k < 8\<close> show "2 ^ muLawExpLut v \<le> v" "v < 2 ^ (muLawExpLut v + 1)" "muLawExpLut v < 8"
    by simp_all
qed

lemma sint_sample_bounds: "- 32768 \<le> sint (x :: sample) \<and> sint x < 32768"
  using sint_ge [of x] sint_less [of x] by simp

lemma sint_small: "- 32768 \<le> v \<Longrightarrow> v < 32768 \<Longrightarrow> sint (word_of_int v :: sample) = v"
  by (simp add: sint_sbintrunc' signed_take_bit_int_eq_self)

section \<open>Quantisation\<close>

lemma int_sign_bit:
  assumes "- 32768 \<le> s" "s < (32768 :: int)"
  shows "drop_bit 8 s AND 0x80 = (if s < 0 then 0x80 else 0)"
proof -
  have "list_all (\<lambda>n. (int n - 128) AND 0x80 = (if int n - 128 < 0 then 0x80 else 0)) [0..<256]"
    by code_simp
  moreover have "0 \<le> s div 256 + 128" "s div 256 + 128 < 256" using assms by linarith+
  ultimately have "(int (nat (s div 256 + 128)) - 128) AND 0x80
      = (if int (nat (s div 256 + 128)) - 128 < 0 then 0x80 else 0)"
    by (intro list_all_uptD [where P = "\<lambda>n. (int n - 128) AND 0x80 = (if int n - 128 < 0 then 0x80 else 0)"]) auto
  moreover have "s div 256 < 0 \<longleftrightarrow> s < 0" by presburger
  ultimately show ?thesis using \<open>0 \<le> s div 256 + 128\<close> by (simp add: drop_bit_int_def)
qed

lemma and_15_int: "(k :: int) AND 0x0F = k mod 16"
  using take_bit_eq_mask [of 4 k] by (simp add: take_bit_eq_mod mask_eq_exp_minus_1)

lemma and_255_int: "(k :: int) AND 0xFF = k mod 256"
  using take_bit_eq_mask [of 8 k] by (simp add: take_bit_eq_mod mask_eq_exp_minus_1)

definition clip :: "int \<Rightarrow> int" where
  "clip m = (if m > muLawClip then muLawClip else m)"

lemma encodeMuLaw_code:
  fixes smp :: sample
  defines "mag \<equiv> nat (clip \<bar>sint smp\<bar> + 132)"
  defines "e \<equiv> muLawExpLut (mag div 128)"
  shows "encodeMuLaw smp = mu_code (sint smp < 0) e (mag div 2 ^ (e + 3) mod 16)"
    and "2 ^ (e + 7) \<le> mag" and "mag < 2 ^ (e + 8)" and "e < 8"
proof -
  have m: "132 \<le> mag" "mag \<le> 32767"
    by (auto simp: mag_def clip_def muLawClip_def nat_le_iff le_nat_iff)
  then have v: "0 < mag div 128" "mag div 128 < 256" by (simp_all add: div_greater_zero_iff)
  note lut = muLawExpLut_log [OF v, folded e_def]
  show "e < 8" by (fact lut(3))
  have "2 ^ e * 128 \<le> mag div 128 * 128" using lut(1) by simp
  then show "2 ^ (e + 7) \<le> mag" by (simp add: power_add)
  show "mag < 2 ^ (e + 8)"
    using lut(2) by (simp add: power_add less_mult_imp_div_less div_less_iff_less_mult)
  have sg: "drop_bit 8 (sint smp) AND 0x80 = (if sint smp < 0 then 0x80 else 0)"
    using int_sign_bit sint_sample_bounds by blast
  have abs: "(if (if sint smp < 0 then 0x80 else 0 :: int) \<noteq> 0 then - sint smp else sint smp) = \<bar>sint smp\<bar>"
    by simp
  have int: "(if muLawClip < \<bar>sint smp\<bar> then muLawClip else \<bar>sint smp\<bar>) + muLawBias = int mag"
    using m by (simp add: mag_def clip_def muLawBias_def)
  have idx: "nat (drop_bit 7 (int mag) AND 0xFF) = mag div 128"
    using v by (simp add: drop_bit_int_def and_255_int nat_div_distrib nat_mod_distrib)
  have man: "drop_bit (e + 3) (int mag) AND 0x0F = int (mag div 2 ^ (e + 3) mod 16)"
    by (simp add: drop_bit_int_def and_15_int zdiv_int zmod_int)
  show "encodeMuLaw smp = mu_code (sint smp < 0) e (mag div 2 ^ (e + 3) mod 16)"
    by (simp only: encodeMuLaw_def Let_def sg abs int idx e_def [symmetric] man mu_code_def)
qed

text \<open>Within a segment the level reproduces the magnitude up to half a step.\<close>

lemma mu_level_near:
  assumes "2 ^ (e + 7) \<le> mag" "mag < 2 ^ (e + 8)"
  shows "\<bar>mu_level e (mag div 2 ^ (e + 3) mod 16) + 132 - int mag\<bar> \<le> 4 * 2 ^ e"
proof -
  define q where "q = mag div 2 ^ (e + 3)"
  define r where "r = mag mod 2 ^ (e + 3)"
  have mag: "mag = q * 2 ^ (e + 3) + r" and r: "r < 2 ^ (e + 3)"
    by (simp_all only: q_def r_def div_mult_mod_eq) simp
  have "16 * 2 ^ (e + 3) \<le> mag" "mag < 32 * 2 ^ (e + 3)" using assms by (simp_all add: power_add)
  then have "16 \<le> q" "q < 32" by (simp_all add: q_def less_eq_div_iff_mult_less_eq div_less_iff_less_mult)
  then have "q mod 16 = q - 16" by (simp add: le_mod_geq)
  then have "int (q mod 16) = int q - 16" using \<open>16 \<le> q\<close> by simp
  then have "mu_level e (q mod 16) + 132 = (8 * (int q - 16) + 132) * 2 ^ e"
    by (simp only: mu_level_def diff_add_cancel)
  also have "\<dots> = int q * (8 * 2 ^ e) + 4 * 2 ^ e" by (simp add: algebra_simps)
  finally have "mu_level e (q mod 16) + 132 = int q * (8 * 2 ^ e) + 4 * 2 ^ e" .
  moreover have "int mag = int q * (8 * 2 ^ e) + int r" by (simp add: mag power_add)
  moreover have "int r < 8 * 2 ^ e" using r by (simp add: power_add flip: of_nat_less_iff [where 'a = int])
  ultimately show ?thesis by (simp add: q_def)
qed

lemma muLaw_error:
  "32 * \<bar>sint (muLawDecodeTable (encodeMuLaw smp)) - (if sint smp < 0 then - clip \<bar>sint smp\<bar> else clip \<bar>sint smp\<bar>)\<bar>
     \<le> clip \<bar>sint smp\<bar> + 132"
proof -
  define mag where "mag = nat (clip \<bar>sint smp\<bar> + 132)"
  define e where "e = muLawExpLut (mag div 128)"
  define m where "m = mag div 2 ^ (e + 3) mod 16"
  note code = encodeMuLaw_code [of smp, folded mag_def, folded e_def, folded m_def]
  have c: "clip \<bar>sint smp\<bar> = int mag - 132" by (simp add: mag_def clip_def muLawClip_def)
  have near: "\<bar>mu_level e m + 132 - int mag\<bar> \<le> 4 * 2 ^ e"
    unfolding m_def by (rule mu_level_near [OF code(2,3)])
  have pow: "(128 :: int) * 2 ^ e \<le> int mag"
    using code(2) by (simp add: power_add flip: of_nat_le_iff [where 'a = int])
  have m: "m < 16" by (simp add: m_def)
  have "(132 :: int) * 1 \<le> (8 * int m + 132) * 2 ^ e" by (intro mult_mono) simp_all
  then have lo: "0 \<le> mu_level e m" by (simp add: mu_level_def)
  have "(2 :: int) ^ e \<le> 2 ^ 7" using code(4) by (intro power_increasing) simp_all
  moreover have "8 * int m + 132 \<le> 252" using m by simp
  ultimately have "(8 * int m + 132) * 2 ^ e \<le> 252 * 2 ^ 7" by (intro mult_mono) simp_all
  then have hi: "mu_level e m < 32768" by (simp add: mu_level_def)
  have "sint (muLawDecodeTable (encodeMuLaw smp)) = (if sint smp < 0 then - mu_level e m else mu_level e m)"
    using mu_decode_code [OF code(4) m] lo hi by (auto simp: code(1) sint_small)
  then have "\<bar>sint (muLawDecodeTable (encodeMuLaw smp)) - (if sint smp < 0 then - clip \<bar>sint smp\<bar> else clip \<bar>sint smp\<bar>)\<bar>
      = \<bar>mu_level e m + 132 - int mag\<bar>"
    by (simp only: c) (simp only: if_split, arith)
  then show ?thesis using near pow c by linarith
qed

lemma find_seg_spec:
  assumes "0 \<le> v" "v < 4096"
  shows "find_seg v aLawSegEnd < 8"
    and "v \<le> 2 ^ (find_seg v aLawSegEnd + 5) - 1"
    and "0 < find_seg v aLawSegEnd \<Longrightarrow> 2 ^ (find_seg v aLawSegEnd + 4) \<le> v"
  using assms by (auto simp: aLawSegEnd_def)

lemma encodeALaw_code:
  fixes smp :: sample
  defines "v \<equiv> (if 0 \<le> sint smp then sint smp div 8 else - (sint smp div 8) - 1)"
  defines "seg \<equiv> find_seg v aLawSegEnd"
  shows "encodeALaw smp = a_code (sint smp < 0) seg (nat (v div 2 ^ (max 1 seg) mod 16))"
    and "0 \<le> v" and "v < 4096"
proof -
  have pos: "0 \<le> sint smp div 8 \<longleftrightarrow> 0 \<le> sint smp" by presburger
  show v: "0 \<le> v" "v < 4096" using sint_sample_bounds [of smp] by (auto simp: v_def)
  have seg: "seg < 8" using find_seg_spec(1) [OF v] by (simp add: seg_def)
  have man: "word_of_int (drop_bit k v AND 0x0F) = (word_of_int (int (nat (v div 2 ^ k mod 16))) :: byte)" for k
    by (simp add: drop_bit_int_def and_15_int)
  have k: "max 1 seg = (if seg < 2 then 1 else seg)" by auto
  have "(if 0 \<le> drop_bit 3 (sint smp) then (0xD5 :: byte, drop_bit 3 (sint smp))
      else (0x55, - drop_bit 3 (sint smp) - 1)) = (if sint smp < 0 then 0x55 else 0xD5, v)"
    by (simp add: drop_bit_int_def pos v_def)
  then show "encodeALaw smp = a_code (sint smp < 0) seg (nat (v div 2 ^ (max 1 seg) mod 16))"
    using seg man [of 1] man [of seg] k
    by (simp add: encodeALaw_def a_code_def Let_def seg_def [symmetric])
qed

lemma a_level_near:
  assumes v: "0 \<le> v" "v < 4096" and seg: "seg = find_seg v aLawSegEnd"
    and m: "m = nat (v div 2 ^ (max 1 seg) mod 16)" and s: "8 * v \<le> s" "s \<le> 8 * v + 8"
  shows "32 * \<bar>a_level seg m - s\<bar> \<le> max s 256" and "0 \<le> a_level seg m" and "a_level seg m < 32768"
proof -
  note f = find_seg_spec [OF v, folded seg]
  define k where "k = max 1 seg"
  define q where "q = v div 2 ^ k"
  define r where "r = v mod 2 ^ k"
  have vqr: "v = q * 2 ^ k + r" by (simp only: q_def r_def div_mult_mod_eq)
  have r: "0 \<le> r" "r < 2 ^ k" by (simp_all add: r_def)
  have k: "1 \<le> k" "k \<le> 7" using f(1) by (simp_all add: k_def)
  have two: "(2 :: int) * 2 ^ (k - 1) = 2 ^ k" using k(1) by (cases k) simp_all
  have "v < 2 ^ (seg + 5)" using f(2) by simp
  also have "(2 :: int) ^ (seg + 5) \<le> 32 * 2 ^ k" by (simp add: k_def power_add)
  finally have "q * 2 ^ k < 32 * 2 ^ k" using vqr r(1) by linarith
  then have "q < 32" by simp
  moreover have "0 \<le> q" using v(1) by (simp add: q_def pos_imp_zdiv_nonneg_iff)
  moreover have q16: "16 \<le> q" "128 * 2 ^ k \<le> s" if "0 < seg"
  proof -
    have "16 * 2 ^ k \<le> v" using f(3) [OF that] that by (simp add: k_def power_add max_def)
    moreover have "(q + 1) * 2 ^ k = q * 2 ^ k + 2 ^ k" by (simp add: distrib_right)
    ultimately have "16 * 2 ^ k < (q + 1) * 2 ^ k" using vqr r(2) by linarith
    then show "16 \<le> q" by simp
    show "128 * 2 ^ k \<le> s" using \<open>16 * 2 ^ k \<le> v\<close> s(1) by simp
  qed
  moreover have q0: "q < 16" if "seg = 0"
    using f(2) that by (simp add: q_def k_def div_less_iff_less_mult)
  moreover have "q mod 16 = q - 16" if "16 \<le> q" "q < 32"
    using that mod_pos_pos_trivial [of "q - 16" 16] by simp
  moreover have "m = nat (q mod 16)" by (simp only: m k_def q_def)
  ultimately have mq: "int m = (if seg = 0 then q else q - 16)"
    by (cases "seg = 0") (simp_all add: mod_pos_pos_trivial)
  have level: "a_level seg m = q * 8 * 2 ^ k + 4 * 2 ^ k"
  proof (cases "seg = 0")
    case True
    then show ?thesis by (simp add: a_level_def mq k_def)
  next
    case False
    then have "a_level seg m = (16 * q + 8) * 2 ^ (k - 1)" by (simp add: a_level_def mq k_def max_def)
    also have "\<dots> = (8 * q + 4) * (2 * 2 ^ (k - 1))" by (simp add: algebra_simps)
    finally show ?thesis by (simp only: two) (simp add: algebra_simps)
  qed
  have dist: "\<bar>a_level seg m - s\<bar> \<le> 4 * 2 ^ k" using s r vqr by (simp add: level)
  show "32 * \<bar>a_level seg m - s\<bar> \<le> max s 256"
  proof (cases "seg = 0")
    case True
    then show ?thesis using dist by (intro max.coboundedI2) (simp add: k_def)
  next
    case False
    then show ?thesis using dist q16(2) by (intro max.coboundedI1) simp
  qed
  show "0 \<le> a_level seg m" using \<open>0 \<le> q\<close> by (simp add: level)
  have "(2 :: int) ^ k \<le> 2 ^ 7" using k(2) by (intro power_increasing) simp_all
  moreover have "q * 8 + 4 \<le> 252" using \<open>q < 32\<close> by simp
  ultimately have "(q * 8 + 4) * 2 ^ k \<le> 252 * 2 ^ 7" using \<open>0 \<le> q\<close> by (intro mult_mono) simp_all
  then show "a_level seg m < 32768" by (simp add: level algebra_simps)
qed

lemma aLaw_error:
  "32 * \<bar>sint (aLawDecodeTable (encodeALaw smp)) - sint smp\<bar> \<le> max \<bar>sint smp\<bar> 256"
proof -
  define v where "v = (if 0 \<le> sint smp then sint smp div 8 else - (sint smp div 8) - 1)"
  define seg where "seg = find_seg v aLawSegEnd"
  define m where "m = nat (v div 2 ^ (max 1 seg) mod 16)"
  note code = encodeALaw_code [of smp, folded v_def, folded seg_def, folded m_def]
  have s: "8 * v \<le> \<bar>sint smp\<bar>" "\<bar>sint smp\<bar> \<le> 8 * v + 8" by (auto simp: v_def abs_if)
  note near = a_level_near [OF code(2,3) seg_def m_def s]
  have "sint (aLawDecodeTable (encodeALaw smp)) = (if sint smp < 0 then - a_level seg m else a_level seg m)"
    using a_decode_code [of seg m "sint smp < 0"] find_seg_spec(1) [OF code(2,3)] near(2,3)
    by (auto simp: code(1) seg_def [symmetric] m_def sint_small)
  then show ?thesis using near(1) by (cases "sint smp < 0") (simp_all add: abs_if split: if_splits)
qed

section \<open>The codec interface\<close>

text \<open>
  What the media path relies on in a sample codec: quantising a decoded sample once more gives
  the same sample.  Any number of encode and decode hops then leaves a decoded frame as it is.
  Where even the code bytes come back, a payload survives transcoding.
\<close>

locale companding_codec =
  fixes enc :: "sample \<Rightarrow> byte" and dec :: "byte \<Rightarrow> sample"
  assumes requantise: "dec (enc (dec b)) = dec b"
begin

lemma frame_requantise: "map dec (map enc (map dec f)) = map dec f"
  by (simp add: requantise)

lemma hops_stable: "((\<lambda>ss. map dec (map enc ss)) ^^ n) (map dec f) = map dec f"
  by (induction n) (simp_all add: requantise)

end

locale lossless_codec =
  fixes enc :: "sample \<Rightarrow> byte" and dec :: "byte \<Rightarrow> sample"
  assumes code_roundtrip: "enc (dec b) = b"
begin

lemma payload_roundtrip: "map enc (map dec f) = f"
  by (simp add: code_roundtrip comp_def)

end

sublocale lossless_codec \<subseteq> companding_codec enc dec
  by unfold_locales (simp add: code_roundtrip)

interpretation alaw: lossless_codec encodeALaw aLawDecodeTable
  by unfold_locales (rule aLaw_table_fixpoint)

text \<open>The mu-law byte \<open>0x7F\<close> (negative zero) decodes to 0, which encodes as \<open>0xFF\<close>.\<close>

lemma muLaw_negative_zero: "muLawDecodeTable 0x7F = 0" "encodeMuLaw 0 = 0xFF" "muLawDecodeTable 0xFF = 0"
  by code_simp+

interpretation mulaw: companding_codec encodeMuLaw muLawDecodeTable
proof
  fix b
  show "muLawDecodeTable (encodeMuLaw (muLawDecodeTable b)) = muLawDecodeTable b"
    using muLaw_table_fixpoint [of b] by (auto simp: muLaw_negative_zero)
qed

section \<open>Properties\<close>

text \<open>
  A mu-law payload comes back byte for byte from decoding and encoding it, except that the
  negative zero \<open>0x7F\<close> becomes the positive zero \<open>0xFF\<close>, and the lengths agree.
\<close>

theorem pcmu_roundtrip:
  "pcmu_Encode (pcmu_Decode payload) = map (\<lambda>b. if b = 0x7F then 0xFF else b) payload"
  using muLaw_table_fixpoint muLaw_negative_zero
  by (auto simp: pcmu_Encode_def pcmu_Decode_def)

text \<open>An A-law payload comes back byte for byte from decoding and encoding it.\<close>

theorem pcma_roundtrip: "pcma_Encode (pcma_Decode payload) = payload"
  unfolding pcma_Encode_def pcma_Decode_def by (rule alaw.payload_roundtrip)

text \<open>
  Quantisation of a mu-law hop.  The decoded sample keeps the sign of the input and is within
  \<open>(|s| + 132) / 32\<close> of it, \<open>s\<close> being the input clipped to the 32635 of the encoder; a
  second hop changes nothing.
\<close>

theorem pcmu_hop_error:
  "list_all2 (\<lambda>s d. 32 * \<bar>sint d - (if sint s < 0 then - min \<bar>sint s\<bar> 32635 else min \<bar>sint s\<bar> 32635)\<bar>
       \<le> min \<bar>sint s\<bar> 32635 + 132) ss (pcmu_Decode (pcmu_Encode ss)) \<and>
   ((\<lambda>x. pcmu_Decode (pcmu_Encode x)) ^^ n) (pcmu_Decode f) = pcmu_Decode f"
proof
  have "clip k = min k 32635" for k by (simp add: clip_def muLawClip_def min_def)
  note err = muLaw_error [unfolded this]
  show "list_all2 (\<lambda>s d. 32 * \<bar>sint d - (if sint s < 0 then - min \<bar>sint s\<bar> 32635 else min \<bar>sint s\<bar> 32635)\<bar>
       \<le> min \<bar>sint s\<bar> 32635 + 132) ss (pcmu_Decode (pcmu_Encode ss))"
    unfolding pcmu_Decode_def pcmu_Encode_def list_all2_conv_all_nth using err by (simp only: length_map nth_map) simp
  show "((\<lambda>x. pcmu_Decode (pcmu_Encode x)) ^^ n) (pcmu_Decode f) = pcmu_Decode f"
    unfolding pcmu_Decode_def pcmu_Encode_def by (rule mulaw.hops_stable)
qed

text \<open>
  Quantisation of an A-law hop.  The decoded sample is within \<open>|s| / 32\<close> of the input
  (within 8 for the samples below 256); a second hop changes nothing.
\<close>

theorem pcma_hop_error:
  "list_all2 (\<lambda>s d. 32 * \<bar>sint d - sint s\<bar> \<le> max \<bar>sint s\<bar> 256) ss (pcma_Decode (pcma_Encode ss)) \<and>
   ((\<lambda>x. pcma_Decode (pcma_Encode x)) ^^ n) (pcma_Decode f) = pcma_Decode f"
proof
  show "((\<lambda>x. pcma_Decode (pcma_Encode x)) ^^ n) (pcma_Decode f) = pcma_Decode f"
    unfolding pcma_Decode_def pcma_Encode_def by (rule alaw.hops_stable)
qed (simp add: pcma_Decode_def pcma_Encode_def list_all2_conv_all_nth aLaw_error)

end
