(* ===== verification/Media.thy ===== *)
theory Media
  imports JitterBuffer Rtcp SrtpProps Ice Dtmf H264 G711
begin

text \<open>
  The media pipeline, \<open>media.go\<close>: the goroutine of an audio stream (\<open>run\<close>), of a video stream
  (\<open>runVideo\<close>), and the reader goroutine that feeds them.  Each case of a goroutine's \<open>select\<close> is one
  step on the state of the stream; which case runs next is the choice of the scheduler, so a run is any
  list of steps.  A channel written with \<open>sendDropOldest\<close> is its contents, oldest first, with the
  capacity the code gives it; a step that reads a channel carries the value it reads.  The clock is an
  argument in nanoseconds.  Marshalling RTP is the \<open>pion/rtp\<close> library's and sockets are the system's:
  both are parameters.
\<close>

section \<open>State\<close>

record media_env =
  me_marshal :: "rtp_packet \<Rightarrow> bytes option"
  me_unmarshal :: "bytes \<Rightarrow> rtp_packet option"
  me_writeOk :: "bytes \<Rightarrow> bool"

record CodecProcessor =
  cp_Decode :: "bytes \<Rightarrow> sample list"
  cp_Encode :: "sample list \<Rightarrow> bytes"
  cp_PayloadType :: byte
  cp_ClockRate :: u32
  cp_SamplesPerFrame :: u32

definition pcmuProcessor :: CodecProcessor where
  "pcmuProcessor = \<lparr>cp_Decode = pcmu_Decode, cp_Encode = pcmu_Encode, cp_PayloadType = 0,
     cp_ClockRate = 8000, cp_SamplesPerFrame = 160\<rparr>"

definition pcmaProcessor :: CodecProcessor where
  "pcmaProcessor = \<lparr>cp_Decode = pcma_Decode, cp_Encode = pcma_Encode, cp_PayloadType = 8,
     cp_ClockRate = 8000, cp_SamplesPerFrame = 160\<rparr>"

text \<open>\<open>g722\<close>, \<open>g729\<close> and \<open>opus\<close> stand for the wrappers of the third-party codecs.\<close>

definition NewCodecProcessor ::
    "(int \<Rightarrow> CodecProcessor option) \<Rightarrow> CodecProcessor option \<Rightarrow> CodecProcessor option \<Rightarrow> int \<Rightarrow> int \<Rightarrow> CodecProcessor option" where
  "NewCodecProcessor g722 g729 opus payloadType pcmRate =
     (if payloadType = 0 then Some pcmuProcessor
      else if payloadType = 8 then Some pcmaProcessor
      else if payloadType = 9 then g722 pcmRate
      else if payloadType = 18 then g729
      else if payloadType = 111 then opus
      else None)"

text \<open>What \<open>run\<close> and \<open>runVideo\<close> share: the fields of \<open>mediaStream\<close>, the fields of the call the stream
  uses (its remote address, SRTP contexts and reader channels) and the statistics.  \<open>p_wire\<close> is what was
  written to the socket.  The two \<open>Logged\<close> flags only silence the log.\<close>

record pipeline =
  p_muted :: bool
  p_conn :: bool
  p_rtcpConn :: bool
  p_rtcpRemoteAddr :: "string option"
  outSeq :: u16
  outTimestamp :: u32
  outSSRC :: u32
  rtpWriterUsed :: bool
  inboundCount :: nat
  sendErrCount :: nat
  rtcpSendErrCount :: nat
  p_remoteAddr :: "string option"
  p_srtpOut :: "srtp_context option"
  p_srtpIn :: "srtp_context option"
  p_stats :: Stats
  p_rawReader :: "rtp_packet list"
  p_reader :: "rtp_packet list"
  p_sentRTP :: "rtp_packet list option"
  p_wire :: "(string \<times> bytes) list"
  p_rtcpWire :: "(string \<times> bytes) list"

record audio = pipeline +
  a_jb :: JitterBuffer
  a_pcmReader :: "sample list list"
  a_dtmf :: dtmf_state
  a_dtmfMode :: DtmfMode
  a_digits :: "string list"
  pacerResidual :: "sample list"
  pacerQueue :: "sample list list"
  pacerTicking :: bool
  a_timeout :: int
  a_timer :: int
  a_userAudio :: bool
  a_returned :: bool
  a_timedOut :: bool

definition reset :: "bool \<Rightarrow> bool \<Rightarrow> string option \<Rightarrow> 'a pipeline_scheme \<Rightarrow> 'a pipeline_scheme" where
  "reset conn rtcpConn rtcpRemoteAddr p =
     p\<lparr>p_conn := conn, p_rtcpConn := rtcpConn, p_rtcpRemoteAddr := rtcpRemoteAddr, outSeq := 0, outTimestamp := 0,
       rtpWriterUsed := False, inboundCount := 0, sendErrCount := 0, rtcpSendErrCount := 0\<rparr>"

section \<open>Sending and receiving\<close>

abbreviation chanCap :: nat where "chanCap \<equiv> 256"

definition sendDropOldest :: "'a \<Rightarrow> 'a list \<Rightarrow> 'a list" where
  "sendDropOldest val ch = (if length ch < chanCap then ch @ [val] else tl ch @ [val])"

definition write_to :: "media_env \<Rightarrow> string \<Rightarrow> bytes \<Rightarrow> 'a pipeline_scheme \<Rightarrow> 'a pipeline_scheme" where
  "write_to e dst data p =
     (if me_writeOk e data then p\<lparr>p_wire := p_wire p @ [(dst, data)]\<rparr> else p\<lparr>sendErrCount := sendErrCount p + 1\<rparr>)"

definition sendRTP :: "media_env \<Rightarrow> rtp_packet \<Rightarrow> 'a pipeline_scheme \<Rightarrow> 'a pipeline_scheme" where
  "sendRTP e rp p =
     (let p = p\<lparr>p_stats := RecordRTPSent (length (Payload rp)) (Timestamp rp) (p_stats p),
                p_sentRTP := map_option (sendDropOldest rp) (p_sentRTP p)\<rparr>
      in case (p_conn p, p_remoteAddr p) of
           (True, Some dst) \<Rightarrow>
             (case me_marshal e rp of
                None \<Rightarrow> p
              | Some data \<Rightarrow>
                  (case p_srtpOut p of
                     None \<Rightarrow> write_to e dst data p
                   | Some ctx \<Rightarrow>
                       (case Protect ctx data of
                          (ctx', Inl err) \<Rightarrow> p\<lparr>p_srtpOut := Some ctx'\<rparr>
                        | (ctx', Inr out) \<Rightarrow> write_to e dst out (p\<lparr>p_srtpOut := Some ctx'\<rparr>))))
         | _ \<Rightarrow> p)"

definition sendRTCP :: "media_env \<Rightarrow> int \<Rightarrow> 'a pipeline_scheme \<Rightarrow> 'a pipeline_scheme" where
  "sendRTCP e now p =
     (case (p_rtcpConn p, p_rtcpRemoteAddr p) of
        (True, Some dst) \<Rightarrow>
          (let (sr, stats) = BuildSR now (outSSRC p) (p_stats p);
               p = p\<lparr>p_stats := stats\<rparr>;
               write = (\<lambda>data p. if me_writeOk e data then p\<lparr>p_rtcpWire := p_rtcpWire p @ [(dst, data)]\<rparr>
                                 else p\<lparr>rtcpSendErrCount := rtcpSendErrCount p + 1\<rparr>)
           in case p_srtpOut p of
                None \<Rightarrow> write sr p
              | Some ctx \<Rightarrow>
                  (case ProtectRTCP ctx sr of
                     (ctx', Inl err) \<Rightarrow> p\<lparr>p_srtpOut := Some ctx'\<rparr>
                   | (ctx', Inr out) \<Rightarrow> write out (p\<lparr>p_srtpOut := Some ctx'\<rparr>)))
      | _ \<Rightarrow> p)"

definition handleRTCPReceive :: "int \<Rightarrow> bytes \<Rightarrow> 'a pipeline_scheme \<Rightarrow> 'a pipeline_scheme" where
  "handleRTCPReceive now data p =
     (let (p, plain) = (case p_srtpIn p of
                          None \<Rightarrow> (p, Some data)
                        | Some ctx \<Rightarrow>
                            (case UnprotectRTCP ctx data of
                               (ctx', Inl err) \<Rightarrow> (p\<lparr>p_srtpIn := Some ctx'\<rparr>, None)
                             | (ctx', Inr d) \<Rightarrow> (p\<lparr>p_srtpIn := Some ctx'\<rparr>, Some d)))
      in case plain of
           None \<Rightarrow> p
         | Some d \<Rightarrow>
             (case rtcp_Parse d of
                None \<Rightarrow> p
              | Some rp \<Rightarrow>
                  if IsSenderReport rp then p\<lparr>p_stats := ProcessIncomingSR now (rp_NTPSec rp) (rp_NTPFrac rp) (p_stats p)\<rparr>
                  else p))"

text \<open>The demultiplexer in front of the RTP reader: \<open>None\<close> leaves the datagram to RTP, otherwise it was a
  STUN message and the reply of the agent, if any, goes back to where it came from.\<close>

definition handleSTUNDemux :: "Agent option \<Rightarrow> bytes \<Rightarrow> UDPAddr \<Rightarrow> (reply \<times> Agent) option" where
  "handleSTUNDemux iceAgent data addr =
     (case iceAgent of
        None \<Rightarrow> None
      | Some a \<Rightarrow> if IsMessage data then Some (HandleBindingRequest data addr a) else None)"

text \<open>One round of the reader goroutine of \<open>startRTPReaderFor\<close>: what it answers, the agent and the SRTP
  context afterwards, and the packet it passes on.\<close>

datatype read_result = Answered reply | Dropped | Delivered rtp_packet

definition read_datagram ::
    "media_env \<Rightarrow> UDPAddr \<Rightarrow> bytes \<Rightarrow> Agent option \<times> srtp_context option \<Rightarrow> read_result \<times> (Agent option \<times> srtp_context option)" where
  "read_datagram e addr datagram st =
     (case st of (iceAgent, srtpIn) \<Rightarrow>
        let data = take 1500 datagram in
        case handleSTUNDemux iceAgent data addr of
          Some (r, a) \<Rightarrow> (Answered r, (Some a, srtpIn))
        | None \<Rightarrow>
            (case (case srtpIn of
                     None \<Rightarrow> (None, Some data)
                   | Some ctx \<Rightarrow>
                       (case Unprotect ctx data of
                          (ctx', Inl err) \<Rightarrow> (Some ctx', None)
                        | (ctx', Inr d) \<Rightarrow> (Some ctx', Some d)))
             of (srtpIn', None) \<Rightarrow> (Dropped, (iceAgent, srtpIn'))
              | (srtpIn', Some d) \<Rightarrow>
                  (case me_unmarshal e d of
                     None \<Rightarrow> (Dropped, (iceAgent, srtpIn'))
                   | Some rp \<Rightarrow> (Delivered rp, (iceAgent, srtpIn')))))"

section \<open>The audio goroutine\<close>

text \<open>\<open>drainJB\<close>: pop until the buffer holds the rest back.\<close>

definition deliver :: "CodecProcessor option \<Rightarrow> rtp_packet \<Rightarrow> audio \<Rightarrow> audio" where
  "deliver cp rp s =
     (let s = s\<lparr>p_reader := sendDropOldest rp (p_reader s)\<rparr>
      in case cp of
           Some c \<Rightarrow> if Payload rp \<noteq> [] then s\<lparr>a_pcmReader := sendDropOldest (cp_Decode c (Payload rp)) (a_pcmReader s)\<rparr> else s
         | None \<Rightarrow> s)"

lemma Pop_shrinks: "Pop now jb = (Some rp, jb') \<Longrightarrow> length (entries jb') < length (entries jb)"
  by (auto simp: Pop_def split: list.splits if_splits)

function drainJB :: "int \<Rightarrow> CodecProcessor option \<Rightarrow> audio \<Rightarrow> audio" where
  "drainJB now cp s =
     (case Pop now (a_jb s) of
        (None, jb) \<Rightarrow> s\<lparr>a_jb := jb\<rparr>
      | (Some rp, jb) \<Rightarrow> drainJB now cp (deliver cp rp (s\<lparr>a_jb := jb\<rparr>)))"
  by auto
termination
  by (relation "measure (\<lambda>(now, cp, s). length (entries (a_jb s)))")
    (auto simp: deliver_def Let_def dest!: Pop_shrinks [OF sym] split: option.split)

declare drainJB.simps [simp del]

definition encodePCMAndSend :: "media_env \<Rightarrow> sample list \<Rightarrow> CodecProcessor \<Rightarrow> audio \<Rightarrow> audio" where
  "encodePCMAndSend e pcmFrame cp s =
     (if p_muted s then s
      else let outPkt = \<lparr>Marker = False, PayloadType = cp_PayloadType cp, SequenceNumber = outSeq s,
                         Timestamp = outTimestamp s, SSRC = outSSRC s, Payload = cp_Encode cp pcmFrame\<rparr>
           in sendRTP e outPkt (s\<lparr>outSeq := outSeq s + 1, outTimestamp := outTimestamp s + cp_SamplesPerFrame cp\<rparr>))"

text \<open>The pacer: split what was written into frames, keep the rest for the next write.  A full queue
  drops the frame.\<close>

abbreviation maxPacerQueue :: nat where "maxPacerQueue \<equiv> 1500"

definition frameSize :: "CodecProcessor option \<Rightarrow> nat" where
  "frameSize cp = (case cp of None \<Rightarrow> 160 | Some c \<Rightarrow> unat (cp_SamplesPerFrame c))"

text \<open>A codec without samples per frame would make the loop spin; every processor of the code has
  some, and the model stops there.\<close>

function pace_split :: "nat \<Rightarrow> sample list \<Rightarrow> sample list list \<Rightarrow> sample list list \<times> sample list" where
  "pace_split n samples queue =
     (if n = 0 \<or> length samples < n then (queue, samples)
      else pace_split n (drop n samples)
             (if length queue < maxPacerQueue then queue @ [take n samples] else queue))"
  by auto
termination
  by (relation "measure (\<lambda>(n, samples, queue). length samples)") auto

declare pace_split.simps [simp del]

definition paced_write :: "CodecProcessor option \<Rightarrow> sample list \<Rightarrow> audio \<Rightarrow> audio" where
  "paced_write cp buf s =
     (if rtpWriterUsed s \<or> cp = None then s
      else let (queue, rest) = pace_split (frameSize cp) (pacerResidual s @ buf) (pacerQueue s);
               s = s\<lparr>pacerQueue := queue, pacerResidual := rest\<rparr>
           in if \<not> pacerTicking s \<and> queue \<noteq> [] then s\<lparr>pacerTicking := True\<rparr> else s)"

definition pacer_tick :: "media_env \<Rightarrow> CodecProcessor option \<Rightarrow> audio \<Rightarrow> audio" where
  "pacer_tick e cp s =
     (case (pacerQueue s, cp) of
        (frame # rest, Some c) \<Rightarrow>
          if rtpWriterUsed s then s else encodePCMAndSend e frame c (s\<lparr>pacerQueue := rest\<rparr>)
      | _ \<Rightarrow> s)"

definition resetTimer :: "int \<Rightarrow> int \<Rightarrow> audio \<Rightarrow> audio" where
  "resetTimer now d s = s\<lparr>a_timer := now + d\<rparr>"

abbreviation DTMFPayloadType :: byte where "DTMFPayloadType \<equiv> 101"

definition inbound_rtp :: "int \<Rightarrow> CodecProcessor option \<Rightarrow> u32 \<Rightarrow> rtp_packet \<Rightarrow> audio \<Rightarrow> audio" where
  "inbound_rtp now cp rtpClockRate rp s =
     (let s = s\<lparr>inboundCount := inboundCount s + 1, p_rawReader := sendDropOldest rp (p_rawReader s)\<rparr>
      in if PayloadType rp = DTMFPayloadType then
           (let (digits, d) = handleDTMF (a_dtmfMode s) rp (a_dtmf s)
            in resetTimer now (a_timeout s) (s\<lparr>a_dtmf := d, a_digits := a_digits s @ digits\<rparr>))
         else
           let s = s\<lparr>p_stats := RecordRTPReceived now (SequenceNumber rp) (Timestamp rp) (SSRC rp) rtpClockRate (p_stats s),
                     a_jb := Push now rp (a_jb s)\<rparr>
           in drainJB now cp (resetTimer now (a_timeout s) s))"

definition outbound_rtp :: "media_env \<Rightarrow> rtp_packet \<Rightarrow> 'a pipeline_scheme \<Rightarrow> 'a pipeline_scheme" where
  "outbound_rtp e rp p =
     (let p = p\<lparr>rtpWriterUsed := True\<rparr> in if p_muted p then p else sendRTP e rp p)"

definition outbound_pcm :: "media_env \<Rightarrow> CodecProcessor option \<Rightarrow> sample list \<Rightarrow> audio \<Rightarrow> audio" where
  "outbound_pcm e cp frame s =
     (case cp of
        None \<Rightarrow> s
      | Some c \<Rightarrow> if rtpWriterUsed s then s else encodePCMAndSend e frame c s)"

text \<open>The cases of the \<open>select\<close>.  \<open>UserAudio None\<close> is the closed channel of the swappable source;
  \<open>AudioSwap\<close> says whether the new source is a channel or nil.\<close>

datatype audio_event =
    DoneClosed
  | InRTP rtp_packet
  | JitterTick
  | OutRTP rtp_packet
  | PcmWrite "sample list"
  | PacedWrite "sample list"
  | PacerTick
  | AudioSwap bool
  | UserAudio "sample list option"
  | RtcpTick
  | RtcpIn bytes
  | TimerReset int
  | TimerFires

definition audio_step :: "media_env \<Rightarrow> CodecProcessor option \<Rightarrow> u32 \<Rightarrow> int \<Rightarrow> audio_event \<Rightarrow> audio \<Rightarrow> audio" where
  "audio_step e cp rtpClockRate now ev s =
     (if a_returned s then s
      else case ev of
        DoneClosed \<Rightarrow> s\<lparr>a_returned := True\<rparr>
      | InRTP rp \<Rightarrow> inbound_rtp now cp rtpClockRate rp s
      | JitterTick \<Rightarrow> drainJB now cp s
      | OutRTP rp \<Rightarrow> outbound_rtp e rp s
      | PcmWrite frame \<Rightarrow> outbound_pcm e cp frame s
      | PacedWrite buf \<Rightarrow> paced_write cp buf s
      | PacerTick \<Rightarrow> if pacerTicking s then pacer_tick e cp s else s
      | AudioSwap src \<Rightarrow> s\<lparr>a_userAudio := src\<rparr>
      | UserAudio fr \<Rightarrow>
          if \<not> a_userAudio s then s
          else (case fr of None \<Rightarrow> s\<lparr>a_userAudio := False\<rparr> | Some frame \<Rightarrow> outbound_pcm e cp frame s)
      | RtcpTick \<Rightarrow> if p_rtcpConn s then sendRTCP e now s else s
      | RtcpIn data \<Rightarrow> if p_rtcpConn s then handleRTCPReceive now data s else s
      | TimerReset d \<Rightarrow> resetTimer now d s
      | TimerFires \<Rightarrow> if a_timer s \<le> now then s\<lparr>a_timedOut := True, a_returned := True\<rparr> else s)"

fun audio_run :: "media_env \<Rightarrow> CodecProcessor option \<Rightarrow> u32 \<Rightarrow> (int \<times> audio_event) list \<Rightarrow> audio \<Rightarrow> audio" where
  "audio_run e cp rate [] s = s"
| "audio_run e cp rate ((now, ev) # evs) s = audio_run e cp rate evs (audio_step e cp rate now ev s)"

text \<open>The start of \<open>run\<close>: a fresh jitter buffer, statistics, pacer and timer.\<close>

definition run_start :: "int \<Rightarrow> int \<Rightarrow> audio \<Rightarrow> audio" where
  "run_start now jitterDepth s =
     s\<lparr>a_jb := NewJitterBuffer jitterDepth, p_stats := NewStats now, a_dtmf := dtmf_init, pacerResidual := [], pacerQueue := [],
       pacerTicking := False, a_timer := now + a_timeout s, a_returned := False, a_timedOut := False\<rparr>"

section \<open>The video goroutine\<close>

datatype depacketizer = DepackH264 H264Depacketizer | DepackVP8 VP8Depacketizer

abbreviation VideoCodecH264 :: int where "VideoCodecH264 \<equiv> 96"
abbreviation VideoCodecVP8 :: int where "VideoCodecVP8 \<equiv> 97"

definition newVideoDepacketizer :: "int \<Rightarrow> depacketizer option" where
  "newVideoDepacketizer codec =
     (if codec = VideoCodecH264 then Some (DepackH264 h264_new)
      else if codec = VideoCodecVP8 then Some (DepackVP8 vp8_new) else None)"

text \<open>Both packetizers are made with the zero MTU, which selects the default.\<close>

definition newVideoPacketizer :: "int \<Rightarrow> (bytes \<Rightarrow> bytes list) option" where
  "newVideoPacketizer codec =
     (if codec = VideoCodecH264 then Some (h264_Packetize 0)
      else if codec = VideoCodecVP8 then Some (vp8_Packetize 0) else None)"

record video = pipeline +
  v_codec :: int
  v_depacketizer :: "depacketizer option"
  v_reader :: "(int \<times> VideoFrame) list"
  v_returned :: bool

fun depack_Push :: "rtp_packet \<Rightarrow> depacketizer \<Rightarrow> VideoFrame list \<times> depacketizer" where
  "depack_Push rp (DepackH264 d) = (case h264_Push rp d of (fs, d') \<Rightarrow> (fs, DepackH264 d'))"
| "depack_Push rp (DepackVP8 d) = (case vp8_Push rp d of (fs, d') \<Rightarrow> (fs, DepackVP8 d'))"

definition inbound_video :: "int \<Rightarrow> rtp_packet \<Rightarrow> video \<Rightarrow> video" where
  "inbound_video now rp s =
     (let s = s\<lparr>inboundCount := inboundCount s + 1, p_rawReader := sendDropOldest rp (p_rawReader s),
                p_reader := sendDropOldest rp (p_reader s),
                p_stats := RecordRTPReceived now (SequenceNumber rp) (Timestamp rp) (SSRC rp) 90000 (p_stats s)\<rparr>
      in case v_depacketizer s of
           None \<Rightarrow> s
         | Some d \<Rightarrow>
             (case depack_Push rp d of
                (fs, d') \<Rightarrow> s\<lparr>v_depacketizer := Some d',
                               v_reader := fold sendDropOldest (map (Pair (v_codec s)) fs) (v_reader s)\<rparr>))"

fun send_payloads :: "media_env \<Rightarrow> int \<Rightarrow> u32 \<Rightarrow> bytes list \<Rightarrow> video \<Rightarrow> video" where
  "send_payloads e codec ts [] s = s"
| "send_payloads e codec ts (payload # rest) s =
     send_payloads e codec ts rest
       (sendRTP e \<lparr>Marker = (rest = []), PayloadType = word_of_int codec, SequenceNumber = outSeq s, Timestamp = ts,
                   SSRC = outSSRC s, Payload = payload\<rparr>
          (s\<lparr>outSeq := outSeq s + 1\<rparr>))"

definition outbound_frame :: "media_env \<Rightarrow> int \<Rightarrow> u32 \<Rightarrow> bytes \<Rightarrow> video \<Rightarrow> video" where
  "outbound_frame e frameCodec ts data s =
     (case newVideoPacketizer (v_codec s) of
        None \<Rightarrow> s
      | Some Packetize \<Rightarrow>
          if rtpWriterUsed s \<or> frameCodec \<noteq> v_codec s \<or> p_muted s then s
          else send_payloads e (v_codec s) ts (Packetize data) s)"

datatype video_event =
    VideoDone
  | VideoInRTP rtp_packet
  | VideoFrameWrite int u32 bytes
  | VideoOutRTP rtp_packet
  | VideoRtcpTick
  | VideoRtcpIn bytes

definition video_step :: "media_env \<Rightarrow> int \<Rightarrow> video_event \<Rightarrow> video \<Rightarrow> video" where
  "video_step e now ev s =
     (if v_returned s then s
      else case ev of
        VideoDone \<Rightarrow> s\<lparr>v_returned := True\<rparr>
      | VideoInRTP rp \<Rightarrow> inbound_video now rp s
      | VideoFrameWrite codec ts data \<Rightarrow> outbound_frame e codec ts data s
      | VideoOutRTP rp \<Rightarrow> outbound_rtp e rp s
      | VideoRtcpTick \<Rightarrow> if p_rtcpConn s then sendRTCP e now s else s
      | VideoRtcpIn data \<Rightarrow> if p_rtcpConn s then handleRTCPReceive now data s else s)"

fun video_run :: "media_env \<Rightarrow> (int \<times> video_event) list \<Rightarrow> video \<Rightarrow> video" where
  "video_run e [] s = s"
| "video_run e ((now, ev) # evs) s = video_run e evs (video_step e now ev s)"

end
