(* ===== verification/MediaProps.thy ===== *)
theory MediaProps
  imports Media
begin

text \<open>
  The media pipeline end to end: what is written to one stream and what comes out of the stream at the
  other end, through the codec, RTP, SRTP, a network that loses packets, the demultiplexer and the
  jitter buffer; and what the pacer and the media timer do.
\<close>

section \<open>Bounded channels\<close>

definition lastn :: "nat \<Rightarrow> 'a list \<Rightarrow> 'a list" where
  "lastn n xs = drop (length xs - n) xs"

lemma lastn_Nil [simp]: "lastn n [] = []"
  by (simp add: lastn_def)

lemma sendDropOldest_lastn: "sendDropOldest v (lastn chanCap xs) = lastn chanCap (xs @ [v])"
proof (cases "length xs < chanCap")
  case False
  then have "Suc (length xs - 256) = length xs - 255" by arith
  then have "drop (length xs - 255) xs = tl (drop (length xs - 256) xs)"
    by (metis drop_Suc tl_drop)
  with False show ?thesis by (simp add: sendDropOldest_def lastn_def)
qed (simp add: sendDropOldest_def lastn_def)

lemma fold_sendDropOldest:
  "fold sendDropOldest vs (lastn chanCap xs) = lastn chanCap (xs @ vs)"
  by (induction vs arbitrary: xs) (simp_all add: sendDropOldest_lastn)

section \<open>The link\<close>

text \<open>What is relied on of the RTP library: a packet with a 7-bit payload type is marshalled into a
  twelve-byte version 2 header and the payload, and unmarshalled back.\<close>

definition rtp_wire :: "media_env \<Rightarrow> bool" where
  "rtp_wire e = (\<forall>q. PayloadType q < 128 \<longrightarrow>
     (\<exists>d. me_marshal e q = Some d \<and> me_unmarshal e d = Some q \<and> rtpHeaderLen d = 12
        \<and> pkt_seq d = SequenceNumber q \<and> length d = 12 + length (Payload q)))"

text \<open>The datagram of a packet on a stream whose rollover counter is still zero; \<open>keys\<close> is the master key
  and salt when the stream is protected.\<close>

type_synonym link = "media_env \<times> (bytes \<times> bytes) option \<times> UDPAddr"

definition context_of :: "(bytes \<times> bytes) option \<Rightarrow> srtp_context option" where
  "context_of keys = map_option (\<lambda>(k, salt). New k salt) keys"

definition datagram :: "media_env \<Rightarrow> (bytes \<times> bytes) option \<Rightarrow> rtp_packet \<Rightarrow> bytes" where
  "datagram e keys q =
     (case keys of None \<Rightarrow> the (me_marshal e q) | Some (k, salt) \<Rightarrow> sealed (New k salt) 0 (the (me_marshal e q)))"

definition sendable :: "link \<Rightarrow> rtp_packet \<Rightarrow> bool" where
  "sendable c q = (PayloadType q < 128 \<and> length (Payload q) \<le> 1478)"

abbreviation seqno :: "rtp_packet \<Rightarrow> nat" where "seqno q \<equiv> unat (SequenceNumber q)"

text \<open>A receiver that has seen only sequence numbers below \<open>n\<close>.\<close>

definition fresh_above :: "nat \<Rightarrow> srtp_context \<Rightarrow> bool" where
  "fresh_above n rx = (roc rx = 0 \<and> (Srtp.seqInitialized rx \<longrightarrow> unat (lastSeq rx) < n)
     \<and> (\<exists>S. window_rep (replay rx) S \<and> (\<forall>i \<in> S. i < n)))"

definition link_ready :: "link \<Rightarrow> nat \<Rightarrow> Agent option \<times> srtp_context option \<Rightarrow> bool" where
  "link_ready c n st =
     (case (c, st) of
        ((e, None, addr), (agent, None)) \<Rightarrow> rtp_wire e
      | ((e, Some (k, salt), addr), (agent, Some rx)) \<Rightarrow>
          rtp_wire e \<and> keyed rx \<and> same_keys (New k salt) rx \<and> fresh_above n rx
      | _ \<Rightarrow> False)"

definition link_deliver :: "link \<Rightarrow> rtp_packet \<Rightarrow> Agent option \<times> srtp_context option \<Rightarrow> read_result \<times> (Agent option \<times> srtp_context option)" where
  "link_deliver c q st = (case c of (e, keys, addr) \<Rightarrow> read_datagram e addr (datagram e keys q) st)"

text \<open>The reader goroutine over a sequence of datagrams, and the packets it passes on.\<close>

fun outcomes :: "('x \<Rightarrow> 's \<Rightarrow> read_result \<times> 's) \<Rightarrow> 'x list \<Rightarrow> 's \<Rightarrow> read_result list \<times> 's" where
  "outcomes f [] st = ([], st)"
| "outcomes f (x # xs) st = (let (r, st') = f x st; (rs, st'') = outcomes f xs st' in (r # rs, st''))"

fun passed_on :: "read_result list \<Rightarrow> rtp_packet list" where
  "passed_on [] = []"
| "passed_on (Delivered q # rs) = q # passed_on rs"
| "passed_on (r # rs) = passed_on rs"

text \<open>RTP is never taken for STUN: the version bits of the first byte differ.\<close>

lemma version_not_stun: "drop_bit 6 (d ! 0) AND 3 = 2 \<Longrightarrow> \<not> IsMessage d"
proof
  assume v: "drop_bit 6 (d ! 0) AND 3 = 2" and "IsMessage d"
  then have "d ! 0 AND 0xC0 = 0" by (auto simp: IsMessage_def split: if_splits)
  then have "drop_bit 6 (d ! 0 AND 0xC0) = 0" by simp
  then have "drop_bit 6 (d ! 0) AND drop_bit 6 0xC0 = 0" by (simp only: drop_bit_and)
  then show False using v by simp
qed

lemma rtp_not_stun: "0 \<le> rtpHeaderLen d \<Longrightarrow> \<not> IsMessage d"
  by (rule version_not_stun) (auto simp: rtpHeaderLen_def split: if_splits)

lemma open_fresh:
  assumes "0 \<le> rtpHeaderLen d" "keyed rx" "same_keys tx rx" "fresh_above n rx" "n \<le> unat (pkt_seq d)"
  shows "\<exists>rx'. Unprotect rx (sealed tx 0 d) = (rx', Inr d) \<and> keyed rx' \<and> same_keys tx rx'
    \<and> fresh_above (Suc (unat (pkt_seq d))) rx'"
proof -
  let ?s = "pkt_seq d"
  obtain S where S: "window_rep (replay rx) S" "\<forall>i \<in> S. i < n"
    using assms(4) by (auto simp: fresh_above_def)
  have roc: "estimateROC rx ?s = 0"
    using assms(4,5) by (auto simp: fresh_above_def estimateROC_def word_less_nat_alt)
  have idx: "unat (pkt_index 0 ?s) = unat ?s" by (simp add: unat_pkt_index)
  have "\<not> isReplay (replay rx) (pkt_index 0 ?s)"
  proof (cases "S = {}")
    case False
    then have fin: "finite S" using S(1) by (auto simp: window_rep_def split: if_splits)
    then have "Max S < unat ?s" using S(2) False assms(5) by (meson Max_in less_le_trans)
    then show ?thesis using isReplay_rep [OF S(1)] S(2) assms(5) idx by fastforce
  qed (use isReplay_rep [OF S(1)] in simp)
  from Unprotect_sealed [OF assms(1-3) roc this]
  have U: "Unprotect rx (sealed tx 0 d) = (commitRTP 0 ?s rx, Inr d)" .
  have "window_rep (replay (commitRTP 0 ?s rx)) (insert (unat ?s) S)"
    using accept_rep [OF S(1), of "pkt_index 0 ?s"] idx by simp
  moreover have "roc (commitRTP 0 ?s rx) = 0" "unat (lastSeq (commitRTP 0 ?s rx)) \<le> unat ?s"
    using assms(4,5) by (auto simp: commitRTP_def Let_def fresh_above_def)
  ultimately have "fresh_above (Suc (unat ?s)) (commitRTP 0 ?s rx)"
    using S(2) assms(5) by (auto simp: fresh_above_def le_imp_less_Suc intro!: exI [of _ "insert (unat ?s) S"])
  with U assms(2,3) show ?thesis by auto
qed

locale ordered_link =
  fixes ready :: "'c \<Rightarrow> nat \<Rightarrow> 's \<Rightarrow> bool"
    and good :: "'c \<Rightarrow> rtp_packet \<Rightarrow> bool"
    and deliver :: "'c \<Rightarrow> rtp_packet \<Rightarrow> 's \<Rightarrow> read_result \<times> 's"
  assumes deliver_next: "ready c n st \<Longrightarrow> good c q \<Longrightarrow> n \<le> seqno q \<Longrightarrow>
    \<exists>st'. deliver c q st = (Delivered q, st') \<and> ready c (Suc (seqno q)) st'"
begin

lemma deliver_all:
  assumes "ready c n st" "\<forall>q \<in> set qs. good c q \<and> n \<le> seqno q" "sorted_wrt (\<lambda>p q. seqno p < seqno q) qs"
  shows "\<exists>st'. outcomes (deliver c) qs st = (map Delivered qs, st')"
  using assms
proof (induction qs arbitrary: n st)
  case (Cons q qs)
  then obtain st' where st': "deliver c q st = (Delivered q, st')" "ready c (Suc (seqno q)) st'"
    using deliver_next [of c n st q] by auto
  have "\<forall>p \<in> set qs. good c p \<and> Suc (seqno q) \<le> seqno p" using Cons.prems(2,3) by auto
  with Cons.IH [OF st'(2)] Cons.prems(3) st'(1) show ?case by auto
qed simp

end

lemma rtp_wireD:
  assumes "rtp_wire e" "PayloadType q < 128"
  obtains d where "me_marshal e q = Some d" "me_unmarshal e d = Some q" "rtpHeaderLen d = 12"
    "pkt_seq d = SequenceNumber q" "length d = 12 + length (Payload q)"
  using assms unfolding rtp_wire_def by blast

lemma length_sealed: "0 \<le> rtpHeaderLen d \<Longrightarrow> length (sealed tx r d) = length d + 10"
  by (simp add: sealed_def sealed_body_facts srtp_consts)

lemma sealed_header: "0 \<le> rtpHeaderLen d \<Longrightarrow> 0 \<le> rtpHeaderLen (sealed_body tx r d)"
  by (simp add: sealed_body_header)

lemma sealed_not_stun:
  assumes "0 \<le> rtpHeaderLen d"
  shows "\<not> IsMessage (sealed tx r d)"
proof -
  have "length (sealed_body tx r d) \<ge> 12" using sealed_header [OF assms, of tx r] by (auto simp: rtpHeaderLen_def split: if_splits)
  then have "sealed tx r d ! 0 = sealed_body tx r d ! 0" by (cases "sealed_body tx r d") (simp_all add: sealed_def)
  moreover have "drop_bit 6 (sealed_body tx r d ! 0) AND 3 = 2"
    using sealed_header [OF assms, of tx r] by (auto simp: rtpHeaderLen_def split: if_splits)
  ultimately show ?thesis using version_not_stun by metis
qed

lemma link_deliver_next:
  assumes "link_ready c n st" "sendable c q" "n \<le> seqno q"
  shows "\<exists>st'. link_deliver c q st = (Delivered q, st') \<and> link_ready c (Suc (seqno q)) st'"
proof -
  obtain e keys addr agent rx where c: "c = (e, keys, addr)" "st = (agent, rx)" by (metis prod.exhaust)
  have e: "rtp_wire e" using assms(1) c by (auto simp: link_ready_def split: option.splits)
  obtain d where d: "me_marshal e q = Some d" "me_unmarshal e d = Some q" "rtpHeaderLen d = 12"
    "pkt_seq d = SequenceNumber q" "length d = 12 + length (Payload q)"
    using rtp_wireD [OF e] assms(2) by (auto simp: sendable_def)
  show ?thesis
  proof (cases keys)
    case None
    then have "rx = None" using assms(1) c by (auto simp: link_ready_def split: option.splits)
    moreover have "\<not> IsMessage d" using rtp_not_stun [of d] d(3) by simp
    ultimately show ?thesis using None assms(2) c d e
      by (auto simp: link_deliver_def datagram_def read_datagram_def handleSTUNDemux_def sendable_def link_ready_def
          split: option.splits)
  next
    case (Some kp)
    then obtain k salt x where kp: "keys = Some (k, salt)" "rx = Some x" "keyed x" "same_keys (New k salt) x" "fresh_above n x"
      using assms(1) c by (cases kp) (auto simp: link_ready_def split: option.splits)
    then obtain x' where x': "Unprotect x (sealed (New k salt) 0 d) = (x', Inr d)" "keyed x'" "same_keys (New k salt) x'"
      "fresh_above (Suc (seqno q)) x'"
      using open_fresh [of d x "New k salt" n] d(3,4) assms(3) by auto
    have "take 1500 (sealed (New k salt) 0 d) = sealed (New k salt) 0 d" "\<not> IsMessage (sealed (New k salt) 0 d)"
      using length_sealed [of d] sealed_not_stun [of d] d(3,5) assms(2) by (simp_all add: sendable_def)
    then have "link_deliver c q st = (Delivered q, (agent, Some x'))"
      using x'(1) kp c d(1,2)
      by (simp add: link_deliver_def datagram_def read_datagram_def handleSTUNDemux_def Let_def split: option.split)
    moreover have "link_ready c (Suc (seqno q)) (agent, Some x')"
      using x' kp c e by (simp add: link_ready_def)
    ultimately show ?thesis by blast
  qed
qed

interpretation rtp_link: ordered_link link_ready sendable link_deliver
  by unfold_locales (rule link_deliver_next)

section \<open>Sending\<close>

text \<open>A stream that can send, having used the sequence numbers below \<open>n\<close>.\<close>

definition out_ready :: "media_env \<Rightarrow> (bytes \<times> bytes) option \<Rightarrow> string \<Rightarrow> nat \<Rightarrow> 'a pipeline_scheme \<Rightarrow> bool" where
  "out_ready e keys dst n p =
     (rtp_wire e \<and> (\<forall>d. me_writeOk e d) \<and> p_conn p \<and> p_remoteAddr p = Some dst
      \<and> (case (keys, p_srtpOut p) of
            (None, None) \<Rightarrow> True
          | (Some (k, salt), Some tx) \<Rightarrow> keyed tx \<and> same_keys tx (New k salt) \<and> roc tx = 0
              \<and> (Srtp.seqInitialized tx \<longrightarrow> unat (lastSeq tx) < n)
          | _ \<Rightarrow> False))"

lemma sealed_keys: "same_keys tx tx' \<Longrightarrow> sealed tx r d = sealed tx' r d"
  by (simp add: sealed_def sealed_body_def same_keys_def)

lemma updateROC_ahead: "Srtp.seqInitialized c \<longrightarrow> unat (lastSeq c) < unat s \<Longrightarrow> roc (updateROC s c) = roc c"
  by (auto simp: updateROC_def Let_def word_less_nat_alt)

lemma sendRTP_frame:
  "outSeq (sendRTP e q p) = outSeq p" "outTimestamp (sendRTP e q p) = outTimestamp p" "outSSRC (sendRTP e q p) = outSSRC p"
  "p_muted (sendRTP e q p) = p_muted p" "rtpWriterUsed (sendRTP e q p) = rtpWriterUsed p" "pipeline.more (sendRTP e q p) = pipeline.more p"
  by (simp_all add: sendRTP_def write_to_def Let_def split: option.split prod.split sum.split bool.split)

lemma sendRTP_wire:
  assumes "out_ready e keys dst n p" "PayloadType q < 128" "n \<le> seqno q"
  shows "p_wire (sendRTP e q p) = p_wire p @ [(dst, datagram e keys q)]"
    and "out_ready e keys dst (Suc (seqno q)) (sendRTP e q p)"
proof -
  have r: "rtp_wire e" "\<And>d. me_writeOk e d" "p_conn p" "p_remoteAddr p = Some dst"
    using assms(1) by (auto simp: out_ready_def)
  obtain d where d: "me_marshal e q = Some d" "rtpHeaderLen d = 12" "pkt_seq d = SequenceNumber q"
    using rtp_wireD [OF r(1) assms(2)] by metis
  have "p_wire (sendRTP e q p) = p_wire p @ [(dst, datagram e keys q)] \<and> out_ready e keys dst (Suc (seqno q)) (sendRTP e q p)"
  proof (cases keys)
    case None
    then have "p_srtpOut p = None" using assms(1) by (auto simp: out_ready_def split: option.splits)
    with None r d show ?thesis by (simp add: sendRTP_def Let_def write_to_def out_ready_def datagram_def)
  next
    case (Some kp)
    then obtain k salt tx where tx: "keys = Some (k, salt)" "p_srtpOut p = Some tx" "keyed tx" "same_keys tx (New k salt)"
      "roc tx = 0" "Srtp.seqInitialized tx \<longrightarrow> unat (lastSeq tx) < n"
      using assms(1) by (cases kp) (auto simp: out_ready_def split: option.splits)
    have roc: "roc (updateROC (SequenceNumber q) tx) = 0" using updateROC_ahead [of tx "SequenceNumber q"] tx(5,6) assms(3) by auto
    then have "Protect tx d = (updateROC (SequenceNumber q) tx, Inr (sealed (New k salt) 0 d))"
      using Protect_sealed [of d tx] tx(3) d sealed_keys [OF tx(4)] by simp
    with tx(1-4) r d roc show ?thesis by (simp add: sendRTP_def Let_def write_to_def out_ready_def datagram_def)
  qed
  then show "p_wire (sendRTP e q p) = p_wire p @ [(dst, datagram e keys q)]"
    "out_ready e keys dst (Suc (seqno q)) (sendRTP e q p)" by auto
qed

text \<open>The packets of a sequence of frames.\<close>

fun pcm_packets :: "CodecProcessor \<Rightarrow> u32 \<Rightarrow> u16 \<Rightarrow> u32 \<Rightarrow> sample list list \<Rightarrow> rtp_packet list" where
  "pcm_packets cp ssrc sq ts [] = []"
| "pcm_packets cp ssrc sq ts (f # fs) =
     \<lparr>Marker = False, PayloadType = cp_PayloadType cp, SequenceNumber = sq, Timestamp = ts, SSRC = ssrc, Payload = cp_Encode cp f\<rparr>
     # pcm_packets cp ssrc (sq + 1) (ts + cp_SamplesPerFrame cp) fs"

definition pcm_writes :: "(int \<times> sample list) list \<Rightarrow> (int \<times> audio_event) list" where
  "pcm_writes tfs = map (\<lambda>(t, f). (t, PcmWrite f)) tfs"

lemma audio_returned_more: "pipeline.more s = pipeline.more (s' :: audio) \<Longrightarrow> a_returned s = a_returned s'"
  by (cases s; cases s') simp

lemma pcm_sent:
  assumes "out_ready e keys dst n s" "cp_PayloadType cp < 128" "unat (outSeq s) = n" "n + length tfs \<le> 32768"
    and "\<not> p_muted s" "\<not> rtpWriterUsed s" "\<not> a_returned s"
  shows "p_wire (audio_run e (Some cp) rate (pcm_writes tfs) s)
    = p_wire s @ map (\<lambda>q. (dst, datagram e keys q)) (pcm_packets cp (outSSRC s) (outSeq s) (outTimestamp s) (map snd tfs))"
  using assms
proof (induction tfs arbitrary: s n)
  case Nil
  then show ?case by (simp add: pcm_writes_def)
next
  case (Cons tf tfs)
  obtain t f where tf: "tf = (t, f)" by fastforce
  let ?q = "\<lparr>Marker = False, PayloadType = cp_PayloadType cp, SequenceNumber = outSeq s, Timestamp = outTimestamp s,
    SSRC = outSSRC s, Payload = cp_Encode cp f\<rparr>"
  let ?p = "s\<lparr>outSeq := outSeq s + 1, outTimestamp := outTimestamp s + cp_SamplesPerFrame cp\<rparr>"
  let ?s = "sendRTP e ?q ?p"
  have step: "audio_step e (Some cp) rate t (PcmWrite f) s = ?s"
    using Cons.prems(5-7) by (simp add: audio_step_def outbound_pcm_def encodePCMAndSend_def Let_def)
  have "out_ready e keys dst n ?p" using Cons.prems(1) by (simp add: out_ready_def)
  from sendRTP_wire [OF this, of ?q] Cons.prems(2,3)
  have w: "p_wire ?s = p_wire s @ [(dst, datagram e keys ?q)]" "out_ready e keys dst (Suc n) ?s" by simp_all
  have "unat (outSeq s + 1) = Suc n" using Cons.prems(3,4) by (simp add: unat_word_ariths)
  moreover have "\<not> a_returned ?s" using audio_returned_more [of ?s ?p] Cons.prems(7) by (simp add: sendRTP_frame)
  ultimately have "p_wire (audio_run e (Some cp) rate (pcm_writes tfs) ?s)
    = p_wire ?s @ map (\<lambda>q. (dst, datagram e keys q))
        (pcm_packets cp (outSSRC s) (outSeq s + 1) (outTimestamp s + cp_SamplesPerFrame cp) (map snd tfs))"
    using Cons.IH [OF w(2)] Cons.prems by (simp add: sendRTP_frame)
  then show ?case using tf step w(1) by (simp add: pcm_writes_def)
qed

lemma pcm_packets_seq:
  assumes "unat sq + length fs \<le> 32768" "q \<in> set (pcm_packets cp ssrc sq ts fs)"
  shows "unat sq \<le> seqno q" "seqno q < unat sq + length fs" "PayloadType q = cp_PayloadType cp" "Payload q \<in> cp_Encode cp ` set fs"
proof -
  have "unat sq \<le> seqno q \<and> seqno q < unat sq + length fs \<and> PayloadType q = cp_PayloadType cp \<and> Payload q \<in> cp_Encode cp ` set fs"
    using assms
  proof (induction fs arbitrary: sq ts)
    case (Cons f fs)
    have n: "unat (sq + 1) = Suc (unat sq)" using Cons.prems(1) by (simp add: unat_word_ariths)
    then show ?case using Cons.prems Cons.IH [of "sq + 1"] by fastforce
  qed simp
  then show "unat sq \<le> seqno q" "seqno q < unat sq + length fs" "PayloadType q = cp_PayloadType cp" "Payload q \<in> cp_Encode cp ` set fs"
    by auto
qed

lemma pcm_packets_sorted:
  "unat sq + length fs \<le> 32768 \<Longrightarrow> sorted_wrt (\<lambda>p q. seqno p < seqno q) (pcm_packets cp ssrc sq ts fs)"
proof (induction fs arbitrary: sq ts)
  case (Cons f fs)
  have n: "unat (sq + 1) = Suc (unat sq)" using Cons.prems(1) by (simp add: unat_word_ariths)
  then show ?case using Cons pcm_packets_seq(1) [of "sq + 1" fs] by fastforce
qed simp

lemma pcm_packets_payloads: "map Payload (pcm_packets cp ssrc sq ts fs) = map (cp_Encode cp) fs"
  by (induction fs arbitrary: sq ts) simp_all

section \<open>Receiving\<close>

text \<open>A receiver that has taken the packets \<open>qs\<close> in order: some were played, the rest is buffered.\<close>

definition in_ready :: "int \<Rightarrow> int \<Rightarrow> CodecProcessor \<Rightarrow> nat \<Rightarrow> rtp_packet list \<Rightarrow> audio \<Rightarrow> bool" where
  "in_ready d T cp n qs s =
     (\<not> a_returned s \<and> depth (a_jb s) = d \<and> seen (a_jb s) = eseq ` set (entries (a_jb s))
      \<and> (\<forall>x \<in> set (entries (a_jb s)). arrival x + d \<le> T \<and> unat (eseq x) < n)
      \<and> distinct (map eseq (entries (a_jb s)))
      \<and> (\<forall>q \<in> set qs. Payload q \<noteq> [])
      \<and> (\<exists>ys. qs = ys @ map pkt (entries (a_jb s))
            \<and> a_pcmReader s = lastn chanCap (map (\<lambda>q. cp_Decode cp (Payload q)) ys)))"

lemma deliver_in_ready:
  assumes "in_ready d T cp n qs s" "Pop now (a_jb s) = (Some q, jb)"
  shows "in_ready d T cp n qs (deliver (Some cp) q (s\<lparr>a_jb := jb\<rparr>))"
proof -
  obtain x xs where x: "entries (a_jb s) = x # xs" "q = pkt x" "jb = (a_jb s)\<lparr>seen := seen (a_jb s) - {eseq x}, entries := xs\<rparr>"
    using assms(2) by (auto simp: Pop_def split: list.splits if_splits)
  obtain ys where ys: "qs = ys @ map pkt (x # xs)" "a_pcmReader s = lastn chanCap (map (\<lambda>q. cp_Decode cp (Payload q)) ys)"
    using assms(1) x(1) by (auto simp: in_ready_def)
  have "Payload q \<noteq> []" using assms(1) ys(1) x(2) by (auto simp: in_ready_def)
  moreover have "a_pcmReader s = lastn chanCap (map (\<lambda>q. cp_Decode cp (Payload q)) ys)" by (rule ys(2))
  ultimately show ?thesis
    using assms(1) x ys(1)
    by (auto simp: in_ready_def deliver_def Let_def sendDropOldest_lastn intro!: exI [of _ "ys @ [pkt x]"])
qed

lemma drain_in_ready:
  "in_ready d T cp n qs s \<Longrightarrow> in_ready d T cp n qs (drainJB now (Some cp) s)
     \<and> (T \<le> now \<longrightarrow> entries (a_jb (drainJB now (Some cp) s)) = [])"
proof (induction now "Some cp" s rule: drainJB.induct)
  case (1 now s)
  show ?case
  proof (cases "Pop now (a_jb s)")
    case (Pair r jb)
    show ?thesis
    proof (cases r)
      case None
      then have "jb = a_jb s" "entries (a_jb s) = [] \<or> now - arrival (hd (entries (a_jb s))) < depth (a_jb s)"
        using Pair by (auto simp: Pop_def split: list.splits if_splits)
      moreover have "drainJB now (Some cp) s = s" using None Pair \<open>jb = a_jb s\<close> by (simp add: drainJB.simps [of now _ s])
      moreover have "entries (a_jb s) \<noteq> [] \<Longrightarrow> arrival (hd (entries (a_jb s))) + depth (a_jb s) \<le> T"
        using "1.prems" by (cases "entries (a_jb s)") (auto simp: in_ready_def)
      ultimately show ?thesis using "1.prems" by fastforce
    next
      case (Some q)
      then show ?thesis
        using "1.hyps" [OF Pair [symmetric] Some] deliver_in_ready [OF "1.prems"] Pair by (simp add: drainJB.simps [of now _ s])
    qed
  qed
qed

lemma Push_in_order:
  assumes "seen jb = eseq ` set (entries jb)" "\<forall>x \<in> set (entries jb). unat (eseq x) < seqno q" "seqno q < 32768"
  shows "Push now q jb = jb\<lparr>seen := insert (SequenceNumber q) (seen jb), entries := entries jb @ [\<lparr>pkt = q, arrival = now\<rparr>]\<rparr>"
proof -
  have fresh: "SequenceNumber q \<notin> seen jb" using assms(1,2) by auto
  show ?thesis
  proof (cases "entries jb")
    case Nil
    then show ?thesis using fresh by (simp add: Push_def Let_def)
  next
    case (Cons x xs)
    let ?l = "eseq (entries jb ! (length (entries jb) - 1))"
    have l: "unat ?l < seqno q" using assms(2) Cons by (simp add: nth_Cons')
    then have "unat (SequenceNumber q - ?l) = seqno q - unat ?l" by (simp add: unat_sub word_le_nat_alt)
    then have "seqLess ?l (SequenceNumber q)" using l assms(3) by (simp add: seqLess_def word_less_nat_alt Let_def)
    then show ?thesis using fresh Cons by (simp add: Push_def Let_def)
  qed
qed

lemma inbound_in_ready:
  assumes "in_ready d T cp n qs s" "n \<le> seqno q" "seqno q < 32768" "PayloadType q \<noteq> DTMFPayloadType" "Payload q \<noteq> []" "t + d \<le> T"
  shows "in_ready d T cp (Suc (seqno q)) (qs @ [q]) (audio_step e (Some cp) rate t (InRTP q) s)"
proof -
  let ?s1 = "s\<lparr>inboundCount := inboundCount s + 1, p_rawReader := sendDropOldest q (p_rawReader s)\<rparr>"
  let ?s2 = "resetTimer t (a_timeout s) (?s1\<lparr>p_stats := RecordRTPReceived t (SequenceNumber q) (Timestamp q) (SSRC q) rate (p_stats s),
    a_jb := Push t q (a_jb s)\<rparr>)"
  have "Push t q (a_jb s) = (a_jb s)\<lparr>seen := insert (SequenceNumber q) (seen (a_jb s)), entries := entries (a_jb s) @ [\<lparr>pkt = q, arrival = t\<rparr>]\<rparr>"
    using assms(1-3) by (intro Push_in_order) (auto simp: in_ready_def)
  then have "in_ready d T cp (Suc (seqno q)) (qs @ [q]) ?s2"
    using assms by (auto simp: in_ready_def resetTimer_def less_Suc_eq)
  moreover have "audio_step e (Some cp) rate t (InRTP q) s = drainJB t (Some cp) ?s2"
    using assms(1,4) by (simp add: audio_step_def inbound_rtp_def Let_def in_ready_def)
  ultimately show ?thesis using drain_in_ready by simp
qed

lemma audio_run_append: "audio_run e cp rate (xs @ ys) s = audio_run e cp rate ys (audio_run e cp rate xs s)"
  by (induction e cp rate xs s rule: audio_run.induct) simp_all

lemma received_in_ready:
  assumes "in_ready d T cp n qs s" "length ts = length ps" "\<forall>t \<in> set ts. t + d \<le> T"
    and "sorted_wrt (\<lambda>p q. seqno p < seqno q) ps"
    and "\<forall>q \<in> set ps. n \<le> seqno q \<and> seqno q < 32768 \<and> PayloadType q \<noteq> DTMFPayloadType \<and> Payload q \<noteq> []"
  shows "\<exists>m. in_ready d T cp m (qs @ ps) (audio_run e (Some cp) rate (zip ts (map InRTP ps)) s)"
  using assms(2,1,3-)
proof (induction ts ps arbitrary: s n qs rule: list_induct2)
  case (Cons t ts q ps)
  from inbound_in_ready [OF Cons.prems(1)] Cons.prems
  have "in_ready d T cp (Suc (seqno q)) (qs @ [q]) (audio_step e (Some cp) rate t (InRTP q) s)" by simp
  from Cons.IH [OF this] Cons.prems show ?case by fastforce
qed auto

lemma sorted_wrt_nths: "sorted_wrt P xs \<Longrightarrow> sorted_wrt P (nths xs I)"
  by (induction xs arbitrary: I) (auto simp: nths_Cons dest: in_set_nthsD)

lemma outcomes_map: "outcomes f (map g xs) st = outcomes (f \<circ> g) xs st"
  by (induction xs arbitrary: st) (simp_all add: case_prod_beta Let_def)

lemma passed_on_all [simp]: "passed_on (map Delivered qs) = qs"
  by (induction qs) simp_all

text \<open>The packets that reach the receiver when the network delivers the datagrams with index in \<open>I\<close>.\<close>

definition reads :: "media_env \<Rightarrow> UDPAddr \<Rightarrow> bytes list \<Rightarrow> Agent option \<times> srtp_context option \<Rightarrow> rtp_packet list" where
  "reads e addr ds st = passed_on (fst (outcomes (read_datagram e addr) ds st))"

lemma link_ready_start: "rtp_wire e \<Longrightarrow> link_ready (e, keys, addr) 0 (agent, context_of keys)"
  by (auto simp: link_ready_def context_of_def fresh_above_def New_fields split: option.split intro!: exI [of _ "{}"] window_rep_empty)

lemma reads_datagrams:
  assumes "rtp_wire e" "\<forall>q \<in> set qs. sendable (e, keys, addr) q" "sorted_wrt (\<lambda>p q. seqno p < seqno q) qs"
  shows "reads e addr (map (datagram e keys) qs) (agent, context_of keys) = qs"
proof -
  have "link_deliver (e, keys, addr) = read_datagram e addr \<circ> datagram e keys"
    by (simp add: link_deliver_def fun_eq_iff)
  moreover obtain st where "outcomes (link_deliver (e, keys, addr)) qs (agent, context_of keys) = (map Delivered qs, st)"
    using rtp_link.deliver_all [OF link_ready_start [OF assms(1), of keys addr agent] _ assms(3)] assms(2) by blast
  ultimately show ?thesis by (simp add: reads_def outcomes_map)
qed

text \<open>A stream as \<open>startMedia\<close> leaves it, with \<open>keys\<close> for SRTP and the peer at \<open>dst\<close>.\<close>

definition started :: "(bytes \<times> bytes) option \<Rightarrow> string \<Rightarrow> audio \<Rightarrow> bool" where
  "started keys dst s =
     (p_conn s \<and> p_remoteAddr s = Some dst \<and> p_srtpOut s = context_of keys \<and> outSeq s = 0 \<and> \<not> p_muted s
      \<and> \<not> rtpWriterUsed s \<and> \<not> a_returned s \<and> p_wire s = [])"

text \<open>The loop of the peer takes the \<open>k\<close>th packet at time \<open>time k\<close>.\<close>

definition arrivals :: "(nat \<Rightarrow> int) \<Rightarrow> rtp_packet list \<Rightarrow> (int \<times> audio_event) list" where
  "arrivals time qs = zip (map time [0..<length qs]) (map InRTP qs)"

text \<open>
  C14: audio, end to end.  Frames written to a started stream are encoded, packetised, protected when keys
  were agreed, and written to the socket; a network that delivers some of the datagrams in order (the
  index set \<open>I\<close> is arbitrary) hands them to the reader of the peer, with any ICE agent in front of it, and
  to its jitter buffer, which is read at arbitrary times.  When the last packet has been held for the
  playout depth, the application at the peer reads exactly the decodings of the delivered frames, in
  order (the newest 256 when nobody read them).  For up to 32768 frames, the first half of the sequence
  space.
\<close>

theorem audio_end_to_end:
  assumes "rtp_wire e" "\<forall>d. me_writeOk e d" and "started keys dst s"
    and "cp_PayloadType cp < 128" "cp_PayloadType cp \<noteq> DTMFPayloadType"
    and "\<forall>f \<in> set (map snd tfs). cp_Encode cp f \<noteq> [] \<and> length (cp_Encode cp f) \<le> 1478" "length tfs \<le> 32768"
    and "a_jb r = NewJitterBuffer d" "a_pcmReader r = []" "\<not> a_returned r"
    and wire: "wire = map snd (p_wire (audio_run e (Some cp) rate (pcm_writes tfs) s))"
    and arrived: "arrived = reads e addr (nths wire I) (agent, context_of keys)"
    and "\<forall>k. time k + d \<le> T"
  shows "a_pcmReader (audio_run e (Some cp) rate (arrivals time arrived @ [(T, JitterTick)]) r)
    = lastn 256 (map (cp_Decode cp \<circ> cp_Encode cp) (nths (map snd tfs) I))"
proof -
  let ?fs = "map snd tfs"
  let ?qs = "pcm_packets cp (outSSRC s) 0 (outTimestamp s) ?fs"
  have "out_ready e keys dst 0 s"
    using assms(1-3) by (cases keys) (auto simp: out_ready_def started_def context_of_def)
  from pcm_sent [OF this assms(4)] assms(3,7) have "wire = map (datagram e keys) ?qs"
    by (simp add: wire started_def comp_def)
  then have a: "nths wire I = map (datagram e keys) (nths ?qs I)" by (simp add: nths_map)
  have q: "seqno q < 32768 \<and> PayloadType q = cp_PayloadType cp \<and> Payload q \<in> cp_Encode cp ` set ?fs" if "q \<in> set (nths ?qs I)" for q
    using pcm_packets_seq [of 0 ?fs q] in_set_nthsD [OF that] assms(7) by force
  have sorted: "sorted_wrt (\<lambda>p q. seqno p < seqno q) (nths ?qs I)"
    using assms(7) by (intro sorted_wrt_nths pcm_packets_sorted) simp
  have arr: "arrived = nths ?qs I"
    unfolding arrived a using q assms(4,6) by (intro reads_datagrams [OF assms(1) _ sorted]) (fastforce simp: sendable_def)
  have "in_ready d T cp 0 [] r" using assms(8-10) by (auto simp: in_ready_def NewJitterBuffer_def)
  then obtain m where "in_ready d T cp m (nths ?qs I) (audio_run e (Some cp) rate (arrivals time arrived) r)" (is "in_ready d T cp m _ ?r")
    using received_in_ready [of d T cp 0 "[]" r "map time [0..<length arrived]" "nths ?qs I" e rate] assms(13) sorted q assms(5,6) arr
    by (fastforce simp: arrivals_def)
  from drain_in_ready [OF this, of T]
  have "in_ready d T cp m (nths ?qs I) (drainJB T (Some cp) ?r)" "entries (a_jb (drainJB T (Some cp) ?r)) = []" "\<not> a_returned ?r"
    using \<open>in_ready d T cp m (nths ?qs I) ?r\<close> by (auto simp: in_ready_def)
  then have "a_pcmReader (audio_step e (Some cp) rate T JitterTick ?r) = lastn chanCap (map (\<lambda>q. cp_Decode cp (Payload q)) (nths ?qs I))"
    by (auto simp: audio_step_def in_ready_def)
  moreover have "map (\<lambda>q. cp_Decode cp (Payload q)) (nths ?qs I) = map (cp_Decode cp \<circ> cp_Encode cp) (nths ?fs I)"
    using pcm_packets_payloads [of cp "outSSRC s" 0 "outTimestamp s" ?fs]
    by (simp add: nths_map [symmetric] map_map [symmetric] comp_def del: map_map) (metis (no_types, lifting) list.map_comp comp_def map_eq_conv nths_map)
  ultimately show ?thesis by (simp add: audio_run_append)
qed

text \<open>An RTP library as in RFC 3550, to evaluate on.\<close>

definition demo_media :: media_env where
  "demo_media = \<lparr>
     me_marshal = (\<lambda>q. Some ([0x80, (if Marker q then 0x80 else 0) OR PayloadType q] @ put_u16 (SequenceNumber q)
       @ put_u32 (Timestamp q) @ put_u32 (SSRC q) @ Payload q)),
     me_unmarshal = (\<lambda>d. Some \<lparr>Marker = bit (d ! 1) 7, PayloadType = d ! 1 AND 0x7F, SequenceNumber = get_u16 (subslice 2 4 d),
       Timestamp = get_u32 (subslice 4 8 d), SSRC = get_u32 (subslice 8 12 d), Payload = drop 12 d\<rparr>),
     me_writeOk = (\<lambda>_. True)\<rparr>"

lemma payload_type_bits:
  assumes "(x :: byte) < 128"
  shows "bit ((if m then 0x80 else 0) OR x) 7 = m" "((if m then 0x80 else 0) OR x) AND 0x7F = x"
proof -
  have x: "take_bit 7 x = x"
    using assms by (simp add: word_unat_eq_iff unsigned_take_bit_eq take_bit_nat_eq_self word_less_nat_alt)
  then have "\<not> bit x 7" by (metis bit_take_bit_iff less_irrefl)
  then show "bit ((if m then 0x80 else 0) OR x) 7 = m" by (simp add: bit_or_iff)
  have "take_bit 7 ((if m then 0x80 else 0) OR x) = x" using x by simp
  moreover have "(0x7F :: byte) = mask 7" by (simp add: mask_eq_exp_minus_1)
  ultimately show "((if m then 0x80 else 0) OR x) AND 0x7F = x" by (simp only: take_bit_eq_mask)
qed

lemma demo_media_wire: "rtp_wire demo_media"
  by (auto simp: rtp_wire_def demo_media_def rtpHeaderLen_def pkt_seq_def wire_simps payload_type_bits)

definition demo_audio :: audio where
  "demo_audio = \<lparr>p_muted = False, p_conn = True, p_rtcpConn = False, p_rtcpRemoteAddr = None, outSeq = 0, outTimestamp = 0,
     outSSRC = 7, rtpWriterUsed = False, inboundCount = 0, sendErrCount = 0, rtcpSendErrCount = 0, p_remoteAddr = Some ''peer'',
     p_srtpOut = Some (New [1] [2]), p_srtpIn = None, p_stats = NewStats 0, p_rawReader = [], p_reader = [], p_sentRTP = None,
     p_wire = [], p_rtcpWire = [], a_jb = NewJitterBuffer 50, a_pcmReader = [], a_dtmf = dtmf_init, a_dtmfMode = DtmfRfc4733,
     a_digits = [], pacerResidual = [], pacerQueue = [], pacerTicking = False, a_timeout = 30, a_timer = 30,
     a_userAudio = False, a_returned = False, a_timedOut = False\<rparr>"

definition demo_peer :: UDPAddr where
  "demo_peer = \<lparr>udp_IP = IPv4 10 0 0 9, udp_Port = 4000\<rparr>"

theorem audio_end_to_end_witness:
  "let wire = map snd (p_wire (audio_run demo_media (Some pcmuProcessor) 8000 (pcm_writes [(0, [5]), (20, [9])]) demo_audio));
       arrived = reads demo_media demo_peer (nths wire {1}) (None, Some (New [1] [2]))
   in a_pcmReader (audio_run demo_media (Some pcmuProcessor) 8000 (arrivals (\<lambda>_. 30) arrived @ [(80, JitterTick)]) demo_audio)
      = [pcmu_Decode (pcmu_Encode [9])]"
proof -
  let ?wire = "map snd (p_wire (audio_run demo_media (Some pcmuProcessor) 8000 (pcm_writes [(0, [5]), (20, [9])]) demo_audio))"
  have "\<forall>d. me_writeOk demo_media d" "started (Some ([1], [2])) ''peer'' demo_audio"
    by (simp_all add: demo_media_def started_def demo_audio_def context_of_def)
  from audio_end_to_end [OF demo_media_wire this, of pcmuProcessor "[(0, [5]), (20, [9])]" demo_audio 50 ?wire 8000 _ demo_peer "{1}" None "\<lambda>_. 30" 80]
  show ?thesis
    by (simp add: pcmuProcessor_def pcmu_Encode_def demo_audio_def context_of_def nths_Cons lastn_def)
qed

section \<open>Video\<close>

definition video_good :: "int \<Rightarrow> bytes \<Rightarrow> bool" where
  "video_good codec data = (if codec = VideoCodecH264 then h264_good data else data \<noteq> [])"

definition video_frame :: "int \<Rightarrow> u32 \<times> bytes \<Rightarrow> int \<times> VideoFrame" where
  "video_frame codec f =
     (codec, \<lparr>vf_Timestamp = fst f,
              vf_IsKeyframe = (if codec = VideoCodecH264 then h264_keyframe (snd f) else vp8_keyframe (snd f)), vf_Data = snd f\<rparr>)"

lemma feed_depack:
  "feed depack_Push ps (DepackH264 d) = (case feed h264_Push ps d of (fs, d') \<Rightarrow> (fs, DepackH264 d'))"
  "feed depack_Push ps (DepackVP8 v) = (case feed vp8_Push ps v of (fs, v') \<Rightarrow> (fs, DepackVP8 v'))"
  by (induction ps arbitrary: d v) (simp_all add: Let_def case_prod_beta)

lemma video_reassembled:
  assumes "newVideoPacketizer codec = Some pk" "newVideoDepacketizer codec = Some d" "\<forall>f \<in> set fs. video_good codec (snd f)"
  shows "map (Pair codec) (fst (feed depack_Push (stream_packets pk pt ssrc sq fs) d)) = map (video_frame codec) fs"
proof -
  consider "codec = VideoCodecH264" "pk = h264_Packetize 0" "d = DepackH264 h264_new" | "codec = VideoCodecVP8" "pk = vp8_Packetize 0" "d = DepackVP8 vp8_new"
    using assms(1,2) by (auto simp: newVideoPacketizer_def newVideoDepacketizer_def split: if_splits)
  then show ?thesis
  proof cases
    case 1
    then have "\<forall>(ts, data) \<in> set fs. h264_good data" using assms(3) by (auto simp: video_good_def)
    from h264.stream_roundtrip [OF _ this, of h264_new 0 pt ssrc sq] 1 show ?thesis
      by (simp add: feed_depack h264_new_def h264_idle_def case_prod_beta video_frame_def)
  next
    case 2
    then have "\<forall>(ts, data) \<in> set fs. data \<noteq> []" using assms(3) by (auto simp: video_good_def)
    from vp8.stream_roundtrip [OF _ this, of vp8_new 0 pt ssrc sq] 2 show ?thesis
      by (simp add: feed_depack vp8_new_def vp8_idle_def case_prod_beta video_frame_def)
  qed
qed

lemma packetize_fits:
  assumes "newVideoPacketizer codec = Some pk" "payload \<in> set (pk data)"
  shows "length payload \<le> 1478"
proof -
  have "payload \<in> set (h264_Packetize 0 data) \<or> payload \<in> set (vp8_Packetize 0 data)"
    using assms by (auto simp: newVideoPacketizer_def split: if_splits)
  then show ?thesis
  proof
    assume "payload \<in> set (h264_Packetize 0 data)"
    then show ?thesis using h264_Packetize_bound by (fastforce simp: h264_mtu_def DefaultMTU_def)
  next
    assume "payload \<in> set (vp8_Packetize 0 data)"
    then have "payload \<in> set (vp8_fragments (vp8_mtu 0 - 1) True data)" by (simp add: vp8_Packetize_def split: if_splits)
    then show ?thesis using vp8_fragments_bound by (fastforce simp: vp8_mtu_def DefaultMTU_def)
  qed
qed

lemma video_more: "pipeline.more s = pipeline.more (s' :: video) \<Longrightarrow> v_returned s = v_returned s' \<and> v_codec s = v_codec s'"
  by (cases s; cases s') simp

text \<open>A video stream that sends \<open>codec\<close> and has used the sequence numbers below \<open>n\<close>.\<close>

definition video_ready :: "media_env \<Rightarrow> (bytes \<times> bytes) option \<Rightarrow> string \<Rightarrow> int \<Rightarrow> nat \<Rightarrow> video \<Rightarrow> bool" where
  "video_ready e keys dst codec n s =
     (out_ready e keys dst n s \<and> v_codec s = codec \<and> unat (outSeq s) = n \<and> \<not> p_muted s \<and> \<not> rtpWriterUsed s \<and> \<not> v_returned s)"

lemma payloads_sent:
  assumes "video_ready e keys dst codec n s" "word_of_int codec < (128 :: byte)" "n + length payloads \<le> 32768"
  shows "p_wire (send_payloads e codec ts payloads s)
      = p_wire s @ map (\<lambda>q. (dst, datagram e keys q)) (frame_packets (word_of_int codec) (outSSRC s) ts (outSeq s) payloads)
    \<and> video_ready e keys dst codec (n + length payloads) (send_payloads e codec ts payloads s)
    \<and> outSSRC (send_payloads e codec ts payloads s) = outSSRC s
    \<and> outSeq (send_payloads e codec ts payloads s) = outSeq s + word_of_nat (length payloads)"
  using assms
proof (induction payloads arbitrary: s n)
  case (Cons payload rest)
  let ?q = "\<lparr>Marker = (rest = []), PayloadType = word_of_int codec, SequenceNumber = outSeq s, Timestamp = ts, SSRC = outSSRC s, Payload = payload\<rparr>"
  let ?p = "s\<lparr>outSeq := outSeq s + 1\<rparr>"
  let ?s = "sendRTP e ?q ?p"
  have "out_ready e keys dst n ?p" using Cons.prems(1) by (simp add: out_ready_def video_ready_def)
  from sendRTP_wire [OF this, of ?q] Cons.prems
  have w: "p_wire ?s = p_wire s @ [(dst, datagram e keys ?q)]" "out_ready e keys dst (Suc n) ?s"
    by (simp_all add: video_ready_def)
  have "unat (outSeq s + 1) = Suc n" using Cons.prems(1,3) by (simp add: video_ready_def unat_word_ariths)
  with w(2) have "video_ready e keys dst codec (Suc n) ?s"
    using video_more [of ?s ?p] Cons.prems(1) by (simp add: video_ready_def sendRTP_frame)
  from Cons.IH [OF this] Cons.prems(2,3) w(1) show ?case by (simp add: sendRTP_frame)
qed simp

definition frame_writes :: "int \<Rightarrow> (int \<times> u32 \<times> bytes) list \<Rightarrow> (int \<times> video_event) list" where
  "frame_writes codec tfs = map (\<lambda>(t, ts, data). (t, VideoFrameWrite codec ts data)) tfs"

lemma length_frame_packets: "length (frame_packets pt ssrc ts sq ps) = length ps"
  by (induction ps arbitrary: sq) simp_all

lemma frames_sent:
  assumes "video_ready e keys dst codec n s" "newVideoPacketizer codec = Some pk"
    and "n + length (stream_packets pk (word_of_int codec) (outSSRC s) (outSeq s) (map snd tfs)) \<le> 32768"
  shows "p_wire (video_run e (frame_writes codec tfs) s)
      = p_wire s @ map (\<lambda>q. (dst, datagram e keys q)) (stream_packets pk (word_of_int codec) (outSSRC s) (outSeq s) (map snd tfs))"
  using assms
proof (induction tfs arbitrary: s n)
  case Nil
  then show ?case by (simp add: frame_writes_def)
next
  case (Cons tf tfs)
  obtain t ts data where tf: "tf = (t, ts, data)" by (metis prod.exhaust)
  have pt: "word_of_int codec < (128 :: byte)" using Cons.prems(2) by (auto simp: newVideoPacketizer_def split: if_splits)
  let ?s = "send_payloads e codec ts (pk data) s"
  have step: "video_step e t (VideoFrameWrite codec ts data) s = ?s"
    using Cons.prems(1,2) by (simp add: video_step_def outbound_frame_def video_ready_def)
  have "n + length (pk data) \<le> 32768" using Cons.prems(3) by (simp add: tf length_frame_packets)
  note sent = payloads_sent [OF Cons.prems(1) pt this, of ts]
  then show ?case using Cons.IH [of "n + length (pk data)" ?s] Cons.prems(2,3)
    by (simp add: frame_writes_def tf step length_frame_packets)
qed

lemma frame_packets_seq:
  "unat sq + length ps \<le> 32768 \<Longrightarrow> map seqno (frame_packets pt ssrc ts sq ps) = [unat sq..<unat sq + length ps]"
proof (induction ps arbitrary: sq)
  case (Cons p ps)
  have n: "unat (sq + 1) = Suc (unat sq)" using Cons.prems by (simp add: unat_word_ariths)
  have "[unat sq..<unat sq + length (p # ps)] = unat sq # [Suc (unat sq)..<Suc (unat sq) + length ps]"
    by (simp add: upt_conv_Cons del: upt_Suc)
  with n show ?case using Cons.IH [of "sq + 1"] Cons.prems by (simp del: upt_Suc)
qed simp

lemma stream_packets_seq:
  assumes "unat sq + length (stream_packets pk pt ssrc sq fs) \<le> 32768"
  shows "map seqno (stream_packets pk pt ssrc sq fs) = [unat sq..<unat sq + length (stream_packets pk pt ssrc sq fs)]"
  using assms
proof (induction fs arbitrary: sq)
  case (Cons f fs)
  obtain ts data where f: "f = (ts, data)" by fastforce
  let ?sq = "sq + word_of_nat (length (pk data))"
  let ?n = "length (stream_packets pk pt ssrc ?sq fs)"
  have k: "unat sq + length (pk data) \<le> 32768" using Cons.prems by (simp add: f length_frame_packets)
  then have u: "unat ?sq = unat sq + length (pk data)" by (simp add: unat_word_ariths unat_of_nat)
  have "map seqno (stream_packets pk pt ssrc ?sq fs) = [unat sq + length (pk data)..<unat sq + length (pk data) + ?n]"
    using Cons.IH [of ?sq] Cons.prems u by (simp add: f length_frame_packets)
  with frame_packets_seq [OF k] show ?case
    by (simp add: f length_frame_packets upt_add_eq_append [of "unat sq" "unat sq + length (pk data)", symmetric] add.assoc [symmetric])
qed simp

lemma stream_packets_shape:
  "q \<in> set (stream_packets pk pt ssrc sq fs) \<Longrightarrow> PayloadType q = pt \<and> (\<exists>data. Payload q \<in> set (pk data))"
proof (induction fs arbitrary: sq)
  case (Cons f fs)
  obtain ts data where f: "f = (ts, data)" by fastforce
  have "q \<in> set (frame_packets pt ssrc ts sq ps) \<Longrightarrow> PayloadType q = pt \<and> Payload q \<in> set ps" for sq ps
    by (induction ps arbitrary: sq) auto
  with Cons f show ?case by (metis Un_iff set_append stream_packets.simps(2))
qed simp

definition video_arrivals :: "(nat \<Rightarrow> int) \<Rightarrow> rtp_packet list \<Rightarrow> (int \<times> video_event) list" where
  "video_arrivals time qs = zip (map time [0..<length qs]) (map VideoInRTP qs)"

lemma video_received:
  assumes "v_depacketizer r = Some d" "v_reader r = lastn chanCap xs" "\<not> v_returned r" "v_codec r = codec" "length ts = length qs"
  shows "v_reader (video_run e (zip ts (map VideoInRTP qs)) r) = lastn chanCap (xs @ map (Pair codec) (fst (feed depack_Push qs d)))"
  using assms(5,1-4)
proof (induction ts qs arbitrary: r d xs rule: list_induct2)
  case (Cons t ts q qs)
  let ?r = "video_step e t (VideoInRTP q) r"
  obtain fs d' where p: "depack_Push q d = (fs, d')" by fastforce
  have "v_depacketizer ?r = Some d'" "v_reader ?r = lastn chanCap (xs @ map (Pair codec) fs)" "\<not> v_returned ?r" "v_codec ?r = codec"
    using Cons.prems p by (simp_all add: video_step_def inbound_video_def Let_def fold_sendDropOldest)
  from Cons.IH [OF this] p show ?case by (simp add: Let_def case_prod_beta)
qed simp

text \<open>
  C15: video, end to end.  Frames of the negotiated codec written to a started video stream are packetised
  for the default MTU, protected when keys were agreed, and sent; the reader and the depacketizer of the
  peer hand its application exactly those frames, in order, with their timestamps and key-frame flags
  (the newest 256 when nobody read them).  For up to 32768 packets, over a network that delivers them in
  order.
\<close>

theorem video_end_to_end:
  assumes "video_ready e keys dst codec 0 s" "p_wire s = []" and "newVideoPacketizer codec = Some pk"
    and "\<forall>f \<in> set (map snd tfs). video_good codec (snd f)"
    and "length (stream_packets pk (word_of_int codec) (outSSRC s) 0 (map snd tfs)) \<le> 32768"
    and "v_codec r = codec" "v_depacketizer r = newVideoDepacketizer codec" "v_reader r = []" "\<not> v_returned r"
    and wire: "wire = map snd (p_wire (video_run e (frame_writes codec tfs) s))"
    and arrived: "arrived = reads e addr wire (agent, context_of keys)"
  shows "v_reader (video_run e (video_arrivals time arrived) r) = lastn 256 (map (video_frame codec) (map snd tfs))"
proof -
  let ?qs = "stream_packets pk (word_of_int codec) (outSSRC s) 0 (map snd tfs)"
  have s0: "outSeq s = 0" "rtp_wire e" using assms(1) by (auto simp: video_ready_def out_ready_def unat_eq_zero)
  from frames_sent [OF assms(1,3)] assms(2,5) s0 have "wire = map (datagram e keys) ?qs" by (simp add: wire comp_def)
  moreover have "map seqno ?qs = [0..<length ?qs]" using stream_packets_seq [of 0] assms(5) by simp
  then have "sorted_wrt (\<lambda>p q. seqno p < seqno q) ?qs"
    by (metis sorted_wrt_map sorted_wrt_upt)
  moreover have "\<forall>q \<in> set ?qs. sendable (e, keys, addr) q"
  proof
    fix q assume "q \<in> set ?qs"
    with stream_packets_shape obtain data where "PayloadType q = word_of_int codec" "Payload q \<in> set (pk data)" by blast
    with packetize_fits [OF assms(3)] assms(3) show "sendable (e, keys, addr) q"
      by (auto simp: sendable_def newVideoPacketizer_def split: if_splits)
  qed
  ultimately have arr: "arrived = ?qs" using reads_datagrams [OF s0(2)] arrived by blast
  obtain d where d: "newVideoDepacketizer codec = Some d"
    using assms(3) by (auto simp: newVideoPacketizer_def newVideoDepacketizer_def split: if_splits)
  then have "v_reader (video_run e (video_arrivals time arrived) r) = lastn chanCap ([] @ map (Pair codec) (fst (feed depack_Push arrived d)))"
    unfolding video_arrivals_def using assms(6-9) by (intro video_received) simp_all
  then show ?thesis using video_reassembled [OF assms(3) d assms(4)] arr by simp
qed

definition demo_video :: video where
  "demo_video = \<lparr>p_muted = False, p_conn = True, p_rtcpConn = False, p_rtcpRemoteAddr = None, outSeq = 0, outTimestamp = 0,
     outSSRC = 9, rtpWriterUsed = False, inboundCount = 0, sendErrCount = 0, rtcpSendErrCount = 0, p_remoteAddr = Some ''peer'',
     p_srtpOut = Some (New [1] [2]), p_srtpIn = None, p_stats = NewStats 0, p_rawReader = [], p_reader = [], p_sentRTP = None,
     p_wire = [], p_rtcpWire = [], v_codec = 97, v_depacketizer = newVideoDepacketizer 97, v_reader = [], v_returned = False\<rparr>"

theorem video_end_to_end_witness:
  "let wire = map snd (p_wire (video_run demo_media (frame_writes 97 [(0, 90, [0, 1, 2])]) demo_video));
       arrived = reads demo_media demo_peer wire (None, Some (New [1] [2]))
   in v_reader (video_run demo_media (video_arrivals (\<lambda>_. 5) arrived) demo_video)
      = [(97, \<lparr>vf_Timestamp = 90, vf_IsKeyframe = True, vf_Data = [0, 1, 2]\<rparr>)]"
proof -
  let ?wire = "map snd (p_wire (video_run demo_media (frame_writes 97 [(0, 90, [0, 1, 2])]) demo_video))"
  have "video_ready demo_media (Some ([1], [2])) ''peer'' 97 0 demo_video" "p_wire demo_video = []" "newVideoPacketizer 97 = Some (vp8_Packetize 0)"
    by (simp_all add: video_ready_def out_ready_def demo_media_wire demo_video_def newVideoPacketizer_def New_fields)
      (simp add: demo_media_def)
  from video_end_to_end [OF this, of "[(0, 90, [0, 1, 2])]" demo_video ?wire _ demo_peer None "\<lambda>_. 5"]
  show ?thesis
    by (simp add: demo_video_def video_good_def video_frame_def vp8_keyframe_def context_of_def lastn_def vp8_Packetize_def
        vp8_mtu_def DefaultMTU_def vp8_fragments.simps Let_def)
qed

end
