(* ===== verification/MediaLoop.thy ===== *)
theory MediaLoop
  imports MediaProps
begin

text \<open>
  The pacer and the media timer of the audio goroutine: arbitrary buffers written to the paced writer go
  out as the same samples in frames of the codec, and the call times out exactly when no packet has come
  for the timeout.
\<close>

section \<open>The pacer\<close>

lemma pace_split_spec:
  assumes "0 < n" "length q + length xs div n \<le> maxPacerQueue"
  shows "\<exists>fs r. pace_split n xs q = (q @ fs, r) \<and> concat fs @ r = xs \<and> list_all (\<lambda>f. length f = n) fs \<and> length r < n
    \<and> length fs = length xs div n"
  using assms
proof (induction n xs q rule: pace_split.induct)
  case (1 n xs q)
  show ?case
  proof (cases "length xs < n")
    case True
    then show ?thesis by (simp add: pace_split.simps [of n xs])
  next
    case False
    have d: "length xs div n = Suc ((length xs - n) div n)" using False "1.prems"(1) by (simp add: le_div_geq)
    have q: "length q < maxPacerQueue" using d "1.prems"(2) by linarith
    obtain fs r where IH: "pace_split n (drop n xs) (q @ [take n xs]) = ((q @ [take n xs]) @ fs, r)" "concat fs @ r = drop n xs"
      "list_all (\<lambda>f. length f = n) fs" "length r < n" "length fs = (length xs - n) div n"
      using "1.IH" False "1.prems" q d by force
    then show ?thesis using False "1.prems"(1) q d
      by (auto simp: pace_split.simps [of n xs] intro!: exI [of _ "take n xs # fs"])
  qed
qed

text \<open>The room the queue needs: it never overflows.\<close>

fun paced_room :: "media_env \<Rightarrow> CodecProcessor \<Rightarrow> u32 \<Rightarrow> (int \<times> audio_event) list \<Rightarrow> audio \<Rightarrow> bool" where
  "paced_room e cp rate [] s = True"
| "paced_room e cp rate ((now, ev) # evs) s =
     ((case ev of PacedWrite buf \<Rightarrow>
         length (pacerQueue s) + (length (pacerResidual s) + length buf) div frameSize (Some cp) \<le> maxPacerQueue | _ \<Rightarrow> True)
      \<and> paced_room e cp rate evs (audio_step e (Some cp) rate now ev s))"

fun paced_samples :: "(int \<times> audio_event) list \<Rightarrow> sample list" where
  "paced_samples [] = []"
| "paced_samples ((now, PacedWrite buf) # evs) = buf @ paced_samples evs"
| "paced_samples ((now, ev) # evs) = paced_samples evs"

text \<open>The events of a stream whose only outgoing source is the paced writer.\<close>

fun paced_only :: "audio_event \<Rightarrow> bool" where
  "paced_only (PacedWrite buf) = True"
| "paced_only PacerTick = True"
| "paced_only JitterTick = True"
| "paced_only (InRTP q) = True"
| "paced_only (AudioSwap b) = True"
| "paced_only (TimerReset d) = True"
| "paced_only ev = False"

definition same_out :: "audio \<Rightarrow> audio \<Rightarrow> bool" where
  "same_out s t =
     (p_muted t = p_muted s \<and> p_conn t = p_conn s \<and> p_remoteAddr t = p_remoteAddr s \<and> p_srtpOut t = p_srtpOut s
      \<and> outSeq t = outSeq s \<and> outTimestamp t = outTimestamp s \<and> outSSRC t = outSSRC s \<and> rtpWriterUsed t = rtpWriterUsed s
      \<and> p_wire t = p_wire s \<and> pacerQueue t = pacerQueue s \<and> pacerResidual t = pacerResidual s \<and> pacerTicking t = pacerTicking s
      \<and> a_returned t = a_returned s)"

lemma drain_same_out: "same_out s (drainJB now cp s)"
proof (induction now cp s rule: drainJB.induct)
  case (1 now cp s)
  show ?case
  proof (cases "Pop now (a_jb s)")
    case (Pair r jb)
    show ?thesis
    proof (cases r)
      case None
      then show ?thesis using Pair by (simp add: drainJB.simps [of now cp s] same_out_def)
    next
      case (Some q)
      then show ?thesis using "1.IH" [OF Pair [symmetric] Some] Pair
        by (simp add: drainJB.simps [of now cp s] same_out_def deliver_def Let_def split: option.splits if_splits)
    qed
  qed
qed

lemma inbound_same_out: "same_out s (inbound_rtp now cp rate q s)"
proof (cases "PayloadType q = DTMFPayloadType")
  case True
  then show ?thesis by (simp add: inbound_rtp_def Let_def resetTimer_def same_out_def split: prod.split)
next
  case False
  then obtain t where "inbound_rtp now cp rate q s = drainJB now cp t" "same_out s t"
    by (simp add: inbound_rtp_def Let_def resetTimer_def same_out_def)
  then show ?thesis using drain_same_out [of t now cp] by (simp add: same_out_def)
qed

text \<open>The samples that wait in the pacer, and a pacer in order.\<close>

definition waiting :: "audio \<Rightarrow> sample list" where
  "waiting s = concat (pacerQueue s) @ pacerResidual s"

definition pacer_ok :: "nat \<Rightarrow> audio \<Rightarrow> bool" where
  "pacer_ok n s = (list_all (\<lambda>f. length f = n) (pacerQueue s) \<and> length (pacerResidual s) < n \<and> length (pacerQueue s) \<le> maxPacerQueue)"

lemma paced_write_step:
  assumes "pacer_ok n s" "frameSize (Some cp) = n" "\<not> rtpWriterUsed s"
    "length (pacerQueue s) + (length (pacerResidual s) + length buf) div n \<le> maxPacerQueue"
  shows "pacer_ok n (paced_write (Some cp) buf s)" "waiting (paced_write (Some cp) buf s) = waiting s @ buf"
    "same_out (s\<lparr>pacerQueue := pacerQueue (paced_write (Some cp) buf s), pacerResidual := pacerResidual (paced_write (Some cp) buf s),
       pacerTicking := pacerTicking (paced_write (Some cp) buf s)\<rparr>) (paced_write (Some cp) buf s)"
proof -
  have n: "0 < n" using assms(1) by (auto simp: pacer_ok_def)
  obtain fs r where sp: "pace_split n (pacerResidual s @ buf) (pacerQueue s) = (pacerQueue s @ fs, r)"
    "concat fs @ r = pacerResidual s @ buf" "list_all (\<lambda>f. length f = n) fs" "length r < n"
    "length fs = (length (pacerResidual s) + length buf) div n"
    using pace_split_spec [OF n, of "pacerQueue s" "pacerResidual s @ buf"] assms(4) by auto
  have w: "paced_write (Some cp) buf s = (let s = s\<lparr>pacerQueue := pacerQueue s @ fs, pacerResidual := r\<rparr>
      in if \<not> pacerTicking s \<and> pacerQueue s \<noteq> [] then s\<lparr>pacerTicking := True\<rparr> else s)"
    using sp(1) assms(2,3) by (simp add: paced_write_def Let_def)
  show "pacer_ok n (paced_write (Some cp) buf s)" using assms(1,4) sp by (simp add: w pacer_ok_def Let_def)
  show "waiting (paced_write (Some cp) buf s) = waiting s @ buf" using sp(2) by (simp add: w waiting_def Let_def)
  show "same_out (s\<lparr>pacerQueue := pacerQueue (paced_write (Some cp) buf s), pacerResidual := pacerResidual (paced_write (Some cp) buf s),
       pacerTicking := pacerTicking (paced_write (Some cp) buf s)\<rparr>) (paced_write (Some cp) buf s)"
    by (simp add: w same_out_def Let_def)
qed

definition paced_ready :: "media_env \<Rightarrow> (bytes \<times> bytes) option \<Rightarrow> string \<Rightarrow> CodecProcessor \<Rightarrow> nat \<Rightarrow> audio \<Rightarrow> bool" where
  "paced_ready e keys dst cp k s =
     (out_ready e keys dst k s \<and> unat (outSeq s) = k \<and> \<not> p_muted s \<and> \<not> rtpWriterUsed s \<and> \<not> a_returned s
      \<and> pacer_ok (frameSize (Some cp)) s)"

lemma paced_ready_same: "same_out s t \<Longrightarrow> paced_ready e keys dst cp k s \<Longrightarrow> paced_ready e keys dst cp k t"
  by (simp add: same_out_def paced_ready_def out_ready_def pacer_ok_def)

lemma audio_more_fields:
  "pipeline.more s = pipeline.more (t :: audio) \<Longrightarrow> pacerQueue s = pacerQueue t \<and> pacerResidual s = pacerResidual t
    \<and> pacerTicking s = pacerTicking t \<and> a_returned s = a_returned t \<and> a_timer s = a_timer t \<and> a_timeout s = a_timeout t
    \<and> a_timedOut s = a_timedOut t"
  by (cases s; cases t) simp

lemma pacer_tick_step:
  assumes "paced_ready e keys dst cp k s" "pacerQueue s = f # rest" "cp_PayloadType cp < 128" "k < 65535"
  defines "q \<equiv> \<lparr>Marker = False, PayloadType = cp_PayloadType cp, SequenceNumber = outSeq s, Timestamp = outTimestamp s,
      SSRC = outSSRC s, Payload = cp_Encode cp f\<rparr>"
  defines "t \<equiv> pacer_tick e (Some cp) s"
  shows "p_wire t = p_wire s @ [(dst, datagram e keys q)]" "paced_ready e keys dst cp (Suc k) t"
    "outSeq t = outSeq s + 1" "outTimestamp t = outTimestamp s + cp_SamplesPerFrame cp" "outSSRC t = outSSRC s"
    "waiting s = f @ waiting t"
proof -
  let ?p = "s\<lparr>pacerQueue := rest, outSeq := outSeq s + 1, outTimestamp := outTimestamp s + cp_SamplesPerFrame cp\<rparr>"
  have t: "t = sendRTP e q ?p"
    using assms(1,2) by (simp add: t_def q_def pacer_tick_def encodePCMAndSend_def paced_ready_def Let_def)
  have "out_ready e keys dst k ?p" using assms(1) by (simp add: out_ready_def paced_ready_def)
  from sendRTP_wire [OF this, of q] assms(1,3)
  have w: "p_wire t = p_wire s @ [(dst, datagram e keys q)]" "out_ready e keys dst (Suc k) t"
    by (simp_all add: t q_def paced_ready_def)
  have m: "pacerQueue t = rest" "pacerResidual t = pacerResidual s" "a_returned t = a_returned s"
    using audio_more_fields [of t ?p] by (simp_all add: t sendRTP_frame)
  have "unat (outSeq s + 1) = Suc k" using assms(1,4) by (simp add: paced_ready_def unat_word_ariths)
  then show "paced_ready e keys dst cp (Suc k) t"
    using assms(1,2) w(2) m by (simp add: paced_ready_def pacer_ok_def) (simp add: t sendRTP_frame)
  show "p_wire t = p_wire s @ [(dst, datagram e keys q)]" by (rule w(1))
  show "outSeq t = outSeq s + 1" "outTimestamp t = outTimestamp s + cp_SamplesPerFrame cp" "outSSRC t = outSSRC s"
    by (simp_all add: t sendRTP_frame)
  show "waiting s = f @ waiting t" using m assms(2) by (simp add: waiting_def)
qed

lemma paced_exact:
  assumes "paced_ready e keys dst cp k s" "cp_PayloadType cp < 128" "list_all (paced_only \<circ> snd) evs" "paced_room e cp rate evs s"
    and "k * frameSize (Some cp) + length (waiting s) + length (paced_samples evs) \<le> 32768 * frameSize (Some cp)"
  shows "\<exists>played. p_wire (audio_run e (Some cp) rate evs s)
      = p_wire s @ map (\<lambda>q. (dst, datagram e keys q)) (pcm_packets cp (outSSRC s) (outSeq s) (outTimestamp s) played)
    \<and> concat played @ waiting (audio_run e (Some cp) rate evs s) = waiting s @ paced_samples evs
    \<and> list_all (\<lambda>f. length f = frameSize (Some cp)) played
    \<and> pacer_ok (frameSize (Some cp)) (audio_run e (Some cp) rate evs s)"
  using assms
proof (induction evs arbitrary: s k)
  case Nil
  then show ?case by (intro exI [of _ "[]"]) (simp add: paced_ready_def)
next
  case (Cons x evs)
  let ?n = "frameSize (Some cp)"
  obtain now ev where x: "x = (now, ev)" by fastforce
  let ?t = "audio_step e (Some cp) rate now ev s"
  have ret: "\<not> a_returned s" "\<not> rtpWriterUsed s" "pacer_ok ?n s" using Cons.prems(1) by (simp_all add: paced_ready_def)
  have room: "paced_room e cp rate evs ?t" using Cons.prems(4) x by simp
  have "paced_only ev" using Cons.prems(3) x by simp
  then consider (tick) f rest where "ev = PacerTick" "pacerTicking s" "pacerQueue s = f # rest"
    | (put) buf where "ev = PacedWrite buf"
    | (other) "same_out s ?t" "paced_samples (x # evs) = paced_samples evs"
  proof (cases ev)
    case PacerTick
    then show ?thesis using that ret
      by (cases "pacerTicking s"; cases "pacerQueue s") (auto simp: audio_step_def pacer_tick_def same_out_def x)
  qed (use that ret x drain_same_out inbound_same_out in \<open>auto simp: audio_step_def same_out_def resetTimer_def\<close>)
  then show ?case
  proof cases
    case tick
    then have t: "?t = pacer_tick e (Some cp) s" using ret by (simp add: audio_step_def)
    have "?n \<le> length (waiting s)" using tick ret(3) by (simp add: waiting_def pacer_ok_def)
    then have "Suc k * ?n \<le> 32768 * ?n" unfolding mult_Suc using Cons.prems(5) by linarith
    moreover have "0 < ?n" using ret(3) by (auto simp: pacer_ok_def)
    ultimately have "Suc k \<le> 32768" by (simp only: mult_le_cancel2)
    then have "k < 65535" by simp
    note st = pacer_tick_step [OF Cons.prems(1) tick(3) Cons.prems(2) this, folded t]
    have lf: "length f = ?n" using tick ret(3) by (simp add: pacer_ok_def)
    have "length (waiting s) = ?n + length (waiting ?t)" using st(6) lf by simp
    then have "Suc k * ?n + length (waiting ?t) + length (paced_samples evs) \<le> 32768 * ?n"
      using Cons.prems(5) x tick by simp
    from Cons.IH [OF st(2) Cons.prems(2) _ room this] Cons.prems(3)
    obtain played where "p_wire (audio_run e (Some cp) rate evs ?t)
        = p_wire ?t @ map (\<lambda>q. (dst, datagram e keys q)) (pcm_packets cp (outSSRC ?t) (outSeq ?t) (outTimestamp ?t) played)"
      "concat played @ waiting (audio_run e (Some cp) rate evs ?t) = waiting ?t @ paced_samples evs"
      "list_all (\<lambda>f. length f = ?n) played" "pacer_ok ?n (audio_run e (Some cp) rate evs ?t)"
      by auto
    then show ?thesis using st lf x tick by (intro exI [of _ "f # played"]) simp
  next
    case (put buf)
    then have t: "?t = paced_write (Some cp) buf s" using ret by (simp add: audio_step_def)
    have "length (pacerQueue s) + (length (pacerResidual s) + length buf) div ?n \<le> maxPacerQueue"
      using Cons.prems(4) x put by simp
    note st = paced_write_step [OF ret(3) refl ret(2) this, folded t]
    have so: "paced_ready e keys dst cp k ?t" "p_wire ?t = p_wire s" "outSSRC ?t = outSSRC s" "outSeq ?t = outSeq s" "outTimestamp ?t = outTimestamp s"
      using Cons.prems(1) st(1,3) by (auto simp: paced_ready_def same_out_def out_ready_def)
    have "k * ?n + length (waiting ?t) + length (paced_samples evs) \<le> 32768 * ?n"
      using Cons.prems(5) x put st(2) by simp
    from Cons.IH [OF so(1) Cons.prems(2) _ room this] Cons.prems(3) show ?thesis
      using so st(2) x put by simp
  next
    case other
    then have w: "waiting ?t = waiting s" by (simp add: same_out_def waiting_def)
    have "k * ?n + length (waiting ?t) + length (paced_samples evs) \<le> 32768 * ?n"
      using Cons.prems(5) other w by simp
    from Cons.IH [OF paced_ready_same [OF other(1) Cons.prems(1)] Cons.prems(2) _ room this] Cons.prems(3) other w
    show ?thesis by (simp add: x same_out_def)
  qed
qed


text \<open>A codec with frames of five samples, to evaluate on.\<close>

definition demo_codec :: CodecProcessor where
  "demo_codec = \<lparr>cp_Decode = pcmu_Decode, cp_Encode = pcmu_Encode, cp_PayloadType = 0, cp_ClockRate = 8000, cp_SamplesPerFrame = 5\<rparr>"


section \<open>The media timer\<close>

text \<open>When the media timer is due: a packet sets it to the timeout of the stream, a reset to its own.\<close>

fun deadline :: "int \<Rightarrow> int \<Rightarrow> (int \<times> audio_event) list \<Rightarrow> int" where
  "deadline timeout dl [] = dl"
| "deadline timeout dl ((now, ev) # evs) =
     deadline timeout (case ev of InRTP q \<Rightarrow> now + timeout | TimerReset d \<Rightarrow> now + d | _ \<Rightarrow> dl) evs"

definition same_timer :: "audio \<Rightarrow> audio \<Rightarrow> bool" where
  "same_timer s t = (a_timer t = a_timer s \<and> a_timeout t = a_timeout s \<and> a_timedOut t = a_timedOut s \<and> a_returned t = a_returned s)"

lemma same_timer_more: "pipeline.more t = pipeline.more s \<Longrightarrow> same_timer s t"
  using audio_more_fields [of t s] by (simp add: same_timer_def)

lemma same_timer_trans: "same_timer r s \<Longrightarrow> same_timer s t \<Longrightarrow> same_timer r t"
  by (simp add: same_timer_def)

lemma drain_same_timer: "same_timer s (drainJB now cp s)"
proof (induction now cp s rule: drainJB.induct)
  case (1 now cp s)
  show ?case
  proof (cases "Pop now (a_jb s)")
    case (Pair r jb)
    show ?thesis
    proof (cases r)
      case None
      then show ?thesis using Pair by (simp add: drainJB.simps [of now cp s] same_timer_def)
    next
      case (Some q)
      have "same_timer s (deliver cp q (s\<lparr>a_jb := jb\<rparr>))" by (simp add: deliver_def Let_def same_timer_def split: option.split)
      then show ?thesis using same_timer_trans "1.IH" [OF Pair [symmetric] Some] Pair Some
        by (auto simp: drainJB.simps [of now cp s])
    qed
  qed
qed

lemma encode_same_timer: "same_timer s (encodePCMAndSend e f cp s)"
  by (rule same_timer_more) (simp add: encodePCMAndSend_def Let_def sendRTP_frame)

lemma rtcp_more: "pipeline.more (sendRTCP e now p) = pipeline.more p" "pipeline.more (handleRTCPReceive now data p) = pipeline.more p"
  by (simp_all add: sendRTCP_def handleRTCPReceive_def Let_def case_prod_beta split: option.split sum.split prod.split bool.split)

lemma pcm_same_timer: "same_timer s (outbound_pcm e cp f s)" "same_timer s (pacer_tick e cp s)"
proof -
  have "same_timer s (encodePCMAndSend e g c (s\<lparr>pacerQueue := q\<rparr>))" for g c q
    using encode_same_timer [of "s\<lparr>pacerQueue := q\<rparr>" e g c] by (simp add: same_timer_def)
  then show "same_timer s (outbound_pcm e cp f s)" "same_timer s (pacer_tick e cp s)"
    using encode_same_timer by (auto simp: outbound_pcm_def pacer_tick_def same_timer_def split: option.split list.split)
qed

lemma paced_write_same_timer: "same_timer s (paced_write cp buf s)"
  by (simp add: paced_write_def Let_def same_timer_def split: prod.split)

lemma outbound_same_timer: "same_timer s (outbound_rtp e q s)"
  by (rule same_timer_more) (simp add: outbound_rtp_def Let_def sendRTP_frame)

lemma inbound_timer:
  "a_timer (inbound_rtp now cp rate q s) = now + a_timeout s" "a_timeout (inbound_rtp now cp rate q s) = a_timeout s"
  "a_timedOut (inbound_rtp now cp rate q s) = a_timedOut s" "a_returned (inbound_rtp now cp rate q s) = a_returned s"
  using drain_same_timer [of _ now cp]
  by (auto simp: inbound_rtp_def Let_def resetTimer_def same_timer_def split: prod.split)

lemma timer_step:
  assumes "\<not> a_returned (audio_step e cp rate now ev s)"
  shows "\<not> a_returned s \<and> a_timeout (audio_step e cp rate now ev s) = a_timeout s \<and> a_timedOut (audio_step e cp rate now ev s) = a_timedOut s
    \<and> a_timer (audio_step e cp rate now ev s) = deadline (a_timeout s) (a_timer s) [(now, ev)]"
proof -
  have s: "\<not> a_returned s" using assms by (auto simp: audio_step_def split: if_splits)
  note frames = drain_same_timer [of s now cp] outbound_same_timer [of s e] pcm_same_timer [of s e cp] paced_write_same_timer [of s cp]
    same_timer_more [OF rtcp_more(1) [of e now s]] same_timer_more [OF rtcp_more(2) [of now _ s]]
  show ?thesis
    using assms s frames
    by (cases ev) (auto simp: audio_step_def inbound_timer same_timer_def resetTimer_def split: option.split if_splits)
qed

lemma timer_run:
  assumes "\<not> a_returned (audio_run e cp rate evs s)"
  shows "\<not> a_returned s \<and> a_timedOut (audio_run e cp rate evs s) = a_timedOut s
    \<and> a_timer (audio_run e cp rate evs s) = deadline (a_timeout s) (a_timer s) evs"
  using assms
proof (induction evs arbitrary: s)
  case (Cons x evs)
  obtain now ev where x: "x = (now, ev)" by fastforce
  from Cons.IH [of "audio_step e cp rate now ev s"] Cons.prems timer_step [of e cp rate now ev s] show ?case
    by (simp add: x)
qed simp

text \<open>
  A call times out exactly when its media is silent.  As long as the audio goroutine of a stream that
  was started at \<open>t0\<close> runs, whatever it sends and receives, its timer ends the call at time \<open>now\<close> if and only
  if \<open>now\<close> has reached the deadline: the timeout after the last packet, or after the start, or the
  duration of the last reset when no packet has come since.
\<close>

theorem media_timeout_exact:
  assumes "\<not> a_returned (audio_run e cp rate evs (run_start t0 jd s))"
  shows "a_timedOut (audio_step e cp rate now TimerFires (audio_run e cp rate evs (run_start t0 jd s)))
    \<longleftrightarrow> deadline (a_timeout s) (t0 + a_timeout s) evs \<le> now"
proof -
  have "a_timer (run_start t0 jd s) = t0 + a_timeout s" "a_timeout (run_start t0 jd s) = a_timeout s"
    "\<not> a_timedOut (run_start t0 jd s)" by (simp_all add: run_start_def)
  with timer_run [OF assms] assms show ?thesis by (auto simp: audio_step_def)
qed

lemma demo_run: "audio_run demo_media None 8000 [(5, TimerReset 300), (9, InRTP q)] (run_start 0 50 demo_audio)
  = inbound_rtp 9 None 8000 q (resetTimer 5 300 (run_start 0 50 demo_audio))"
  by (simp add: audio_step_def run_start_def resetTimer_def)

definition demo_rtp :: rtp_packet where
  "demo_rtp = \<lparr>Marker = False, PayloadType = 0, SequenceNumber = 1, Timestamp = 0, SSRC = 1, Payload = [1]\<rparr>"

theorem media_timeout_exact_witness:
  "a_timedOut (audio_step demo_media None 8000 39 TimerFires
     (audio_run demo_media None 8000 [(5, TimerReset 300), (9, InRTP demo_rtp)] (run_start 0 50 demo_audio)))"
proof -
  have "\<not> a_returned (audio_run demo_media None 8000 [(5, TimerReset 300), (9, InRTP demo_rtp)] (run_start 0 50 demo_audio))"
    unfolding demo_run by (simp add: inbound_timer resetTimer_def run_start_def)
  from media_timeout_exact [OF this, of 39] show ?thesis by (simp add: demo_audio_def)
qed

text \<open>
  Any packet undoes the longer timeout of a call on hold.  \<open>Hold\<close> resets the timer to its own duration
  \<open>d\<close>; the next packet sets it back to the timeout of the stream, whatever \<open>d\<close> was.
\<close>

theorem hold_timeout_undone:
  assumes "\<not> a_returned s"
  shows "a_timer (audio_run e cp rate [(t1, TimerReset d), (t2, InRTP q)] s) = t2 + a_timeout s"
  using assms by (simp add: audio_step_def resetTimer_def inbound_timer)

theorem hold_timeout_undone_witness:
  "a_timer (audio_run demo_media None 8000 [(5, TimerReset 300), (9, InRTP demo_rtp)] demo_audio) = 39"
  using hold_timeout_undone [of demo_audio demo_media None 8000 5 300 9 demo_rtp] by (simp add: demo_audio_def)

end
