(* ===== verification/PhoneLifecycle.thy ===== *)
theory PhoneLifecycle
  imports Main
begin

text \<open>
  The lifecycle of a phone, \<open>Connect\<close>, \<open>Prepare\<close>, \<open>Register\<close>, \<open>Unregister\<close> and \<open>Disconnect\<close> of
  \<open>xphone.go\<close>, as concurrent threads.  A thread is a program point between two critical sections
  under \<open>p.mu\<close>; each critical section is one definition on the shared fields.  What happens between
  sections is an external choice: whether the caller's context is still alive, whether the user agent
  could be built, whether \<open>reg.Start\<close> succeeded.  Transports are numbered in the order in which they
  are opened; a registry is identified with the transport it is wired to.  Counters are natural
  numbers: the 64-bit generation does not wrap in practice.
\<close>

section \<open>Shared state and program points\<close>

datatype PhoneState =
    PhoneStateDisconnected
  | PhoneStateRegistering
  | PhoneStateRegistered
  | PhoneStateUnregistering
  | PhoneStateRegistrationFailed
  | PhoneStatePrepared

record phone =
  ph_state :: PhoneState
  preparing :: bool
  lifecycleGen :: nat
  ph_tr :: "nat option"
  ph_reg :: "nat option"
  ph_mwi :: "nat option"
  ph_subMgr :: "nat option"
  regCancel :: "nat option"
  ph_calls :: "string set"
  cancelled :: "nat set"
  opened :: nat
  closed :: "nat set"
  ended_calls :: "string set"

definition newPhone :: phone where
  "newPhone = \<lparr>ph_state = PhoneStateDisconnected, preparing = False, lifecycleGen = 0, ph_tr = None,
     ph_reg = None, ph_mwi = None, ph_subMgr = None, regCancel = None, ph_calls = {}, cancelled = {},
     opened = 0, closed = {}, ended_calls = {}\<rparr>"

datatype lifecycle_op = OpConnect | OpPrepare | OpRegister

datatype api_result = Success | ErrInvalidState | ErrAlreadyConnected | ErrNotConnected | ContextErr | SetupErr | RegistrationErr

text \<open>Program points: \<open>AtStun\<close> to \<open>PrepareFailed\<close> lie in \<open>prepareTransport\<close> and at its two exits,
  \<open>AtStart\<close> to \<open>StoreSubMgr\<close> in \<open>runRegistration\<close>; the number is the generation of the attempt.\<close>

datatype pc =
    Idle
  | AtStun lifecycle_op nat
  | AtUA lifecycle_op nat
  | AtAttach lifecycle_op nat nat
  | Prepared nat
  | PrepareFailed lifecycle_op nat api_result
  | AtStart lifecycle_op nat
  | Registering lifecycle_op nat "nat option"
  | Registered lifecycle_op nat "nat option" bool
  | StoreMwi lifecycle_op nat "nat option"
  | StoreSubMgr lifecycle_op nat "nat option"
  | ConnectFailed nat api_result
  | Panicked
  | UnregisterTail
  | Done api_result

section \<open>The critical sections\<close>

definition connect_begin :: "phone \<Rightarrow> pc \<times> phone" where
  "connect_begin p =
     (if ph_state p \<noteq> PhoneStateDisconnected then (Done ErrAlreadyConnected, p)
      else (AtStun OpConnect (lifecycleGen p + 1),
            p\<lparr>ph_state := PhoneStateRegistering, lifecycleGen := lifecycleGen p + 1\<rparr>))"

definition prepare_begin :: "bool \<Rightarrow> phone \<Rightarrow> pc \<times> phone" where
  "prepare_begin ctxOk p =
     (if \<not> ctxOk then (Done ContextErr, p)
      else if preparing p then (Done ErrInvalidState, p)
      else if ph_state p \<noteq> PhoneStateDisconnected
           then (Done (if ph_tr p \<noteq> None then Success else ErrInvalidState), p)
      else (AtStun OpPrepare (lifecycleGen p + 1), p\<lparr>preparing := True, lifecycleGen := lifecycleGen p + 1\<rparr>))"

definition register_begin :: "bool \<Rightarrow> phone \<Rightarrow> pc \<times> phone" where
  "register_begin ctxOk p =
     (if \<not> ctxOk then (Done ContextErr, p)
      else case ph_state p of
             PhoneStateRegistered \<Rightarrow> (Done Success, p)
           | PhoneStateRegistering \<Rightarrow> (Done ErrInvalidState, p)
           | PhoneStateUnregistering \<Rightarrow> (Done ErrInvalidState, p)
           | PhoneStateDisconnected \<Rightarrow>
               (AtStun OpRegister (lifecycleGen p + 1),
                p\<lparr>ph_state := PhoneStateRegistering, lifecycleGen := lifecycleGen p + 1\<rparr>)
           | _ \<Rightarrow>
               (AtStart OpRegister (lifecycleGen p + 1),
                p\<lparr>ph_reg := (if ph_reg p = None then ph_tr p else ph_reg p),
                  ph_state := PhoneStateRegistering, lifecycleGen := lifecycleGen p + 1\<rparr>))"

definition unregister_begin :: "phone \<Rightarrow> pc \<times> phone" where
  "unregister_begin p =
     (if ph_state p \<noteq> PhoneStateRegistered \<and> ph_state p \<noteq> PhoneStateRegistrationFailed
      then (Done ErrInvalidState, p)
      else (UnregisterTail,
            p\<lparr>ph_state := PhoneStateUnregistering, ph_reg := None, ph_mwi := None, ph_subMgr := None\<rparr>))"

definition unregister_finish :: "phone \<Rightarrow> pc \<times> phone" where
  "unregister_finish p =
     (if ph_state p = PhoneStateUnregistering then (Done Success, p\<lparr>ph_state := PhoneStatePrepared\<rparr>)
      else (Done Success, p))"

text \<open>\<open>Disconnect\<close>: the section and the calls that follow it, which end the active calls and close
  the transport.\<close>

definition disconnect :: "phone \<Rightarrow> pc \<times> phone" where
  "disconnect p =
     (if ph_state p = PhoneStateDisconnected then
        (if preparing p then
           (Done Success,
            p\<lparr>preparing := False, lifecycleGen := lifecycleGen p + 1, ph_tr := None, ph_reg := None,
              closed := closed p \<union> set_option (ph_tr p)\<rparr>)
         else (Done ErrNotConnected, p))
      else
        (Done Success,
         p\<lparr>lifecycleGen := lifecycleGen p + 1, cancelled := cancelled p \<union> set_option (regCancel p),
           regCancel := None, ph_state := PhoneStateDisconnected, ph_reg := None, ph_tr := None,
           ph_mwi := None, ph_subMgr := None, ended_calls := ended_calls p \<union> ph_calls p, ph_calls := {},
           closed := closed p \<union> set_option (ph_tr p)\<rparr>))"

text \<open>The closures \<open>stillValid\<close> that \<open>Connect\<close>, \<open>Register\<close> and \<open>Prepare\<close> pass to \<open>prepareTransport\<close>.\<close>

definition stillValid :: "lifecycle_op \<Rightarrow> nat \<Rightarrow> bool \<Rightarrow> phone \<Rightarrow> bool" where
  "stillValid op gen ctxOk p =
     (ctxOk \<and> lifecycleGen p = gen
      \<and> (if op = OpPrepare then preparing p else ph_state p = PhoneStateRegistering))"

definition invalidated :: "bool \<Rightarrow> api_result" where
  "invalidated ctxOk = (if ctxOk then ErrInvalidState else ContextErr)"

definition after_stun :: "lifecycle_op \<Rightarrow> nat \<Rightarrow> bool \<Rightarrow> phone \<Rightarrow> pc \<times> phone" where
  "after_stun op gen ctxOk p =
     (if stillValid op gen ctxOk p then (AtUA op gen, p) else (PrepareFailed op gen (invalidated ctxOk), p))"

text \<open>\<open>newSipUA\<close>: opens a transport or fails.\<close>

definition build_ua :: "lifecycle_op \<Rightarrow> nat \<Rightarrow> bool \<Rightarrow> phone \<Rightarrow> pc \<times> phone" where
  "build_ua op gen ok p =
     (if ok then (AtAttach op gen (opened p), p\<lparr>opened := opened p + 1\<rparr>)
      else (PrepareFailed op gen SetupErr, p))"

definition attach :: "lifecycle_op \<Rightarrow> nat \<Rightarrow> nat \<Rightarrow> bool \<Rightarrow> phone \<Rightarrow> pc \<times> phone" where
  "attach op gen tr ctxOk p =
     (if stillValid op gen ctxOk p
      then (if op = OpPrepare then Prepared gen else AtStart op gen, p\<lparr>ph_tr := Some tr, ph_reg := Some tr\<rparr>)
      else (PrepareFailed op gen (invalidated ctxOk), p\<lparr>closed := insert tr (closed p)\<rparr>))"

definition teardownAfterPrepareError :: "nat \<Rightarrow> phone \<Rightarrow> phone" where
  "teardownAfterPrepareError gen p =
     (if lifecycleGen p = gen \<and> ph_state p = PhoneStateRegistering
      then p\<lparr>ph_state := PhoneStateDisconnected, ph_tr := None, ph_reg := None\<rparr> else p)"

text \<open>The last section of \<open>Prepare\<close>; \<open>err\<close> is \<open>None\<close> when \<open>prepareTransport\<close> succeeded.\<close>

definition prepare_finish :: "nat \<Rightarrow> api_result option \<Rightarrow> phone \<Rightarrow> pc \<times> phone" where
  "prepare_finish gen err p =
     (if lifecycleGen p \<noteq> gen then (Done ErrInvalidState, p)
      else case err of
             Some e \<Rightarrow> (Done e, p\<lparr>preparing := False, ph_tr := None, ph_reg := None\<rparr>)
           | None \<Rightarrow> (Done Success, p\<lparr>preparing := False, ph_state := PhoneStatePrepared\<rparr>))"

definition prepare_failed :: "lifecycle_op \<Rightarrow> nat \<Rightarrow> api_result \<Rightarrow> phone \<Rightarrow> pc \<times> phone" where
  "prepare_failed op gen e p =
     (if op = OpPrepare then prepare_finish gen (Some e) p else (Done e, teardownAfterPrepareError gen p))"

text \<open>The sections of \<open>runRegistration\<close>.  After an error \<open>Connect\<close> goes on to tear down.  Starting a nil
  registry is a nil dereference.\<close>

definition after_registration :: "lifecycle_op \<Rightarrow> nat \<Rightarrow> api_result \<Rightarrow> pc" where
  "after_registration op gen e = (if op = OpConnect then ConnectFailed gen e else Done e)"

definition run_begin :: "lifecycle_op \<Rightarrow> nat \<Rightarrow> phone \<Rightarrow> pc \<times> phone" where
  "run_begin op gen p =
     (if lifecycleGen p \<noteq> gen then (after_registration op gen ErrInvalidState, p)
      else if ph_reg p = None then (Panicked, p\<lparr>regCancel := Some gen\<rparr>)
      else (Registering op gen (ph_tr p), p\<lparr>regCancel := Some gen\<rparr>))"

definition run_publish :: "lifecycle_op \<Rightarrow> nat \<Rightarrow> nat option \<Rightarrow> bool \<Rightarrow> bool \<Rightarrow> phone \<Rightarrow> pc \<times> phone" where
  "run_publish op gen tr ok voicemail p =
     (if lifecycleGen p \<noteq> gen \<or> ph_state p \<noteq> PhoneStateRegistering
      then (after_registration op gen (if ok then ErrInvalidState else RegistrationErr), p)
      else if ok
      then (if voicemail then StoreMwi op gen tr else StoreSubMgr op gen tr,
            p\<lparr>regCancel := None, ph_state := PhoneStateRegistered\<rparr>)
      else (after_registration op gen RegistrationErr,
            p\<lparr>regCancel := None, ph_state := PhoneStateRegistrationFailed\<rparr>))"

definition store_mwi :: "lifecycle_op \<Rightarrow> nat \<Rightarrow> nat option \<Rightarrow> phone \<Rightarrow> pc \<times> phone" where
  "store_mwi op gen tr p =
     (StoreSubMgr op gen tr,
      if lifecycleGen p = gen \<and> ph_state p = PhoneStateRegistered then p\<lparr>ph_mwi := tr\<rparr> else p)"

definition store_subMgr :: "nat \<Rightarrow> nat option \<Rightarrow> phone \<Rightarrow> pc \<times> phone" where
  "store_subMgr gen tr p =
     (Done Success,
      if lifecycleGen p = gen \<and> ph_state p = PhoneStateRegistered then p\<lparr>ph_subMgr := tr\<rparr> else p)"

definition connect_teardown :: "nat \<Rightarrow> api_result \<Rightarrow> phone \<Rightarrow> pc \<times> phone" where
  "connect_teardown gen e p =
     (if lifecycleGen p \<noteq> gen then (Done e, p)
      else (Done e,
            p\<lparr>ph_tr := None, ph_reg := None, ph_state := PhoneStateDisconnected,
              closed := closed p \<union> set_option (ph_tr p)\<rparr>))"

text \<open>The gate of \<open>Dial\<close> and \<open>SendMessageWithType\<close>.\<close>

definition dial_gate :: "bool \<Rightarrow> phone \<Rightarrow> bool" where
  "dial_gate registrarless p =
     (ph_state p = PhoneStateRegistered
      \<or> registrarless \<and> (ph_state p = PhoneStatePrepared \<or> ph_state p = PhoneStateRegistrationFailed))"

section \<open>Threads\<close>

datatype api_call = CallConnect | CallPrepare | CallRegister | CallUnregister | CallDisconnect

fun begin_call :: "api_call \<Rightarrow> bool \<Rightarrow> phone \<Rightarrow> pc \<times> phone" where
  "begin_call CallConnect ctxOk p = connect_begin p"
| "begin_call CallPrepare ctxOk p = prepare_begin ctxOk p"
| "begin_call CallRegister ctxOk p = register_begin ctxOk p"
| "begin_call CallUnregister ctxOk p = unregister_begin p"
| "begin_call CallDisconnect ctxOk p = disconnect p"

text \<open>The next section of a running thread.  \<open>ctxOk\<close>: the caller's context is alive; \<open>ok\<close>: the user
  agent was built, or registration succeeded; \<open>vm\<close>: a voicemail URI is configured.\<close>

fun continue_call :: "bool \<Rightarrow> bool \<Rightarrow> bool \<Rightarrow> pc \<Rightarrow> phone \<Rightarrow> pc \<times> phone" where
  "continue_call ctxOk ok vm (AtStun op g) p = after_stun op g ctxOk p"
| "continue_call ctxOk ok vm (AtUA op g) p = build_ua op g ok p"
| "continue_call ctxOk ok vm (AtAttach op g t) p = attach op g t ctxOk p"
| "continue_call ctxOk ok vm (Prepared g) p = prepare_finish g None p"
| "continue_call ctxOk ok vm (PrepareFailed op g e) p = prepare_failed op g e p"
| "continue_call ctxOk ok vm (AtStart op g) p = run_begin op g p"
| "continue_call ctxOk ok vm (Registering op g t) p = (Registered op g t ok, p)"
| "continue_call ctxOk ok vm (Registered op g t r) p = run_publish op g t r vm p"
| "continue_call ctxOk ok vm (StoreMwi op g t) p = store_mwi op g t p"
| "continue_call ctxOk ok vm (StoreSubMgr op g t) p = store_subMgr g t p"
| "continue_call ctxOk ok vm (ConnectFailed g e) p = connect_teardown g e p"
| "continue_call ctxOk ok vm UnregisterTail p = unregister_finish p"
| "continue_call ctxOk ok vm Idle p = (Idle, p)"
| "continue_call ctxOk ok vm (Done r) p = (Done r, p)"
| "continue_call ctxOk ok vm Panicked p = (Panicked, p)"

record system =
  shared :: phone
  threads :: "nat \<Rightarrow> pc"

definition initial :: system where
  "initial = \<lparr>shared = newPhone, threads = (\<lambda>_. Idle)\<rparr>"

datatype event = Call nat api_call bool | Continue nat bool bool bool

fun sys_step :: "event \<Rightarrow> system \<Rightarrow> system" where
  "sys_step (Call i c ctxOk) w =
     (if threads w i = Idle
      then (case begin_call c ctxOk (shared w) of (q, p) \<Rightarrow> w\<lparr>shared := p, threads := (threads w)(i := q)\<rparr>)
      else w)"
| "sys_step (Continue i ctxOk ok vm) w =
     (case continue_call ctxOk ok vm (threads w i) (shared w) of
        (q, p) \<Rightarrow> w\<lparr>shared := p, threads := (threads w)(i := q)\<rparr>)"

definition run_events :: "event list \<Rightarrow> system \<Rightarrow> system" where
  "run_events evs w = fold sys_step evs w"

section \<open>Ownership of the current attempt\<close>

lemmas section_defs = connect_begin_def prepare_begin_def register_begin_def unregister_begin_def
  unregister_finish_def disconnect_def stillValid_def after_stun_def build_ua_def attach_def
  teardownAfterPrepareError_def prepare_finish_def prepare_failed_def after_registration_def
  run_begin_def run_publish_def store_mwi_def store_subMgr_def connect_teardown_def

fun gen_of :: "pc \<Rightarrow> nat option" where
  "gen_of (AtStun op g) = Some g"
| "gen_of (AtUA op g) = Some g"
| "gen_of (AtAttach op g t) = Some g"
| "gen_of (Prepared g) = Some g"
| "gen_of (PrepareFailed op g e) = Some g"
| "gen_of (AtStart op g) = Some g"
| "gen_of (Registering op g t) = Some g"
| "gen_of (Registered op g t r) = Some g"
| "gen_of (StoreMwi op g t) = Some g"
| "gen_of (StoreSubMgr op g t) = Some g"
| "gen_of (ConnectFailed g e) = Some g"
| "gen_of pc = None"

text \<open>What holds of the phone while the thread of the current generation is at a program point.\<close>

definition in_setup :: "lifecycle_op \<Rightarrow> phone \<Rightarrow> bool" where
  "in_setup op p =
     (if op = OpPrepare then preparing p \<and> ph_state p = PhoneStateDisconnected
      else ph_state p = PhoneStateRegistering)"

fun owner_ok :: "pc \<Rightarrow> phone \<Rightarrow> bool" where
  "owner_ok (AtStun op g) p = in_setup op p"
| "owner_ok (AtUA op g) p = in_setup op p"
| "owner_ok (AtAttach op g t) p = in_setup op p"
| "owner_ok (PrepareFailed op g e) p = in_setup op p"
| "owner_ok (Prepared g) p = (in_setup OpPrepare p \<and> ph_tr p \<noteq> None)"
| "owner_ok (AtStart op g) p = (ph_state p = PhoneStateRegistering \<and> ph_tr p \<noteq> None \<and> ph_reg p \<noteq> None)"
| "owner_ok (Registering op g t) p =
     (ph_state p = PhoneStateRegistering \<and> ph_tr p \<noteq> None \<and> regCancel p = Some g)"
| "owner_ok (Registered op g t r) p =
     (ph_state p = PhoneStateRegistering \<and> ph_tr p \<noteq> None \<and> regCancel p = Some g)"
| "owner_ok pc p = True"

text \<open>A phone that reports a state with a transport has one.\<close>

definition attached_ok :: "phone \<Rightarrow> bool" where
  "attached_ok p = (ph_state p \<notin> {PhoneStateDisconnected, PhoneStateRegistering} \<longrightarrow> ph_tr p \<noteq> None)"

definition thread_ok :: "pc \<Rightarrow> phone \<Rightarrow> bool" where
  "thread_ok q p =
     (q \<noteq> Panicked \<and> (case gen_of q of None \<Rightarrow> True
        | Some g \<Rightarrow> g \<le> lifecycleGen p \<and> (g = lifecycleGen p \<longrightarrow> owner_ok q p)))"

definition one_owner :: "(nat \<Rightarrow> nat option) \<Rightarrow> bool" where
  "one_owner f = inj_on f {i. f i \<noteq> None}"

definition sys_ok :: "system \<Rightarrow> bool" where
  "sys_ok w =
     (attached_ok (shared w) \<and> (\<forall>i. thread_ok (threads w i) (shared w))
      \<and> one_owner (\<lambda>i. gen_of (threads w i)))"

text \<open>A thread whose generation is no longer current leaves the phone alone; it may open and close
  its own transport.\<close>

definition untouched :: "phone \<Rightarrow> phone \<Rightarrow> bool" where
  "untouched p p' = (p' = p\<lparr>opened := opened p', closed := closed p'\<rparr>)"

lemma stale_section:
  assumes "gen_of q = Some g" "g \<noteq> lifecycleGen p"
  shows "untouched p (snd (continue_call ctxOk ok vm q p))"
  using assms by (cases q) (auto simp: section_defs untouched_def)

lemma untouched_ok:
  "untouched p p' \<Longrightarrow> thread_ok r p \<Longrightarrow> thread_ok r p'" "untouched p p' \<Longrightarrow> attached_ok p \<Longrightarrow> attached_ok p'"
proof -
  assume u: "untouched p p'"
  have f: "ph_state p' = ph_state p" "preparing p' = preparing p" "lifecycleGen p' = lifecycleGen p"
    "ph_tr p' = ph_tr p" "ph_reg p' = ph_reg p" "regCancel p' = regCancel p"
    by (subst u [unfolded untouched_def], simp)+
  show "thread_ok r p \<Longrightarrow> thread_ok r p'" by (cases r) (simp_all add: thread_ok_def in_setup_def f)
  show "attached_ok p \<Longrightarrow> attached_ok p'" by (simp add: attached_ok_def f)
qed

lemma begin_self:
  assumes "attached_ok p" "begin_call c ctxOk p = (q, p')"
  shows "attached_ok p' \<and> thread_ok q p' \<and> (gen_of q = None \<or> gen_of q = Some (lifecycleGen p') \<and> lifecycleGen p < lifecycleGen p')"
  using assms
  by (cases c) (auto simp: section_defs attached_ok_def thread_ok_def in_setup_def split: if_splits PhoneState.splits)

lemma begin_others:
  assumes "begin_call c ctxOk p = (q, p')" "thread_ok r p"
  shows "thread_ok r p'"
proof (cases "lifecycleGen p < lifecycleGen p'")
  case True
  then show ?thesis using assms(2) by (auto simp: thread_ok_def split: option.splits)
next
  case False
  then have "p' = p \<or> ph_state p \<in> {PhoneStateRegistered, PhoneStateRegistrationFailed}
      \<and> lifecycleGen p' = lifecycleGen p"
    using assms(1) by (cases c) (auto simp: section_defs split: if_splits PhoneState.splits)
  then show ?thesis
    using assms(2) by (cases r) (auto simp: thread_ok_def in_setup_def split: if_splits)
qed

lemma continue_gen:
  "lifecycleGen (snd (continue_call ctxOk ok vm q p)) = lifecycleGen p"
  "gen_of (fst (continue_call ctxOk ok vm q p)) = None
   \<or> gen_of (fst (continue_call ctxOk ok vm q p)) = gen_of q"
  by (cases q; simp add: section_defs split: option.split)+

lemma continue_self:
  assumes "attached_ok p" "thread_ok q p" "continue_call ctxOk ok vm q p = (q', p')"
  shows "attached_ok p' \<and> thread_ok q' p' \<and> (gen_of q' = None \<or> gen_of q' = gen_of q)"
proof -
  have "attached_ok (snd (continue_call ctxOk ok vm q p)) \<and> thread_ok (fst (continue_call ctxOk ok vm q p)) (snd (continue_call ctxOk ok vm q p))"
    using assms(1,2)
    by (cases q) (simp_all add: section_defs attached_ok_def thread_ok_def in_setup_def split: option.split if_split_asm, auto)
  then show ?thesis using continue_gen(2) [of ctxOk ok vm q p] assms(3) by simp
qed

lemma continue_others:
  assumes "continue_call ctxOk ok vm q p = (q', p')" "thread_ok q p"
    and "thread_ok r p" "gen_of r = None \<or> gen_of r \<noteq> gen_of q"
  shows "thread_ok r p'"
proof (cases "gen_of q = None \<or> gen_of q = Some (lifecycleGen p)")
  case False
  then have "untouched p p'" using stale_section assms(1) by (metis option.exhaust snd_conv)
  then show ?thesis using untouched_ok assms(3) by blast
next
  case q: True
  have g: "lifecycleGen p' = lifecycleGen p"
    using continue_gen(1) [of ctxOk ok vm q p] assms(1) by simp
  show ?thesis
  proof (cases "gen_of r = Some (lifecycleGen p)")
    case False
    then show ?thesis using assms(3) g by (auto simp: thread_ok_def split: option.splits)
  next
    case True
    then have "gen_of q = None" using q assms(4) by auto
    then have "p' = p \<or> ph_state p = PhoneStateUnregistering"
      using assms(1) by (cases q) (auto simp: section_defs split: if_splits)
    then show ?thesis using assms(3) g by (cases r) (auto simp: thread_ok_def in_setup_def split: if_splits)
  qed
qed

lemma one_owner_upd:
  assumes "one_owner f" and "y = None \<or> y = f i \<or> y \<notin> range f"
  shows "one_owner (f(i := y))"
proof -
  have "j = k" if "f j \<noteq> None" "f j = f k" for j k
    using assms(1) that by (auto simp: one_owner_def dest: inj_onD)
  then show ?thesis
    using assms(2) unfolding one_owner_def by (intro inj_onI) (auto split: if_splits, (metis rangeI)+)
qed

lemma one_ownerD:
  assumes "one_owner f" "j \<noteq> i"
  shows "f j = None \<or> f j \<noteq> f i"
  using inj_onD [OF assms(1) [unfolded one_owner_def], of j i] assms(2) by (cases "f i") auto

lemma gen_of_upd: "(\<lambda>k. gen_of ((f(i := q)) k)) = (\<lambda>k. gen_of (f k))(i := gen_of q)"
  by auto

lemma sys_step_ok:
  assumes "sys_ok w"
  shows "sys_ok (sys_step e w)"
proof (cases e)
  case (Call i c ctxOk)
  show ?thesis
  proof (cases "threads w i = Idle")
    case True
    obtain q p' where b: "begin_call c ctxOk (shared w) = (q, p')" by fastforce
    have self: "attached_ok p'" "thread_ok q p'" "gen_of q = None \<or> gen_of q = Some (lifecycleGen p') \<and> lifecycleGen (shared w) < lifecycleGen p'"
      using begin_self [OF _ b] assms by (simp_all add: sys_ok_def)
    have "gen_of (threads w j) = Some g \<Longrightarrow> g \<le> lifecycleGen (shared w)" for j g
      using assms by (fastforce simp: sys_ok_def thread_ok_def split: option.splits)
    then have "gen_of q = None \<or> gen_of q \<notin> range (\<lambda>k. gen_of (threads w k))"
      using self(3) by (metis imageE leD)
    then have "one_owner (\<lambda>k. gen_of (((threads w)(i := q)) k))"
      unfolding gen_of_upd using assms by (intro one_owner_upd) (auto simp: sys_ok_def)
    then show ?thesis
      using assms self begin_others [OF b] Call True b by (simp add: sys_ok_def)
  qed (use assms Call in simp)
next
  case (Continue i ctxOk ok vm)
  obtain q p' where b: "continue_call ctxOk ok vm (threads w i) (shared w) = (q, p')" by fastforce
  have self: "attached_ok p'" "thread_ok q p'" "gen_of q = None \<or> gen_of q = gen_of (threads w i)"
    using continue_self [OF _ _ b] assms by (simp_all add: sys_ok_def)
  have "thread_ok (threads w j) p'" if "j \<noteq> i" for j
    using continue_others [OF b, of "threads w j"] one_ownerD [OF _ that, of "\<lambda>k. gen_of (threads w k)"] assms
    by (simp add: sys_ok_def)
  moreover have "one_owner (\<lambda>k. gen_of (((threads w)(i := q)) k))"
    unfolding gen_of_upd using self(3) assms by (intro one_owner_upd) (auto simp: sys_ok_def)
  ultimately show ?thesis using self Continue b by (simp add: sys_ok_def)
qed

lemma sys_ok_run: "sys_ok (run_events evs initial)"
proof -
  have "sys_ok (fold sys_step evs w)" if "sys_ok w" for w
    using that by (induction evs arbitrary: w) (simp_all add: sys_step_ok)
  moreover have "sys_ok initial" by (simp add: sys_ok_def initial_def newPhone_def attached_ok_def thread_ok_def one_owner_def)
  ultimately show ?thesis by (simp add: run_events_def)
qed

text \<open>
  C6: no gate opens on a half-initialised phone.  However the calls of any number of threads interleave,
  whatever fails in between, a phone that lets \<open>Dial\<close> or \<open>SendMessage\<close> through has its transport
  attached; no thread ever starts a nil registry; and while a registration of the current attempt is
  parked in \<open>reg.Start\<close>, the cancel function \<open>Disconnect\<close> calls is the one that unblocks it.
\<close>

theorem lifecycle_gate_sound:
  "let w = run_events evs initial; p = shared w in
   (dial_gate registrarless p \<longrightarrow> ph_tr p \<noteq> None) \<and> threads w i \<noteq> Panicked
   \<and> (threads w i = Registering op (lifecycleGen p) t \<longrightarrow> regCancel p = Some (lifecycleGen p))"
proof -
  define w where "w = run_events evs initial"
  have ok: "attached_ok (shared w)" "thread_ok (threads w i) (shared w)"
    using sys_ok_run [of evs] by (simp_all add: w_def sys_ok_def)
  have "dial_gate registrarless (shared w) \<longrightarrow> ph_tr (shared w) \<noteq> None"
    using ok(1) by (auto simp: dial_gate_def attached_ok_def)
  then show ?thesis
    using ok(2) unfolding w_def [symmetric] Let_def by (auto simp: thread_ok_def)
qed

text \<open>A successful \<open>Connect\<close> of one thread.\<close>

definition connect_run :: "nat \<Rightarrow> event list" where
  "connect_run i = Call i CallConnect True # replicate 7 (Continue i True True False)"

lemmas run_simps = run_events_def connect_run_def initial_def newPhone_def section_defs eval_nat_numeral

theorem lifecycle_gate_sound_witness:
  "dial_gate False (shared (run_events (connect_run 0) initial)) \<and> ph_tr (shared (run_events (connect_run 0) initial)) \<noteq> None"
proof -
  have "dial_gate False (shared (run_events (connect_run 0) initial))" by (simp add: run_simps dial_gate_def)
  then show ?thesis using lifecycle_gate_sound [of "connect_run 0" False 0 OpConnect None] by (simp add: Let_def)
qed

section \<open>Disconnect is final\<close>

fun is_continue :: "event \<Rightarrow> bool" where
  "is_continue (Continue i a b c) = True"
| "is_continue (Call i c a) = False"

definition all_stale :: "system \<Rightarrow> bool" where
  "all_stale w =
     (ph_state (shared w) = PhoneStateDisconnected
      \<and> (\<forall>i g. gen_of (threads w i) = Some g \<longrightarrow> g < lifecycleGen (shared w)))"

lemma untouched_trans: "untouched p p' \<Longrightarrow> untouched p' p'' \<Longrightarrow> untouched p p''"
  by (cases p; cases p'; cases p'') (simp add: untouched_def)

lemma untouched_refl: "untouched p p"
  by (simp add: untouched_def)

lemma untouched_fields:
  assumes "untouched p p'"
  shows "ph_state p' = ph_state p" "ph_tr p' = ph_tr p" "ph_reg p' = ph_reg p" "ph_mwi p' = ph_mwi p"
    "ph_subMgr p' = ph_subMgr p" "lifecycleGen p' = lifecycleGen p" "ph_calls p' = ph_calls p"
    "ended_calls p' = ended_calls p"
  by (subst assms [unfolded untouched_def], simp)+

lemma closed_grows: "closed p \<subseteq> closed (snd (continue_call ctxOk ok vm q p))"
  by (cases q) (auto simp: section_defs split: option.splits)

lemma stale_step:
  assumes "all_stale w" "is_continue e"
  shows "all_stale (sys_step e w) \<and> untouched (shared w) (shared (sys_step e w))
    \<and> closed (shared w) \<subseteq> closed (shared (sys_step e w))"
proof -
  obtain i a b c where e: "e = Continue i a b c" using assms(2) by (cases e) auto
  obtain q p' where k: "continue_call a b c (threads w i) (shared w) = (q, p')" by fastforce
  have u: "untouched (shared w) p'"
  proof (cases "gen_of (threads w i)")
    case None
    then show ?thesis
      using k assms(1) by (cases "threads w i") (auto simp: section_defs all_stale_def untouched_refl)
  next
    case (Some g)
    then show ?thesis
      using stale_section [OF Some] k assms(1) by (metis all_stale_def less_irrefl snd_conv)
  qed
  have "gen_of q = None \<or> gen_of q = gen_of (threads w i)"
    using continue_gen(2) [of a b c "threads w i" "shared w"] k by simp
  then have "all_stale (sys_step e w)"
    using assms(1) e k untouched_fields [OF u] by (auto simp: all_stale_def)
  then show ?thesis
    using u e k closed_grows [of "shared w" a b c "threads w i"] by simp
qed

lemma stale_run:
  "all_stale w \<Longrightarrow> list_all is_continue ks
   \<Longrightarrow> untouched (shared w) (shared (run_events ks w)) \<and> closed (shared w) \<subseteq> closed (shared (run_events ks w))"
proof (induction ks arbitrary: w)
  case (Cons k ks)
  then show ?case
    using stale_step [of w k] by (auto simp: run_events_def intro: untouched_trans)
qed (simp add: run_events_def untouched_refl)



section \<open>Transports are not leaked\<close>

text \<open>Runs in which no \<open>Connect\<close> or \<open>Register\<close> starts while a \<open>Prepare\<close> is in flight.\<close>

definition calm_event :: "event \<Rightarrow> phone \<Rightarrow> bool" where
  "calm_event e p =
     (case e of Call i c ctxOk \<Rightarrow> c \<in> {CallConnect, CallRegister} \<longrightarrow> \<not> preparing p | _ \<Rightarrow> True)"

fun calm :: "event list \<Rightarrow> system \<Rightarrow> bool" where
  "calm [] w = True"
| "calm (e # es) w = (calm_event e (shared w) \<and> calm es (sys_step e w))"

fun early :: "pc \<Rightarrow> bool" where
  "early (AtStun op g) = True"
| "early (AtUA op g) = True"
| "early (AtAttach op g t) = True"
| "early (PrepareFailed op g e) = True"
| "early pc = False"

definition attaches :: "pc \<Rightarrow> nat \<Rightarrow> bool" where
  "attaches q t = (\<exists>op g. q = AtAttach op g t)"

definition kept :: "phone \<Rightarrow> nat \<Rightarrow> bool" where
  "kept p t = (t \<in> closed p \<or> ph_tr p = Some t)"

definition bare :: "phone \<Rightarrow> bool" where
  "bare p = (ph_state p = PhoneStateDisconnected \<and> \<not> preparing p \<longrightarrow> ph_tr p = None)"

definition early_ok :: "pc \<Rightarrow> phone \<Rightarrow> bool" where
  "early_ok q p = (early q \<and> gen_of q = Some (lifecycleGen p) \<longrightarrow> ph_tr p = None)"

definition no_leak :: "system \<Rightarrow> bool" where
  "no_leak w =
     (bare (shared w) \<and> (\<forall>i. early_ok (threads w i) (shared w))
      \<and> (\<forall>t < opened (shared w). kept (shared w) t \<or> (\<exists>i. attaches (threads w i) t)))"

lemma begin_leak:
  assumes "begin_call c ctxOk p = (q, p')" "bare p" "attached_ok p"
    and "c \<in> {CallConnect, CallRegister} \<longrightarrow> \<not> preparing p"
  shows "bare p' \<and> early_ok q p' \<and> opened p' = opened p \<and> (\<forall>t. kept p t \<longrightarrow> kept p' t)
    \<and> (lifecycleGen p < lifecycleGen p' \<or> ph_tr p' = ph_tr p \<and> lifecycleGen p' = lifecycleGen p)"
  using assms
  by (cases c) (auto simp: section_defs bare_def early_ok_def kept_def attached_ok_def split: if_splits PhoneState.splits)

lemma continue_bare:
  assumes "thread_ok q p" "bare p"
  shows "bare (snd (continue_call ctxOk ok vm q p))"
  using assms
  by (cases q) (simp_all add: section_defs bare_def thread_ok_def in_setup_def split: option.split if_split_asm)

lemma continue_early:
  assumes "early_ok q p"
  shows "early_ok (fst (continue_call ctxOk ok vm q p)) (snd (continue_call ctxOk ok vm q p))"
  using assms by (cases q) (simp_all add: section_defs early_ok_def split: option.split)

lemma continue_kept:
  assumes "early_ok q p"
  shows "kept p t \<Longrightarrow> kept (snd (continue_call ctxOk ok vm q p)) t"
    and "attaches q t \<Longrightarrow> kept (snd (continue_call ctxOk ok vm q p)) t"
  using assms by (cases q; auto simp: section_defs early_ok_def kept_def attaches_def)+

lemma continue_opened:
  "t < opened (snd (continue_call ctxOk ok vm q p)) \<Longrightarrow>
   t < opened p \<or> attaches (fst (continue_call ctxOk ok vm q p)) t"
  by (cases q) (auto simp: section_defs attaches_def split: option.splits if_splits)

lemma continue_tr:
  assumes "continue_call ctxOk ok vm q p = (q', p')" "early_ok r p" "gen_of r = None \<or> gen_of r \<noteq> gen_of q"
  shows "early_ok r p'"
proof (cases "gen_of q = None \<or> gen_of q = Some (lifecycleGen p)")
  case False
  then have "untouched p p'" using stale_section assms(1) by (metis option.exhaust snd_conv)
  then show ?thesis using assms(2) by (simp add: early_ok_def untouched_fields)
next
  case True
  have g: "lifecycleGen p' = lifecycleGen p"
    using continue_gen(1) [of ctxOk ok vm q p] assms(1) by simp
  show ?thesis
  proof (cases "gen_of q")
    case None
    then have "ph_tr p' = ph_tr p" using assms(1) by (cases q) (auto simp: section_defs split: if_splits)
    then show ?thesis using assms(2) g by (simp add: early_ok_def)
  qed (use True assms(3) g in \<open>auto simp: early_ok_def\<close>)
qed

lemma no_leak_step:
  assumes "sys_ok w" "no_leak w" "calm_event e (shared w)"
  shows "no_leak (sys_step e w)"
proof (cases e)
  case (Call i c ctxOk)
  show ?thesis
  proof (cases "threads w i = Idle")
    case True
    obtain q p' where b: "begin_call c ctxOk (shared w) = (q, p')" by fastforce
    have h: "bare p' \<and> early_ok q p' \<and> opened p' = opened (shared w) \<and> (\<forall>t. kept (shared w) t \<longrightarrow> kept p' t)
        \<and> (lifecycleGen (shared w) < lifecycleGen p' \<or> ph_tr p' = ph_tr (shared w) \<and> lifecycleGen p' = lifecycleGen (shared w))"
      using begin_leak [OF b] assms Call by (simp add: no_leak_def sys_ok_def calm_event_def)
    have "early_ok (threads w j) p'" for j
    proof -
      have "thread_ok (threads w j) (shared w)" "early_ok (threads w j) (shared w)"
        using assms by (simp_all add: sys_ok_def no_leak_def)
      then show ?thesis using h by (auto simp: early_ok_def thread_ok_def)
    qed
    moreover have "kept p' t \<or> (\<exists>j. attaches (((threads w)(i := q)) j) t)" if "t < opened p'" for t
    proof -
      have "kept (shared w) t \<or> (\<exists>j. attaches (threads w j) t)" using assms(2) h that by (simp add: no_leak_def)
      moreover have "\<not> attaches (threads w i) t" using True by (simp add: attaches_def)
      ultimately show ?thesis using h by (metis fun_upd_other)
    qed
    ultimately show ?thesis using h Call True b by (simp add: no_leak_def)
  qed (use assms Call in simp)
next
  case (Continue i ctxOk ok vm)
  obtain q p' where b: "continue_call ctxOk ok vm (threads w i) (shared w) = (q, p')" by fastforce
  have ok: "thread_ok (threads w i) (shared w)" "bare (shared w)" "early_ok (threads w i) (shared w)"
    using assms by (simp_all add: sys_ok_def no_leak_def)
  note leak = continue_bare [OF ok(1,2), where ctxOk = ctxOk and ok = ok and vm = vm, unfolded b snd_conv]
    continue_early [OF ok(3), where ctxOk = ctxOk and ok = ok and vm = vm, unfolded b fst_conv snd_conv]
    continue_kept [OF ok(3), where ctxOk = ctxOk and ok = ok and vm = vm, unfolded b snd_conv]
    continue_opened [of _ ctxOk ok vm "threads w i" "shared w", unfolded b fst_conv snd_conv]
  have "early_ok (threads w j) p'" if "j \<noteq> i" for j
    using continue_tr [OF b, of "threads w j"] one_ownerD [OF _ that, of "\<lambda>k. gen_of (threads w k)"] assms
    by (simp add: sys_ok_def no_leak_def)
  moreover have "kept p' t \<or> (\<exists>j. attaches (((threads w)(i := q)) j) t)" if "t < opened p'" for t
  proof (cases "attaches q t")
    case False
    then have "kept (shared w) t \<or> (\<exists>j. attaches (threads w j) t)"
      using leak(5) [OF that] assms(2) by (simp add: no_leak_def)
    then show ?thesis using leak(3,4) by (metis fun_upd_other)
  qed (metis fun_upd_same)
  ultimately show ?thesis using leak(1,2) Continue b by (simp add: no_leak_def)
qed

lemma no_leak_run: "calm evs w \<Longrightarrow> sys_ok w \<Longrightarrow> no_leak w \<Longrightarrow> no_leak (run_events evs w)"
  by (induction evs arbitrary: w) (simp_all add: run_events_def no_leak_step sys_step_ok)

text \<open>
  Every user agent that is opened is closed again.  In every run in which \<open>Connect\<close> and \<open>Register\<close>
  do not start while a \<open>Prepare\<close> is in flight, a phone that reports \<open>Disconnected\<close> with no attempt
  left in flight has closed every transport ever opened.
\<close>

theorem transports_closed:
  assumes "calm evs initial" and "t < opened (shared (run_events evs initial))"
    and "ph_state (shared (run_events evs initial)) = PhoneStateDisconnected"
    and "\<not> preparing (shared (run_events evs initial))"
    and "\<And>i. gen_of (threads (run_events evs initial) i) = None"
  shows "t \<in> closed (shared (run_events evs initial))"
proof -
  have "sys_ok initial" "no_leak initial"
    using sys_ok_run [of "[]"] by (simp_all add: run_events_def no_leak_def initial_def newPhone_def bare_def early_ok_def)
  from no_leak_run [OF assms(1) this] have "no_leak (run_events evs initial)" .
  moreover have "\<not> attaches (threads (run_events evs initial) i) t" for i
    using assms(5) [of i] by (auto simp: attaches_def)
  ultimately show ?thesis using assms(2-4) by (auto simp: no_leak_def bare_def kept_def)
qed

theorem transports_closed_witness:
  "0 \<in> closed (shared (run_events (connect_run 0 @ [Call 1 CallDisconnect True]) initial))"
proof (rule transports_closed)
  show "calm (connect_run 0 @ [Call 1 CallDisconnect True]) initial"
    by (simp add: run_simps calm_event_def)
qed (simp_all add: run_simps)

section \<open>Superseding a Prepare\<close>

fun is_prepare :: "pc \<Rightarrow> bool" where
  "is_prepare (AtStun op g) = (op = OpPrepare)"
| "is_prepare (AtUA op g) = (op = OpPrepare)"
| "is_prepare (AtAttach op g t) = (op = OpPrepare)"
| "is_prepare (PrepareFailed op g e) = (op = OpPrepare)"
| "is_prepare (Prepared g) = True"
| "is_prepare pc = False"

definition orphaned :: "system \<Rightarrow> bool" where
  "orphaned w =
     (preparing (shared w) \<and> (\<forall>i. is_prepare (threads w i) \<longrightarrow> gen_of (threads w i) \<noteq> Some (lifecycleGen (shared w))))"

lemma orphaned_step:
  assumes "orphaned w" "is_continue e"
  shows "orphaned (sys_step e w)"
proof -
  obtain i a b c where e: "e = Continue i a b c" using assms(2) by (cases e) auto
  obtain q p' where k: "continue_call a b c (threads w i) (shared w) = (q, p')" by fastforce
  have "preparing p'" "is_prepare q \<longrightarrow> gen_of q \<noteq> Some (lifecycleGen (shared w))"
    using k assms(1)
    by (cases "threads w i"; auto simp: section_defs orphaned_def split: if_splits dest!: spec [of _ i])+
  then show ?thesis
    using assms(1) e k continue_gen(1) [of a b c "threads w i" "shared w"] by (auto simp: orphaned_def)
qed

lemma orphaned_run: "orphaned w \<Longrightarrow> list_all is_continue ks \<Longrightarrow> orphaned (run_events ks w)"
  by (induction ks arbitrary: w) (simp_all add: run_events_def orphaned_step)

text \<open>
  A \<open>Prepare\<close> that is superseded by a \<open>Connect\<close> leaves its in-progress flag behind.  From then on,
  however the threads in flight run to their end, every further \<open>Prepare\<close> is refused with
  \<open>ErrInvalidState\<close> as if one were still running.
\<close>

theorem superseded_prepare_sticks:
  assumes "preparing (shared (run_events evs initial))"
    and "ph_state (shared (run_events evs initial)) = PhoneStateDisconnected"
    and "threads (run_events evs initial) i = Idle" and "list_all is_continue ks"
  shows "fst (prepare_begin True (shared (run_events (Call i CallConnect c # ks) (run_events evs initial))))
    = Done ErrInvalidState"
proof -
  define w where "w = run_events evs initial"
  have "is_prepare (threads w j) \<longrightarrow> gen_of (threads w j) \<noteq> Some (Suc (lifecycleGen (shared w)))" for j
    using sys_ok_run [of evs] by (fastforce simp: sys_ok_def thread_ok_def w_def split: option.splits)
  then have "orphaned (sys_step (Call i CallConnect c) w)"
    using assms(1-3) by (auto simp: orphaned_def w_def connect_begin_def)
  from orphaned_run [OF this assms(4)] show ?thesis
    by (simp add: w_def run_events_def orphaned_def prepare_begin_def)
qed

theorem superseded_prepare_sticks_witness:
  "fst (prepare_begin True (shared (run_events (Call 1 CallConnect True # [Continue 0 True True True])
     (run_events [Call 0 CallPrepare True] initial)))) = Done ErrInvalidState"
  by (rule superseded_prepare_sticks) (simp_all add: run_simps)

text \<open>
  A \<open>Connect\<close> that starts between a \<open>Prepare\<close>'s attaching its transport and its last section
  overwrites the attached transport without closing it: afterwards it is neither attached nor closed.
\<close>

theorem superseded_transport_leaks:
  assumes "threads w i = Idle" and "ph_state (shared w) = PhoneStateDisconnected"
    and "ph_tr (shared w) = Some t" and "t < opened (shared w)" and "t \<notin> closed (shared w)"
  shows "let p = shared (run_events (Call i CallConnect True # replicate 3 (Continue i True True vm)) w)
         in ph_tr p \<noteq> Some t \<and> ph_tr p \<noteq> None \<and> t \<notin> closed p"
  using assms by (simp add: run_simps)

theorem superseded_transport_leaks_witness:
  "let w = run_events (Call 0 CallPrepare True # replicate 3 (Continue 0 True True False)) initial;
       p = shared (run_events (Call 1 CallConnect True # replicate 3 (Continue 1 True True False)) w)
   in ph_tr p \<noteq> Some 0 \<and> 0 \<notin> closed p"
proof -
  let ?w = "run_events (Call 0 CallPrepare True # replicate 3 (Continue 0 True True False)) initial"
  have "threads ?w 1 = Idle" "ph_state (shared ?w) = PhoneStateDisconnected" "ph_tr (shared ?w) = Some 0"
    "0 < opened (shared ?w)" "0 \<notin> closed (shared ?w)"
    by (simp_all add: run_simps)
  from superseded_transport_leaks [OF this, of False] show ?thesis by (simp add: Let_def)
qed

end
