(* ===== verification/Registry.thy ===== *)
theory Registry
  imports PhoneLifecycle
begin

text \<open>
  Registration, \<open>registry.go\<close>.  The REGISTER transactions of the transport are replies: a status code,
  a reason and possibly a transport error.  The sequential behaviour of \<open>register\<close> is a function of its
  replies; the goroutines that run it (\<open>Start\<close>, the re-registration of \<open>handleDrop\<close>) and \<open>Stop\<close>
  interleave in the step relation \<open>reg_step\<close>, one step per critical section under \<open>r.mu\<close>.
\<close>

section \<open>The registration loop\<close>

type_synonym reg_reply = "int \<times> string \<times> string option"

datatype reg_outcome = RegOk | RegCtxErr | RegistrationFailedError int string "string option"

definition reply_ok :: "reg_reply \<Rightarrow> bool" where
  "reply_ok r = (case r of (code, reason, err) \<Rightarrow> err = None \<and> code = 200)"

definition no_reply :: reg_reply where
  "no_reply = (0, [], None)"

definition exhausted :: "reg_reply \<Rightarrow> reg_outcome" where
  "exhausted lst = (case lst of (code, reason, err) \<Rightarrow> RegistrationFailedError code reason err)"

text \<open>\<open>register\<close> from attempt \<open>n\<close> on, with the outcome and the number of requests sent.
  \<open>ctxDone n\<close>: the context is done in the wait before attempt \<open>n\<close>.\<close>

function register_loop :: "nat \<Rightarrow> (nat \<Rightarrow> bool) \<Rightarrow> (nat \<Rightarrow> reg_reply) \<Rightarrow> nat \<Rightarrow> reg_reply \<Rightarrow> reg_outcome \<times> nat" where
  "register_loop maxRetry ctxDone reply n lst =
     (if n < maxRetry then
        (if n > 0 \<and> ctxDone n then (RegCtxErr, 0)
         else if reply_ok (reply n) then (RegOk, 1)
         else (case register_loop maxRetry ctxDone reply (n + 1) (reply n) of (r, k) \<Rightarrow> (r, k + 1)))
      else (exhausted lst, 0))"
  by auto
termination by (relation "measure (\<lambda>(maxRetry, _, _, n, _). maxRetry - n)") auto

declare register_loop.simps [simp del]

definition register :: "nat \<Rightarrow> (nat \<Rightarrow> bool) \<Rightarrow> (nat \<Rightarrow> reg_reply) \<Rightarrow> reg_outcome \<times> nat" where
  "register maxRetry ctxDone reply = register_loop maxRetry ctxDone reply 0 no_reply"

section \<open>The registry and its goroutines\<close>

datatype reg_callback = OnRegistered | OnUnregistered | OnError int string "string option"

record registry =
  rg_state :: PhoneState
  rg_ctx :: "nat option"
  reregistering :: bool
  rg_cancelled :: "nat set"
  rg_fresh :: nat
  rg_fired :: "reg_callback list"

definition newRegistry :: registry where
  "newRegistry = \<lparr>rg_state = PhoneStateDisconnected, rg_ctx = None, reregistering = False,
     rg_cancelled = {}, rg_fresh = 0, rg_fired = []\<rparr>"

text \<open>A goroutine inside \<open>register\<close>, after some attempts and with the last reply, called by \<open>Start\<close> or
  by the re-registration goroutine; the latter clears its flag afterwards.\<close>

datatype goroutine =
    NotStarted
  | InStart nat nat reg_reply
  | InRereg nat nat reg_reply
  | ClearFlag
  | Returned

definition start_section :: "registry \<Rightarrow> registry" where
  "start_section r = r\<lparr>rg_ctx := Some (rg_fresh r), rg_fresh := rg_fresh r + 1, rg_state := PhoneStateRegistering\<rparr>"

definition Stop :: "registry \<Rightarrow> registry" where
  "Stop r = r\<lparr>rg_cancelled := rg_cancelled r \<union> set_option (rg_ctx r), rg_state := PhoneStateDisconnected\<rparr>"

definition registered_section :: "registry \<Rightarrow> registry" where
  "registered_section r = r\<lparr>rg_state := PhoneStateRegistered, rg_fired := rg_fired r @ [OnRegistered]\<rparr>"

definition failed_section :: "reg_reply \<Rightarrow> registry \<Rightarrow> registry" where
  "failed_section lst r =
     (case lst of (code, reason, err) \<Rightarrow>
        r\<lparr>rg_state := PhoneStateRegistrationFailed, rg_fired := rg_fired r @ [OnError code reason err]\<rparr>)"

text \<open>\<open>handleDrop\<close>: the registry it leaves, and the goroutine it starts, if any.\<close>

definition handleDrop :: "registry \<Rightarrow> registry \<times> goroutine" where
  "handleDrop r =
     (if rg_state r = PhoneStateDisconnected \<or> reregistering r then (r, Returned)
      else (r\<lparr>rg_state := PhoneStateRegistering, reregistering := True, rg_fired := rg_fired r @ [OnUnregistered]\<rparr>,
            case rg_ctx r of None \<Rightarrow> Returned | Some c \<Rightarrow> InRereg c 0 no_reply))"

definition refresh :: "reg_reply \<Rightarrow> registry \<Rightarrow> registry \<times> goroutine" where
  "refresh reply r = (if reply_ok reply then (r, Returned) else handleDrop r)"

text \<open>One iteration of \<open>register\<close> in a goroutine: the reply of an attempt, or the end of the loop.\<close>

definition attempt :: "reg_reply \<Rightarrow> goroutine \<Rightarrow> registry \<Rightarrow> goroutine \<times> registry" where
  "attempt reply g r =
     (case g of
        InStart c n lst \<Rightarrow> if reply_ok reply then (Returned, registered_section r) else (InStart c (n + 1) reply, r)
      | InRereg c n lst \<Rightarrow> if reply_ok reply then (ClearFlag, registered_section r) else (InRereg c (n + 1) reply, r)
      | _ \<Rightarrow> (g, r))"

definition give_up :: "goroutine \<Rightarrow> registry \<Rightarrow> goroutine \<times> registry" where
  "give_up g r =
     (case g of
        InStart c n lst \<Rightarrow> (Returned, (failed_section lst r)\<lparr>rg_cancelled := insert c (rg_cancelled r)\<rparr>)
      | InRereg c n lst \<Rightarrow> (ClearFlag, failed_section lst r)
      | _ \<Rightarrow> (g, r))"

definition abandon :: "goroutine \<Rightarrow> registry \<Rightarrow> goroutine \<times> registry" where
  "abandon g r =
     (case g of
        InStart c n lst \<Rightarrow> (Returned, r\<lparr>rg_cancelled := insert c (rg_cancelled r)\<rparr>)
      | InRereg c n lst \<Rightarrow> (ClearFlag, r)
      | _ \<Rightarrow> (g, r))"

definition clear_flag :: "registry \<Rightarrow> registry" where
  "clear_flag r = r\<lparr>reregistering := False\<rparr>"

fun attempts :: "goroutine \<Rightarrow> nat" where
  "attempts (InStart c n lst) = n"
| "attempts (InRereg c n lst) = n"
| "attempts g = 0"

fun running :: "goroutine \<Rightarrow> bool" where
  "running (InStart c n lst) = True"
| "running (InRereg c n lst) = True"
| "running g = False"

type_synonym reg_sys = "registry \<times> (nat \<Rightarrow> goroutine)"

inductive reg_step :: "nat \<Rightarrow> reg_sys \<Rightarrow> reg_sys \<Rightarrow> bool" for maxRetry :: nat where
  step_start: "gs i = NotStarted \<Longrightarrow> reg_step maxRetry (r, gs) (start_section r, gs(i := InStart (rg_fresh r) 0 no_reply))"
| step_stop: "reg_step maxRetry (r, gs) (Stop r, gs)"
| step_drop: "gs i = NotStarted \<Longrightarrow> handleDrop r = (r', g) \<Longrightarrow> reg_step maxRetry (r, gs) (r', gs(i := g))"
| step_refresh: "gs i = NotStarted \<Longrightarrow> refresh reply r = (r', g) \<Longrightarrow> reg_step maxRetry (r, gs) (r', gs(i := g))"
| step_attempt: "running (gs i) \<Longrightarrow> attempts (gs i) < maxRetry \<Longrightarrow> attempt reply (gs i) r = (g, r')
     \<Longrightarrow> reg_step maxRetry (r, gs) (r', gs(i := g))"
| step_give_up: "running (gs i) \<Longrightarrow> maxRetry \<le> attempts (gs i) \<Longrightarrow> give_up (gs i) r = (g, r')
     \<Longrightarrow> reg_step maxRetry (r, gs) (r', gs(i := g))"
| step_abandon_start: "gs i = InStart c n lst \<Longrightarrow> 0 < n \<Longrightarrow> n < maxRetry \<Longrightarrow> abandon (gs i) r = (g, r')
     \<Longrightarrow> reg_step maxRetry (r, gs) (r', gs(i := g))"
| step_abandon_rereg: "gs i = InRereg c n lst \<Longrightarrow> c \<in> rg_cancelled r \<Longrightarrow> 0 < n \<Longrightarrow> n < maxRetry
     \<Longrightarrow> abandon (gs i) r = (g, r') \<Longrightarrow> reg_step maxRetry (r, gs) (r', gs(i := g))"
| step_clear: "gs i = ClearFlag \<Longrightarrow> reg_step maxRetry (r, gs) (clear_flag r, gs(i := Returned))"

inductive_cases reg_stepE: "reg_step maxRetry w w'"

inductive reg_reachable :: "nat \<Rightarrow> reg_sys \<Rightarrow> bool" for maxRetry :: nat where
  reach_init: "reg_reachable maxRetry (newRegistry, \<lambda>_. NotStarted)"
| reach_step: "reg_reachable maxRetry w \<Longrightarrow> reg_step maxRetry w w' \<Longrightarrow> reg_reachable maxRetry w'"

section \<open>What the loop does\<close>

definition stops :: "(nat \<Rightarrow> bool) \<Rightarrow> (nat \<Rightarrow> reg_reply) \<Rightarrow> nat \<Rightarrow> bool" where
  "stops ctxDone reply m = (0 < m \<and> ctxDone m \<or> reply_ok (reply m))"

lemma find_upt_bounds: "find P [n..<m] = Some k \<Longrightarrow> n \<le> k \<and> k < m"
  by (auto simp: find_Some_iff)

lemma register_loop_spec:
  assumes "n \<le> maxRetry"
  shows "register_loop maxRetry ctxDone reply n lst =
    (case find (stops ctxDone reply) [n..<maxRetry] of
       None \<Rightarrow> (exhausted (if n = maxRetry then lst else reply (maxRetry - 1)), maxRetry - n)
     | Some m \<Rightarrow> if 0 < m \<and> ctxDone m then (RegCtxErr, m - n) else (RegOk, m + 1 - n))"
  using assms
proof (induction maxRetry ctxDone reply n lst rule: register_loop.induct)
  case (1 maxRetry ctxDone reply n lst)
  show ?case
  proof (cases "n < maxRetry")
    case False
    then show ?thesis using "1.prems" by (simp add: register_loop.simps [of maxRetry ctxDone reply maxRetry lst])
  next
    case lt: True
    show ?thesis
    proof (cases "stops ctxDone reply n")
      case True
      then show ?thesis
        using lt by (auto simp: register_loop.simps [of _ _ _ n] stops_def upt_conv_Cons)
    next
      case False
      then have "\<not> (n > 0 \<and> ctxDone n)" "\<not> reply_ok (reply n)" by (auto simp: stops_def)
      from "1.IH" [OF lt this] lt show ?thesis
        using False \<open>\<not> (n > 0 \<and> ctxDone n)\<close> \<open>\<not> reply_ok (reply n)\<close>
        by (auto simp: register_loop.simps [of _ _ _ n] upt_conv_Cons split: option.splits dest!: find_upt_bounds)
    qed
  qed
qed

text \<open>
  The registration loop.  Attempts run until the first that is answered 200 or whose wait is cut
  off by the context, and at most \<open>RegisterMaxRetry\<close> of them; the outcome is success, the context's
  error, or a failure that carries the last reply, and the requests sent are exactly those attempts.
\<close>

theorem register_spec:
  "register maxRetry ctxDone reply =
    (case find (stops ctxDone reply) [0..<maxRetry] of
       None \<Rightarrow> (exhausted (if maxRetry = 0 then no_reply else reply (maxRetry - 1)), maxRetry)
     | Some m \<Rightarrow> if 0 < m \<and> ctxDone m then (RegCtxErr, m) else (RegOk, m + 1))"
  using register_loop_spec [of 0 maxRetry ctxDone reply no_reply]
  by (cases "find (stops ctxDone reply) [0..<maxRetry]") (simp_all add: register_def)

section \<open>One re-registration at a time\<close>

fun busy :: "goroutine \<Rightarrow> bool" where
  "busy (InRereg c n lst) = True"
| "busy ClearFlag = True"
| "busy g = False"

lemmas reg_defs = start_section_def Stop_def registered_section_def failed_section_def handleDrop_def refresh_def
  attempt_def give_up_def abandon_def clear_flag_def

definition busy_set :: "(nat \<Rightarrow> goroutine) \<Rightarrow> nat set" where
  "busy_set gs = {i. busy (gs i)}"

lemma busy_set_upd [simp]: "busy_set (gs(i := g)) = (if busy g then insert i (busy_set gs) else busy_set gs - {i})"
  by (auto simp: busy_set_def)

lemma busy_set_mem: "i \<in> busy_set gs \<longleftrightarrow> busy (gs i)"
  by (simp add: busy_set_def)

definition reg_inv :: "nat \<Rightarrow> reg_sys \<Rightarrow> bool" where
  "reg_inv maxRetry w =
     (case w of (r, gs) \<Rightarrow>
        ((rg_state r \<noteq> PhoneStateDisconnected \<or> (\<exists>i. running (gs i))) \<longrightarrow> rg_ctx r \<noteq> None)
        \<and> (\<forall>i. attempts (gs i) \<le> maxRetry)
        \<and> (if reregistering r then \<exists>k. busy_set gs = {k} else busy_set gs = {}))"

text \<open>A step that leaves the flag, the context and the kind of the goroutine alone.\<close>

lemma reg_inv_frame:
  assumes "reg_inv maxRetry (r, gs)" "reregistering r' = reregistering r" "rg_ctx r' = rg_ctx r"
    and "busy g = busy (gs i)" "attempts g \<le> maxRetry" "running (gs i)"
  shows "reg_inv maxRetry (r', gs(i := g))"
proof -
  have "busy_set (gs(i := g)) = busy_set gs" using assms(4) by (auto simp: busy_set_def)
  then show ?thesis using assms by (auto simp: reg_inv_def)
qed

lemma reg_inv_drop:
  assumes "reg_inv maxRetry (r, gs)" "gs i = NotStarted" "handleDrop r = (r', g)"
  shows "reg_inv maxRetry (r', gs(i := g))"
proof (cases "rg_state r = PhoneStateDisconnected \<or> reregistering r")
  case True
  have "i \<notin> busy_set gs" using assms(2) by (simp add: busy_set_mem)
  then show ?thesis using True assms by (auto simp: handleDrop_def reg_inv_def)
next
  case False
  then have "rg_ctx r \<noteq> None" "busy_set gs = {}" using assms(1) by (auto simp: reg_inv_def)
  then show ?thesis using False assms by (auto simp: handleDrop_def reg_inv_def split: option.splits)
qed

lemma reg_step_inv: "reg_step maxRetry w w' \<Longrightarrow> reg_inv maxRetry w \<Longrightarrow> reg_inv maxRetry w'"
proof (induction rule: reg_step.induct)
  case (step_start gs i r)
  then have "i \<notin> busy_set gs" by (simp add: busy_set_mem)
  then show ?case using step_start.prems by (auto simp: reg_inv_def start_section_def)
next
  case (step_refresh gs i reply r r' g)
  have "i \<notin> busy_set gs" using step_refresh.hyps by (simp add: busy_set_mem)
  then show ?case
    using step_refresh reg_inv_drop [of maxRetry r gs i r' g] by (auto simp: refresh_def reg_inv_def split: if_splits)
next
  case (step_attempt gs i reply r g r')
  show ?case
    by (rule reg_inv_frame [OF step_attempt.prems])
      (use step_attempt.hyps in \<open>auto simp: attempt_def registered_section_def split: goroutine.splits if_splits\<close>)
next
  case (step_give_up gs i r g r')
  show ?case
    by (rule reg_inv_frame [OF step_give_up.prems])
      (use step_give_up.hyps in \<open>auto simp: give_up_def failed_section_def split: goroutine.splits prod.splits\<close>)
next
  case (step_clear gs i r)
  then have "i \<in> busy_set gs" by (simp add: busy_set_mem)
  then have "busy_set gs = {i}" using step_clear.prems by (auto simp: reg_inv_def split: if_splits)
  then show ?case using step_clear.prems by (auto simp: reg_inv_def clear_flag_def)
next
  case (step_stop r gs)
  then show ?case by (auto simp: Stop_def reg_inv_def)
next
  case (step_drop gs i r r' g)
  then show ?case by (blast intro: reg_inv_drop)
next
  case (step_abandon_start gs i c n lst r g r')
  show ?case
    by (rule reg_inv_frame [OF step_abandon_start.prems]) (use step_abandon_start.hyps in \<open>auto simp: abandon_def\<close>)
next
  case (step_abandon_rereg gs i c n lst r g r')
  show ?case
    by (rule reg_inv_frame [OF step_abandon_rereg.prems]) (use step_abandon_rereg.hyps in \<open>auto simp: abandon_def\<close>)
qed

lemma reg_reachable_inv: "reg_reachable maxRetry w \<Longrightarrow> reg_inv maxRetry w"
proof (induction rule: reg_reachable.induct)
  case reach_init
  show ?case by (simp add: reg_inv_def newRegistry_def busy_set_def)
qed (rule reg_step_inv)

text \<open>
  C26: re-registration is single-flight.  In every interleaving of \<open>Start\<close>, \<open>Stop\<close>, transport drops,
  refreshes and the goroutines they start, the flag \<open>reregistering\<close> is set exactly while one
  re-registration goroutine exists, so repeated drops start no second one and the flag never
  outlives its goroutine; no goroutine makes more than \<open>RegisterMaxRetry\<close> attempts; and outside the
  disconnected state there is a lifecycle context for the goroutine to run under.
\<close>

theorem registry_single_flight:
  assumes "reg_reachable maxRetry (r, gs)"
  shows "card {i. busy (gs i)} = (if reregistering r then 1 else 0) \<and> attempts (gs i) \<le> maxRetry
    \<and> (rg_state r = PhoneStateDisconnected \<or> rg_ctx r \<noteq> None)"
  using reg_reachable_inv [OF assms] by (auto simp: reg_inv_def busy_set_def split: if_splits)

definition demo_start :: "reg_sys" where
  "demo_start = (start_section newRegistry, (\<lambda>_. NotStarted)(0 := InStart 0 0 no_reply))"

definition demo_up :: "reg_sys" where
  "demo_up = (registered_section (fst demo_start), (snd demo_start)(0 := Returned))"

definition demo_dropped :: "reg_sys" where
  "demo_dropped = (fst (handleDrop (fst demo_up)), (snd demo_up)(1 := InRereg 0 0 no_reply))"

lemma demo_dropped_reachable: "reg_reachable 3 demo_dropped"
proof -
  have "reg_reachable 3 demo_start"
    using reach_step [OF reach_init step_start [of "\<lambda>_. NotStarted" 0]] by (simp add: demo_start_def newRegistry_def)
  then have "reg_reachable 3 demo_up"
    by (rule reach_step)
      (use step_attempt [of "snd demo_start" 0 3 "(200, [], None)" "fst demo_start" Returned
          "registered_section (fst demo_start)"] in
        \<open>simp add: demo_up_def demo_start_def attempt_def reply_ok_def\<close>)
  then show ?thesis
    by (rule reach_step)
      (auto simp: demo_dropped_def demo_up_def demo_start_def handleDrop_def registered_section_def start_section_def
        newRegistry_def intro!: step_drop)
qed

theorem registry_single_flight_witness:
  "card {i. busy (snd demo_dropped i)} = 1"
  using registry_single_flight [of 3 "fst demo_dropped" "snd demo_dropped" 0] demo_dropped_reachable
  by (simp add: demo_dropped_def demo_up_def demo_start_def handleDrop_def registered_section_def start_section_def newRegistry_def)

section \<open>A re-registration runs to its end\<close>

definition published :: "reg_outcome \<Rightarrow> registry \<Rightarrow> registry" where
  "published out r =
     (case out of
        RegOk \<Rightarrow> registered_section r
      | RegCtxErr \<Rightarrow> r
      | RegistrationFailedError code reason err \<Rightarrow> failed_section (code, reason, err) r)"

lemma rereg_steps:
  "(reg_step maxRetry)\<^sup>*\<^sup>* (r, gs(i := InRereg c n lst))
     (published (fst (register_loop maxRetry (\<lambda>_. False) reply n lst)) r, gs(i := ClearFlag))"
proof (induction maxRetry "\<lambda>_ :: nat. False" reply n lst rule: register_loop.induct)
  case (1 maxRetry reply n lst)
  let ?gs = "gs(i := InRereg c n lst)"
  show ?case
  proof (cases "n < maxRetry")
    case False
    have "reg_step maxRetry (r, ?gs) (failed_section lst r, ?gs(i := ClearFlag))"
      using False by (intro step_give_up) (simp_all add: give_up_def)
    then show ?thesis
      using False by (auto simp: register_loop.simps [of _ _ _ n] exhausted_def published_def split: prod.splits)
  next
    case lt: True
    show ?thesis
    proof (cases "reply_ok (reply n)")
      case True
      have "reg_step maxRetry (r, ?gs) (registered_section r, ?gs(i := ClearFlag))"
        using lt True by (intro step_attempt [where reply = "reply n"]) (simp_all add: attempt_def)
      then show ?thesis using lt True by (simp add: register_loop.simps [of _ _ _ n] published_def)
    next
      case False
      have "reg_step maxRetry (r, ?gs) (r, ?gs(i := InRereg c (n + 1) (reply n)))"
        using lt False by (intro step_attempt [where reply = "reply n"]) (simp_all add: attempt_def)
      moreover have "(reg_step maxRetry)\<^sup>*\<^sup>* (r, gs(i := InRereg c (n + 1) (reply n)))
          (published (fst (register_loop maxRetry (\<lambda>_. False) reply (n + 1) (reply n))) r, gs(i := ClearFlag))"
        using "1.hyps" lt False by simp
      moreover have "fst (register_loop maxRetry (\<lambda>_. False) reply n lst)
          = fst (register_loop maxRetry (\<lambda>_. False) reply (n + 1) (reply n))"
        using lt False by (simp add: register_loop.simps [of _ _ _ n] split: prod.split)
      ultimately show ?thesis by (simp add: converse_rtranclp_into_rtranclp)
    qed
  qed
qed

text \<open>
  C36: a lost registration is recovered or reported.  After a transport drop on a registry that is not
  disconnected and not already re-registering, whatever the registrar answers, the re-registration
  goroutine can run to its end: it publishes the outcome of \<open>register\<close> for those answers, as state
  and as callback, and clears its flag, so that the next drop is handled again.
\<close>

theorem drop_recovers:
  assumes "reg_reachable maxRetry (r, gs)" and "rg_state r \<noteq> PhoneStateDisconnected" "\<not> reregistering r"
    and "gs i = NotStarted"
  shows "(reg_step maxRetry)\<^sup>*\<^sup>* (r, gs)
    (clear_flag (published (fst (register maxRetry (\<lambda>_. False) reply)) (fst (handleDrop r))), gs(i := Returned))"
proof -
  obtain c where c: "rg_ctx r = Some c" using reg_reachable_inv [OF assms(1)] assms(2) by (auto simp: reg_inv_def)
  let ?r = "fst (handleDrop r)"
  have "reg_step maxRetry (r, gs) (?r, gs(i := InRereg c 0 no_reply))"
    using assms(2-4) c by (intro step_drop) (simp_all add: handleDrop_def)
  also have "(reg_step maxRetry)\<^sup>*\<^sup>* (?r, gs(i := InRereg c 0 no_reply))
      (published (fst (register maxRetry (\<lambda>_. False) reply)) ?r, gs(i := ClearFlag))"
    unfolding register_def by (rule rereg_steps)
  also have "reg_step maxRetry (published (fst (register maxRetry (\<lambda>_. False) reply)) ?r, gs(i := ClearFlag))
      (clear_flag (published (fst (register maxRetry (\<lambda>_. False) reply)) ?r), (gs(i := ClearFlag))(i := Returned))"
    by (rule step_clear) simp
  finally show ?thesis by simp
qed

theorem drop_recovers_witness:
  "(reg_step 3)\<^sup>*\<^sup>* demo_up
     (clear_flag (published RegOk (fst (handleDrop (fst demo_up)))), (snd demo_up)(1 := Returned))"
proof -
  have "reg_reachable 3 demo_start"
    using reach_step [OF reach_init step_start [of "\<lambda>_. NotStarted" 0]] by (simp add: demo_start_def newRegistry_def)
  then have "reg_reachable 3 (fst demo_up, snd demo_up)"
    by (rule reach_step)
      (use step_attempt [of "snd demo_start" 0 3 "(200, [], None)" "fst demo_start" Returned
          "registered_section (fst demo_start)"] in
        \<open>simp add: demo_up_def demo_start_def attempt_def reply_ok_def\<close>)
  moreover have "fst (register 3 (\<lambda>_. False) (\<lambda>n. if n = 0 then (503, [], None) else (200, [], None))) = RegOk"
    by (simp add: register_def register_loop.simps reply_ok_def)
  ultimately show ?thesis
    using drop_recovers [of 3 "fst demo_up" "snd demo_up" 1 "\<lambda>n. if n = 0 then (503, [], None) else (200, [], None)"]
    by (simp add: demo_up_def demo_start_def registered_section_def start_section_def newRegistry_def)
qed

text \<open>
  \<open>Stop\<close> does not stop a re-registration whose reply is on its way.  In every reachable state with a
  re-registration goroutine that has an attempt left, \<open>Stop\<close> can be followed by a 200 for that attempt,
  which puts the stopped registry back into the registered state and fires \<open>OnRegistered\<close>.
\<close>

theorem stop_not_final:
  assumes "reg_reachable maxRetry (r, gs)" and "gs i = InRereg c n lst" "n < maxRetry"
  shows "reg_step maxRetry (r, gs) (Stop r, gs)
    \<and> (\<exists>r'. reg_step maxRetry (Stop r, gs) (r', gs(i := ClearFlag)) \<and> rg_state r' = PhoneStateRegistered
        \<and> rg_fired r' = rg_fired r @ [OnRegistered])"
proof -
  have "reg_step maxRetry (Stop r, gs) (registered_section (Stop r), gs(i := ClearFlag))"
    using assms(2,3) by (intro step_attempt [where reply = "(200, [], None)"]) (simp_all add: attempt_def reply_ok_def)
  moreover have "reg_step maxRetry (r, gs) (Stop r, gs)" by (rule step_stop)
  ultimately show ?thesis by (auto simp: registered_section_def Stop_def)
qed

theorem stop_not_final_witness:
  "\<exists>r'. reg_step 3 (Stop (fst demo_dropped), snd demo_dropped) (r', (snd demo_dropped)(1 := ClearFlag))
     \<and> rg_state r' = PhoneStateRegistered"
  using stop_not_final [of 3 "fst demo_dropped" "snd demo_dropped" 1 0 0 no_reply] demo_dropped_reachable
  by (auto simp: demo_dropped_def)

end
