(* ===== verification/Sdp.thy ===== *)
theory Sdp
  imports GoStrings
begin

text \<open>
  Session descriptions, \<open>internal/sdp/sdp.go\<close>: parser, builders and codec negotiation.  The pointer
  \<open>curMedia\<close> of the parser always points at the last entry of \<open>Media\<close>, so the model updates that
  entry.  A Go map is a function to options; a missing list reads as the empty list.
\<close>

abbreviation DirSendRecv :: string where "DirSendRecv \<equiv> ''sendrecv''"
abbreviation DirSendOnly :: string where "DirSendOnly \<equiv> ''sendonly''"
abbreviation DirRecvOnly :: string where "DirRecvOnly \<equiv> ''recvonly''"
abbreviation DirInactive :: string where "DirInactive \<equiv> ''inactive''"
abbreviation ProfileRTP :: string where "ProfileRTP \<equiv> ''RTP/AVP''"
abbreviation ProfileSRTP :: string where "ProfileSRTP \<equiv> ''RTP/SAVP''"
abbreviation MediaAudio :: string where "MediaAudio \<equiv> ''audio''"
abbreviation MediaVideo :: string where "MediaVideo \<equiv> ''video''"

record CryptoAttr =
  Tag :: int
  Suite :: string
  KeyParams :: string

record MediaDesc =
  md_Type :: string
  md_Port :: int
  md_Profile :: string
  md_Codecs :: "int list"
  md_Direction :: string
  md_Crypto :: "CryptoAttr list"
  md_Candidates :: "string list"
  md_Fmtp :: "int \<rightharpoonup> string"
  md_RtcpFb :: "int \<Rightarrow> string list"

record Session =
  Origin :: string
  Connection :: string
  Media :: "MediaDesc list"
  Raw :: string
  IceUfrag :: string
  IcePwd :: string
  IceLite :: bool

definition FirstCodec :: "Session \<Rightarrow> int" where
  "FirstCodec s = (case Media s of [] \<Rightarrow> - 1 | m # _ \<Rightarrow> (case md_Codecs m of [] \<Rightarrow> - 1 | c # _ \<Rightarrow> c))"

definition Dir :: "Session \<Rightarrow> string" where
  "Dir s = (case Media s of [] \<Rightarrow> DirSendRecv
            | m # _ \<Rightarrow> if md_Direction m \<noteq> [] then md_Direction m else DirSendRecv)"

definition IsSRTP :: "Session \<Rightarrow> bool" where
  "IsSRTP s = (case Media s of [] \<Rightarrow> False | m # _ \<Rightarrow> md_Profile m = ProfileSRTP)"

definition FirstCrypto :: "Session \<Rightarrow> CryptoAttr option" where
  "FirstCrypto s = (case Media s of [] \<Rightarrow> None
                    | m # _ \<Rightarrow> (case md_Crypto m of [] \<Rightarrow> None | c # _ \<Rightarrow> Some c))"

definition codecNames :: "int \<rightharpoonup> string" where
  "codecNames = [0 \<mapsto> ''PCMU/8000'', 8 \<mapsto> ''PCMA/8000'', 9 \<mapsto> ''G722/8000'', 18 \<mapsto> ''G729/8000'',
     101 \<mapsto> ''telephone-event/8000'', 111 \<mapsto> ''opus/48000/2'', 96 \<mapsto> ''H264/90000'', 97 \<mapsto> ''VP8/90000'']"

definition codecFmtp :: "int \<rightharpoonup> string" where
  "codecFmtp = [18 \<mapsto> ''annexb=no'', 96 \<mapsto> ''profile-level-id=42e01f;packetization-mode=1'',
     101 \<mapsto> ''0-16'', 111 \<mapsto> ''minptime=20;useinbandfec=0'']"

definition codecRtcpFb :: "int \<rightharpoonup> string list" where
  "codecRtcpFb = [96 \<mapsto> [''nack'', ''nack pli'', ''ccm fir''], 97 \<mapsto> [''nack'', ''nack pli'', ''ccm fir'']]"

section \<open>Parser\<close>

definition parseCryptoVal :: "string \<Rightarrow> CryptoAttr option" where
  "parseCryptoVal val =
     (let parts = Fields val in
      if length parts < 3 then None
      else Some \<lparr>Tag = Atoi_val (parts ! 0), Suite = parts ! 1, KeyParams = parts ! 2\<rparr>)"

definition parseFmtp :: "string \<Rightarrow> MediaDesc \<Rightarrow> MediaDesc" where
  "parseFmtp val md =
     (case IndexByte val CHR '' '' of
        None \<Rightarrow> md
      | Some space \<Rightarrow>
          (case Atoi (take space val) of
             None \<Rightarrow> md
           | Some pt \<Rightarrow> md\<lparr>md_Fmtp := (md_Fmtp md)(pt \<mapsto> drop (space + 1) val)\<rparr>))"

definition parseRtcpFb :: "string \<Rightarrow> MediaDesc \<Rightarrow> MediaDesc" where
  "parseRtcpFb val md =
     (case IndexByte val CHR '' '' of
        None \<Rightarrow> md
      | Some space \<Rightarrow>
          (case Atoi (take space val) of
             None \<Rightarrow> md
           | Some pt \<Rightarrow> md\<lparr>md_RtcpFb := (md_RtcpFb md)(pt := md_RtcpFb md pt @ [drop (space + 1) val])\<rparr>))"

text \<open>An update through \<open>curMedia\<close>.\<close>

definition cur_upd :: "(MediaDesc \<Rightarrow> MediaDesc) \<Rightarrow> Session \<Rightarrow> Session" where
  "cur_upd f s = s\<lparr>Media := butlast (Media s) @ [f (last (Media s))]\<rparr>"

definition parseAttribute :: "string \<Rightarrow> Session \<Rightarrow> Session" where
  "parseAttribute val s =
     (let cur = Media s \<noteq> [] in
      if val \<in> {DirSendRecv, DirSendOnly, DirRecvOnly, DirInactive} then
        (if cur then cur_upd (\<lambda>md. md\<lparr>md_Direction := val\<rparr>) s else s)
      else if HasPrefix val ''crypto:'' \<and> cur then
        (case parseCryptoVal (drop 7 val) of
           None \<Rightarrow> s
         | Some ca \<Rightarrow> cur_upd (\<lambda>md. md\<lparr>md_Crypto := md_Crypto md @ [ca]\<rparr>) s)
      else if val = ''ice-lite'' then s\<lparr>IceLite := True\<rparr>
      else if HasPrefix val ''ice-ufrag:'' then s\<lparr>IceUfrag := drop 10 val\<rparr>
      else if HasPrefix val ''ice-pwd:'' then s\<lparr>IcePwd := drop 8 val\<rparr>
      else if HasPrefix val ''candidate:'' \<and> cur then
        cur_upd (\<lambda>md. md\<lparr>md_Candidates := md_Candidates md @ [drop 10 val]\<rparr>) s
      else if HasPrefix val ''fmtp:'' \<and> cur then cur_upd (parseFmtp (drop 5 val)) s
      else if HasPrefix val ''rtcp-fb:'' \<and> cur then cur_upd (parseRtcpFb (drop 8 val)) s
      else s)"

definition new_media :: "string \<Rightarrow> int \<Rightarrow> string \<Rightarrow> int list \<Rightarrow> MediaDesc" where
  "new_media t port prof codecs = \<lparr>md_Type = t, md_Port = port, md_Profile = prof, md_Codecs = codecs,
     md_Direction = [], md_Crypto = [], md_Candidates = [], md_Fmtp = Map.empty, md_RtcpFb = (\<lambda>_. [])\<rparr>"

definition parseMediaLine :: "string \<Rightarrow> MediaDesc option" where
  "parseMediaLine val =
     (let parts = Fields val in
      if length parts < 3 then None
      else Some (new_media (parts ! 0) (Atoi_val (parts ! 1)) (parts ! 2)
                  (List.map_filter Atoi (drop 3 parts))))"

text \<open>One line of the loop of \<open>Parse\<close>; the flag is \<open>hasVersion\<close>.\<close>

definition sdp_line :: "string \<Rightarrow> bool \<times> Session \<Rightarrow> bool \<times> Session" where
  "sdp_line line st =
     (let (hasVersion, s) = st;
          line = TrimRightIf (\<lambda>c. c = CR) line in
      if length line < 2 \<or> line ! 1 \<noteq> CHR ''='' then (hasVersion, s)
      else
        let key = line ! 0; val = drop 2 line in
        if key = CHR ''v'' then (True, s)
        else if key = CHR ''o'' then (hasVersion, s\<lparr>Origin := val\<rparr>)
        else if key = CHR ''c'' then
          (let parts = Fields val
           in (hasVersion, if length parts \<ge> 3 then s\<lparr>Connection := parts ! 2\<rparr> else s))
        else if key = CHR ''m'' then
          (case parseMediaLine val of
             None \<Rightarrow> (hasVersion, s)
           | Some md \<Rightarrow> (hasVersion, s\<lparr>Media := Media s @ [md]\<rparr>))
        else if key = CHR ''a'' then (hasVersion, parseAttribute val s)
        else (hasVersion, s))"

definition new_session :: "string \<Rightarrow> Session" where
  "new_session raw = \<lparr>Origin = [], Connection = [], Media = [], Raw = raw, IceUfrag = [], IcePwd = [], IceLite = False\<rparr>"

text \<open>\<open>None\<close> is the error that no version line was found.\<close>

definition sdp_Parse :: "string \<Rightarrow> Session option" where
  "sdp_Parse raw =
     (case fold sdp_line (Split raw [LF]) (False, new_session raw) of
        (hasVersion, s) \<Rightarrow> if \<not> hasVersion then None else Some s)"

definition InlineKey :: "CryptoAttr \<Rightarrow> string" where
  "InlineKey c = (if HasPrefix (KeyParams c) ''inline:'' then drop 7 (KeyParams c) else KeyParams c)"

definition AudioMedia :: "Session \<Rightarrow> MediaDesc option" where
  "AudioMedia s = find (\<lambda>m. md_Type m = MediaAudio) (Media s)"

definition VideoMedia :: "Session \<Rightarrow> MediaDesc option" where
  "VideoMedia s = find (\<lambda>m. md_Type m = MediaVideo) (Media s)"

section \<open>Negotiation and builders\<close>

record ICEParams =
  ip_Ufrag :: string
  ip_Pwd :: string
  ip_Candidates :: "string list"
  ip_Lite :: bool

definition intersectCodecs :: "int list \<Rightarrow> int list \<Rightarrow> int list" where
  "intersectCodecs localPrefs remote = filter (\<lambda>c. c \<in> set remote) localPrefs"

definition NegotiateCodec :: "int list \<Rightarrow> int list \<Rightarrow> int" where
  "NegotiateCodec localPrefs remoteOffer =
     (case intersectCodecs localPrefs remoteOffer of [] \<Rightarrow> - 1 | c # _ \<Rightarrow> c)"

text \<open>The builders write lines that end in CR LF; the model lists the lines.\<close>

definition codec_lines :: "int \<Rightarrow> string list" where
  "codec_lines c =
     (case codecNames c of
        None \<Rightarrow> []
      | Some name \<Rightarrow>
          [''a=rtpmap:'' @ Itoa c @ '' '' @ name]
          @ (case codecFmtp c of None \<Rightarrow> [] | Some fmtp \<Rightarrow> [''a=fmtp:'' @ Itoa c @ '' '' @ fmtp])
          @ (case codecRtcpFb c of None \<Rightarrow> []
             | Some fbs \<Rightarrow> map (\<lambda>fb. ''a=rtcp-fb:'' @ Itoa c @ '' '' @ fb) fbs))"

definition media_line :: "string \<Rightarrow> int \<Rightarrow> string \<Rightarrow> int list \<Rightarrow> string" where
  "media_line mediaType port profile codecs =
     ''m='' @ mediaType @ '' '' @ Itoa port @ '' '' @ profile @ concat (map (\<lambda>c. '' '' @ Itoa c) codecs)"

definition writeMediaSection :: "string \<Rightarrow> int \<Rightarrow> string \<Rightarrow> int list \<Rightarrow> string \<Rightarrow> string \<Rightarrow> ICEParams option \<Rightarrow> string list" where
  "writeMediaSection mediaType port profile codecs direction cryptoInlineKey ice =
     [media_line mediaType port profile codecs]
     @ concat (map codec_lines codecs)
     @ (if cryptoInlineKey \<noteq> [] then [''a=crypto:1 AES_CM_128_HMAC_SHA1_80 inline:'' @ cryptoInlineKey] else [])
     @ (case ice of None \<Rightarrow> []
        | Some i \<Rightarrow> [''a=ice-ufrag:'' @ ip_Ufrag i, ''a=ice-pwd:'' @ ip_Pwd i]
            @ map (\<lambda>c. ''a=candidate:'' @ c) (ip_Candidates i))
     @ [''a='' @ direction]"

definition sdp_lines :: "string \<Rightarrow> int \<Rightarrow> int list \<Rightarrow> string \<Rightarrow> string \<Rightarrow> string \<Rightarrow> ICEParams option \<Rightarrow> int \<Rightarrow> int list \<Rightarrow> string list" where
  "sdp_lines ip audioPort audioCodecs direction profile cryptoInlineKey ice videoPort videoCodecs =
     [''v=0'', ''o=xphone 0 0 IN IP4 '' @ ip, ''s=xphone'', ''c=IN IP4 '' @ ip, ''t=0 0'']
     @ (case ice of None \<Rightarrow> [] | Some i \<Rightarrow> if ip_Lite i then [''a=ice-lite''] else [])
     @ writeMediaSection MediaAudio audioPort profile audioCodecs direction cryptoInlineKey ice
     @ (if videoCodecs \<noteq> [] then writeMediaSection MediaVideo videoPort profile videoCodecs direction cryptoInlineKey ice else [])"

definition buildSDPMulti :: "string \<Rightarrow> int \<Rightarrow> int list \<Rightarrow> string \<Rightarrow> string \<Rightarrow> string \<Rightarrow> ICEParams option \<Rightarrow> int \<Rightarrow> int list \<Rightarrow> string" where
  "buildSDPMulti ip audioPort audioCodecs direction profile cryptoInlineKey ice videoPort videoCodecs =
     concat (map (\<lambda>l. l @ CRLF)
       (sdp_lines ip audioPort audioCodecs direction profile cryptoInlineKey ice videoPort videoCodecs))"

definition buildSDP :: "string \<Rightarrow> int \<Rightarrow> int list \<Rightarrow> string \<Rightarrow> string \<Rightarrow> string \<Rightarrow> ICEParams option \<Rightarrow> string" where
  "buildSDP ip port codecs direction profile cryptoInlineKey ice =
     buildSDPMulti ip port codecs direction profile cryptoInlineKey ice 0 []"

definition BuildOffer :: "string \<Rightarrow> int \<Rightarrow> int list \<Rightarrow> string \<Rightarrow> string" where
  "BuildOffer ip port codecs direction = buildSDP ip port codecs direction ProfileRTP [] None"

text \<open>The codecs of an answer; all local ones where there is no common codec.\<close>

definition answer_codecs :: "int list \<Rightarrow> int list \<Rightarrow> int list" where
  "answer_codecs localPrefs remoteOffer =
     (let common = intersectCodecs localPrefs remoteOffer in if common = [] then localPrefs else common)"

definition BuildAnswer :: "string \<Rightarrow> int \<Rightarrow> int list \<Rightarrow> int list \<Rightarrow> string \<Rightarrow> string" where
  "BuildAnswer ip port localPrefs remoteOffer direction =
     BuildOffer ip port (answer_codecs localPrefs remoteOffer) direction"

definition BuildOfferICE where
  "BuildOfferICE ip port codecs direction ice = buildSDP ip port codecs direction ProfileRTP [] ice"

definition BuildAnswerICE where
  "BuildAnswerICE ip port localPrefs remoteOffer direction ice =
     buildSDP ip port (answer_codecs localPrefs remoteOffer) direction ProfileRTP [] ice"

definition BuildOfferSRTP where
  "BuildOfferSRTP ip port codecs direction key = buildSDP ip port codecs direction ProfileSRTP key None"

definition BuildAnswerSRTP where
  "BuildAnswerSRTP ip port localPrefs remoteOffer direction key =
     buildSDP ip port (answer_codecs localPrefs remoteOffer) direction ProfileSRTP key None"

definition BuildOfferSRTPICE where
  "BuildOfferSRTPICE ip port codecs direction key ice = buildSDP ip port codecs direction ProfileSRTP key ice"

definition BuildAnswerSRTPICE where
  "BuildAnswerSRTPICE ip port localPrefs remoteOffer direction key ice =
     buildSDP ip port (answer_codecs localPrefs remoteOffer) direction ProfileSRTP key ice"

definition BuildOfferVideo where
  "BuildOfferVideo ip port codecs vport vcodecs direction =
     buildSDPMulti ip port codecs direction ProfileRTP [] None vport vcodecs"

definition BuildOfferVideoSRTP where
  "BuildOfferVideoSRTP ip port codecs vport vcodecs direction key =
     buildSDPMulti ip port codecs direction ProfileSRTP key None vport vcodecs"

definition BuildAnswerVideo where
  "BuildAnswerVideo ip port localPrefs remoteOffer vport localVideo remoteVideo direction =
     buildSDPMulti ip port (answer_codecs localPrefs remoteOffer) direction ProfileRTP [] None vport
       (intersectCodecs localVideo remoteVideo)"

definition BuildAnswerVideoSRTP where
  "BuildAnswerVideoSRTP ip port localPrefs remoteOffer vport localVideo remoteVideo direction key =
     buildSDPMulti ip port (answer_codecs localPrefs remoteOffer) direction ProfileSRTP key None vport
       (intersectCodecs localVideo remoteVideo)"

definition BuildOfferVideoICE where
  "BuildOfferVideoICE ip port codecs vport vcodecs direction ice =
     buildSDPMulti ip port codecs direction ProfileRTP [] ice vport vcodecs"

definition BuildOfferVideoSRTPICE where
  "BuildOfferVideoSRTPICE ip port codecs vport vcodecs direction key ice =
     buildSDPMulti ip port codecs direction ProfileSRTP key ice vport vcodecs"

definition BuildAnswerVideoICE where
  "BuildAnswerVideoICE ip port localPrefs remoteOffer vport localVideo remoteVideo direction ice =
     buildSDPMulti ip port (answer_codecs localPrefs remoteOffer) direction ProfileRTP [] ice vport
       (intersectCodecs localVideo remoteVideo)"

definition BuildAnswerVideoSRTPICE where
  "BuildAnswerVideoSRTPICE ip port localPrefs remoteOffer vport localVideo remoteVideo direction key ice =
     buildSDPMulti ip port (answer_codecs localPrefs remoteOffer) direction ProfileSRTP key ice vport
       (intersectCodecs localVideo remoteVideo)"

section \<open>Lines\<close>

abbreviation one_line :: "string \<Rightarrow> bool" where
  "one_line l \<equiv> CR \<notin> set l \<and> LF \<notin> set l"

lemma Split_lines: "\<forall>l \<in> set ls. LF \<notin> set l \<Longrightarrow> Split (concat (map (\<lambda>l. l @ CRLF) ls)) [LF] = map (\<lambda>l. l @ [CR]) ls @ [[]]"
proof (induction ls)
  case Nil
  then show ?case by (simp add: Split.simps)
next
  case (Cons l ls)
  then show ?case using Split_append [of LF "l @ [CR]" "[]"] by (simp add: CRLF_def)
qed

lemma sdp_line_CR: "CR \<notin> set l \<Longrightarrow> sdp_line (l @ [CR]) st = sdp_line l st"
proof -
  assume "CR \<notin> set l"
  then have "CR \<notin> set (rev l)" by simp
  then have "dropWhile (\<lambda>c. c = CR) (rev l) = rev l" by (cases "rev l") auto
  then have "TrimRightIf (\<lambda>c. c = CR) (l @ [CR]) = l" "TrimRightIf (\<lambda>c. c = CR) l = l"
    by (simp_all add: TrimRightIf_def)
  then show ?thesis by (simp add: sdp_line_def)
qed

lemma sdp_line_Nil: "sdp_line [] st = st"
  by (simp add: sdp_line_def TrimRightIf_def split: prod.splits)

lemma fold_lines:
  "\<forall>l \<in> set ls. one_line l \<Longrightarrow>
   fold sdp_line (Split (concat (map (\<lambda>l. l @ CRLF) ls)) [LF]) st = fold sdp_line ls st"
proof -
  assume a: "\<forall>l \<in> set ls. one_line l"
  then have "fold sdp_line (map (\<lambda>l. l @ [CR]) ls) st = fold sdp_line ls st" for st
    by (induction ls arbitrary: st) (simp_all add: sdp_line_CR)
  then show ?thesis using a by (simp add: Split_lines sdp_line_Nil)
qed

lemma TrimRight_none: "CR \<notin> set l \<Longrightarrow> TrimRightIf (\<lambda>c. c = CR) l = l"
proof -
  assume "CR \<notin> set l"
  then have "CR \<notin> set (rev l)" by simp
  then have "dropWhile (\<lambda>c. c = CR) (rev l) = rev l" by (cases "rev l") auto
  then show ?thesis by (simp add: TrimRightIf_def)
qed

text \<open>What each kind of line does.\<close>

lemma sdp_line_kinds:
  assumes "CR \<notin> set val"
  shows "sdp_line (CHR ''v'' # CHR ''='' # val) (h, s) = (True, s)"
    and "sdp_line (CHR ''o'' # CHR ''='' # val) (h, s) = (h, s\<lparr>Origin := val\<rparr>)"
    and "sdp_line (CHR ''s'' # CHR ''='' # val) (h, s) = (h, s)"
    and "sdp_line (CHR ''t'' # CHR ''='' # val) (h, s) = (h, s)"
    and "sdp_line (CHR ''c'' # CHR ''='' # val) (h, s) =
      (h, if length (Fields val) \<ge> 3 then s\<lparr>Connection := Fields val ! 2\<rparr> else s)"
    and "sdp_line (CHR ''m'' # CHR ''='' # val) (h, s) =
      (case parseMediaLine val of None \<Rightarrow> (h, s) | Some md \<Rightarrow> (h, s\<lparr>Media := Media s @ [md]\<rparr>))"
    and "sdp_line (CHR ''a'' # CHR ''='' # val) (h, s) = (h, parseAttribute val s)"
  using assms by (simp_all add: sdp_line_def TrimRight_none)

lemma parseMediaLine_built:
  assumes "field t" "field prof" "\<forall>c \<in> set (port # codecs). - (2 ^ 63) \<le> c \<and> c < 2 ^ 63"
  shows "parseMediaLine (t @ '' '' @ Itoa port @ '' '' @ prof @ concat (map (\<lambda>c. '' '' @ Itoa c) codecs))
     = Some (new_media t port prof codecs)"
proof -
  have join: "x @ concat (map (\<lambda>c. '' '' @ Itoa c) codecs) = Join (x # map Itoa codecs) '' ''" for x
  proof (induction codecs arbitrary: x)
    case (Cons a codecs)
    have "Join (x # map Itoa (a # codecs)) '' '' = x @ '' '' @ Join (Itoa a # map Itoa codecs) '' ''" by simp
    then show ?case by (simp only: Cons.IH [symmetric]) simp
  qed simp
  have "Fields (t @ '' '' @ Itoa port @ '' '' @ prof @ concat (map (\<lambda>c. '' '' @ Itoa c) codecs))
      = [t, Itoa port, prof] @ map Itoa codecs"
    unfolding join using assms(1,2) Fields_append [of t] Fields_append [of "Itoa port"] Fields_Join [of "prof # map Itoa codecs"]
    by simp
  moreover have "List.map_filter Atoi (map Itoa codecs) = codecs"
    using assms(3) by (induction codecs) (simp_all add: List.map_filter_simps Atoi_Itoa)
  moreover have "Atoi_val (Itoa port) = port" using assms(3) by (simp add: Atoi_val_Some Atoi_Itoa)
  ultimately show ?thesis by (simp add: parseMediaLine_def)
qed

abbreviation cur :: "MediaDesc list \<Rightarrow> MediaDesc \<Rightarrow> Session \<Rightarrow> Session" where
  "cur ms md s \<equiv> s\<lparr>Media := ms @ [md]\<rparr>"

lemma cur_upd_cur: "cur_upd f (cur ms md s) = cur ms (f md) s"
  by (simp add: cur_upd_def)

lemma numbered:
  assumes "- (2 ^ 63) \<le> c" "c < 2 ^ 63"
  shows "parseFmtp (Itoa c @ CHR '' '' # v) md = md\<lparr>md_Fmtp := (md_Fmtp md)(c \<mapsto> v)\<rparr>"
    and "parseRtcpFb (Itoa c @ CHR '' '' # v) md = md\<lparr>md_RtcpFb := (md_RtcpFb md)(c := md_RtcpFb md c @ [v])\<rparr>"
proof -
  have "CHR '' '' \<notin> set (Itoa c)" using Itoa_no_space by (fastforce simp: is_space_def)
  then have "IndexByte (Itoa c @ CHR '' '' # v) CHR '' '' = Some (length (Itoa c))" by (rule IndexByte_append)
  then show "parseFmtp (Itoa c @ CHR '' '' # v) md = md\<lparr>md_Fmtp := (md_Fmtp md)(c \<mapsto> v)\<rparr>"
    and "parseRtcpFb (Itoa c @ CHR '' '' # v) md = md\<lparr>md_RtcpFb := (md_RtcpFb md)(c := md_RtcpFb md c @ [v])\<rparr>"
    using assms by (simp_all add: parseFmtp_def parseRtcpFb_def Atoi_Itoa)
qed

lemma crypto_fields:
  "field k \<Longrightarrow> parseCryptoVal (''1 AES_CM_128_HMAC_SHA1_80 inline:'' @ k) =
     Some \<lparr>Tag = 1, Suite = ''AES_CM_128_HMAC_SHA1_80'', KeyParams = ''inline:'' @ k\<rparr>"
proof -
  assume "field k"
  then have "field (''inline:'' @ k)" by (auto simp: field_def is_space_def)
  then have "Fields (Join [''1'', ''AES_CM_128_HMAC_SHA1_80'', ''inline:'' @ k] '' '') =
      [''1'', ''AES_CM_128_HMAC_SHA1_80'', ''inline:'' @ k]"
    by (intro Fields_Join) (auto simp: field_def is_space_def)
  moreover have "Atoi_val ''1'' = 1" by code_simp
  ultimately show ?thesis by (simp add: parseCryptoVal_def)
qed

lemma attr_effects:
  "parseAttribute (''rtpmap:'' @ v) s = s"
  "parseAttribute ''ice-lite'' s = s\<lparr>IceLite := True\<rparr>"
  "parseAttribute (''ice-ufrag:'' @ v) s = s\<lparr>IceUfrag := v\<rparr>"
  "parseAttribute (''ice-pwd:'' @ v) s = s\<lparr>IcePwd := v\<rparr>"
  "parseAttribute (''candidate:'' @ v) (cur ms md s) = cur ms (md\<lparr>md_Candidates := md_Candidates md @ [v]\<rparr>) s"
  "parseAttribute (''fmtp:'' @ v) (cur ms md s) = cur ms (parseFmtp v md) s"
  "parseAttribute (''rtcp-fb:'' @ v) (cur ms md s) = cur ms (parseRtcpFb v md) s"
  "d \<in> {DirSendRecv, DirSendOnly, DirRecvOnly, DirInactive} \<Longrightarrow>
   parseAttribute d (cur ms md s) = cur ms (md\<lparr>md_Direction := d\<rparr>) s"
  "field k \<Longrightarrow> parseAttribute (''crypto:1 AES_CM_128_HMAC_SHA1_80 inline:'' @ k) (cur ms md s) =
   cur ms (md\<lparr>md_Crypto := md_Crypto md @ [\<lparr>Tag = 1, Suite = ''AES_CM_128_HMAC_SHA1_80'', KeyParams = ''inline:'' @ k\<rparr>]\<rparr>) s"
  using crypto_fields [of k]
  by (simp_all add: parseAttribute_def HasPrefix_def cur_upd_cur)

section \<open>Sections\<close>

definition fb_of :: "int \<Rightarrow> string list" where
  "fb_of c = (case codecRtcpFb c of None \<Rightarrow> [] | Some l \<Rightarrow> l)"

definition codec_upd :: "int \<Rightarrow> MediaDesc \<Rightarrow> MediaDesc" where
  "codec_upd c md = md\<lparr>md_Fmtp := (case codecFmtp c of None \<Rightarrow> md_Fmtp md | Some f \<Rightarrow> (md_Fmtp md)(c \<mapsto> f)),
     md_RtcpFb := (md_RtcpFb md)(c := md_RtcpFb md c @ fb_of c)\<rparr>"

lemma codec_tables: "codecNames c = None \<Longrightarrow> codecFmtp c = None \<and> codecRtcpFb c = None"
  by (auto simp: codecNames_def codecFmtp_def codecRtcpFb_def split: if_splits)

abbreviation in64 :: "int \<Rightarrow> bool" where
  "in64 c \<equiv> - (2 ^ 63) \<le> c \<and> c < 2 ^ 63"

lemma CR_Itoa: "CR \<notin> set (Itoa c)" "LF \<notin> set (Itoa c)"
  using Itoa_no_space by (fastforce simp: is_space_def)+

text \<open>The texts of the tables stand on one line.\<close>

lemma table_lines:
  "codecNames c = Some v \<Longrightarrow> one_line v" "codecFmtp c = Some v \<Longrightarrow> one_line v"
  "codecRtcpFb c = Some l \<Longrightarrow> v \<in> set l \<Longrightarrow> one_line v"
  by (auto simp: codecNames_def codecFmtp_def codecRtcpFb_def split: if_splits)

lemma fold_fb:
  assumes "in64 c" "\<forall>v \<in> set l. CR \<notin> set v"
  shows "fold sdp_line (map (\<lambda>fb. ''a=rtcp-fb:'' @ Itoa c @ '' '' @ fb) l) (h, cur ms md s) =
    (h, cur ms (md\<lparr>md_RtcpFb := (md_RtcpFb md)(c := md_RtcpFb md c @ l)\<rparr>) s)"
  using assms(2)
proof (induction l arbitrary: md)
  case (Cons v l)
  have "sdp_line (''a=rtcp-fb:'' @ Itoa c @ '' '' @ v) (h, cur ms md s) =
      (h, cur ms (md\<lparr>md_RtcpFb := (md_RtcpFb md)(c := md_RtcpFb md c @ [v])\<rparr>) s)"
    using Cons.prems assms(1) attr_effects(7) [of "Itoa c @ '' '' @ v" ms md s] CR_Itoa
      sdp_line_kinds(7) [of "''rtcp-fb:'' @ Itoa c @ '' '' @ v" h]
    by (simp add: numbered)
  then show ?case using Cons by (simp cong: if_cong)
qed simp

lemma fold_codec:
  assumes "in64 c"
  shows "fold sdp_line (codec_lines c) (h, cur ms md s) = (h, cur ms (codec_upd c md) s)"
proof (cases "codecNames c")
  case None
  then show ?thesis using codec_tables [OF None] by (simp add: codec_lines_def codec_upd_def fb_of_def)
next
  case (Some name)
  have rtp: "sdp_line (''a=rtpmap:'' @ Itoa c @ '' '' @ name) (h, x) = (h, x)" for x
    using attr_effects(1) [of "Itoa c @ '' '' @ name" x] table_lines(1) [OF Some] CR_Itoa
      sdp_line_kinds(7) [of "''rtpmap:'' @ Itoa c @ '' '' @ name" h x] by simp
  have fmt: "sdp_line (''a=fmtp:'' @ Itoa c @ '' '' @ f) (h, cur ms md s) = (h, cur ms (md\<lparr>md_Fmtp := (md_Fmtp md)(c \<mapsto> f)\<rparr>) s)"
    if "codecFmtp c = Some f" for f
    using attr_effects(6) [of "Itoa c @ '' '' @ f" ms md s] table_lines(2) [OF that] CR_Itoa assms
      sdp_line_kinds(7) [of "''fmtp:'' @ Itoa c @ '' '' @ f" h] by (simp add: numbered)
  have fb: "\<forall>v \<in> set (fb_of c). CR \<notin> set v" 
    using table_lines(3) [of c] by (cases "codecRtcpFb c") (auto simp: fb_of_def)
  have "codec_lines c = [''a=rtpmap:'' @ Itoa c @ '' '' @ name]
      @ (case codecFmtp c of None \<Rightarrow> [] | Some fmtp \<Rightarrow> [''a=fmtp:'' @ Itoa c @ '' '' @ fmtp])
      @ map (\<lambda>fb. ''a=rtcp-fb:'' @ Itoa c @ '' '' @ fb) (fb_of c)"
    by (simp add: codec_lines_def Some fb_of_def split: option.splits)
  then show ?thesis
    by (cases "codecFmtp c")
       (simp_all add: rtp [simplified] fmt [simplified] fold_fb [OF assms fb, simplified] codec_upd_def)
qed

lemma fold_codecs:
  "\<forall>c \<in> set cs. in64 c \<Longrightarrow>
   fold sdp_line (concat (map codec_lines cs)) (h, cur ms md s) = (h, cur ms (fold codec_upd cs md) s)"
  by (induction cs arbitrary: md) (simp_all add: fold_codec)

lemma fold_candidates:
  "\<forall>c \<in> set cs. CR \<notin> set c \<Longrightarrow>
   fold sdp_line (map (\<lambda>c. ''a=candidate:'' @ c) cs) (h, cur ms md s) =
     (h, cur ms (md\<lparr>md_Candidates := md_Candidates md @ cs\<rparr>) s)"
proof (induction cs arbitrary: md)
  case (Cons c cs)
  have "sdp_line (''a=candidate:'' @ c) (h, cur ms md s) = (h, cur ms (md\<lparr>md_Candidates := md_Candidates md @ [c]\<rparr>) s)"
    using Cons.prems attr_effects(5) [of c ms md s] sdp_line_kinds(7) [of "''candidate:'' @ c" h] by simp
  then show ?case using Cons by simp
qed simp

lemma codecs_fmtp:
  "md_Fmtp (fold codec_upd cs md) c = (if c \<in> set cs \<and> codecFmtp c \<noteq> None then codecFmtp c else md_Fmtp md c)"
  by (induction cs arbitrary: md) (auto simp: codec_upd_def split: option.splits)

lemma codecs_fb:
  "md_RtcpFb (fold codec_upd cs md) c = md_RtcpFb md c @ concat (replicate (count_list cs c) (fb_of c))"
  by (induction cs arbitrary: md) (auto simp: codec_upd_def)

text \<open>The section a description says, as the parser should see it.\<close>

definition described :: "string \<Rightarrow> int \<Rightarrow> string \<Rightarrow> int list \<Rightarrow> string \<Rightarrow> string \<Rightarrow> ICEParams option \<Rightarrow> MediaDesc" where
  "described t port prof codecs d key ice =
     \<lparr>md_Type = t, md_Port = port, md_Profile = prof, md_Codecs = codecs, md_Direction = d,
      md_Crypto = (if key = [] then [] else [\<lparr>Tag = 1, Suite = ''AES_CM_128_HMAC_SHA1_80'', KeyParams = ''inline:'' @ key\<rparr>]),
      md_Candidates = (case ice of None \<Rightarrow> [] | Some i \<Rightarrow> ip_Candidates i),
      md_Fmtp = (\<lambda>c. if c \<in> set codecs then codecFmtp c else None),
      md_RtcpFb = (\<lambda>c. concat (replicate (count_list codecs c) (fb_of c)))\<rparr>"

definition wf_ice :: "ICEParams option \<Rightarrow> bool" where
  "wf_ice ice \<longleftrightarrow> (case ice of None \<Rightarrow> True
     | Some i \<Rightarrow> one_line (ip_Ufrag i) \<and> one_line (ip_Pwd i) \<and> (\<forall>c \<in> set (ip_Candidates i). one_line c))"

definition ice_upd :: "ICEParams option \<Rightarrow> Session \<Rightarrow> Session" where
  "ice_upd ice s = (case ice of None \<Rightarrow> s | Some i \<Rightarrow> s\<lparr>IceUfrag := ip_Ufrag i, IcePwd := ip_Pwd i\<rparr>)"

lemma ice_upd_media: "ice_upd ice (s\<lparr>Media := ms\<rparr>) = (ice_upd ice s)\<lparr>Media := ms\<rparr>"
  by (cases ice) (simp_all add: ice_upd_def)

abbreviation is_dir :: "string \<Rightarrow> bool" where
  "is_dir d \<equiv> d \<in> {DirSendRecv, DirSendOnly, DirRecvOnly, DirInactive}"

lemma fields_one_line: "field k \<Longrightarrow> one_line k"
  by (auto simp: field_def is_space_def)

lemma codec_upd_keeps:
  "fold codec_upd cs md = md\<lparr>md_Fmtp := md_Fmtp (fold codec_upd cs md), md_RtcpFb := md_RtcpFb (fold codec_upd cs md)\<rparr>"
proof -
  have "md_Type (fold codec_upd cs md) = md_Type md \<and> md_Port (fold codec_upd cs md) = md_Port md
    \<and> md_Profile (fold codec_upd cs md) = md_Profile md \<and> md_Codecs (fold codec_upd cs md) = md_Codecs md
    \<and> md_Direction (fold codec_upd cs md) = md_Direction md \<and> md_Crypto (fold codec_upd cs md) = md_Crypto md
    \<and> md_Candidates (fold codec_upd cs md) = md_Candidates md"
    by (induction cs arbitrary: md) (simp_all add: codec_upd_def)
  then show ?thesis by simp
qed

lemma codecs_described:
  "fold codec_upd cs (new_media t port prof cs) = (new_media t port prof cs)
     \<lparr>md_Fmtp := (\<lambda>c. if c \<in> set cs then codecFmtp c else None),
      md_RtcpFb := (\<lambda>c. concat (replicate (count_list cs c) (fb_of c)))\<rparr>"
proof -
  have "md_Fmtp (fold codec_upd cs (new_media t port prof cs)) = (\<lambda>c. if c \<in> set cs then codecFmtp c else None)"
    "md_RtcpFb (fold codec_upd cs (new_media t port prof cs)) = (\<lambda>c. concat (replicate (count_list cs c) (fb_of c)))"
    by (auto simp: fun_eq_iff codecs_fmtp codecs_fb new_media_def)
  then show ?thesis by (subst codec_upd_keeps) simp
qed

lemma fold_section:
  assumes "field t" "field prof" "\<forall>c \<in> set (port # codecs). in64 c" "is_dir d" "key = [] \<or> field key" "wf_ice ice"
  shows "fold sdp_line (writeMediaSection t port prof codecs d key ice) (h, s) =
    (h, ice_upd ice (s\<lparr>Media := Media s @ [described t port prof codecs d key ice]\<rparr>))"
proof -
  let ?ms = "Media s"
  define md1 where "md1 = fold codec_upd codecs (new_media t port prof codecs)"
  define crypto where "crypto = (if key = [] then [] else
    [\<lparr>Tag = 1, Suite = ''AES_CM_128_HMAC_SHA1_80'', KeyParams = ''inline:'' @ key\<rparr>])"
  define md2 where "md2 = md1\<lparr>md_Crypto := crypto\<rparr>"
  define cands where "cands = (case ice of None \<Rightarrow> [] | Some i \<Rightarrow> ip_Candidates i)"
  have m: "sdp_line (media_line t port prof codecs) (h, s) = (h, cur ?ms (new_media t port prof codecs) s)"
  proof -
    have "CR \<notin> set (t @ '' '' @ Itoa port @ '' '' @ prof @ concat (map (\<lambda>c. '' '' @ Itoa c) codecs))"
      using fields_one_line [OF assms(1)] fields_one_line [OF assms(2)] CR_Itoa by auto
    from sdp_line_kinds(6) [OF this, of h s] parseMediaLine_built [OF assms(1,2,3)]
    show ?thesis by (simp add: media_line_def)
  qed
  have c: "fold sdp_line (concat (map codec_lines codecs)) (h, cur ?ms (new_media t port prof codecs) s) = (h, cur ?ms md1 s)"
    using fold_codecs [of codecs h ?ms] assms(3) by (simp add: md1_def)
  note md1' = md1_def [unfolded codecs_described]
  have md1: "md_Crypto md1 = []" "md_Candidates md1 = []"
    by (simp_all add: md1' new_media_def)
  have k: "fold sdp_line (if key \<noteq> [] then [''a=crypto:1 AES_CM_128_HMAC_SHA1_80 inline:'' @ key] else []) (h, cur ?ms md1 s)
      = (h, cur ?ms md2 s)"
  proof (cases "key = []")
    case True
    then show ?thesis using md1 by (simp add: md2_def crypto_def)
  next
    case False
    then have f: "field key" using assms(5) by simp
    then show ?thesis using False md1 fields_one_line [OF f] attr_effects(9) [OF f, of ?ms md1 s]
        sdp_line_kinds(7) [of "''crypto:1 AES_CM_128_HMAC_SHA1_80 inline:'' @ key" h]
      by (simp add: md2_def crypto_def)
  qed
  have i: "fold sdp_line (case ice of None \<Rightarrow> [] | Some i \<Rightarrow> [''a=ice-ufrag:'' @ ip_Ufrag i, ''a=ice-pwd:'' @ ip_Pwd i]
        @ map (\<lambda>c. ''a=candidate:'' @ c) (ip_Candidates i)) (h, cur ?ms md2 s)
      = (h, cur ?ms (md2\<lparr>md_Candidates := cands\<rparr>) (ice_upd ice s))"
  proof (cases ice)
    case None
    then show ?thesis using md1 by (simp add: cands_def ice_upd_def md2_def)
  next
    case (Some x)
    have x: "CR \<notin> set (ip_Ufrag x)" "CR \<notin> set (ip_Pwd x)" "\<forall>c \<in> set (ip_Candidates x). CR \<notin> set c"
      using assms(6) Some by (auto simp: wf_ice_def)
    have "sdp_line (''a=ice-ufrag:'' @ ip_Ufrag x) (h, y) = (h, y\<lparr>IceUfrag := ip_Ufrag x\<rparr>)"
      "sdp_line (''a=ice-pwd:'' @ ip_Pwd x) (h, y) = (h, y\<lparr>IcePwd := ip_Pwd x\<rparr>)" for y
      using x attr_effects(3,4) sdp_line_kinds(7) [of "''ice-ufrag:'' @ ip_Ufrag x" h y]
        sdp_line_kinds(7) [of "''ice-pwd:'' @ ip_Pwd x" h y] by simp_all
    then have "fold sdp_line [''a=ice-ufrag:'' @ ip_Ufrag x, ''a=ice-pwd:'' @ ip_Pwd x] (h, cur ?ms md2 s)
        = (h, cur ?ms md2 (ice_upd ice s))" by (simp add: Some ice_upd_def)
    moreover have "md2\<lparr>md_Candidates := md_Candidates md2 @ ip_Candidates x\<rparr> = md2\<lparr>md_Candidates := cands\<rparr>"
      using md1 by (simp add: Some cands_def md2_def)
    ultimately show ?thesis
      by (simp only: Some option.case fold_append comp_apply fold_candidates [OF x(3)])
  qed
  have d: "sdp_line (''a='' @ d) (h, cur ?ms md y) = (h, cur ?ms (md\<lparr>md_Direction := d\<rparr>) y)" for md y
    using assms(4) attr_effects(8) [OF assms(4)] sdp_line_kinds(7) [of d h "cur ?ms md y"] by auto
  have "md2\<lparr>md_Candidates := cands, md_Direction := d\<rparr> = described t port prof codecs d key ice"
    by (simp add: md2_def md1' new_media_def described_def crypto_def cands_def)
  then show ?thesis
    using d [of "md2\<lparr>md_Candidates := cands\<rparr>" "ice_upd ice s"]
    by (simp only: writeMediaSection_def fold_append comp_apply fold_simps m c k i ice_upd_media)
qed

section \<open>Properties\<close>

lemma section_one_line:
  assumes "field t" "field prof" "is_dir d" "key = [] \<or> field key" "wf_ice ice"
    and "l \<in> set (writeMediaSection t port prof codecs d key ice)"
  shows "one_line l"
proof -
  have codec: "one_line l" if "l \<in> set (codec_lines c)" for c l
    using that table_lines [of c] CR_Itoa
    by (cases "codecNames c"; cases "codecFmtp c"; cases "codecRtcpFb c") (auto simp: codec_lines_def)
  have "key \<noteq> [] \<Longrightarrow> one_line key" using assms(4) fields_one_line by blast
  moreover have "one_line d" using assms(3) by auto
  ultimately show ?thesis using assms(5,6) codec CR_Itoa fields_one_line [OF assms(1)] fields_one_line [OF assms(2)]
    by (auto simp: writeMediaSection_def media_line_def wf_ice_def split: if_splits option.splits)
qed

definition wf_sdp :: "string \<Rightarrow> int \<Rightarrow> int list \<Rightarrow> string \<Rightarrow> string \<Rightarrow> string \<Rightarrow> ICEParams option \<Rightarrow> int \<Rightarrow> int list \<Rightarrow> bool" where
  "wf_sdp ip port codecs d prof key ice vport vcodecs \<longleftrightarrow> field ip \<and> field prof \<and> is_dir d \<and> (key = [] \<or> field key)
     \<and> wf_ice ice \<and> (\<forall>c \<in> set (port # vport # codecs @ vcodecs). - (2 ^ 63) \<le> c \<and> c < 2 ^ 63)"

lemma parse_built:
  assumes "wf_sdp ip port codecs d prof key ice vport vcodecs"
  shows "sdp_Parse (buildSDPMulti ip port codecs d prof key ice vport vcodecs) = Some
    \<lparr>Origin = ''xphone 0 0 IN IP4 '' @ ip, Connection = ip,
     Media = described MediaAudio port prof codecs d key ice #
       (if vcodecs = [] then [] else [described MediaVideo vport prof vcodecs d key ice]),
     Raw = buildSDPMulti ip port codecs d prof key ice vport vcodecs,
     IceUfrag = (case ice of None \<Rightarrow> [] | Some i \<Rightarrow> ip_Ufrag i),
     IcePwd = (case ice of None \<Rightarrow> [] | Some i \<Rightarrow> ip_Pwd i),
     IceLite = (case ice of None \<Rightarrow> False | Some i \<Rightarrow> ip_Lite i)\<rparr>"
proof -
  let ?raw = "buildSDPMulti ip port codecs d prof key ice vport vcodecs"
  let ?lines = "sdp_lines ip port codecs d prof key ice vport vcodecs"
  let ?lite = "case ice of None \<Rightarrow> [] | Some i \<Rightarrow> if ip_Lite i then [''a=ice-lite''] else []"
  have wf: "field ip" "field prof" "is_dir d" "key = [] \<or> field key" "wf_ice ice"
      "\<forall>c \<in> set (port # codecs). in64 c" "\<forall>c \<in> set (vport # vcodecs). in64 c"
    using assms by (auto simp: wf_sdp_def)
  have ip: "one_line ip" using wf(1) by (rule fields_one_line)
  have t: "field MediaAudio" "field MediaVideo" by (auto simp: field_def is_space_def)
  have "\<forall>l \<in> set ?lines. one_line l"
    using section_one_line [OF t(1) wf(2-5)] section_one_line [OF t(2) wf(2-5)] ip
    by (auto simp: sdp_lines_def split: if_splits option.splits)
  then have lines: "fold sdp_line (Split ?raw [LF]) st = fold sdp_line ?lines st" for st
    by (simp add: buildSDPMulti_def fold_lines)
  have "Fields (Join [''IN'', ''IP4'', ip] '' '') = [''IN'', ''IP4'', ip]"
    using wf(1) by (intro Fields_Join) (auto simp: field_def is_space_def)
  then have hd: "fold sdp_line [''v=0'', ''o=xphone 0 0 IN IP4 '' @ ip, ''s=xphone'', ''c=IN IP4 '' @ ip, ''t=0 0''] (False, new_session ?raw)
      = (True, (new_session ?raw)\<lparr>Origin := ''xphone 0 0 IN IP4 '' @ ip, Connection := ip\<rparr>)"
    using ip sdp_line_kinds(5) [of "''IN IP4 '' @ ip"] by (simp add: sdp_line_kinds)
  have lite: "fold sdp_line ?lite (True, s) = (True, s\<lparr>IceLite := IceLite s \<or> (case ice of None \<Rightarrow> False | Some i \<Rightarrow> ip_Lite i)\<rparr>)" for s
    using attr_effects(2) [of s] by (cases ice) (simp_all add: sdp_line_kinds)
  note au = fold_section [OF t(1) wf(2) wf(6) wf(3,4,5), where h = True]
  note vi = fold_section [OF t(2) wf(2) wf(7) wf(3,4,5), where h = True]
  define s0 where "s0 = (new_session ?raw)\<lparr>Origin := ''xphone 0 0 IN IP4 '' @ ip, Connection := ip\<rparr>"
  define s1 where "s1 = s0\<lparr>IceLite := IceLite s0 \<or> (case ice of None \<Rightarrow> False | Some i \<Rightarrow> ip_Lite i)\<rparr>"
  define ad where "ad = described MediaAudio port prof codecs d key ice"
  define vd where "vd = described MediaVideo vport prof vcodecs d key ice"
  define s2 where "s2 = ice_upd ice (s1\<lparr>Media := Media s1 @ [ad]\<rparr>)"
  have "fold sdp_line ?lines (False, new_session ?raw) =
      fold sdp_line (if vcodecs \<noteq> [] then writeMediaSection MediaVideo vport prof vcodecs d key ice else []) (True, s2)"
    by (simp only: sdp_lines_def fold_append comp_apply hd s0_def [symmetric] lite s1_def [symmetric] au ad_def [symmetric] s2_def [symmetric])
  also have "\<dots> = (True, if vcodecs = [] then s2 else ice_upd ice (s2\<lparr>Media := Media s2 @ [vd]\<rparr>))"
    using vi [of s2] by (simp add: vd_def)
  finally have "sdp_Parse ?raw = Some (if vcodecs = [] then s2 else ice_upd ice (s2\<lparr>Media := Media s2 @ [vd]\<rparr>))"
    by (simp only: sdp_Parse_def lines prod.case not_True_eq_False if_False)
  also have "(if vcodecs = [] then s2 else ice_upd ice (s2\<lparr>Media := Media s2 @ [vd]\<rparr>)) =
      \<lparr>Origin = ''xphone 0 0 IN IP4 '' @ ip, Connection = ip, Media = ad # (if vcodecs = [] then [] else [vd]),
       Raw = ?raw, IceUfrag = (case ice of None \<Rightarrow> [] | Some i \<Rightarrow> ip_Ufrag i),
       IcePwd = (case ice of None \<Rightarrow> [] | Some i \<Rightarrow> ip_Pwd i),
       IceLite = (case ice of None \<Rightarrow> False | Some i \<Rightarrow> ip_Lite i)\<rparr>"
    by (cases ice) (simp_all add: s2_def s1_def s0_def ice_upd_def new_session_def)
  finally show ?thesis by (simp only: ad_def vd_def)
qed

text \<open>
  C23: the peer reads the description that was meant.  For every address, ports, codec lists,
  direction, profile, SRTP key and ICE parameters without spaces and line breaks where the format
  has none, parsing what \<open>buildSDPMulti\<close> writes gives one audio section and, when there are video
  codecs, one video section with exactly those values, the codec parameters of the tables, and
  the connection address and ICE credentials of the session.
\<close>

theorem sdp_roundtrip:
  assumes "wf_sdp ip port codecs d prof key ice vport vcodecs"
  shows "sdp_Parse (buildSDPMulti ip port codecs d prof key ice vport vcodecs) = Some
    \<lparr>Origin = ''xphone 0 0 IN IP4 '' @ ip, Connection = ip,
     Media = described MediaAudio port prof codecs d key ice #
       (if vcodecs = [] then [] else [described MediaVideo vport prof vcodecs d key ice]),
     Raw = buildSDPMulti ip port codecs d prof key ice vport vcodecs,
     IceUfrag = (case ice of None \<Rightarrow> [] | Some i \<Rightarrow> ip_Ufrag i),
     IcePwd = (case ice of None \<Rightarrow> [] | Some i \<Rightarrow> ip_Pwd i),
     IceLite = (case ice of None \<Rightarrow> False | Some i \<Rightarrow> ip_Lite i)\<rparr>"
  by (rule parse_built [OF assms])

theorem sdp_roundtrip_witness:
  "map_option Connection (sdp_Parse (buildSDPMulti ''192.0.2.1'' 4000 [0, 101] ''sendonly'' ''RTP/SAVP'' ''a2V5'' None 4002 [96]))
     = Some ''192.0.2.1''"
proof -
  have "wf_sdp ''192.0.2.1'' 4000 [0, 101] ''sendonly'' ''RTP/SAVP'' ''a2V5'' None 4002 [96]"
    by (simp add: wf_sdp_def wf_ice_def field_def is_space_def)
  from sdp_roundtrip [OF this] show ?thesis by simp
qed

text \<open>
  An answer keeps to the offer.  The codec both sides end up with is the first local preference
  the offer has, none when there is no common one; an answer lists only offered codecs, in local
  order, unless there is no common codec, in which case it lists all local ones.
\<close>

theorem answer_codecs_spec:
  "(NegotiateCodec l r = - 1 \<and> set l \<inter> set r = {}
    \<or> (\<exists>pre post. l = pre @ NegotiateCodec l r # post \<and> NegotiateCodec l r \<in> set r \<and> set pre \<inter> set r = {}))
   \<and> (if set l \<inter> set r = {} then answer_codecs l r = l
      else subseq (answer_codecs l r) l \<and> set (answer_codecs l r) = set l \<inter> set r
        \<and> hd (answer_codecs l r) = NegotiateCodec l r)"
proof -
  have empty: "intersectCodecs l r = [] \<longleftrightarrow> set l \<inter> set r = {}"
    by (auto simp: intersectCodecs_def filter_empty_conv)
  show ?thesis
  proof (cases "intersectCodecs l r")
    case Nil
    then show ?thesis using empty by (simp add: NegotiateCodec_def answer_codecs_def)
  next
    case (Cons c cs)
    then obtain pre post where "l = pre @ c # post" "\<forall>x \<in> set pre. x \<notin> set r" "c \<in> set r"
      unfolding intersectCodecs_def by (auto simp: filter_eq_Cons_iff)
    moreover have "set (c # cs) = set l \<inter> set r" "subseq (c # cs) l"
      unfolding Cons [symmetric] by (auto simp: intersectCodecs_def)
    ultimately show ?thesis using Cons empty by (auto simp: NegotiateCodec_def answer_codecs_def)
  qed
qed

end
