(* ===== verification/SipMessage.thy ===== *)
theory SipMessage
  imports GoStrings
begin

text \<open>
  SIP messages, \<open>internal/sip/message.go\<close>.  Raw data and bodies are byte strings like Go's strings,
  so conversions between \<open>[]byte\<close> and \<open>string\<close> are the identity.
\<close>

record header =
  Name :: string
  Value :: string

record Message =
  Method :: string
  RequestURI :: string
  StatusCode :: int
  Reason :: string
  headers :: "header list"
  Body :: string

definition empty_msg :: Message where
  "empty_msg = \<lparr>Method = [], RequestURI = [], StatusCode = 0, Reason = [], headers = [], Body = []\<rparr>"

datatype sip_error = EmptyMessage | EmptyStartLine | MalformedStatusLine | InvalidStatusCode
  | MalformedRequestLine

definition IsResponse :: "Message \<Rightarrow> bool" where
  "IsResponse m \<longleftrightarrow> StatusCode m > 0"

definition named :: "string \<Rightarrow> header \<Rightarrow> bool" where
  "named name h \<longleftrightarrow> ToLower (Name h) = ToLower name"

fun header_in :: "header list \<Rightarrow> string \<Rightarrow> string" where
  "header_in [] name = []"
| "header_in (h # hs) name = (if named name h then Value h else header_in hs name)"

definition Header :: "Message \<Rightarrow> string \<Rightarrow> string" where
  "Header m name = header_in (headers m) name"

definition HeaderValues :: "Message \<Rightarrow> string \<Rightarrow> string list" where
  "HeaderValues m name = map Value (filter (named name) (headers m))"

text \<open>The loop of \<open>SetHeader\<close>: at the first match the value is replaced and the later matches
  are removed; without a match the header is appended.\<close>

fun set_in :: "header list \<Rightarrow> string \<Rightarrow> string \<Rightarrow> header list" where
  "set_in [] name v = [\<lparr>Name = name, Value = v\<rparr>]"
| "set_in (h # hs) name v =
     (if named name h then h\<lparr>Value := v\<rparr> # filter (\<lambda>h. \<not> named name h) hs
      else h # set_in hs name v)"

definition SetHeader :: "string \<Rightarrow> string \<Rightarrow> Message \<Rightarrow> Message" where
  "SetHeader name v m = m\<lparr>headers := set_in (headers m) name v\<rparr>"

definition AddHeader :: "string \<Rightarrow> string \<Rightarrow> Message \<Rightarrow> Message" where
  "AddHeader name v m = m\<lparr>headers := headers m @ [\<lparr>Name = name, Value = v\<rparr>]\<rparr>"

definition paramValue :: "string \<Rightarrow> string \<Rightarrow> string" where
  "paramValue headerVal param =
     (let search = param @ ''='' in
      case Index (ToLower headerVal) (ToLower search) of
        None \<Rightarrow> []
      | Some idx \<Rightarrow>
          let rest = drop (idx + length search) headerVal in
          case IndexAny rest ('';, '' @ [CHR 0x09] @ ''>'') of
            None \<Rightarrow> rest
          | Some e \<Rightarrow> take e rest)"

definition ViaBranch :: "Message \<Rightarrow> string" where
  "ViaBranch m = (let via = Header m ''Via'' in if via = [] then [] else paramValue via ''branch'')"

definition CSeq :: "Message \<Rightarrow> int \<times> string" where
  "CSeq m =
     (let val = Header m ''CSeq'' in
      if val = [] then (0, [])
      else
        let parts = SplitN (TrimSpace val) '' '' 2 in
        if length parts \<noteq> 2 then (0, [])
        else case Atoi (parts ! 0) of
               None \<Rightarrow> (0, [])
             | Some n \<Rightarrow> (n, parts ! 1))"

definition FromTag :: "Message \<Rightarrow> string" where
  "FromTag m = paramValue (Header m ''From'') ''tag''"

definition ToTag :: "Message \<Rightarrow> string" where
  "ToTag m = paramValue (Header m ''To'') ''tag''"

definition start_line :: "Message \<Rightarrow> string" where
  "start_line m =
     (if IsResponse m then ''SIP/2.0 '' @ Itoa (StatusCode m) @ '' '' @ Reason m
      else Method m @ '' '' @ RequestURI m @ '' SIP/2.0'')"

definition header_line :: "header \<Rightarrow> string" where
  "header_line h = Name h @ '': '' @ Value h"

definition is_cl :: "header \<Rightarrow> bool" where
  "is_cl h \<longleftrightarrow> ToLower (Name h) = ''content-length''"

definition msg_Bytes :: "Message \<Rightarrow> string" where
  "msg_Bytes m =
     start_line m @ CRLF
     @ concat (map (\<lambda>h. header_line h @ CRLF) (filter (\<lambda>h. \<not> is_cl h) (headers m)))
     @ ''Content-Length: '' @ Itoa (int (length (Body m))) @ CRLF
     @ CRLF
     @ Body m"

definition parseStartLine :: "string \<Rightarrow> Message \<Rightarrow> sip_error + Message" where
  "parseStartLine line msg =
     (if HasPrefix line ''SIP/2.0 '' then
        let rest = drop 8 line in
        case IndexByte rest CHR '' '' of
          None \<Rightarrow> Inl MalformedStatusLine
        | Some spaceIdx \<Rightarrow>
            (case Atoi (take spaceIdx rest) of
               None \<Rightarrow> Inl InvalidStatusCode
             | Some code \<Rightarrow> Inr (msg\<lparr>StatusCode := code, Reason := drop (spaceIdx + 1) rest\<rparr>))
      else
        let parts = SplitN line '' '' 3 in
        if length parts < 3 \<or> parts ! 2 \<noteq> ''SIP/2.0'' then Inl MalformedRequestLine
        else Inr (msg\<lparr>Method := parts ! 0, RequestURI := parts ! 1\<rparr>))"

definition extractBody :: "string \<Rightarrow> Message \<Rightarrow> Message" where
  "extractBody body msg =
     (if body = [] then msg
      else
        let clStr = Header msg ''Content-Length'' in
        if clStr = [] then msg\<lparr>Body := body\<rparr>
        else case Atoi clStr of
               None \<Rightarrow> msg\<lparr>Body := body\<rparr>
             | Some cl \<Rightarrow>
                 if cl < 0 then msg\<lparr>Body := body\<rparr>
                 else if cl = 0 then msg
                 else if cl \<le> int (length body) then msg\<lparr>Body := take (nat cl) body\<rparr>
                 else msg\<lparr>Body := body\<rparr>)"

fun parse_headers :: "string list \<Rightarrow> header list" where
  "parse_headers [] = []"
| "parse_headers (s # ls) =
     (if s = [] then parse_headers ls
      else case IndexByte s CHR '':'' of
             None \<Rightarrow> parse_headers ls
           | Some colonIdx \<Rightarrow>
               \<lparr>Name = take colonIdx s, Value = TrimSpace (drop (colonIdx + 1) s)\<rparr> # parse_headers ls)"

definition msg_Parse :: "string \<Rightarrow> sip_error + Message" where
  "msg_Parse data =
     (if data = [] then Inl EmptyMessage
      else
        let headEnd = Index data (CRLF @ CRLF);
            head = (case headEnd of None \<Rightarrow> data | Some i \<Rightarrow> take i data);
            lines = Split head CRLF;
            startLine = hd lines
        in if startLine = [] then Inl EmptyStartLine
           else case parseStartLine startLine empty_msg of
                  Inl e \<Rightarrow> Inl e
                | Inr msg \<Rightarrow>
                    let msg = msg\<lparr>headers := parse_headers (tl lines)\<rparr>
                    in case headEnd of
                         None \<Rightarrow> Inr msg
                       | Some i \<Rightarrow> Inr (extractBody (drop (i + 4) data) msg))"

section \<open>Headers as a case-insensitive store\<close>

text \<open>What the users of a header store rely on; two sets to different names do not interfere.\<close>

locale header_store =
  fixes get :: "'m \<Rightarrow> string \<Rightarrow> string" and put :: "string \<Rightarrow> string \<Rightarrow> 'm \<Rightarrow> 'm"
  assumes get_put: "get (put n v m) n' = (if EqualFold n n' then v else get m n')"
begin

lemma put_commute: "\<not> EqualFold n k \<Longrightarrow> get (put n v (put k w m)) x = get (put k w (put n v m)) x"
  by (auto simp: get_put EqualFold_def)

lemma put_put: "EqualFold n k \<Longrightarrow> get (put n v (put k w m)) x = get (put n v m) x"
  by (auto simp: get_put EqualFold_def)

lemma get_fold: "n \<notin> fst ` set nvs \<Longrightarrow> \<forall>k \<in> fst ` set nvs. \<not> EqualFold k n \<Longrightarrow>
    get (fold (\<lambda>(k, v). put k v) nvs m) n = get m n"
  by (induction nvs arbitrary: m) (auto simp: get_put)

end

lemma header_in_filter: "\<not> EqualFold n k \<Longrightarrow> header_in (filter (\<lambda>h. \<not> named n h) hs) k = header_in hs k"
  by (induction hs) (auto simp: named_def EqualFold_def)

lemma header_in_set: "header_in (set_in hs n v) k = (if EqualFold n k then v else header_in hs k)"
  by (induction hs) (auto simp: named_def EqualFold_def header_in_filter [unfolded EqualFold_def named_def])

interpretation hs: header_store Header SetHeader
  by unfold_locales (simp add: Header_def SetHeader_def header_in_set)

lemma filter_set_in: "filter (named n) (set_in hs n v) \<noteq> [] \<and> map Value (filter (named n) (set_in hs n v)) = [v]"
  by (induction hs) (auto simp: named_def filter_empty_conv)

lemma filter_set_in_other:
  "\<not> EqualFold n k \<Longrightarrow> filter (named k) (set_in hs n v) = filter (named k) hs"
  by (induction hs) (auto simp: named_def EqualFold_def filter_filter intro: filter_cong)

text \<open>
  \<open>SetHeader\<close> leaves exactly one value under a name, whatever case it is written in and however
  many values were there, and leaves every other header's values and their order alone;
  \<open>Header\<close> then reads that value.
\<close>

theorem set_header_spec:
  "HeaderValues (SetHeader n v m) k = (if EqualFold n k then [v] else HeaderValues m k)
   \<and> Header (SetHeader n v m) k = (if EqualFold n k then v else Header m k)"
proof
  show "Header (SetHeader n v m) k = (if EqualFold n k then v else Header m k)" by (rule hs.get_put)
  have "named k = named n" if "EqualFold n k" using that by (auto simp: named_def EqualFold_def)
  then show "HeaderValues (SetHeader n v m) k = (if EqualFold n k then [v] else HeaderValues m k)"
    by (auto simp: HeaderValues_def SetHeader_def filter_set_in filter_set_in_other)
qed

section \<open>Serialising and parsing\<close>

text \<open>A message a parser can read back: no line break inside a line, no separator inside a token,
  no surrounding space in a value.\<close>

definition wf_header :: "header \<Rightarrow> bool" where
  "wf_header h \<longleftrightarrow> CHR '':'' \<notin> set (Name h) \<and> CR \<notin> set (Name h) \<and> CR \<notin> set (Value h) \<and> trimmed (Value h)"

definition wf_msg :: "Message \<Rightarrow> bool" where
  "wf_msg m \<longleftrightarrow>
     (if IsResponse m
      then StatusCode m < 2 ^ 63 \<and> CR \<notin> set (Reason m) \<and> Method m = [] \<and> RequestURI m = []
      else StatusCode m = 0 \<and> Reason m = [] \<and> Method m \<noteq> ''SIP/2.0''
        \<and> CHR '' '' \<notin> set (Method m) \<and> CR \<notin> set (Method m)
        \<and> CHR '' '' \<notin> set (RequestURI m) \<and> CR \<notin> set (RequestURI m))
     \<and> (\<forall>h \<in> set (headers m). wf_header h) \<and> int (length (Body m)) < 2 ^ 63"

definition cl_header :: "Message \<Rightarrow> header" where
  "cl_header m = \<lparr>Name = ''Content-Length'', Value = Itoa (int (length (Body m)))\<rparr>"

lemma CR_not_in_Itoa: "CR \<notin> set (Itoa i)"
  using Itoa_no_space [of CR i] by (auto simp: is_space_def)

lemma Itoa_not_Nil [simp]: "Itoa i \<noteq> []"
  by (simp add: Itoa_def)

lemma wf_cl_header: "wf_header (cl_header m)"
  by (simp add: wf_header_def cl_header_def CR_not_in_Itoa)

definition wire_headers :: "Message \<Rightarrow> header list" where
  "wire_headers m = filter (\<lambda>h. \<not> is_cl h) (headers m) @ [cl_header m]"

lemma Join_lines: "Join (x # map f ys) CRLF @ CRLF = x @ CRLF @ concat (map (\<lambda>y. f y @ CRLF) ys)"
proof (induction ys arbitrary: x)
  case (Cons y ys)
  from Cons.IH [of "f y"] show ?case by simp
qed simp

lemma msg_Bytes_lines:
  "msg_Bytes m = Join (start_line m # map header_line (wire_headers m)) CRLF @ CRLF @ CRLF @ Body m"
proof -
  have "Join (start_line m # map header_line (wire_headers m)) CRLF @ CRLF @ CRLF @ Body m
      = (Join (start_line m # map header_line (wire_headers m)) CRLF @ CRLF) @ CRLF @ Body m" by simp
  also have "\<dots> = msg_Bytes m"
    unfolding Join_lines by (simp add: msg_Bytes_def wire_headers_def cl_header_def header_line_def)
  finally show ?thesis ..
qed

lemma Index_skip:
  "c \<notin> set x \<Longrightarrow> Index (x @ r) (c # sep) = map_option (\<lambda>i. length x + i) (Index r (c # sep))"
  by (induction x) (auto simp: option.map_comp comp_def split: option.splits; cases "Index r (c # sep)"; simp)+

text \<open>The end of the head is found behind the last line, not before.\<close>

lemma Index_head:
  assumes "ls \<noteq> []" "\<forall>l \<in> set ls. l \<noteq> [] \<and> CR \<notin> set l"
  shows "Index (Join ls CRLF @ CRLF @ CRLF @ body) (CRLF @ CRLF) = Some (length (Join ls CRLF))"
  using assms
proof (induction ls rule: induct_list012)
  case (2 x)
  then show ?case by (simp add: CRLF_def Index_skip)
next
  case (3 x y zs)
  let ?r = "Join (y # zs) CRLF @ CRLF @ CRLF @ body"
  have x: "CR \<notin> set x" using 3 by simp
  obtain c ys where y: "y = c # ys" "c \<noteq> CR" using 3 by (cases y) auto
  have hd: "\<exists>s. ?r = c # s" by (cases zs) (simp_all add: y)
  have "Index (CRLF @ ?r) (CRLF @ CRLF) = map_option (\<lambda>i. 2 + i) (Index ?r (CRLF @ CRLF))"
    using hd y(2) by (auto simp: CRLF_def option.map_comp comp_def)
  also have "Index ?r (CRLF @ CRLF) = Some (length (Join (y # zs) CRLF))" using 3 by simp
  finally have "Index (CRLF @ ?r) (CRLF @ CRLF) = Some (2 + length (Join (y # zs) CRLF))" by simp
  then show ?case using Index_skip [OF x, of "CRLF @ ?r" "LF # CRLF"] by (simp add: CRLF_def)
qed simp

lemma parse_header_line:
  assumes "wf_header h" shows "parse_headers (header_line h # ls) = h # parse_headers ls"
proof -
  have "IndexByte (header_line h) CHR '':'' = Some (length (Name h))"
    using assms IndexByte_append [of "CHR '':''" "Name h" "CHR '' '' # Value h"]
    by (simp add: wf_header_def header_line_def)
  moreover have "TrimSpace (CHR '' '' # Value h) = Value h"
    using assms TrimSpace_space [of "CHR '' ''"] TrimSpace_trimmed by (simp add: wf_header_def is_space_def)
  ultimately show ?thesis by (simp add: header_line_def)
qed

lemma parse_header_lines: "\<forall>h \<in> set hs. wf_header h \<Longrightarrow> parse_headers (map header_line hs) = hs"
  by (induction hs) (simp_all add: parse_header_line del: parse_headers.simps(2))

lemma parse_start_line:
  assumes "wf_msg m"
  shows "parseStartLine (start_line m) empty_msg = Inr (m\<lparr>headers := [], Body := []\<rparr>)"
proof (cases "IsResponse m")
  case True
  then have code: "Atoi (Itoa (StatusCode m)) = Some (StatusCode m)"
    using assms by (intro Atoi_Itoa) (simp_all add: wf_msg_def IsResponse_def)
  have "CHR '' '' \<notin> set (Itoa (StatusCode m))" using Itoa_no_space by (fastforce simp: is_space_def)
  then have "IndexByte (Itoa (StatusCode m) @ CHR '' '' # Reason m) CHR '' '' = Some (length (Itoa (StatusCode m)))"
    by (rule IndexByte_append)
  then show ?thesis using True assms code
    by (simp add: start_line_def parseStartLine_def HasPrefix_def empty_msg_def wf_msg_def)
next
  case False
  then have wf: "StatusCode m = 0" "Reason m = []" "Method m \<noteq> ''SIP/2.0''"
      "CHR '' '' \<notin> set (Method m)" "CHR '' '' \<notin> set (RequestURI m)"
    using assms by (simp_all add: wf_msg_def)
  let ?line = "Method m @ '' '' @ RequestURI m @ '' SIP/2.0''"
  have idx: "Index ?line '' '' = Some (length (Method m))"
    using Index_append [OF wf(4), of "[]"] by simp
  have "\<not> prefix ''SIP/2.0 '' ?line"
  proof
    assume p: "prefix ''SIP/2.0 '' ?line"
    then obtain r where r: "?line = ''SIP/2.0 '' @ r" by (auto simp: prefix_def)
    have "Index (''SIP/2.0'' @ '' '' @ r) '' '' = Some (length ''SIP/2.0'')"
      by (rule Index_append [of "CHR '' ''" "''SIP/2.0''" "[]"]) simp
    then have "length (Method m) = 7" using idx r by simp
    moreover have "take 7 ?line = ''SIP/2.0''" by (simp only: r) simp
    ultimately show False using wf(3) by simp
  qed
  moreover have "SplitN ?line '' '' 3 = [Method m, RequestURI m, ''SIP/2.0'']"
    using idx Index_append [OF wf(5), of "[]" "''SIP/2.0''"] by (simp add: numeral_3_eq_3)
  ultimately show ?thesis using False wf
    by (simp add: start_line_def parseStartLine_def HasPrefix_def empty_msg_def)
qed

lemma lower_cl: "ToLower ''Content-Length'' = ''content-length''"
  by code_simp

lemma named_cl: "named ''Content-Length'' h \<longleftrightarrow> is_cl h"
  by (simp add: named_def is_cl_def lower_cl)

lemma header_in_append_cl:
  "\<forall>h \<in> set hs. \<not> is_cl h \<Longrightarrow> header_in (hs @ [cl_header m]) ''Content-Length'' = Value (cl_header m)"
  by (induction hs) (simp_all add: named_cl, simp add: is_cl_def cl_header_def lower_cl)

lemma parse_Bytes:
  assumes "wf_msg m"
  shows "msg_Parse (msg_Bytes m) = Inr (m\<lparr>headers := wire_headers m\<rparr>)"
proof -
  let ?ls = "start_line m # map header_line (wire_headers m)"
  have hs: "\<forall>h \<in> set (wire_headers m). wf_header h"
    using assms wf_cl_header by (auto simp: wf_msg_def wire_headers_def)
  have ls: "\<forall>l \<in> set ?ls. l \<noteq> [] \<and> CR \<notin> set l"
    using assms hs CR_not_in_Itoa
    by (auto simp: start_line_def wf_msg_def header_line_def wf_header_def split: if_splits)
  have idx: "Index (msg_Bytes m) (CRLF @ CRLF) = Some (length (Join ?ls CRLF))"
    unfolding msg_Bytes_lines by (rule Index_head) (simp_all add: ls del: set_simps Join.simps)
  have split: "Split (Join ?ls CRLF) CRLF = ?ls"
    unfolding CRLF_def by (rule Split_Join) (use ls in auto)
  have body: "drop (length (Join ?ls CRLF) + 4) (msg_Bytes m) = Body m"
    unfolding msg_Bytes_lines by (simp add: CRLF_def del: Join.simps)
  have "length (msg_Bytes m) \<noteq> 0" unfolding msg_Bytes_lines by (simp add: CRLF_def del: Join.simps)
  then have ne: "msg_Bytes m \<noteq> []" by auto
  have cl: "Header (m\<lparr>Body := [], headers := wire_headers m\<rparr>) ''Content-Length'' = Itoa (int (length (Body m)))"
    using header_in_append_cl [of "filter (\<lambda>h. \<not> is_cl h) (headers m)" m]
    by (simp add: Header_def wire_headers_def) (simp add: cl_header_def)
  have "Atoi (Itoa (int (length (Body m)))) = Some (int (length (Body m)))"
    using assms by (intro Atoi_Itoa) (simp_all add: wf_msg_def)
  then have "extractBody (Body m) (m\<lparr>Body := [], headers := wire_headers m\<rparr>) = m\<lparr>headers := wire_headers m\<rparr>"
    using cl by (cases m) (auto simp: extractBody_def)
  moreover have "take (length (Join ?ls CRLF)) (msg_Bytes m) = Join ?ls CRLF"
    unfolding msg_Bytes_lines by (simp del: Join.simps)
  ultimately show ?thesis
    using ne idx split body ls parse_start_line [OF assms] parse_header_lines [OF hs]
    by (simp add: msg_Parse_def)
qed

text \<open>
  C24: what is sent is what is parsed.  For every well-formed request or response, whatever its headers
  and body (line breaks and blank lines in the body included), parsing the serialised message
  gives back the start line, the headers in order with one computed Content-Length last in place
  of any the caller set, and the body.
\<close>

theorem sip_message_roundtrip:
  assumes "wf_msg m"
  shows "msg_Parse (msg_Bytes m) = Inr (m\<lparr>headers := filter (\<lambda>h. ToLower (Name h) \<noteq> ''content-length'') (headers m)
     @ [\<lparr>Name = ''Content-Length'', Value = Itoa (int (length (Body m)))\<rparr>]\<rparr>)"
  using parse_Bytes [OF assms] by (simp add: wire_headers_def cl_header_def is_cl_def)

definition demo_msg :: Message where
  "demo_msg = \<lparr>Method = ''INVITE'', RequestURI = ''sip:bob@h'', StatusCode = 0, Reason = [],
     headers = [\<lparr>Name = ''CONTENT-length'', Value = ''9''\<rparr>, \<lparr>Name = ''To'', Value = ''<sip:bob@h>''\<rparr>],
     Body = CRLF @ ''v'' @ CRLF @ CRLF\<rparr>"

theorem sip_message_roundtrip_witness:
  "msg_Parse (msg_Bytes demo_msg) = Inr (demo_msg\<lparr>headers := [\<lparr>Name = ''To'', Value = ''<sip:bob@h>''\<rparr>,
     \<lparr>Name = ''Content-Length'', Value = ''7''\<rparr>]\<rparr>)"
proof -
  have "wf_msg demo_msg"
    by (simp add: wf_msg_def demo_msg_def IsResponse_def wf_header_def trimmed_def is_space_def CRLF_def)
  moreover have lowers: "ToLower ''CONTENT-length'' = ''content-length''" "ToLower ''To'' = ''to''" by code_simp+
  moreover have seven: "Itoa 7 = ''7''" by code_simp
  moreover note sip_message_roundtrip [OF calculation(1)]
  ultimately show ?thesis
    by (simp add: demo_msg_def CRLF_def)
qed

end
