(* ===== verification/DigestAuth.thy ===== *)
theory DigestAuth
  imports SipMessage Crypto
begin

text \<open>
  Digest authentication: the client side of \<open>internal/sip/auth.go\<close> and the server side of
  \<open>server_auth.go\<close>.  Go's \<open>net.ParseIP\<close> and \<open>net.ParseCIDR\<close> are arguments of the matcher
  builder; a parsed range is its membership test.
\<close>

definition hex_digit :: "nat \<Rightarrow> char" where
  "hex_digit n = (if n < 10 then char_of (48 + n) else char_of (87 + n))"

definition hex_bytes :: "bytes \<Rightarrow> string" where
  "hex_bytes bs = concat (map (\<lambda>b. [hex_digit (unat b div 16), hex_digit (unat b mod 16)]) bs)"

definition md5Hex :: "string \<Rightarrow> string" where
  "md5Hex s = hex_bytes (md5 (bytes_of s))"

section \<open>Client side\<close>

record Challenge =
  Realm :: string
  Nonce :: string
  Algorithm :: string
  Qop :: string
  Opaque :: string

record Credentials =
  cr_Username :: string
  cr_Password :: string

datatype challenge_error = EmptyHeader | UnsupportedScheme

definition quote :: char where "quote = CHR 0x22"

definition challenge_param :: "string \<Rightarrow> Challenge \<Rightarrow> Challenge" where
  "challenge_param part ch =
     (let part = TrimSpace part in
      case IndexByte part CHR ''='' of
        None \<Rightarrow> ch
      | Some eqIdx \<Rightarrow>
          let key = TrimSpace (take eqIdx part);
              val = TrimSpace (drop (eqIdx + 1) part);
              val = Trim val [quote];
              k = ToLower key
          in if k = ''realm'' then ch\<lparr>Realm := val\<rparr>
             else if k = ''nonce'' then ch\<lparr>Nonce := val\<rparr>
             else if k = ''algorithm'' then ch\<lparr>Algorithm := val\<rparr>
             else if k = ''qop'' then ch\<lparr>Qop := val\<rparr>
             else if k = ''opaque'' then ch\<lparr>Opaque := val\<rparr>
             else ch)"

definition ParseChallenge :: "string \<Rightarrow> challenge_error + Challenge" where
  "ParseChallenge hdr =
     (if hdr = [] then Inl EmptyHeader
      else if \<not> HasPrefix hdr ''Digest '' then Inl UnsupportedScheme
      else Inr (fold challenge_param (Split (drop 7 hdr) '','')
             \<lparr>Realm = [], Nonce = [], Algorithm = [], Qop = [], Opaque = []\<rparr>))"

definition DigestResponse :: "Challenge \<Rightarrow> Credentials \<Rightarrow> string \<Rightarrow> string \<Rightarrow> string" where
  "DigestResponse ch creds meth digestURI =
     (let ha1 = md5Hex (cr_Username creds @ '':'' @ Realm ch @ '':'' @ cr_Password creds);
          ha2 = md5Hex (meth @ '':'' @ digestURI)
      in md5Hex (ha1 @ '':'' @ Nonce ch @ '':'' @ ha2))"

text \<open>\<open>key="value"\<close>.\<close>

definition quoted :: "string \<Rightarrow> string \<Rightarrow> string" where
  "quoted key v = key @ ''='' @ [quote] @ v @ [quote]"

definition BuildAuthorization :: "Challenge \<Rightarrow> Credentials \<Rightarrow> string \<Rightarrow> string \<Rightarrow> string" where
  "BuildAuthorization ch creds meth digestURI =
     (let resp = DigestResponse ch creds meth digestURI in
      ''Digest '' @ quoted ''username'' (cr_Username creds) @ '','' @ quoted ''realm'' (Realm ch)
        @ '','' @ quoted ''nonce'' (Nonce ch) @ '','' @ quoted ''uri'' digestURI
        @ '','' @ quoted ''response'' resp @ '',algorithm=MD5''
        @ (if Opaque ch \<noteq> [] then '','' @ quoted ''opaque'' (Opaque ch) else []))"

section \<open>Server side\<close>

record PeerAuthConfig =
  pa_Username :: string
  pa_Password :: string

record PeerConfig =
  pc_Name :: string
  pc_Host :: string
  pc_Hosts :: "string list"
  pc_Port :: int
  pc_Auth :: "PeerAuthConfig option"
  pc_RTPAddress :: string
  pc_Codecs :: "int list"

record 'ip peerMatcher =
  pm_name :: string
  pm_ips :: "'ip list"
  pm_cidrs :: "('ip \<Rightarrow> bool) list"
  pm_auth :: "PeerAuthConfig option"

record authResult =
  ar_Peer :: string
  ar_Authenticated :: bool
  ar_Challenge :: bool
  ar_Nonce :: string

definition digestAuthRealm :: string where "digestAuthRealm = ''xphone''"

fun add_host :: "(string \<Rightarrow> 'ip option) \<Rightarrow> (string \<Rightarrow> ('ip \<Rightarrow> bool) option) \<Rightarrow> string \<Rightarrow> 'ip peerMatcher \<Rightarrow> 'ip peerMatcher" where
  "add_host parseIP parseCIDR h m =
     (if CHR ''/'' \<in> set h
      then (case parseCIDR h of None \<Rightarrow> m | Some cidr \<Rightarrow> m\<lparr>pm_cidrs := pm_cidrs m @ [cidr]\<rparr>)
      else (case parseIP h of None \<Rightarrow> m | Some ip \<Rightarrow> m\<lparr>pm_ips := pm_ips m @ [ip]\<rparr>))"

definition buildPeerMatcher :: "(string \<Rightarrow> 'ip option) \<Rightarrow> (string \<Rightarrow> ('ip \<Rightarrow> bool) option) \<Rightarrow> PeerConfig \<Rightarrow> 'ip peerMatcher" where
  "buildPeerMatcher parseIP parseCIDR p =
     (let m = \<lparr>pm_name = pc_Name p, pm_ips = [], pm_cidrs = [], pm_auth = pc_Auth p\<rparr>;
          m = (if pc_Host p \<noteq> []
               then (case parseIP (pc_Host p) of None \<Rightarrow> m | Some ip \<Rightarrow> m\<lparr>pm_ips := pm_ips m @ [ip]\<rparr>)
               else m)
      in fold (add_host parseIP parseCIDR) (pc_Hosts p) m)"

definition buildPeerMatchers :: "(string \<Rightarrow> 'ip option) \<Rightarrow> (string \<Rightarrow> ('ip \<Rightarrow> bool) option) \<Rightarrow> PeerConfig list \<Rightarrow> 'ip peerMatcher list" where
  "buildPeerMatchers parseIP parseCIDR peers = map (buildPeerMatcher parseIP parseCIDR) peers"

definition matchPeerIPFast :: "'ip peerMatcher \<Rightarrow> 'ip \<Rightarrow> bool" where
  "matchPeerIPFast m ip \<longleftrightarrow> ip \<in> set (pm_ips m) \<or> list_ex (\<lambda>cidr. cidr ip) (pm_cidrs m)"

definition matchPeerIP :: "(string \<Rightarrow> 'ip option) \<Rightarrow> (string \<Rightarrow> ('ip \<Rightarrow> bool) option) \<Rightarrow> PeerConfig \<Rightarrow> string \<Rightarrow> bool" where
  "matchPeerIP parseIP parseCIDR p sourceIP =
     (case parseIP sourceIP of
        None \<Rightarrow> False
      | Some ip \<Rightarrow> matchPeerIPFast (buildPeerMatchers parseIP parseCIDR [p] ! 0) ip)"

definition digest_param :: "string \<Rightarrow> (string \<rightharpoonup> string) \<Rightarrow> (string \<rightharpoonup> string)" where
  "digest_param part params =
     (let part = TrimSpace part in
      case IndexByte part CHR ''='' of
        None \<Rightarrow> params
      | Some eq \<Rightarrow>
          let key = TrimSpace (take eq part);
              val = TrimSpace (drop (eq + 1) part);
              val = (if length val \<ge> 2 \<and> val ! 0 = quote \<and> val ! (length val - 1) = quote
                     then subslice 1 (length val - 1) val else val)
          in params(ToLower key \<mapsto> val))"

definition parseDigestParams :: "string \<Rightarrow> (string \<rightharpoonup> string)" where
  "parseDigestParams hdr =
     (let hdr = TrimSpace hdr;
          hdr = (if HasPrefix (ToLower hdr) ''digest '' then drop 7 hdr else hdr)
      in fold digest_param (Split hdr '','') Map.empty)"

text \<open>Reading a Go map: the zero value for a missing key.\<close>

definition map_get :: "(string \<rightharpoonup> string) \<Rightarrow> string \<Rightarrow> string" where
  "map_get params k = (case params k of None \<Rightarrow> [] | Some v \<Rightarrow> v)"

definition verifyDigestAuth :: "PeerAuthConfig option \<Rightarrow> string \<Rightarrow> bool" where
  "verifyDigestAuth auth authHeader =
     (case auth of
        None \<Rightarrow> False
      | Some auth \<Rightarrow>
          let params = parseDigestParams authHeader;
              username = map_get params ''username'';
              nonce = map_get params ''nonce'';
              uri = map_get params ''uri'';
              response = map_get params ''response'';
              realm = map_get params ''realm''
          in if username = [] \<or> nonce = [] \<or> response = [] then False
             else if username \<noteq> pa_Username auth then False
             else if realm \<noteq> digestAuthRealm then False
             else
               let ha1 = md5Hex (username @ '':'' @ realm @ '':'' @ pa_Password auth);
                   ha2 = md5Hex (''INVITE:'' @ uri);
                   expected = md5Hex (ha1 @ '':'' @ nonce @ '':'' @ ha2)
               in response = expected)"

definition no_auth :: authResult where
  "no_auth = \<lparr>ar_Peer = [], ar_Authenticated = False, ar_Challenge = False, ar_Nonce = []\<rparr>"

text \<open>\<open>ip\<close> is the parsed source address, \<open>nonce\<close> the value \<open>generateNonce\<close> returns.\<close>

definition authenticatePeer :: "'ip peerMatcher list \<Rightarrow> 'ip option \<Rightarrow> string \<Rightarrow> string \<Rightarrow> authResult" where
  "authenticatePeer matchers ip authHeader nonce =
     (case (case ip of None \<Rightarrow> None | Some a \<Rightarrow> find (\<lambda>m. matchPeerIPFast m a) matchers) of
        Some m \<Rightarrow> no_auth\<lparr>ar_Peer := pm_name m, ar_Authenticated := True\<rparr>
      | None \<Rightarrow>
          if authHeader \<noteq> [] then
            (case find (\<lambda>m. pm_auth m \<noteq> None \<and> verifyDigestAuth (pm_auth m) authHeader) matchers of
               Some m \<Rightarrow> no_auth\<lparr>ar_Peer := pm_name m, ar_Authenticated := True\<rparr>
             | None \<Rightarrow> no_auth)
          else if \<exists>m \<in> set matchers. pm_auth m \<noteq> None then no_auth\<lparr>ar_Challenge := True, ar_Nonce := nonce\<rparr>
          else no_auth)"

definition buildWWWAuthenticate :: "string \<Rightarrow> string" where
  "buildWWWAuthenticate nonce =
     ''Digest '' @ quoted ''realm'' digestAuthRealm @ '', '' @ quoted ''nonce'' nonce @ '', algorithm=MD5''"

section \<open>Reading a parameter list back\<close>

text \<open>A value that can stand between the quotes of a parameter list.\<close>

definition plain :: "string \<Rightarrow> bool" where
  "plain v \<longleftrightarrow> CHR '','' \<notin> set v \<and> quote \<notin> set v"

definition key_ok :: "string \<Rightarrow> bool" where
  "key_ok k \<longleftrightarrow> k \<noteq> [] \<and> CHR ''='' \<notin> set k \<and> CHR '','' \<notin> set k \<and> trimmed k"

lemma quote_simps: "\<not> is_space quote" "quote \<noteq> CHR ''=''" "quote \<noteq> CHR '',''"
  by (simp_all add: quote_def is_space_def)

lemma trimmed_quoted: "key_ok k \<Longrightarrow> trimmed (quoted k v)"
  by (cases k) (auto simp: trimmed_def key_ok_def quoted_def quote_simps)

lemma quoted_index: "key_ok k \<Longrightarrow> IndexByte (quoted k v) CHR ''='' = Some (length k)"
  using IndexByte_append [of "CHR ''=''" k] by (simp add: quoted_def key_ok_def)

lemma quoted_trim: "quote \<notin> set v \<Longrightarrow> Trim (quote # v @ [quote]) [quote] = v"
proof -
  assume q: "quote \<notin> set v"
  have "dropWhile (\<lambda>c. c \<in> set [quote]) (v @ [quote]) = v @ [quote] \<or> v = []"
    using q by (cases v) auto
  moreover have "quote \<notin> set (rev v)" using q by simp
  then have "dropWhile (\<lambda>c. c \<in> set [quote]) (quote # rev v) = rev v"
    by (cases "rev v") auto
  ultimately show ?thesis by (auto simp: Trim_def TrimLeftIf_def TrimRightIf_def)
qed

lemma quoted_value_trimmed: "TrimSpace (quote # v @ [quote]) = quote # v @ [quote]"
  by (rule TrimSpace_trimmed) (simp add: trimmed_def quote_simps)

lemma digest_param_quoted:
  assumes "key_ok k" shows "digest_param (quoted k v) params = params(ToLower k \<mapsto> v)"
proof -
  have "TrimSpace k = k" using assms by (simp add: TrimSpace_trimmed key_ok_def)
  then show ?thesis
    using TrimSpace_trimmed [OF trimmed_quoted [OF assms]] quoted_index [OF assms] quoted_value_trimmed
    by (simp add: digest_param_def) (simp add: quoted_def subslice_def)
qed

lemma challenge_param_quoted:
  assumes "key_ok k" "quote \<notin> set v"
  shows "challenge_param (quoted k v) ch =
    (if ToLower k = ''realm'' then ch\<lparr>Realm := v\<rparr> else if ToLower k = ''nonce'' then ch\<lparr>Nonce := v\<rparr>
     else if ToLower k = ''algorithm'' then ch\<lparr>Algorithm := v\<rparr> else if ToLower k = ''qop'' then ch\<lparr>Qop := v\<rparr>
     else if ToLower k = ''opaque'' then ch\<lparr>Opaque := v\<rparr> else ch)"
proof -
  have "TrimSpace k = k" using assms by (simp add: TrimSpace_trimmed key_ok_def)
  moreover have "drop (length k + 1) (quoted k v) = quote # v @ [quote]" "take (length k) (quoted k v) = k"
    by (simp_all add: quoted_def)
  ultimately show ?thesis
    by (simp only: challenge_param_def Let_def TrimSpace_trimmed [OF trimmed_quoted [OF assms(1)]]
        quoted_index [OF assms(1)] option.case quoted_value_trimmed quoted_trim [OF assms(2)])
qed

lemma lower_keys:
  "ToLower ''username'' = ''username''" "ToLower ''realm'' = ''realm''" "ToLower ''nonce'' = ''nonce''"
  "ToLower ''uri'' = ''uri''" "ToLower ''response'' = ''response''" "ToLower ''opaque'' = ''opaque''"
  "ToLower ''algorithm'' = ''algorithm''"
  by code_simp+

lemma keys_ok:
  "key_ok ''username''" "key_ok ''realm''" "key_ok ''nonce''" "key_ok ''uri''" "key_ok ''response''" "key_ok ''opaque''"
  by (simp_all add: key_ok_def trimmed_def is_space_def)

lemma quoted_no_comma: "key_ok k \<Longrightarrow> CHR '','' \<notin> set v \<Longrightarrow> CHR '','' \<notin> set (quoted k v)"
  using quote_simps(3) by (auto simp: quoted_def key_ok_def)

lemma hex_digit_cases: "n < 16 \<Longrightarrow> hex_digit n \<in> set ''0123456789abcdef''"
proof -
  have "list_all (\<lambda>n. hex_digit n \<in> set ''0123456789abcdef'') [0..<16]" by code_simp
  then show "n < 16 \<Longrightarrow> ?thesis" by (rule list_all_uptD) simp_all
qed

lemma hex_bytes_chars: "set (hex_bytes bs) \<subseteq> set ''0123456789abcdef''"
proof -
  define H where "H = set ''0123456789abcdef''"
  have "hex_digit (unat b div 16) \<in> H \<and> hex_digit (unat b mod 16) \<in> H" for b :: byte
  proof -
    have "unat b < 256" by (rule unat_byte_less)
    then have "unat b div 16 < 16" "unat b mod 16 < 16" by simp_all
    then show ?thesis unfolding H_def using hex_digit_cases by blast
  qed
  then have "set (hex_bytes bs) \<subseteq> H" by (auto simp: hex_bytes_def)
  then show ?thesis by (simp only: H_def)
qed

lemma md5Hex_plain: "plain (md5Hex s)"
  using hex_bytes_chars [of "md5 (bytes_of s)"] by (auto simp: plain_def md5Hex_def quote_def)

text \<open>The parts of the header the client builds.\<close>

definition auth_parts :: "Challenge \<Rightarrow> Credentials \<Rightarrow> string \<Rightarrow> string \<Rightarrow> string list" where
  "auth_parts ch creds meth uri =
     [quoted ''username'' (cr_Username creds), quoted ''realm'' (Realm ch), quoted ''nonce'' (Nonce ch),
      quoted ''uri'' uri, quoted ''response'' (DigestResponse ch creds meth uri), ''algorithm=MD5'']
     @ (if Opaque ch \<noteq> [] then [quoted ''opaque'' (Opaque ch)] else [])"

lemma BuildAuthorization_parts: "BuildAuthorization ch creds meth uri = ''Digest '' @ Join (auth_parts ch creds meth uri) '',''"
  by (simp add: BuildAuthorization_def auth_parts_def Let_def)

lemma lower_digest: "HasPrefix (ToLower (''Digest '' @ r)) ''digest ''"
proof -
  have "ToLower ''Digest '' = ''digest ''" by code_simp
  then show ?thesis by (simp add: HasPrefix_def ToLower_def)
qed

lemma TrimSpace_header:
  assumes "r \<noteq> []" "\<not> is_space (last r)" shows "TrimSpace (''Digest '' @ r) = ''Digest '' @ r"
  using assms by (intro TrimSpace_trimmed) (simp add: trimmed_def is_space_def)

lemma digest_param_algorithm: "digest_param ''algorithm=MD5'' params = params(''algorithm'' \<mapsto> ''MD5'')"
  by (simp add: digest_param_def TrimSpace_trimmed trimmed_def is_space_def lower_keys Let_def quote_def)

lemma auth_header_params:
  fixes creds :: Credentials and ch :: Challenge and meth uri :: string
  assumes "CHR '','' \<notin> set (cr_Username creds)" "CHR '','' \<notin> set (Realm ch)" "CHR '','' \<notin> set (Nonce ch)"
    "CHR '','' \<notin> set uri" "CHR '','' \<notin> set (Opaque ch)"
  defines "params \<equiv> parseDigestParams (BuildAuthorization ch creds meth uri)"
  shows "map_get params ''username'' = cr_Username creds" "map_get params ''realm'' = Realm ch"
    "map_get params ''nonce'' = Nonce ch" "map_get params ''uri'' = uri"
    "map_get params ''response'' = DigestResponse ch creds meth uri"
proof -
  let ?ps = "auth_parts ch creds meth uri"
  have "CHR '','' \<notin> set (DigestResponse ch creds meth uri)"
    using md5Hex_plain by (simp add: DigestResponse_def plain_def Let_def)
  then have "\<forall>p \<in> set ?ps. CHR '','' \<notin> set p"
    using assms keys_ok by (auto simp: auth_parts_def quoted_no_comma)
  then have split: "Split (Join ?ps '','') '','' = ?ps" by (intro Split_Join) (simp_all add: auth_parts_def)
  have "TrimSpace (BuildAuthorization ch creds meth uri) = BuildAuthorization ch creds meth uri"
    unfolding BuildAuthorization_parts
    by (rule TrimSpace_header) (simp_all add: auth_parts_def quoted_def quote_def is_space_def)
  then have "params = fold digest_param ?ps Map.empty"
    using lower_digest [of "Join ?ps '',''"] split
    by (simp only: params_def parseDigestParams_def Let_def BuildAuthorization_parts) simp
  also have "\<dots> = (\<lambda>m. if Opaque ch \<noteq> [] then m(''opaque'' \<mapsto> Opaque ch) else m) (Map.empty(''username'' \<mapsto> cr_Username creds,
      ''realm'' \<mapsto> Realm ch, ''nonce'' \<mapsto> Nonce ch, ''uri'' \<mapsto> uri,
      ''response'' \<mapsto> DigestResponse ch creds meth uri, ''algorithm'' \<mapsto> ''MD5''))"
    by (simp add: auth_parts_def digest_param_quoted keys_ok lower_keys digest_param_algorithm)
  finally show "map_get params ''username'' = cr_Username creds" "map_get params ''realm'' = Realm ch"
    "map_get params ''nonce'' = Nonce ch" "map_get params ''uri'' = uri"
    "map_get params ''response'' = DigestResponse ch creds meth uri"
    by (auto simp: map_get_def)
qed

lemma challenge_read:
  assumes "plain nonce"
  shows "ParseChallenge (buildWWWAuthenticate nonce) =
    Inr \<lparr>Realm = digestAuthRealm, Nonce = nonce, Algorithm = ''MD5'', Qop = [], Opaque = []\<rparr>"
proof -
  let ?ps = "[quoted ''realm'' digestAuthRealm, CHR '' '' # quoted ''nonce'' nonce, '' algorithm=MD5'']"
  have "\<forall>p \<in> set ?ps. CHR '','' \<notin> set p"
    using assms quoted_no_comma [OF keys_ok(3), of nonce] quoted_no_comma [OF keys_ok(2), of digestAuthRealm]
    by (simp add: plain_def digestAuthRealm_def)
  then have split: "Split (Join ?ps '','') '','' = ?ps" by (intro Split_Join) simp_all
  have sp: "challenge_param (CHR '' '' # p) = challenge_param p" for p
    using TrimSpace_space [of "CHR '' ''" p] by (simp add: challenge_param_def is_space_def fun_eq_iff)
  have alg: "challenge_param ''algorithm=MD5'' ch = ch\<lparr>Algorithm := ''MD5''\<rparr>" for ch
    by (simp add: challenge_param_def TrimSpace_trimmed trimmed_def is_space_def lower_keys
        Trim_def TrimLeftIf_def TrimRightIf_def quote_def)
  have r: "challenge_param (quoted ''realm'' digestAuthRealm) ch = ch\<lparr>Realm := digestAuthRealm\<rparr>" for ch
    by (subst challenge_param_quoted) (simp_all add: keys_ok lower_keys digestAuthRealm_def quote_def)
  have n: "challenge_param (quoted ''nonce'' nonce) ch = ch\<lparr>Nonce := nonce\<rparr>" for ch
    using assms by (subst challenge_param_quoted) (simp_all add: keys_ok lower_keys plain_def)
  have "buildWWWAuthenticate nonce = ''Digest '' @ Join ?ps '',''" by (simp add: buildWWWAuthenticate_def)
  moreover have "fold challenge_param ?ps \<lparr>Realm = [], Nonce = [], Algorithm = [], Qop = [], Opaque = []\<rparr>
      = \<lparr>Realm = digestAuthRealm, Nonce = nonce, Algorithm = ''MD5'', Qop = [], Opaque = []\<rparr>"
    by (simp add: sp r n alg)
  ultimately show ?thesis using split
    by (simp only: ParseChallenge_def) (simp add: HasPrefix_def)
qed

section \<open>Properties\<close>

lemma verify_built:
  assumes "username \<noteq> []" "CHR '','' \<notin> set username" "nonce \<noteq> []" "CHR '','' \<notin> set nonce" "CHR '','' \<notin> set uri"
    and "CHR '','' \<notin> set (Opaque ch)" "Realm ch = digestAuthRealm" "Nonce ch = nonce"
  shows "verifyDigestAuth (Some \<lparr>pa_Username = username, pa_Password = password\<rparr>)
      (BuildAuthorization ch \<lparr>cr_Username = username, cr_Password = pw\<rparr> ''INVITE'' uri)
    \<longleftrightarrow> DigestResponse ch \<lparr>cr_Username = username, cr_Password = pw\<rparr> ''INVITE'' uri
       = DigestResponse ch \<lparr>cr_Username = username, cr_Password = password\<rparr> ''INVITE'' uri"
proof -
  have "hex_bytes (md5 x) \<noteq> []" for x
  proof -
    have "length (md5 x) = 16" by simp
    then show ?thesis by (cases "md5 x") (auto simp: hex_bytes_def)
  qed
  then have ne: "md5Hex s \<noteq> []" for s by (simp add: md5Hex_def)
  have c: "CHR '','' \<notin> set (Realm ch)" by (simp add: assms(7) digestAuthRealm_def)
  note ps = auth_header_params [of "\<lparr>cr_Username = username, cr_Password = pw\<rparr>" ch uri "''INVITE''",
      simplified, OF assms(2) c assms(4) [folded assms(8)] assms(5,6)]
  show ?thesis using assms ne by (simp add: verifyDigestAuth_def ps DigestResponse_def Let_def)
qed

text \<open>
  C28: a client that knows the password logs in.  For the challenge the server sends with any nonce,
  the client's challenge parser, response computation and header serialisation produce an
  Authorization header the server's parser and verifier accept, for every user name and request
  URI without a comma.
\<close>

theorem digest_login_accepted:
  assumes "username \<noteq> []" "CHR '','' \<notin> set username" "nonce \<noteq> []" "plain nonce" "CHR '','' \<notin> set uri"
  shows "\<exists>ch. ParseChallenge (buildWWWAuthenticate nonce) = Inr ch \<and>
     verifyDigestAuth (Some \<lparr>pa_Username = username, pa_Password = password\<rparr>)
       (BuildAuthorization ch \<lparr>cr_Username = username, cr_Password = password\<rparr> ''INVITE'' uri)"
  using challenge_read [OF assms(4)] assms verify_built [where password = password and pw = password]
  by (auto simp: plain_def)

theorem digest_login_accepted_witness:
  "\<exists>ch. ParseChallenge (buildWWWAuthenticate ''0a1b'') = Inr ch \<and>
     verifyDigestAuth (Some \<lparr>pa_Username = ''alice'', pa_Password = ''s, e=cret''\<rparr>)
       (BuildAuthorization ch \<lparr>cr_Username = ''alice'', cr_Password = ''s, e=cret''\<rparr> ''INVITE'' ''sip:x@h'')"
  by (rule digest_login_accepted) (simp_all add: plain_def quote_def)

lemma find_some_iff: "(\<exists>m. find P ms = Some m) \<longleftrightarrow> (\<exists>m \<in> set ms. P m)"
  by (induction ms) auto

lemma find_someD: "find P ms = Some m \<Longrightarrow> m \<in> set ms \<and> P m"
  by (induction ms) (auto split: if_splits)

lemma add_hosts_match:
  "matchPeerIPFast (fold (add_host pIP pCIDR) hs m) a \<longleftrightarrow> matchPeerIPFast m a
     \<or> (\<exists>h \<in> set hs. if CHR ''/'' \<in> set h then \<exists>c. pCIDR h = Some c \<and> c a else pIP h = Some a)"
  by (induction hs arbitrary: m) (auto simp: matchPeerIPFast_def split: option.splits)

lemma add_hosts_keep:
  "pm_name (fold (add_host pIP pCIDR) hs m) = pm_name m" "pm_auth (fold (add_host pIP pCIDR) hs m) = pm_auth m"
  by (induction hs arbitrary: m) (auto split: option.splits)

definition has_address :: "(string \<Rightarrow> 'ip option) \<Rightarrow> (string \<Rightarrow> ('ip \<Rightarrow> bool) option) \<Rightarrow> PeerConfig \<Rightarrow> 'ip \<Rightarrow> bool" where
  "has_address pIP pCIDR p a \<longleftrightarrow> (pc_Host p \<noteq> [] \<and> pIP (pc_Host p) = Some a)
     \<or> (\<exists>h \<in> set (pc_Hosts p). if CHR ''/'' \<in> set h then \<exists>c. pCIDR h = Some c \<and> c a else pIP h = Some a)"

lemma buildPeerMatcher_spec:
  fixes pIP :: "string \<Rightarrow> 'ip option" and pCIDR :: "string \<Rightarrow> ('ip \<Rightarrow> bool) option"
  shows "matchPeerIPFast (buildPeerMatcher pIP pCIDR p) a = has_address pIP pCIDR p a"
  "pm_name (buildPeerMatcher pIP pCIDR p) = pc_Name p" "pm_auth (buildPeerMatcher pIP pCIDR p) = pc_Auth p"
proof -
  define m :: "'ip peerMatcher" where "m = \<lparr>pm_name = pc_Name p, pm_ips = [], pm_cidrs = [], pm_auth = pc_Auth p\<rparr>"
  define m' where "m' = (if pc_Host p \<noteq> []
      then (case pIP (pc_Host p) of None \<Rightarrow> m | Some ip \<Rightarrow> m\<lparr>pm_ips := pm_ips m @ [ip]\<rparr>) else m)"
  have b: "buildPeerMatcher pIP pCIDR p = fold (add_host pIP pCIDR) (pc_Hosts p) m'"
    by (simp only: buildPeerMatcher_def Let_def m_def m'_def)
  have "matchPeerIPFast m' a \<longleftrightarrow> pc_Host p \<noteq> [] \<and> pIP (pc_Host p) = Some a"
    by (auto simp: m'_def m_def matchPeerIPFast_def split: option.splits)
  then show "matchPeerIPFast (buildPeerMatcher pIP pCIDR p) a = has_address pIP pCIDR p a"
    by (simp only: b add_hosts_match has_address_def)
  show "pm_name (buildPeerMatcher pIP pCIDR p) = pc_Name p" "pm_auth (buildPeerMatcher pIP pCIDR p) = pc_Auth p"
    by (simp_all add: b add_hosts_keep m'_def m_def split: option.splits)
qed

text \<open>\<open>matchPeerIP\<close> accepts exactly the addresses that the configuration of the peer lists or covers.\<close>

theorem match_peer_ip_exact:
  "matchPeerIP pIP pCIDR p s \<longleftrightarrow> (\<exists>a. pIP s = Some a \<and> has_address pIP pCIDR p a)"
  by (simp add: matchPeerIP_def buildPeerMatchers_def buildPeerMatcher_spec split: option.split)

lemma verify_needs_auth: "verifyDigestAuth auth hdr \<Longrightarrow> auth \<noteq> None"
  by (cases auth) (simp_all add: verifyDigestAuth_def)

lemma authenticatePeer_iff:
  fixes ms :: "'ip peerMatcher list"
  shows "ar_Authenticated (authenticatePeer ms ip hdr nonce) \<longleftrightarrow>
     (\<exists>m \<in> set ms. (\<exists>a. ip = Some a \<and> matchPeerIPFast m a) \<or> hdr \<noteq> [] \<and> verifyDigestAuth (pm_auth m) hdr)"
    and "ar_Authenticated (authenticatePeer ms ip hdr nonce) \<Longrightarrow>
     \<exists>m \<in> set ms. ar_Peer (authenticatePeer ms ip hdr nonce) = pm_name m \<and>
       ((\<exists>a. ip = Some a \<and> matchPeerIPFast m a) \<or> hdr \<noteq> [] \<and> verifyDigestAuth (pm_auth m) hdr)"
    and "ar_Challenge (authenticatePeer ms ip hdr nonce) \<longleftrightarrow>
     \<not> ar_Authenticated (authenticatePeer ms ip hdr nonce) \<and> hdr = [] \<and> (\<exists>m \<in> set ms. pm_auth m \<noteq> None)"
proof -
  let ?byip = "case ip of None \<Rightarrow> None | Some a \<Rightarrow> find (\<lambda>m. matchPeerIPFast m a) ms"
  let ?byhdr = "find (\<lambda>m. pm_auth m \<noteq> None \<and> verifyDigestAuth (pm_auth m) hdr) ms"
  have ip: "(\<exists>m. ?byip = Some m) \<longleftrightarrow> (\<exists>m \<in> set ms. \<exists>a. ip = Some a \<and> matchPeerIPFast m a)"
    by (cases ip) (auto simp: find_some_iff)
  have ipD: "m \<in> set ms \<and> (\<exists>a. ip = Some a \<and> matchPeerIPFast m a)" if "?byip = Some m" for m
    using that by (cases ip) (auto dest: find_someD)
  have hdr: "(\<exists>m. ?byhdr = Some m) \<longleftrightarrow> (\<exists>m \<in> set ms. verifyDigestAuth (pm_auth m) hdr)"
  proof -
    have "(pm_auth m \<noteq> None \<and> verifyDigestAuth (pm_auth m) hdr) = verifyDigestAuth (pm_auth m) hdr" for m :: "'ip peerMatcher"
      using verify_needs_auth by blast
    then show ?thesis by (simp only: find_some_iff)
  qed
  show "ar_Authenticated (authenticatePeer ms ip hdr nonce) \<longleftrightarrow>
     (\<exists>m \<in> set ms. (\<exists>a. ip = Some a \<and> matchPeerIPFast m a) \<or> hdr \<noteq> [] \<and> verifyDigestAuth (pm_auth m) hdr)"
    using ip hdr by (cases ?byip; cases ?byhdr) (auto simp: authenticatePeer_def no_auth_def)
  show "\<exists>m \<in> set ms. ar_Peer (authenticatePeer ms ip hdr nonce) = pm_name m \<and>
       ((\<exists>a. ip = Some a \<and> matchPeerIPFast m a) \<or> hdr \<noteq> [] \<and> verifyDigestAuth (pm_auth m) hdr)"
    if "ar_Authenticated (authenticatePeer ms ip hdr nonce)"
  proof (cases ?byip)
    case (Some m)
    then show ?thesis using ipD [OF Some] by (auto simp: authenticatePeer_def no_auth_def)
  next
    case None
    with that obtain m where m: "?byhdr = Some m" "hdr \<noteq> []"
      by (cases ?byhdr) (auto simp: authenticatePeer_def no_auth_def split: if_splits)
    from find_someD [OF m(1)] show ?thesis using None m by (auto simp: authenticatePeer_def no_auth_def)
  qed
  show "ar_Challenge (authenticatePeer ms ip hdr nonce) \<longleftrightarrow>
     \<not> ar_Authenticated (authenticatePeer ms ip hdr nonce) \<and> hdr = [] \<and> (\<exists>m \<in> set ms. pm_auth m \<noteq> None)"
    by (cases ?byip; cases ?byhdr) (auto simp: authenticatePeer_def no_auth_def)
qed



text \<open>
  The server does not check that a nonce is one it issued.  Whatever nonce the header names, the
  response that fits it verifies, so an observed header stays valid for every later INVITE to the
  same URI.
\<close>

theorem digest_nonce_unchecked:
  assumes "username \<noteq> []" "CHR '','' \<notin> set username" "nonce \<noteq> []" "CHR '','' \<notin> set nonce" "CHR '','' \<notin> set uri"
  shows "verifyDigestAuth (Some \<lparr>pa_Username = username, pa_Password = password\<rparr>)
      (BuildAuthorization \<lparr>Realm = digestAuthRealm, Nonce = nonce, Algorithm = [], Qop = [], Opaque = []\<rparr>
        \<lparr>cr_Username = username, cr_Password = password\<rparr> ''INVITE'' uri)"
  using verify_built [where password = password and pw = password] assms by auto

theorem digest_nonce_unchecked_witness:
  "verifyDigestAuth (Some \<lparr>pa_Username = ''alice'', pa_Password = ''pw''\<rparr>)
      (BuildAuthorization \<lparr>Realm = digestAuthRealm, Nonce = ''chosen-by-caller'', Algorithm = [], Qop = [], Opaque = []\<rparr>
        \<lparr>cr_Username = ''alice'', cr_Password = ''pw''\<rparr> ''INVITE'' ''sip:x@h'')"
  by (rule digest_nonce_unchecked) simp_all

text \<open>A comma inside a quoted value ends the value: the rest of the realm is lost.\<close>

lemma challenge_comma_truncates:
  "ParseChallenge (''Digest '' @ quoted ''realm'' ''Acme, Inc'' @ '','' @ quoted ''nonce'' ''n'') =
     Inr \<lparr>Realm = ''Acme'', Nonce = ''n'', Algorithm = [], Qop = [], Opaque = []\<rparr>"
  by code_simp

end
