(* ===== verification/DialFailover.thy ===== *)
theory DialFailover
  imports DigestAuth
begin

text \<open>
  Outbound failover: the lazy candidate iterator of \<open>dial_failover.go\<close> and the loop of
  \<open>server.Dial\<close> in \<open>server.go\<close> that walks it.  DNS (\<open>lookupHostFn\<close>), \<open>net.ParseIP\<close> with
  \<open>To4\<close>, and the function \<open>dialOnceFn\<close> that sends one INVITE are arguments; what a call of
  \<open>dialOnceFn\<close> observed, its responses and the state of the dial context included, is a record.
\<close>

section \<open>Host and port strings\<close>

text \<open>\<open>net.SplitHostPort\<close> and \<open>net.JoinHostPort\<close>.\<close>

definition LastIndexByte :: "string \<Rightarrow> char \<Rightarrow> nat option" where
  "LastIndexByte s c = map_option (\<lambda>i. length s - 1 - i) (IndexByte (rev s) c)"

definition SplitHostPort :: "string \<Rightarrow> (string \<times> string) option" where
  "SplitHostPort hp =
     (case LastIndexByte hp CHR '':'' of
        None \<Rightarrow> None
      | Some i \<Rightarrow>
          if hd hp = CHR ''['' then
            (case IndexByte hp CHR '']'' of
               None \<Rightarrow> None
             | Some e \<Rightarrow>
                 if e + 1 = i \<and> CHR ''['' \<notin> set (drop 1 hp) \<and> CHR '']'' \<notin> set (drop (e + 1) hp)
                 then Some (take (e - 1) (drop 1 hp), drop (i + 1) hp) else None)
          else if CHR '':'' \<in> set (take i hp) \<or> CHR ''['' \<in> set hp \<or> CHR '']'' \<in> set hp then None
          else Some (take i hp, drop (i + 1) hp))"

definition JoinHostPort :: "string \<Rightarrow> string \<Rightarrow> string" where
  "JoinHostPort host port =
     (if CHR '':'' \<in> set host then ''['' @ host @ '']:'' @ port else host @ '':'' @ port)"

section \<open>The candidate iterator\<close>

record dialCandidate =
  uriHost :: string
  dest :: string

record hostPortEntry =
  hp_host :: string
  hp_port :: string

record dialCandidateIter =
  it_entries :: "hostPortEntry list"
  it_queue :: "dialCandidate list"
  seenPair :: "string set"

definition entry_of :: "string \<Rightarrow> string \<Rightarrow> hostPortEntry" where
  "entry_of defaultPort h =
     (case SplitHostPort h of
        Some (sh, sp) \<Rightarrow> \<lparr>hp_host = sh, hp_port = sp\<rparr>
      | None \<Rightarrow>
          if HasPrefix h ''['' \<and> h \<noteq> [] \<and> last h = CHR '']''
          then \<lparr>hp_host = butlast (tl h), hp_port = defaultPort\<rparr>
          else \<lparr>hp_host = h, hp_port = defaultPort\<rparr>)"

text \<open>The closure \<open>add\<close> of \<open>newDialCandidateIter\<close>, on the entries and the set \<open>seenRaw\<close>.\<close>

definition add_entry :: "string \<Rightarrow> string \<Rightarrow> hostPortEntry list \<times> string set \<Rightarrow> hostPortEntry list \<times> string set" where
  "add_entry defaultPort h st =
     (case st of (es, seenRaw) \<Rightarrow>
        if h = [] \<or> h \<in> seenRaw then (es, seenRaw)
        else (es @ [entry_of defaultPort h], insert h seenRaw))"

definition newDialCandidateIter :: "PeerConfig \<Rightarrow> dialCandidateIter" where
  "newDialCandidateIter p =
     (let defaultPort = Itoa (pc_Port p);
          st = add_entry defaultPort (pc_Host p) ([], {});
          st' = fold (\<lambda>h st. if CHR ''/'' \<in> set h then st else add_entry defaultPort h st) (pc_Hosts p) st
      in \<lparr>it_entries = fst st', it_queue = [], seenPair = {}\<rparr>)"

definition cand_key :: "dialCandidate \<Rightarrow> string" where
  "cand_key c = uriHost c @ ''|'' @ dest c"

definition iter_push :: "dialCandidate \<Rightarrow> dialCandidateIter \<Rightarrow> dialCandidateIter" where
  "iter_push c it =
     (if cand_key c \<in> seenPair it then it
      else it\<lparr>seenPair := insert (cand_key c) (seenPair it), it_queue := it_queue it @ [c]\<rparr>)"

text \<open>What \<open>next\<close> pushes for one configured entry.  \<open>ip4 a\<close> says whether \<open>a\<close> parses as an address
  and whether that address is IPv4.\<close>

definition resolve_entry :: "(string \<Rightarrow> bool option) \<Rightarrow> (string \<Rightarrow> string list option) \<Rightarrow> hostPortEntry \<Rightarrow> dialCandidate list" where
  "resolve_entry ip4 lookupHost e =
     (let u = JoinHostPort (hp_host e) (hp_port e); plain = [\<lparr>uriHost = u, dest = []\<rparr>] in
      if ip4 (hp_host e) \<noteq> None then plain
      else case lookupHost (hp_host e) of
             None \<Rightarrow> plain
           | Some addrs \<Rightarrow>
               (let v4 = filter (\<lambda>a. ip4 a = Some True) addrs in
                if v4 = [] then plain
                else map (\<lambda>a. \<lparr>uriHost = u, dest = JoinHostPort a (hp_port e)\<rparr>) v4))"

lemma iter_push_entries [simp]: "it_entries (fold iter_push cs it) = it_entries it"
  by (induction cs arbitrary: it) (simp_all add: iter_push_def)

function iter_next :: "(string \<Rightarrow> bool option) \<Rightarrow> (string \<Rightarrow> string list option) \<Rightarrow> dialCandidateIter \<Rightarrow> dialCandidate option \<times> dialCandidateIter" where
  "iter_next ip4 lookupHost it =
     (case it_queue it of
        c # q \<Rightarrow> (Some c, it\<lparr>it_queue := q\<rparr>)
      | [] \<Rightarrow>
          (case it_entries it of
             [] \<Rightarrow> (None, it)
           | e # es \<Rightarrow>
               iter_next ip4 lookupHost
                 (fold iter_push (resolve_entry ip4 lookupHost e) (it\<lparr>it_entries := es\<rparr>))))"
  by auto
termination by (relation "measure (\<lambda>(_, _, it). length (it_entries it))") auto

declare iter_next.simps [simp del]

definition hasMore :: "dialCandidateIter \<Rightarrow> bool" where
  "hasMore it = (it_queue it \<noteq> [] \<or> it_entries it \<noteq> [])"

section \<open>Dial\<close>

datatype dial_error =
    ErrNotListening
  | ErrPeerNotFound string
  | dialSetupError string
  | ErrDialogResponse "int option"
  | OtherDialError string

definition retryableStatusCode :: "int \<Rightarrow> bool" where
  "retryableStatusCode code = (code = 408 \<or> (500 \<le> code \<and> code < 600))"

fun retryableDialError :: "dial_error option \<Rightarrow> bool" where
  "retryableDialError None = False"
| "retryableDialError (Some (dialSetupError _)) = False"
| "retryableDialError (Some (ErrDialogResponse (Some code))) = retryableStatusCode code"
| "retryableDialError (Some _) = True"

definition sawSuccessResponse :: "(int \<times> string) list \<Rightarrow> bool" where
  "sawSuccessResponse responses = (\<exists>(code, reason) \<in> set responses. 200 \<le> code \<and> code < 300)"

record OutboundFailoverConfig =
  Disabled :: bool
  PerHopTimeout :: int
  MaxAttempts :: int

definition resolvePeerAddr :: "PeerConfig \<Rightarrow> string" where
  "resolvePeerAddr p =
     (let host = (if pc_Host p = [] then
                    (case filter (\<lambda>h. CHR ''/'' \<notin> set h) (pc_Hosts p) of h # _ \<Rightarrow> h | [] \<Rightarrow> [])
                  else pc_Host p)
      in if host = [] then [] else JoinHostPort host (Itoa (pc_Port p)))"

text \<open>The closures \<open>nextCandidate\<close> and \<open>moreCandidates\<close> with the variables they capture.\<close>

datatype cand_source = SingleShot bool | Walking bool dialCandidateIter

definition single_target :: "PeerConfig \<Rightarrow> dialCandidate" where
  "single_target p = \<lparr>uriHost = resolvePeerAddr p, dest = []\<rparr>"

definition newSource :: "OutboundFailoverConfig \<Rightarrow> PeerConfig \<Rightarrow> cand_source" where
  "newSource failover p =
     (if Disabled failover then SingleShot False else Walking True (newDialCandidateIter p))"

fun nextCandidate :: "(string \<Rightarrow> bool option) \<Rightarrow> (string \<Rightarrow> string list option) \<Rightarrow> PeerConfig \<Rightarrow> cand_source \<Rightarrow> dialCandidate option \<times> cand_source" where
  "nextCandidate ip4 lookupHost p (SingleShot used) =
     (if used then (None, SingleShot True) else (Some (single_target p), SingleShot True))"
| "nextCandidate ip4 lookupHost p (Walking first it) =
     (case iter_next ip4 lookupHost it of
        (None, it') \<Rightarrow> if first then (Some (single_target p), Walking False it') else (None, Walking False it')
      | (Some c, it') \<Rightarrow> (Some c, Walking False it'))"

fun moreCandidates :: "cand_source \<Rightarrow> bool" where
  "moreCandidates (SingleShot used) = False"
| "moreCandidates (Walking first it) = hasMore it"

text \<open>What one call of \<open>dialOnceFn\<close> leaves behind: the responses reported through the callback, the
  error (\<open>None\<close> for an established dialog) and whether \<open>dialCtx.Err()\<close> is set afterwards.\<close>

record hop =
  hop_responses :: "(int \<times> string) list"
  hop_err :: "dial_error option"
  hop_ctxErr :: bool

record attempt =
  at_cand :: dialCandidate
  at_guarded :: bool
  at_hop :: hop

datatype dial_result = Connected dialCandidate "(int \<times> string) list" | DialFailed "dial_error option"

section \<open>Iterators\<close>

text \<open>The values the first \<open>n\<close> calls of an iterator return, up to the call that reports the end.\<close>

fun pulls :: "('s \<Rightarrow> 'a option \<times> 's) \<Rightarrow> nat \<Rightarrow> 's \<Rightarrow> 'a list" where
  "pulls nxt 0 s = []"
| "pulls nxt (Suc n) s =
     (case nxt s of (None, s') \<Rightarrow> [] | (Some x, s') \<Rightarrow> x # pulls nxt n s')"

text \<open>An iterator over a list it need not have computed: \<open>rest s\<close> is what remains in state \<open>s\<close>.\<close>

locale lazy_list =
  fixes nxt :: "'s \<Rightarrow> 'a option \<times> 's" and rest :: "'s \<Rightarrow> 'a list"
  assumes next_end: "rest s = [] \<Longrightarrow> fst (nxt s) = None"
    and next_item: "rest s = x # xs \<Longrightarrow> fst (nxt s) = Some x \<and> rest (snd (nxt s)) = xs"
begin

lemma next_some: "nxt s = (Some x, s') \<Longrightarrow> rest s = x # rest s'"
  using next_end [of s] next_item [of s] by (cases "rest s") auto

lemma next_none: "nxt s = (None, s') \<Longrightarrow> rest s = []"
  using next_item [of s] by (cases "rest s") auto

lemma pulls_rest: "pulls nxt n s = take n (rest s)"
proof (induction n arbitrary: s)
  case (Suc n)
  show ?case
    using next_some [of s] next_none [of s] Suc.IH by (auto split: prod.splits option.splits)
qed simp

end

text \<open>The elements of a list whose key did not occur before.\<close>

fun firsts :: "('a \<Rightarrow> 'k) \<Rightarrow> 'k set \<Rightarrow> 'a list \<Rightarrow> 'a list" where
  "firsts f S [] = []"
| "firsts f S (x # xs) = (if f x \<in> S then firsts f S xs else x # firsts f (insert (f x) S) xs)"

lemma firsts_append: "firsts f S (xs @ ys) = firsts f S xs @ firsts f (S \<union> f ` set xs) ys"
  by (induction xs arbitrary: S) (auto simp: insert_absorb)

lemma firsts_distinct: "distinct (map f (firsts f S xs)) \<and> f ` set (firsts f S xs) = f ` set xs - S"
  by (induction xs arbitrary: S) auto

lemma firsts_subset: "set (firsts f S xs) \<subseteq> set xs"
  by (induction xs arbitrary: S) auto

lemma fold_iter_push:
  "it_queue (fold iter_push cs it) = it_queue it @ firsts cand_key (seenPair it) cs
   \<and> seenPair (fold iter_push cs it) = seenPair it \<union> cand_key ` set cs"
  by (induction cs arbitrary: it) (auto simp: iter_push_def)

text \<open>The candidates an iterator still has to give, with every name resolved.\<close>

definition iter_rest :: "(string \<Rightarrow> bool option) \<Rightarrow> (string \<Rightarrow> string list option) \<Rightarrow> dialCandidateIter \<Rightarrow> dialCandidate list" where
  "iter_rest ip4 lookupHost it =
     it_queue it @ firsts cand_key (seenPair it) (concat (map (resolve_entry ip4 lookupHost) (it_entries it)))"

lemma iter_rest_expand:
  assumes "it_queue it = []" "it_entries it = e # es"
  shows "iter_rest ip4 lk (fold iter_push (resolve_entry ip4 lk e) (it\<lparr>it_entries := es\<rparr>)) = iter_rest ip4 lk it"
  using assms fold_iter_push [of "resolve_entry ip4 lk e" "it\<lparr>it_entries := es\<rparr>"]
  by (simp add: iter_rest_def firsts_append)

lemma iter_next_spec:
  "case iter_rest ip4 lk it of
     [] \<Rightarrow> fst (iter_next ip4 lk it) = None
   | c # cs \<Rightarrow> fst (iter_next ip4 lk it) = Some c \<and> iter_rest ip4 lk (snd (iter_next ip4 lk it)) = cs"
proof (induction ip4 lk it rule: iter_next.induct)
  case (1 ip4 lk it)
  show ?case
  proof (cases "it_queue it")
    case (Cons c q)
    then show ?thesis by (simp add: iter_next.simps [of ip4 lk it] iter_rest_def)
  next
    case q: Nil
    show ?thesis
    proof (cases "it_entries it")
      case Nil
      then show ?thesis using q by (simp add: iter_next.simps [of ip4 lk it] iter_rest_def)
    next
      case (Cons e es)
      have "iter_next ip4 lk it = iter_next ip4 lk (fold iter_push (resolve_entry ip4 lk e) (it\<lparr>it_entries := es\<rparr>))"
        using q Cons by (simp add: iter_next.simps [of ip4 lk it])
      with "1.IH" [OF q Cons] iter_rest_expand [OF q Cons] show ?thesis
        by (simp split: list.splits)
    qed
  qed
qed

lemma iter_next_end_rest:
  "iter_next ip4 lk it = (None, it') \<Longrightarrow> iter_rest ip4 lk it' = []"
proof (induction ip4 lk it rule: iter_next.induct)
  case (1 ip4 lk it)
  then show ?case
    by (cases "it_queue it"; cases "it_entries it")
      (simp_all add: iter_next.simps [of ip4 lk it], auto simp: iter_rest_def)
qed

interpretation dial_iter: lazy_list "iter_next ip4 lk" "iter_rest ip4 lk"
proof
  fix s :: dialCandidateIter and c cs
  show "iter_rest ip4 lk s = [] \<Longrightarrow> fst (iter_next ip4 lk s) = None"
    using iter_next_spec [of ip4 lk s] by simp
  show "iter_rest ip4 lk s = c # cs \<Longrightarrow> fst (iter_next ip4 lk s) = Some c \<and> iter_rest ip4 lk (snd (iter_next ip4 lk s)) = cs"
    using iter_next_spec [of ip4 lk s] by simp
qed

definition src_rest :: "(string \<Rightarrow> bool option) \<Rightarrow> (string \<Rightarrow> string list option) \<Rightarrow> PeerConfig \<Rightarrow> cand_source \<Rightarrow> dialCandidate list" where
  "src_rest ip4 lk p src =
     (case src of
        SingleShot used \<Rightarrow> if used then [] else [single_target p]
      | Walking first it \<Rightarrow> if first \<and> iter_rest ip4 lk it = [] then [single_target p] else iter_rest ip4 lk it)"

interpretation dial_src: lazy_list "nextCandidate ip4 lk p" "src_rest ip4 lk p"
proof
  fix s :: cand_source and c cs
  show "src_rest ip4 lk p s = [] \<Longrightarrow> fst (nextCandidate ip4 lk p s) = None"
    using dial_iter.next_some [of ip4 lk]
    by (cases s) (auto simp: src_rest_def split: if_splits prod.splits option.splits)
  show "src_rest ip4 lk p s = c # cs \<Longrightarrow> fst (nextCandidate ip4 lk p s) = Some c \<and> src_rest ip4 lk p (snd (nextCandidate ip4 lk p s)) = cs"
    using dial_iter.next_end [of ip4 lk] dial_iter.next_some [of ip4 lk] dial_iter.next_none [of ip4 lk]
      iter_next_end_rest [of ip4 lk]
    by (cases s) (auto simp: src_rest_def split: if_splits prod.splits option.splits)
qed

section \<open>The failover loop\<close>

function dial_loop :: "OutboundFailoverConfig \<Rightarrow> (string \<Rightarrow> bool option) \<Rightarrow> (string \<Rightarrow> string list option) \<Rightarrow> (nat \<Rightarrow> dialCandidate \<Rightarrow> bool \<Rightarrow> hop) \<Rightarrow> PeerConfig \<Rightarrow> nat \<Rightarrow> cand_source \<Rightarrow> dial_error option \<Rightarrow> dial_result \<times> attempt list" where
  "dial_loop failover ip4 lookupHost dialOnce p n src lastErr =
     (case nextCandidate ip4 lookupHost p src of
        (None, src') \<Rightarrow> (DialFailed lastErr, [])
      | (Some cand, src') \<Rightarrow>
          (let lastPermitted = (MaxAttempts failover > 0 \<and> int n \<ge> MaxAttempts failover);
               guarded = (moreCandidates src' \<and> \<not> lastPermitted \<and> PerHopTimeout failover > 0);
               h = dialOnce n cand guarded;
               a = \<lparr>at_cand = cand, at_guarded = guarded, at_hop = h\<rparr>
           in if hop_err h = None then (Connected cand (hop_responses h), [a])
              else if hop_ctxErr h then (DialFailed (hop_err h), [a])
              else if sawSuccessResponse (hop_responses h) then (DialFailed (hop_err h), [a])
              else if \<not> retryableDialError (hop_err h) then (DialFailed (hop_err h), [a])
              else if lastPermitted then (DialFailed (hop_err h), [a])
              else (case dial_loop failover ip4 lookupHost dialOnce p (n + 1) src' (hop_err h) of
                      (r, as) \<Rightarrow> (r, a # as))))"
  by auto
termination
  by (relation "measure (\<lambda>(_, ip4, lk, _, p, _, src, _). length (src_rest ip4 lk p src))")
    (auto dest!: dial_src.next_some [OF sym])

declare dial_loop.simps [simp del]

definition findPeer :: "PeerConfig list \<Rightarrow> string \<Rightarrow> PeerConfig option" where
  "findPeer peers name = find (\<lambda>p. pc_Name p = name) peers"

definition Dial :: "bool \<Rightarrow> PeerConfig list \<Rightarrow> OutboundFailoverConfig \<Rightarrow> (string \<Rightarrow> bool option) \<Rightarrow> (string \<Rightarrow> string list option) \<Rightarrow> (nat \<Rightarrow> dialCandidate \<Rightarrow> bool \<Rightarrow> hop) \<Rightarrow> string \<Rightarrow> dial_result \<times> attempt list" where
  "Dial listening peers failover ip4 lookupHost dialOnce peer =
     (if \<not> listening then (DialFailed (Some ErrNotListening), [])
      else case findPeer peers peer of
             None \<Rightarrow> (DialFailed (Some (ErrPeerNotFound peer)), [])
           | Some p \<Rightarrow> dial_loop failover ip4 lookupHost dialOnce p 1 (newSource failover p) None)"

section \<open>What the iterator yields\<close>

lemma add_entries:
  "fold (add_entry dp) hs (es, S) =
     (es @ map (entry_of dp) (firsts id S (filter (\<lambda>h. h \<noteq> []) hs)), S \<union> set (filter (\<lambda>h. h \<noteq> []) hs))"
  by (induction hs arbitrary: es S) (auto simp: add_entry_def insert_absorb)

lemma fold_skip: "fold (\<lambda>h st. if P h then st else f h st) hs st = fold f (filter (\<lambda>h. \<not> P h) hs) st"
  by (induction hs arbitrary: st) auto

text \<open>The configured hosts in order: not empty, no ranges among \<open>Hosts\<close>, each string once.\<close>

definition dial_hosts :: "PeerConfig \<Rightarrow> string list" where
  "dial_hosts p = firsts id {} (filter (\<lambda>h. h \<noteq> []) (pc_Host p # filter (\<lambda>h. CHR ''/'' \<notin> set h) (pc_Hosts p)))"

lemma newDialCandidateIter_entries:
  "newDialCandidateIter p =
     \<lparr>it_entries = map (entry_of (Itoa (pc_Port p))) (dial_hosts p), it_queue = [], seenPair = {}\<rparr>"
proof -
  let ?hs = "filter (\<lambda>h. CHR ''/'' \<notin> set h) (pc_Hosts p)"
  have "fold (add_entry (Itoa (pc_Port p))) ?hs (add_entry (Itoa (pc_Port p)) (pc_Host p) ([], {}))
      = fold (add_entry (Itoa (pc_Port p))) (pc_Host p # ?hs) ([], {})" by simp
  then show ?thesis
    by (simp only: newDialCandidateIter_def Let_def fold_skip add_entries dial_hosts_def) simp
qed

text \<open>All candidates of a peer, with every name resolved at once.\<close>

definition dial_candidates :: "(string \<Rightarrow> bool option) \<Rightarrow> (string \<Rightarrow> string list option) \<Rightarrow> PeerConfig \<Rightarrow> dialCandidate list" where
  "dial_candidates ip4 lk p =
     firsts cand_key {}
       (concat (map (\<lambda>h. resolve_entry ip4 lk (entry_of (Itoa (pc_Port p)) h)) (dial_hosts p)))"

lemma iter_rest_new: "iter_rest ip4 lk (newDialCandidateIter p) = dial_candidates ip4 lk p"
  by (simp add: iter_rest_def newDialCandidateIter_entries dial_candidates_def comp_def)

text \<open>
  Lazy resolution changes nothing but the moment of the lookups.  However often \<open>next\<close> is called,
  it returns, in order, the candidates obtained by resolving all configured hosts at once and keeping
  the first candidate of each request-URI and address pair; no pair is returned twice and every pair
  is returned.
\<close>

theorem dial_candidates_spec:
  "pulls (iter_next ip4 lk) n (newDialCandidateIter p) = take n (dial_candidates ip4 lk p)
   \<and> distinct (map cand_key (dial_candidates ip4 lk p))
   \<and> cand_key ` set (dial_candidates ip4 lk p)
       = (\<Union>h \<in> set (dial_hosts p). cand_key ` set (resolve_entry ip4 lk (entry_of (Itoa (pc_Port p)) h)))"
proof -
  have "cand_key ` set (dial_candidates ip4 lk p)
      = cand_key ` set (concat (map (\<lambda>h. resolve_entry ip4 lk (entry_of (Itoa (pc_Port p)) h)) (dial_hosts p)))"
    unfolding dial_candidates_def by (simp only: firsts_distinct [THEN conjunct2] Diff_empty)
  moreover have "distinct (map cand_key (dial_candidates ip4 lk p))"
    unfolding dial_candidates_def by (rule firsts_distinct [THEN conjunct1])
  moreover have "pulls (iter_next ip4 lk) n (newDialCandidateIter p) = take n (dial_candidates ip4 lk p)"
    by (simp only: dial_iter.pulls_rest iter_rest_new)
  ultimately show ?thesis by (simp add: image_UN)
qed

section \<open>What Dial does\<close>

text \<open>A hop after which the loop may go on to the next candidate.\<close>

definition fails_over :: "hop \<Rightarrow> bool" where
  "fails_over h = (\<not> hop_ctxErr h \<and> \<not> sawSuccessResponse (hop_responses h) \<and> retryableDialError (hop_err h))"

definition dial_outcome :: "attempt \<Rightarrow> dial_result" where
  "dial_outcome a =
     (if hop_err (at_hop a) = None then Connected (at_cand a) (hop_responses (at_hop a))
      else DialFailed (hop_err (at_hop a)))"

definition dial_targets :: "OutboundFailoverConfig \<Rightarrow> (string \<Rightarrow> bool option) \<Rightarrow> (string \<Rightarrow> string list option) \<Rightarrow> PeerConfig \<Rightarrow> dialCandidate list" where
  "dial_targets failover ip4 lk p =
     (if Disabled failover \<or> dial_candidates ip4 lk p = [] then [single_target p]
      else dial_candidates ip4 lk p)"

lemma src_rest_new: "src_rest ip4 lk p (newSource failover p) = dial_targets failover ip4 lk p"
  by (simp add: src_rest_def newSource_def dial_targets_def iter_rest_new)

lemma fails_over_err: "fails_over h \<Longrightarrow> hop_err h \<noteq> None"
  by (cases "hop_err h") (simp_all add: fails_over_def)

text \<open>One round of the loop, on the remaining targets instead of the source.\<close>

lemma dial_loop_end:
  "src_rest ip4 lk p src = [] \<Longrightarrow> dial_loop fo ip4 lk once p n src e = (DialFailed e, [])"
  using dial_src.next_end [of ip4 lk p src]
  by (cases "nextCandidate ip4 lk p src") (simp add: dial_loop.simps [of fo ip4 lk once p n src e])

lemma dial_loop_step:
  assumes "src_rest ip4 lk p src = c # cs"
  obtains src' g where "src_rest ip4 lk p src' = cs"
    and "dial_loop fo ip4 lk once p n src e =
       (let a = \<lparr>at_cand = c, at_guarded = g, at_hop = once n c g\<rparr> in
        if fails_over (once n c g) \<and> \<not> (MaxAttempts fo > 0 \<and> int n \<ge> MaxAttempts fo)
        then (fst (dial_loop fo ip4 lk once p (n + 1) src' (hop_err (once n c g))),
              a # snd (dial_loop fo ip4 lk once p (n + 1) src' (hop_err (once n c g))))
        else (dial_outcome a, [a]))"
proof -
  obtain src' where src': "nextCandidate ip4 lk p src = (Some c, src')" "src_rest ip4 lk p src' = cs"
    using dial_src.next_item [OF assms] by (metis prod.collapse)
  define lp where "lp = (MaxAttempts fo > 0 \<and> int n \<ge> MaxAttempts fo)"
  define g where "g = (moreCandidates src' \<and> \<not> lp \<and> PerHopTimeout fo > 0)"
  show ?thesis
    by (rule that [OF src'(2), of g])
      (unfold dial_loop.simps [of fo ip4 lk once p n src e] src'(1) prod.case option.case Let_def
        lp_def [symmetric] g_def [symmetric],
       cases "hop_err (once n c g)", simp_all add: fails_over_def dial_outcome_def split: prod.split)
qed

lemma dial_loop_policy:
  assumes "dial_loop fo ip4 lk once p n src e = (r, as)" and "src_rest ip4 lk p src \<noteq> []"
    and "0 < n" and "MaxAttempts fo > 0 \<longrightarrow> int n \<le> MaxAttempts fo"
  shows "as \<noteq> [] \<and> map at_cand as = take (length as) (src_rest ip4 lk p src)
    \<and> (\<forall>a \<in> set (butlast as). fails_over (at_hop a)) \<and> r = dial_outcome (last as)
    \<and> (MaxAttempts fo > 0 \<longrightarrow> int (length as + n) \<le> MaxAttempts fo + 1)
    \<and> (length as < length (src_rest ip4 lk p src) \<longrightarrow>
         \<not> fails_over (at_hop (last as)) \<or> (MaxAttempts fo > 0 \<and> int (length as + n) = MaxAttempts fo + 1))"
  using assms
proof (induction "src_rest ip4 lk p src" arbitrary: n src e r as)
  case (Cons c cs)
  obtain src' g where s': "src_rest ip4 lk p src' = cs"
    and eq: "dial_loop fo ip4 lk once p n src e =
       (let a = \<lparr>at_cand = c, at_guarded = g, at_hop = once n c g\<rparr> in
        if fails_over (once n c g) \<and> \<not> (MaxAttempts fo > 0 \<and> int n \<ge> MaxAttempts fo)
        then (fst (dial_loop fo ip4 lk once p (n + 1) src' (hop_err (once n c g))),
              a # snd (dial_loop fo ip4 lk once p (n + 1) src' (hop_err (once n c g))))
        else (dial_outcome a, [a]))"
    using dial_loop_step [OF Cons.hyps(2) [symmetric], of fo once n e] by metis
  let ?a = "\<lparr>at_cand = c, at_guarded = g, at_hop = once n c g\<rparr>"
  show ?case
  proof (cases "fails_over (once n c g) \<and> \<not> (MaxAttempts fo > 0 \<and> int n \<ge> MaxAttempts fo)")
    case False
    then have "as = [?a]" "r = dial_outcome ?a" using Cons.prems(1) eq by (auto simp: Let_def)
    then show ?thesis using False Cons.prems(3,4) Cons.hyps(2) [symmetric] by auto
  next
    case go: True
    obtain r' as' where rec: "dial_loop fo ip4 lk once p (n + 1) src' (hop_err (once n c g)) = (r', as')"
      by fastforce
    then have as: "as = ?a # as'" "r = r'" using Cons.prems(1) eq go by (auto simp: Let_def)
    show ?thesis
    proof (cases "cs = []")
      case True
      then have "as' = []" "r' = DialFailed (hop_err (once n c g))"
        using rec dial_loop_end s' by (metis prod.inject)+
      then show ?thesis
        using as go True Cons.prems(3,4) Cons.hyps(2) [symmetric] fails_over_err by (auto simp: dial_outcome_def)
    next
      case False
      have "MaxAttempts fo > 0 \<longrightarrow> int (n + 1) \<le> MaxAttempts fo" using go by auto
      from Cons.hyps(1) [OF s' [symmetric] rec _ _ this] False
      show ?thesis using as go s' Cons.hyps(2) [symmetric] by auto
    qed
  qed
qed simp

text \<open>
  C5: the failover policy.  Dialling a configured peer tries its targets in order, at least one and at
  most \<open>MaxAttempts\<close> of them; it goes on only after a hop that failed with a retryable error, saw no
  2xx response and left the dial context alive, so a callee that has answered is never rung a second
  time; it stops early for no other reason than such a hop or the cap; and it reports the last hop,
  a connected call with that hop's responses only.
\<close>

theorem dial_failover_policy:
  assumes "findPeer peers peer = Some p"
    and "Dial True peers fo ip4 lk once peer = (r, as)"
  shows "as \<noteq> [] \<and> map at_cand as = take (length as) (dial_targets fo ip4 lk p)
    \<and> (MaxAttempts fo > 0 \<longrightarrow> int (length as) \<le> MaxAttempts fo)
    \<and> (\<forall>a \<in> set (butlast as). fails_over (at_hop a))
    \<and> (length as < length (dial_targets fo ip4 lk p) \<longrightarrow>
         \<not> fails_over (at_hop (last as)) \<or> int (length as) = MaxAttempts fo)
    \<and> r = dial_outcome (last as)"
proof -
  have "dial_loop fo ip4 lk once p 1 (newSource fo p) None = (r, as)"
    using assms by (simp add: Dial_def)
  moreover have "dial_targets fo ip4 lk p \<noteq> []" by (simp add: dial_targets_def)
  ultimately show ?thesis
    using dial_loop_policy [of fo ip4 lk once p 1 "newSource fo p" None r as]
    by (auto simp: src_rest_new)
qed

definition demo_trunk :: PeerConfig where
  "demo_trunk = \<lparr>pc_Name = ''trunk'', pc_Host = ''10.0.0.1'', pc_Hosts = [''10.0.0.2''], pc_Port = 5060, pc_Auth = None, pc_RTPAddress = [], pc_Codecs = []\<rparr>"

definition demo_once :: "nat \<Rightarrow> dialCandidate \<Rightarrow> bool \<Rightarrow> hop" where
  "demo_once n c guarded =
     (if n = 1 then \<lparr>hop_responses = [(503, ''Service Unavailable'')], hop_err = Some (ErrDialogResponse (Some 503)), hop_ctxErr = False\<rparr>
      else \<lparr>hop_responses = [(200, ''OK'')], hop_err = None, hop_ctxErr = False\<rparr>)"

abbreviation demo_dial :: "dial_result \<times> attempt list" where
  "demo_dial \<equiv> Dial True [demo_trunk] \<lparr>Disabled = False, PerHopTimeout = 5, MaxAttempts = 2\<rparr>
     (\<lambda>_. Some True) (\<lambda>_. None) demo_once ''trunk''"

theorem dial_failover_policy_witness:
  "snd demo_dial \<noteq> [] \<and> int (length (snd demo_dial)) \<le> 2
   \<and> list_all (\<lambda>a. fails_over (at_hop a)) (butlast (snd demo_dial)) \<and> fst demo_dial = dial_outcome (last (snd demo_dial))"
proof -
  have "findPeer [demo_trunk] ''trunk'' = Some demo_trunk" by (simp add: findPeer_def demo_trunk_def)
  from dial_failover_policy [OF this, of _ "\<lambda>_. Some True" "\<lambda>_. None" demo_once "fst demo_dial" "snd demo_dial"]
  show ?thesis unfolding list_all_iff by force
qed

end
