(* ===== verification/Call.thy ===== *)
theory Call
  imports Sdp Srtp Ice Dtmf DialFailover
begin

text \<open>
  Calls, \<open>call.go\<close> and \<open>video_upgrade.go\<close>, with the parts of \<open>media.go\<close> that open and close a call's
  media.  A call is a record of the fields of the Go struct; two more fields hold what a call has
  done so far, the SIP messages it sent through its dialog and the callbacks it dispatched.  Every
  method is a function on the record, with an environment for what it asks of the outside: binding
  sockets, addresses, fresh ICE credentials, the dialog's errors, the clock.  A channel is present
  or not, open or closed; a socket is the port it is bound to.
\<close>

section \<open>Data\<close>

datatype CallState = StateIdle | StateRinging | StateDialing | StateRemoteRinging | StateEarlyMedia
  | StateActive | StateOnHold | StateEnded

datatype EndReason = EndedByLocal | EndedByRemote | EndedByTimeout | EndedByError | EndedByTransfer
  | EndedByRejected | EndedByCancelled | EndedByTransferFailed

datatype Direction = DirectionInbound | DirectionOutbound

datatype sip_out =
    Respond int string string
  | SendBye
  | SendCancel
  | SendReInvite string
  | SendRefer string
  | SendInfoDTMF string int

datatype callback =
    FireState CallState
  | FireEnded EndReason
  | FireMedia
  | FireHold
  | FireResume
  | FireMute
  | FireUnmute
  | FireVideo
  | FireVideoRequest
  | FireDTMF string

datatype call_error = ErrInvalidState | ErrAlreadyMuted | ErrNotMuted | ErrNoVideo | ErrVideoAlreadyActive
  | ErrInvalidDTMFDigit | ErrDTMFNotNegotiated | ErrReInvite | ErrRefer | ErrInfo | ErrPort | ErrTransferTarget

abbreviation VideoCodecH264 :: int where "VideoCodecH264 \<equiv> 96"
abbreviation VideoCodecVP8 :: int where "VideoCodecVP8 \<equiv> 97"

text \<open>The handler a transfer installs with \<open>OnNotify\<close>; an attended one also ends the other call.\<close>

datatype notify_handler = BlindHandler | AttendedHandler

record DialOptions =
  opt_EarlyMedia :: bool
  opt_Video :: bool
  opt_VideoCodecs :: "int list"

record env =
  ev_bind :: "int \<Rightarrow> bool"
  ev_osPort :: "int option"
  ev_localIP :: string
  ev_creds :: ice_Credentials
  ev_parseIP :: "string \<Rightarrow> IP"
  ev_resolve :: "string \<Rightarrow> string option"
  ev_sendOk :: bool
  ev_now :: int

record call =
  c_headers :: "string \<Rightarrow> string list"
  c_callID :: string
  c_state :: CallState
  c_direction :: Direction
  c_opts :: DialOptions
  c_startTime :: "int option"
  c_dtmfMode :: DtmfMode
  c_dtmfRTPOk :: bool
  c_hasVideo :: bool
  c_videoCodecType :: int
  c_codecPrefs :: "int list"
  c_localIP :: string
  c_hostIP :: string
  c_rtpPortMin :: int
  c_rtpPortMax :: int
  c_rtpPort :: int
  c_rtpConn :: "int option"
  c_rtcpConn :: "int option"
  c_remoteAddr :: "string option"
  c_remoteIP :: string
  c_remotePort :: int
  c_localSDP :: string
  c_remoteSDP :: string
  c_srtpLocalKey :: string
  c_srtpIn :: "srtp_context option"
  c_srtpOut :: "srtp_context option"
  c_videoSrtpIn :: "srtp_context option"
  c_videoSrtpOut :: "srtp_context option"
  c_iceEnabled :: bool
  c_iceAgent :: "Agent option"
  c_codec :: int
  c_sessionTimer :: "int option"
  c_mediaActive :: bool
  c_mediaTimeout :: int
  c_timerReset :: "int option"
  c_mediaDone :: "bool option"
  c_videoDone :: "bool option"
  c_audioMuted :: bool
  c_videoMuted :: "bool option"
  c_videoChans :: bool
  c_outClosed :: bool
  c_videoOutClosed :: bool
  c_videoRTPPort :: int
  c_videoRTPConn :: "int option"
  c_videoRTCPConn :: "int option"
  c_videoRemoteAddr :: "string option"
  c_pendingUpgrade :: bool
  c_onNotify :: "notify_handler option"
  c_wire :: "bytes list"
  c_sent :: "sip_out list"
  c_fired :: "callback list"

section \<open>Header values\<close>

definition sipHeaderURI :: "string \<Rightarrow> string" where
  "sipHeaderURI val =
     (case (Index val ''<'', Index val ''>'') of
        (Some start, Some e) \<Rightarrow> if start < e then take (e - start - 1) (drop (start + 1) val) else val
      | _ \<Rightarrow> val)"

definition sipHeaderUser :: "string \<Rightarrow> string" where
  "sipHeaderUser val =
     (let uri = sipHeaderURI val;
          uri = (case Index uri '':'' of None \<Rightarrow> uri | Some i \<Rightarrow> drop (i + 1) uri)
      in case Index uri ''@'' of None \<Rightarrow> uri | Some i \<Rightarrow> take i uri)"

definition sipHeaderDisplayName :: "string \<Rightarrow> string" where
  "sipHeaderDisplayName val =
     (case Index val ''<'' of
        None \<Rightarrow> []
      | Some lt \<Rightarrow>
          if lt = 0 then []
          else let name = TrimSpace (take lt val)
               in if 2 \<le> length name \<and> hd name = CHR 0x22 \<and> last name = CHR 0x22 then butlast (tl name) else name)"

fun tag_index :: "string \<Rightarrow> nat option" where
  "tag_index [] = None"
| "tag_index (c # s) =
     (if 5 \<le> length (c # s) \<and> EqualFold (take 5 (c # s)) '';tag='' then Some 0
      else map_option Suc (tag_index s))"

definition sipHeaderTag :: "string \<Rightarrow> string" where
  "sipHeaderTag val =
     (case tag_index val of
        None \<Rightarrow> []
      | Some i \<Rightarrow>
          let rest = drop (i + 5) val
          in case IndexAny rest '';>,'' of None \<Rightarrow> rest | Some e \<Rightarrow> take e rest)"

definition uri_escape :: "char \<Rightarrow> string" where
  "uri_escape c =
     (if c = CHR ''%'' then ''%25'' else if c = CHR ''@'' then ''%40'' else if c = CHR '' '' then ''%20''
      else if c = CHR '';'' then ''%3B'' else if c = CHR ''?'' then ''%3F'' else if c = CHR ''&'' then ''%26''
      else if c = CHR ''='' then ''%3D'' else if c = CHR ''+'' then ''%2B'' else if c = CHR '':'' then ''%3A''
      else [c])"

definition uriEncode :: "string \<Rightarrow> string" where
  "uriEncode val = concat (map uri_escape val)"

definition first_header :: "call \<Rightarrow> string \<Rightarrow> (string \<Rightarrow> string) \<Rightarrow> string" where
  "first_header c name f = (case c_headers c name of [] \<Rightarrow> [] | v # _ \<Rightarrow> f v)"

definition From :: "call \<Rightarrow> string" where "From c = first_header c ''From'' sipHeaderUser"
definition To :: "call \<Rightarrow> string" where "To c = first_header c ''To'' sipHeaderUser"
definition FromName :: "call \<Rightarrow> string" where "FromName c = first_header c ''From'' sipHeaderDisplayName"
definition RemoteURI :: "call \<Rightarrow> string" where "RemoteURI c = first_header c ''From'' sipHeaderURI"

definition RemoteDID :: "call \<Rightarrow> string" where
  "RemoteDID c = (if c_direction c = DirectionInbound then From c else To c)"

text \<open>Call-ID, local tag, remote tag.\<close>

definition dialogID :: "call \<Rightarrow> string \<times> string \<times> string" where
  "dialogID c =
     (let fromTag = first_header c ''From'' sipHeaderTag; toTag = first_header c ''To'' sipHeaderTag
      in if c_direction c = DirectionOutbound then (c_callID c, fromTag, toTag) else (c_callID c, toTag, fromTag))"

section \<open>Ports, ICE and session descriptions\<close>

definition defaultCodecPrefs :: "int list" where
  "defaultCodecPrefs = [8, 0, 9, 101, 111]"

definition resolveCodecPrefs :: "call \<Rightarrow> int list" where
  "resolveCodecPrefs c =
     (let prefs = (if c_codecPrefs c \<noteq> [] then c_codecPrefs c else defaultCodecPrefs)
      in if c_dtmfMode c = DtmfSipInfo then prefs
         else if 101 \<in> set prefs then prefs else prefs @ [101])"

definition remoteAddrFromSession :: "env \<Rightarrow> Session \<Rightarrow> string option" where
  "remoteAddrFromSession e sess =
     (case Media sess of
        [] \<Rightarrow> None
      | m # _ \<Rightarrow> if Connection sess = [] \<or> md_Port m \<le> 0 then None
                 else ev_resolve e (JoinHostPort (Connection sess) (Itoa (md_Port m))))"

definition setRemoteEndpoint :: "env \<Rightarrow> Session \<Rightarrow> call \<Rightarrow> call" where
  "setRemoteEndpoint e sess c =
     (let c = c\<lparr>c_remoteAddr := remoteAddrFromSession e sess\<rparr>
      in case Media sess of [] \<Rightarrow> c | m # _ \<Rightarrow> c\<lparr>c_remoteIP := Connection sess, c_remotePort := md_Port m\<rparr>)"

text \<open>\<open>listenRTPPort\<close>: the first even port of the range that can be bound, or one the system picks.\<close>

definition listenRTPPort :: "env \<Rightarrow> int \<Rightarrow> int \<Rightarrow> int option" where
  "listenRTPPort e mn mx =
     (if mn > 0 \<and> mx > 0 then find (\<lambda>p. p mod 2 = 0 \<and> ev_bind e p) [mn..mx] else ev_osPort e)"

definition ensureRTPPort :: "env \<Rightarrow> call \<Rightarrow> bool \<times> call" where
  "ensureRTPPort e c =
     (let c = (if c_localIP c = [] then c\<lparr>c_localIP := ev_localIP e\<rparr> else c)
      in if c_rtpPort c = 0 then
           (case listenRTPPort e (c_rtpPortMin c) (c_rtpPortMax c) of
              None \<Rightarrow> (False, c)
            | Some p \<Rightarrow> (True, c\<lparr>c_rtpPort := p, c_rtpConn := Some p\<rparr>))
         else (True, c))"

definition ensureVideoRTPPort :: "env \<Rightarrow> call \<Rightarrow> bool \<times> call" where
  "ensureVideoRTPPort e c =
     (let c = (if c_localIP c = [] then c\<lparr>c_localIP := ev_localIP e\<rparr> else c)
      in if c_videoRTPPort c = 0 then
           (case listenRTPPort e (c_rtpPortMin c) (c_rtpPortMax c) of
              None \<Rightarrow> (False, c)
            | Some p \<Rightarrow> (True, c\<lparr>c_videoRTPPort := p, c_videoRTPConn := Some p\<rparr>))
         else (True, c))"

definition candidateStrings :: "Candidate list \<Rightarrow> string list" where
  "candidateStrings cands = map SDPValue cands"

definition ice_params :: "ice_Credentials \<Rightarrow> Candidate list \<Rightarrow> ICEParams" where
  "ice_params creds cands =
     \<lparr>ip_Ufrag = Ufrag creds, ip_Pwd = Pwd creds, ip_Candidates = candidateStrings cands, ip_Lite = True\<rparr>"

definition buildICEParams :: "env \<Rightarrow> call \<Rightarrow> ICEParams option \<times> call" where
  "buildICEParams e c =
     (if \<not> c_iceEnabled c then (None, c)
      else case c_iceAgent c of
             Some a \<Rightarrow> (Some (ice_params (localCreds a) (candidates a)), c)
           | None \<Rightarrow>
               let creds = ev_creds e;
                   hostIP = (if c_hostIP c = [] then c_localIP c else c_hostIP c);
                   localAddr = \<lparr>udp_IP = ev_parseIP e hostIP, udp_Port = c_rtpPort c\<rparr>;
                   srflx = (if c_localIP c \<noteq> hostIP
                            then Some \<lparr>udp_IP = ev_parseIP e (c_localIP c), udp_Port = c_rtpPort c\<rparr> else None);
                   cands = GatherCandidates localAddr srflx None 1
               in (Some (ice_params creds cands), c\<lparr>c_iceAgent := Some (NewAgent creds cands)\<rparr>))"

definition buildLocalSDP :: "env \<Rightarrow> string \<Rightarrow> call \<Rightarrow> string \<times> call" where
  "buildLocalSDP e direction c =
     (let c = snd (ensureRTPPort e c);
          (ice, c) = buildICEParams e c;
          codecs = resolveCodecPrefs c;
          vcodecs = opt_VideoCodecs (c_opts c);
          vport = c_videoRTPPort c;
          key = c_srtpLocalKey c;
          ip = c_localIP c; port = c_rtpPort c
      in (if vcodecs \<noteq> [] \<and> vport > 0 then
            (if key \<noteq> [] \<and> ice \<noteq> None then BuildOfferVideoSRTPICE ip port codecs vport vcodecs direction key ice
             else if key \<noteq> [] then BuildOfferVideoSRTP ip port codecs vport vcodecs direction key
             else if ice \<noteq> None then BuildOfferVideoICE ip port codecs vport vcodecs direction ice
             else BuildOfferVideo ip port codecs vport vcodecs direction)
          else if key \<noteq> [] \<and> ice \<noteq> None then BuildOfferSRTPICE ip port codecs direction key ice
          else if key \<noteq> [] then BuildOfferSRTP ip port codecs direction key
          else if ice \<noteq> None then BuildOfferICE ip port codecs direction ice
          else BuildOffer ip port codecs direction, c))"

definition learn_ice :: "Session \<Rightarrow> call \<Rightarrow> call" where
  "learn_ice sess c =
     (case c_iceAgent c of
        Some a \<Rightarrow> if IceUfrag sess \<noteq> [] \<and> IcePwd sess \<noteq> []
                   then c\<lparr>c_iceAgent := Some (SetRemoteCredentials \<lparr>Ufrag = IceUfrag sess, Pwd = IcePwd sess\<rparr> a)\<rparr> else c
      | None \<Rightarrow> c)"

definition audio_codecs :: "Session \<Rightarrow> int list" where
  "audio_codecs sess = (case AudioMedia sess of None \<Rightarrow> [] | Some m \<Rightarrow> md_Codecs m)"

definition video_codecs :: "Session \<Rightarrow> int list" where
  "video_codecs sess = (case VideoMedia sess of None \<Rightarrow> [] | Some m \<Rightarrow> md_Codecs m)"

definition buildAnswerSDP :: "env \<Rightarrow> Session \<Rightarrow> string \<Rightarrow> call \<Rightarrow> string \<times> call" where
  "buildAnswerSDP e remote direction c =
     (let c = snd (ensureRTPPort e c);
          (ice, c) = buildICEParams e c;
          c = learn_ice remote c;
          ra = audio_codecs remote;
          codecs = resolveCodecPrefs c;
          vcodecs = opt_VideoCodecs (c_opts c);
          vport = c_videoRTPPort c;
          rv = video_codecs remote;
          key = c_srtpLocalKey c;
          ip = c_localIP c; port = c_rtpPort c
      in (if vcodecs \<noteq> [] \<and> vport > 0 \<and> rv \<noteq> [] then
            (if key \<noteq> [] \<and> ice \<noteq> None then BuildAnswerVideoSRTPICE ip port codecs ra vport vcodecs rv direction key ice
             else if key \<noteq> [] then BuildAnswerVideoSRTP ip port codecs ra vport vcodecs rv direction key
             else if ice \<noteq> None then BuildAnswerVideoICE ip port codecs ra vport vcodecs rv direction ice
             else BuildAnswerVideo ip port codecs ra vport vcodecs rv direction)
          else if key \<noteq> [] \<and> ice \<noteq> None then BuildAnswerSRTPICE ip port codecs ra direction key ice
          else if key \<noteq> [] then BuildAnswerSRTP ip port codecs ra direction key
          else if ice \<noteq> None then BuildAnswerICE ip port codecs ra direction ice
          else BuildAnswer ip port codecs ra direction, c))"

definition negotiateAudioCodec :: "Session \<Rightarrow> call \<Rightarrow> call" where
  "negotiateAudioCodec sess c =
     (let remote = audio_codecs sess;
          pt = NegotiateCodec (resolveCodecPrefs c) remote;
          c = (if pt \<ge> 0 then c\<lparr>c_codec := pt\<rparr> else c)
      in c\<lparr>c_dtmfRTPOk := 101 \<in> set remote\<rparr>)"

definition negotiateVideoCodec :: "Session \<Rightarrow> call \<Rightarrow> call" where
  "negotiateVideoCodec sess c =
     (case find (\<lambda>pt. pt = VideoCodecH264 \<or> pt = VideoCodecVP8) (video_codecs sess) of
        None \<Rightarrow> c
      | Some pt \<Rightarrow> c\<lparr>c_hasVideo := True, c_videoCodecType := pt\<rparr>)"

definition negotiateCodec :: "Session \<Rightarrow> call \<Rightarrow> call" where
  "negotiateCodec sess c = negotiateVideoCodec sess (negotiateAudioCodec sess c)"

definition setVideoRemoteEndpoint :: "env \<Rightarrow> Session \<Rightarrow> call \<Rightarrow> call" where
  "setVideoRemoteEndpoint e sess c =
     (case VideoMedia sess of
        None \<Rightarrow> c
      | Some vm \<Rightarrow> if Connection sess = [] \<or> md_Port vm \<le> 0 then c
                   else c\<lparr>c_videoRemoteAddr := ev_resolve e (JoinHostPort (Connection sess) (Itoa (md_Port vm)))\<rparr>)"

definition initVideoChannels :: "call \<Rightarrow> call" where
  "initVideoChannels c = c\<lparr>c_videoChans := True, c_videoMuted := Some False, c_videoOutClosed := False\<rparr>"

text \<open>\<open>setupSRTP\<close>: all contexts or, where a key does not parse, those set up before it.\<close>

definition setupSRTP :: "string \<Rightarrow> string \<Rightarrow> call \<Rightarrow> call" where
  "setupSRTP localKey remoteKey c =
     (case FromSDESInline localKey of
        Inl _ \<Rightarrow> c
      | Inr outCtx \<Rightarrow>
          (case FromSDESInline remoteKey of
             Inl _ \<Rightarrow> c
           | Inr inCtx \<Rightarrow>
               let c = c\<lparr>c_srtpLocalKey := localKey, c_srtpOut := Some outCtx, c_srtpIn := Some inCtx\<rparr>
               in if c_hasVideo c then c\<lparr>c_videoSrtpOut := Some outCtx, c_videoSrtpIn := Some inCtx\<rparr> else c))"

section \<open>Callbacks, timers and the end of a call\<close>

definition fire :: "callback \<Rightarrow> call \<Rightarrow> call" where
  "fire k c = c\<lparr>c_fired := c_fired c @ [k]\<rparr>"

definition send :: "sip_out \<Rightarrow> call \<Rightarrow> call" where
  "send m c = c\<lparr>c_sent := c_sent c @ [m]\<rparr>"

definition fireOnState :: "CallState \<Rightarrow> call \<Rightarrow> call" where
  "fireOnState st c = fire (FireState st) c"

definition enter :: "CallState \<Rightarrow> call \<Rightarrow> call" where
  "enter st c = fireOnState st (c\<lparr>c_state := st\<rparr>)"

definition fireOnEnded :: "EndReason \<Rightarrow> call \<Rightarrow> call" where
  "fireOnEnded reason c =
     (let c = c\<lparr>c_sessionTimer := None\<rparr>;
          c = (if c_mediaDone c \<noteq> None then c\<lparr>c_mediaDone := Some True, c_mediaActive := False\<rparr> else c);
          c = (if c_videoDone c \<noteq> None then c\<lparr>c_videoDone := Some True\<rparr> else c);
          c = c\<lparr>c_videoRTCPConn := None, c_videoRTPConn := None, c_rtcpConn := None, c_rtpConn := None\<rparr>;
          c = c\<lparr>c_srtpIn := map_option Zeroize (c_srtpIn c), c_srtpOut := map_option Zeroize (c_srtpOut c),
                c_videoSrtpIn := map_option Zeroize (c_videoSrtpIn c),
                c_videoSrtpOut := map_option Zeroize (c_videoSrtpOut c)\<rparr>;
          c = (if c_mediaDone c = None then c\<lparr>c_outClosed := True\<rparr> else c);
          c = (if c_videoDone c = None \<and> c_videoChans c then c\<lparr>c_videoOutClosed := True\<rparr> else c);
          c = c\<lparr>c_pendingUpgrade := False, c_onNotify := None\<rparr>
      in fire (FireEnded reason) c)"

definition finish :: "EndReason \<Rightarrow> call \<Rightarrow> call" where
  "finish reason c = fireOnEnded reason (enter StateEnded c)"

definition endWithReason :: "EndReason \<Rightarrow> call \<Rightarrow> call" where
  "endWithReason reason c = (if c_state c = StateEnded then c else finish reason c)"

text \<open>The refresh interval: half the advertised seconds, in nanoseconds of a 64-bit \<open>time.Duration\<close>, whose
  division truncates.\<close>

definition refresh_interval :: "int \<Rightarrow> int" where
  "refresh_interval seconds =
     (let d = signed_take_bit 63 (seconds * 1000000000) in if d < 0 then - ((- d) div 2) else d div 2)"

definition startSessionTimer :: "call \<Rightarrow> call" where
  "startSessionTimer c =
     (case c_headers c ''Session-Expires'' of
        [] \<Rightarrow> c
      | v # _ \<Rightarrow>
          (case Atoi v of
             None \<Rightarrow> c
           | Some seconds \<Rightarrow> if seconds \<le> 0 then c
                             else c\<lparr>c_sessionTimer := Some (refresh_interval seconds)\<rparr>))"

text \<open>The function the session timer runs.\<close>

definition session_refresh :: "env \<Rightarrow> call \<Rightarrow> call" where
  "session_refresh e c =
     (if c_state c = StateEnded then c
      else let (offer, c) = buildLocalSDP e DirSendRecv c in send (SendReInvite offer) c)"

definition second :: int where "second = 1000000000"
definition defaultMediaTimeout :: int where "defaultMediaTimeout = 30 * second"
definition defaultHoldMediaTimeout :: int where "defaultHoldMediaTimeout = 300 * second"

definition effectiveMediaTimeout :: "call \<Rightarrow> int" where
  "effectiveMediaTimeout c = (if c_mediaTimeout c > 0 then c_mediaTimeout c else defaultMediaTimeout)"

definition signalMediaTimerReset :: "int \<Rightarrow> call \<Rightarrow> call" where
  "signalMediaTimerReset d c = (if c_mediaDone c = None then c else c\<lparr>c_timerReset := Some d\<rparr>)"

section \<open>Media goroutines\<close>

text \<open>\<open>startMedia\<close> and \<open>startVideoMedia\<close>.  \<open>None\<close> is the nil dereference of the socket in the debug
  message, or of the video stream.\<close>

definition startMedia :: "env \<Rightarrow> call \<Rightarrow> call option" where
  "startMedia e c =
     (if c_mediaDone c \<noteq> None then Some c
      else let c = c\<lparr>c_mediaDone := Some False, c_timerReset := None, c_mediaActive := True\<rparr>;
               c = (case c_rtpConn c of
                      Some p \<Rightarrow> if c_rtcpConn c = None \<and> ev_bind e (p + 1) then c\<lparr>c_rtcpConn := Some (p + 1)\<rparr> else c
                    | None \<Rightarrow> c)
           in if c_rtpConn c = None then None else Some c)"

definition startVideoMedia :: "env \<Rightarrow> call \<Rightarrow> call option" where
  "startVideoMedia e c =
     (if c_videoDone c \<noteq> None then Some c
      else let c = c\<lparr>c_videoDone := Some False\<rparr>;
               c = (case c_videoRTPConn c of
                      Some p \<Rightarrow> if c_videoRTCPConn c = None \<and> ev_bind e (p + 1) then c\<lparr>c_videoRTCPConn := Some (p + 1)\<rparr> else c
                    | None \<Rightarrow> c)
           in if c_videoMuted c = None then None else Some (fire FireVideo c))"

text \<open>The media timer of the pipeline goroutine, and \<open>stopMedia\<close>.\<close>

definition media_timeout :: "call \<Rightarrow> call" where
  "media_timeout c = finish EndedByTimeout c"

definition stopMedia :: "call \<Rightarrow> call" where
  "stopMedia c = c\<lparr>c_mediaDone := (if c_mediaDone c = None then None else Some True), c_mediaActive := False\<rparr>"

section \<open>Answering and ending\<close>

text \<open>The part of \<open>Accept\<close> under the lock; what follows it starts the media of sockets seen there.\<close>

definition accept_section :: "env \<Rightarrow> call \<Rightarrow> call_error option \<times> call" where
  "accept_section e c =
     (if c_state c \<noteq> StateRinging then (Some ErrInvalidState, c)
      else let sess = (if c_remoteSDP c = [] then None else sdp_Parse (c_remoteSDP c));
               c = (case sess of
                      Some s \<Rightarrow>
                        let (answer, c) = buildAnswerSDP e s DirSendRecv (negotiateCodec s c)
                        in setRemoteEndpoint e s (c\<lparr>c_localSDP := answer\<rparr>)
                    | None \<Rightarrow> let (offer, c) = buildLocalSDP e DirSendRecv c in c\<lparr>c_localSDP := offer\<rparr>);
               c = send (Respond 200 ''OK'' (c_localSDP c)) c;
               c = (if c_hasVideo c \<and> c_videoRTPConn c \<noteq> None then
                      (let c = (case sess of Some s \<Rightarrow> setVideoRemoteEndpoint e s c | None \<Rightarrow> c)
                       in if c_videoChans c then c else initVideoChannels c)
                    else c);
               c = c\<lparr>c_state := StateActive, c_startTime := Some (ev_now e)\<rparr>
           in (None, fireOnState StateActive (startSessionTimer c)))"

definition accept_tail :: "env \<Rightarrow> bool \<Rightarrow> bool \<Rightarrow> call \<Rightarrow> call option" where
  "accept_tail e hasRTP hasVideoRTP c =
     (case (if hasRTP then startMedia e c else Some c) of
        None \<Rightarrow> None
      | Some c \<Rightarrow>
          (case (if hasVideoRTP then startVideoMedia e c else Some c) of
             None \<Rightarrow> None
           | Some c \<Rightarrow> Some (fire FireMedia c)))"

definition Accept :: "env \<Rightarrow> call \<Rightarrow> (call_error option \<times> call) option" where
  "Accept e c =
     (case accept_section e c of
        (Some err, c) \<Rightarrow> Some (Some err, c)
      | (None, c) \<Rightarrow>
          map_option (\<lambda>c. (None, c))
            (accept_tail e (c_rtpConn c \<noteq> None) (c_hasVideo c \<and> c_videoRTPConn c \<noteq> None) c))"

definition Reject :: "int \<Rightarrow> string \<Rightarrow> call \<Rightarrow> call_error option \<times> call" where
  "Reject code reason c =
     (if c_state c \<noteq> StateRinging then (Some ErrInvalidState, c)
      else (None, finish EndedByRejected (send (Respond code reason []) c)))"

definition End :: "call \<Rightarrow> call_error option \<times> call" where
  "End c =
     (case c_state c of
        StateRinging \<Rightarrow> (None, finish EndedByCancelled (send (Respond 487 ''Request Terminated'' []) c))
      | StateDialing \<Rightarrow> (None, finish EndedByCancelled (send SendCancel c))
      | StateRemoteRinging \<Rightarrow> (None, finish EndedByCancelled (send SendCancel c))
      | StateEarlyMedia \<Rightarrow> (None, finish EndedByCancelled (send SendCancel c))
      | StateActive \<Rightarrow> (None, finish EndedByLocal (send SendBye c))
      | StateOnHold \<Rightarrow> (None, finish EndedByLocal (send SendBye c))
      | _ \<Rightarrow> (Some ErrInvalidState, c))"

definition Hold :: "env \<Rightarrow> call \<Rightarrow> call_error option \<times> call" where
  "Hold e c =
     (if c_state c \<noteq> StateActive then (Some ErrInvalidState, c)
      else let prevSDP = c_localSDP c;
               (offer, c) = buildLocalSDP e DirSendOnly c;
               c = send (SendReInvite offer) (c\<lparr>c_localSDP := offer\<rparr>)
           in if \<not> ev_sendOk e then (Some ErrReInvite, c\<lparr>c_localSDP := prevSDP\<rparr>)
              else (None, signalMediaTimerReset defaultHoldMediaTimeout (enter StateOnHold c)))"

definition Resume :: "env \<Rightarrow> call \<Rightarrow> call_error option \<times> call" where
  "Resume e c =
     (if c_state c \<noteq> StateOnHold then (Some ErrInvalidState, c)
      else let prevSDP = c_localSDP c;
               (offer, c) = buildLocalSDP e DirSendRecv c;
               c = send (SendReInvite offer) (c\<lparr>c_localSDP := offer\<rparr>)
           in if \<not> ev_sendOk e then (Some ErrReInvite, c\<lparr>c_localSDP := prevSDP\<rparr>)
              else let c = enter StateActive c in (None, signalMediaTimerReset (effectiveMediaTimeout c) c))"

definition SendReInvite_raw :: "env \<Rightarrow> string \<Rightarrow> call \<Rightarrow> call_error option \<times> call" where
  "SendReInvite_raw e offer c =
     (if c_state c \<noteq> StateActive \<and> c_state c \<noteq> StateOnHold then (Some ErrInvalidState, c)
      else (if ev_sendOk e then None else Some ErrReInvite, send (SendReInvite offer) c))"

definition SuspendMediaTimeout :: "call \<Rightarrow> call" where
  "SuspendMediaTimeout c = signalMediaTimerReset defaultHoldMediaTimeout c"

definition RestoreMediaTimeout :: "call \<Rightarrow> call" where
  "RestoreMediaTimeout c = signalMediaTimerReset (effectiveMediaTimeout c) c"

definition SetDtmfMode :: "DtmfMode \<Rightarrow> call \<Rightarrow> call" where
  "SetDtmfMode m c = c\<lparr>c_dtmfMode := m\<rparr>"

definition Mute :: "call \<Rightarrow> call_error option \<times> call" where
  "Mute c =
     (if c_state c \<noteq> StateActive then (Some ErrInvalidState, c)
      else if c_audioMuted c then (Some ErrAlreadyMuted, c)
      else (None, fire FireMute (c\<lparr>c_audioMuted := True, c_videoMuted := map_option (\<lambda>_. True) (c_videoMuted c)\<rparr>)))"

definition Unmute :: "call \<Rightarrow> call_error option \<times> call" where
  "Unmute c =
     (if c_state c \<noteq> StateActive then (Some ErrInvalidState, c)
      else if \<not> c_audioMuted c then (Some ErrNotMuted, c)
      else (None, fire FireUnmute (c\<lparr>c_audioMuted := False, c_videoMuted := map_option (\<lambda>_. False) (c_videoMuted c)\<rparr>)))"

definition MuteVideo :: "call \<Rightarrow> call_error option \<times> call" where
  "MuteVideo c =
     (if c_state c \<noteq> StateActive then (Some ErrInvalidState, c)
      else if \<not> c_hasVideo c then (Some ErrNoVideo, c)
      else case c_videoMuted c of
             None \<Rightarrow> (Some ErrNoVideo, c)
           | Some m \<Rightarrow> if m then (Some ErrAlreadyMuted, c) else (None, c\<lparr>c_videoMuted := Some True\<rparr>))"

definition UnmuteVideo :: "call \<Rightarrow> call_error option \<times> call" where
  "UnmuteVideo c =
     (if c_state c \<noteq> StateActive then (Some ErrInvalidState, c)
      else if \<not> c_hasVideo c then (Some ErrNoVideo, c)
      else case c_videoMuted c of
             None \<Rightarrow> (Some ErrNoVideo, c)
           | Some m \<Rightarrow> if \<not> m then (Some ErrNotMuted, c) else (None, c\<lparr>c_videoMuted := Some False\<rparr>))"

section \<open>DTMF\<close>

abbreviation defaultInfoDTMFDuration :: int where "defaultInfoDTMFDuration \<equiv> 160"

text \<open>Write packets to the remote endpoint, protected where SRTP is on; \<open>marshal\<close> is the wire format of
  the RTP library.  A packet the SRTP context refuses is skipped.\<close>

definition write_rtp :: "(rtp_packet \<Rightarrow> bytes) \<Rightarrow> rtp_packet \<Rightarrow> call \<Rightarrow> call" where
  "write_rtp marshal pkt c =
     (if c_rtpConn c = None \<or> c_remoteAddr c = None then c
      else case c_srtpOut c of
             None \<Rightarrow> c\<lparr>c_wire := c_wire c @ [marshal pkt]\<rparr>
           | Some ctx \<Rightarrow>
               (case Protect ctx (marshal pkt) of
                  (ctx', Inr data) \<Rightarrow> c\<lparr>c_wire := c_wire c @ [data], c_srtpOut := Some ctx'\<rparr>
                | (ctx', Inl err) \<Rightarrow> c\<lparr>c_srtpOut := Some ctx'\<rparr>))"

definition SendDTMF :: "env \<Rightarrow> (rtp_packet \<Rightarrow> bytes) \<Rightarrow> string \<Rightarrow> call \<Rightarrow> call_error option \<times> call" where
  "SendDTMF e marshal digit c =
     (let info = (if ev_sendOk e then None else Some ErrInfo, send (SendInfoDTMF digit defaultInfoDTMFDuration) c)
      in if c_state c \<noteq> StateActive then (Some ErrInvalidState, c)
         else if DTMFDigitCode digit < 0 then (Some ErrInvalidDTMFDigit, c)
         else if c_dtmfMode c = DtmfSipInfo then info
         else if \<not> c_dtmfRTPOk c then (if c_dtmfMode c = DtmfBoth then info else (Some ErrDTMFNotNegotiated, c))
         else case EncodeDTMF digit 0 0 0 of
                None \<Rightarrow> (Some ErrInvalidDTMFDigit, c)
              | Some pkts \<Rightarrow> (None, fold (write_rtp marshal) pkts c))"

section \<open>Transfers\<close>

definition BlindTransfer :: "string \<Rightarrow> call \<Rightarrow> call_error option \<times> call" where
  "BlindTransfer target c =
     (if c_state c \<noteq> StateActive \<and> c_state c \<noteq> StateOnHold then (Some ErrInvalidState, c)
      else (None, (send (SendRefer target) c)\<lparr>c_onNotify := Some BlindHandler\<rparr>))"

text \<open>\<open>AttendedTransfer\<close> of \<open>c\<close> to the other party of \<open>b\<close>.\<close>

definition replaces_target :: "call \<Rightarrow> string \<Rightarrow> string" where
  "replaces_target b remoteURI =
     (case dialogID b of
        (callID, localTag, remoteTag) \<Rightarrow>
          remoteURI @ ''?Replaces='' @ uriEncode callID @ ''%3Bto-tag%3D'' @ uriEncode remoteTag
            @ ''%3Bfrom-tag%3D'' @ uriEncode localTag)"

definition AttendedTransfer :: "env \<Rightarrow> call \<Rightarrow> call \<Rightarrow> call_error option \<times> call" where
  "AttendedTransfer e b c =
     (if c_state b \<noteq> StateActive \<and> c_state b \<noteq> StateOnHold then (Some ErrInvalidState, c)
      else if c_state c \<noteq> StateActive \<and> c_state c \<noteq> StateOnHold then (Some ErrInvalidState, c)
      else case dialogID b of
        (callID, localTag, remoteTag) \<Rightarrow>
          if callID = [] \<or> localTag = [] \<or> remoteTag = [] then (Some ErrTransferTarget, c)
          else
            let remoteURI = first_header b (if c_direction b = DirectionOutbound then ''To'' else ''From'') sipHeaderURI
            in if remoteURI = [] then (Some ErrTransferTarget, c)
               else let c = send (SendRefer (replaces_target b remoteURI)) c
                    in if \<not> ev_sendOk e then (Some ErrRefer, c)
                       else (None, c\<lparr>c_onNotify := Some AttendedHandler\<rparr>))"

text \<open>A NOTIFY with a status code: the effect on the transferring call and on the other call.\<close>

definition transfer_reason :: "int \<Rightarrow> EndReason option" where
  "transfer_reason code =
     (if code = 200 then Some EndedByTransfer else if code \<ge> 300 then Some EndedByTransferFailed else None)"

definition FireNotify :: "int \<Rightarrow> call \<Rightarrow> call \<Rightarrow> call \<times> call" where
  "FireNotify code c b =
     (case (c_onNotify c, transfer_reason code) of
        (Some BlindHandler, Some r) \<Rightarrow> (endWithReason r c, b)
      | (Some AttendedHandler, Some r) \<Rightarrow> (endWithReason r c, endWithReason r b)
      | _ \<Rightarrow> (c, b))"

section \<open>What the peer sends\<close>

definition simulateResponse :: "env \<Rightarrow> int \<Rightarrow> call \<Rightarrow> call" where
  "simulateResponse e code c =
     (if code = 180 then (if c_state c = StateDialing then enter StateRemoteRinging c else c)
      else if code = 183 then
        (if opt_EarlyMedia (c_opts c) \<and> (c_state c = StateDialing \<or> c_state c = StateRemoteRinging)
         then fire FireMedia (enter StateEarlyMedia (c\<lparr>c_mediaActive := True\<rparr>)) else c)
      else if code = 200 then
        (if c_state c = StateDialing \<or> c_state c = StateRemoteRinging \<or> c_state c = StateEarlyMedia
         then fire FireMedia (enter StateActive (c\<lparr>c_startTime := Some (ev_now e), c_mediaActive := True\<rparr>)) else c)
      else c)"

definition simulateBye :: "call \<Rightarrow> call" where
  "simulateBye c = finish EndedByRemote c"

definition simulateCancel :: "call \<Rightarrow> call" where
  "simulateCancel c = (if c_state c \<noteq> StateRinging then c else finish EndedByCancelled c)"

text \<open>The hold and resume transitions of a re-INVITE; the callbacks are dispatched after the answer.\<close>

definition direction_change :: "string \<Rightarrow> call \<Rightarrow> callback list \<times> call" where
  "direction_change dir c =
     (if dir = DirSendOnly \<and> c_state c = StateActive
      then ([FireHold], signalMediaTimerReset defaultHoldMediaTimeout (enter StateOnHold c))
      else if dir = DirSendRecv \<and> c_state c = StateOnHold
      then ([FireResume], let c = enter StateActive c in signalMediaTimerReset (effectiveMediaTimeout c) c)
      else ([], c))"

definition simulateReInvite :: "env \<Rightarrow> string \<Rightarrow> call \<Rightarrow> call" where
  "simulateReInvite e raw c =
     (if c_state c = StateEnded then c
      else case sdp_Parse raw of
             None \<Rightarrow> c
           | Some sess \<Rightarrow>
               let c = learn_ice sess (setRemoteEndpoint e sess (c\<lparr>c_remoteSDP := raw\<rparr>));
                   (ks, c) = direction_change (Dir sess) c
               in fold fire ks (negotiateCodec sess c))"

section \<open>Video upgrade and downgrade\<close>

definition stopVideoPipeline :: "call \<Rightarrow> call" where
  "stopVideoPipeline c =
     c\<lparr>c_videoDone := None, c_videoRTCPConn := None, c_videoRTPConn := None, c_videoSrtpIn := None,
       c_videoSrtpOut := None, c_hasVideo := False, c_videoCodecType := 0, c_videoRTPPort := 0,
       c_videoRemoteAddr := None, c_videoMuted := None,
       c_videoOutClosed := (c_videoOutClosed c \<or> c_videoChans c), c_videoChans := False\<rparr>"

definition buildAnswerRejectVideoSDP :: "env \<Rightarrow> Session \<Rightarrow> call \<Rightarrow> string \<times> call" where
  "buildAnswerRejectVideoSDP e remote c =
     (let (answer, c) = buildAnswerSDP e remote DirSendRecv c in (answer @ ''m=video 0 RTP/AVP 0'' @ CRLF, c))"

text \<open>A pending upgrade: the offer, its session, and the socket bound for it.\<close>

record VideoUpgradeRequest =
  vr_remoteSDP :: string
  vr_sess :: Session
  vr_videoPort :: int
  vr_responded :: bool

definition acceptVideoUpgrade :: "env \<Rightarrow> VideoUpgradeRequest \<Rightarrow> call \<Rightarrow> call option" where
  "acceptVideoUpgrade e r c =
     (if c_state c = StateEnded then Some c
      else let c = c\<lparr>c_videoRTPConn := Some (vr_videoPort r), c_videoRTPPort := vr_videoPort r, c_remoteSDP := vr_remoteSDP r\<rparr>;
               c = setVideoRemoteEndpoint e (vr_sess r) (negotiateVideoCodec (vr_sess r) (setRemoteEndpoint e (vr_sess r) c));
               c = c\<lparr>c_opts := (c_opts c)\<lparr>opt_VideoCodecs := [c_videoCodecType c], opt_Video := True\<rparr>\<rparr>;
               c = (if c_videoChans c then c else initVideoChannels c);
               (answer, c) = buildAnswerSDP e (vr_sess r) DirSendRecv c;
               c = send (Respond 200 ''OK'' answer) (c\<lparr>c_localSDP := answer, c_pendingUpgrade := False\<rparr>);
               c = (if c_srtpLocalKey c \<noteq> [] \<and> IsSRTP (vr_sess r) then
                      (case FirstCrypto (vr_sess r) of
                         None \<Rightarrow> c
                       | Some cr \<Rightarrow>
                           (case (FromSDESInline (c_srtpLocalKey c), FromSDESInline (InlineKey cr)) of
                              (Inr o', Inr i) \<Rightarrow> c\<lparr>c_videoSrtpOut := Some o', c_videoSrtpIn := Some i\<rparr>
                            | _ \<Rightarrow> c))
                    else c)
           in startVideoMedia e c)"

definition rejectVideoUpgrade :: "env \<Rightarrow> VideoUpgradeRequest \<Rightarrow> call \<Rightarrow> call" where
  "rejectVideoUpgrade e r c =
     (if c_state c = StateEnded then c
      else let c = negotiateAudioCodec (vr_sess r) (setRemoteEndpoint e (vr_sess r) (c\<lparr>c_remoteSDP := vr_remoteSDP r\<rparr>));
               (answer, c) = buildAnswerRejectVideoSDP e (vr_sess r) c
           in send (Respond 200 ''OK'' answer) (c\<lparr>c_localSDP := answer, c_pendingUpgrade := False\<rparr>))"

text \<open>\<open>Accept\<close> and \<open>Reject\<close> of the request, through its \<open>sync.Once\<close>.\<close>

definition upgrade_Accept :: "env \<Rightarrow> VideoUpgradeRequest \<Rightarrow> call \<Rightarrow> (VideoUpgradeRequest \<times> call) option" where
  "upgrade_Accept e r c =
     (if vr_responded r then Some (r, c)
      else map_option (Pair (r\<lparr>vr_responded := True\<rparr>)) (acceptVideoUpgrade e r c))"

definition upgrade_Reject :: "env \<Rightarrow> VideoUpgradeRequest \<Rightarrow> call \<Rightarrow> VideoUpgradeRequest \<times> call" where
  "upgrade_Reject e r c =
     (if vr_responded r then (r, c) else (r\<lparr>vr_responded := True\<rparr>, rejectVideoUpgrade e r c))"

text \<open>\<open>handleReInvite\<close>; \<open>handler\<close> says whether the application registered a video request handler.  The
  request that waits for the application is returned next to the call.\<close>

definition handleReInvite :: "env \<Rightarrow> bool \<Rightarrow> string \<Rightarrow> call \<Rightarrow> VideoUpgradeRequest option \<times> call" where
  "handleReInvite e handler raw c =
     (case sdp_Parse raw of
        None \<Rightarrow> (None, send (Respond 400 ''Bad Request'' []) c)
      | Some sess \<Rightarrow>
          if c_state c = StateEnded then (None, c)
          else
            let vm = VideoMedia sess;
                offered = (case vm of None \<Rightarrow> False | Some m \<Rightarrow> md_Codecs m \<noteq> [])
            in if c_hasVideo c \<and> (case vm of None \<Rightarrow> True | Some m \<Rightarrow> md_Port m = 0 \<or> md_Codecs m = []) then
                 let c = negotiateAudioCodec sess (setRemoteEndpoint e sess ((stopVideoPipeline c)\<lparr>c_remoteSDP := raw\<rparr>));
                     dir = (if Dir sess = [] then DirSendRecv else Dir sess);
                     (answer, c) = buildAnswerSDP e sess dir c
                 in (None, send (Respond 200 ''OK'' answer) (c\<lparr>c_localSDP := answer\<rparr>))
               else if \<not> c_hasVideo c \<and> offered \<and> (case vm of None \<Rightarrow> False | Some m \<Rightarrow> md_Port m > 0) then
                 (case listenRTPPort e (c_rtpPortMin c) (c_rtpPortMax c) of
                    None \<Rightarrow> (None, send (Respond 500 ''Internal Server Error'' []) c)
                  | Some port \<Rightarrow>
                      let r = \<lparr>vr_remoteSDP = raw, vr_sess = sess, vr_videoPort = port, vr_responded = False\<rparr>;
                          c = c\<lparr>c_pendingUpgrade := True\<rparr>
                      in if handler then (Some r, fire FireVideoRequest c)
                         else (None, snd (upgrade_Reject e r c)))
               else
                 let c = setRemoteEndpoint e sess (c\<lparr>c_remoteSDP := raw\<rparr>);
                     (ks, c) = direction_change (Dir sess) c;
                     c = negotiateCodec sess c;
                     (answer, c) = buildAnswerSDP e sess (if Dir sess = DirSendOnly then DirRecvOnly else DirSendRecv) c;
                     c = send (Respond 200 ''OK'' answer) (c\<lparr>c_localSDP := answer\<rparr>)
                 in (None, fold fire ks c))"

definition AddVideo :: "env \<Rightarrow> int list \<Rightarrow> call \<Rightarrow> call_error option \<times> call" where
  "AddVideo e codecs c =
     (let codecs = (if codecs = [] then [VideoCodecH264, VideoCodecVP8] else codecs)
      in if c_state c \<noteq> StateActive then (Some ErrInvalidState, c)
         else if c_hasVideo c then (Some ErrVideoAlreadyActive, c)
         else let c = c\<lparr>c_opts := (c_opts c)\<lparr>opt_VideoCodecs := codecs, opt_Video := True\<rparr>\<rparr>
              in (case ensureVideoRTPPort e c of
                    (False, c) \<Rightarrow> (Some ErrPort, c)
                  | (True, c) \<Rightarrow>
                      let (offer, c) = buildLocalSDP e DirSendRecv c
                      in (if ev_sendOk e then None else Some ErrReInvite,
                          send (SendReInvite offer) (c\<lparr>c_localSDP := offer\<rparr>))))"

section \<open>New calls\<close>

definition blank_call :: "CallState \<Rightarrow> Direction \<Rightarrow> DialOptions \<Rightarrow> (string \<Rightarrow> string list) \<Rightarrow> string \<Rightarrow> call" where
  "blank_call st dir opts hdrs callID = \<lparr>c_headers = hdrs, c_callID = callID, c_state = st, c_direction = dir, c_opts = opts,
     c_startTime = None, c_dtmfMode = DtmfRfc4733, c_dtmfRTPOk = False, c_hasVideo = False, c_videoCodecType = 0,
     c_codecPrefs = [], c_localIP = [], c_hostIP = [], c_rtpPortMin = 0, c_rtpPortMax = 0, c_rtpPort = 0,
     c_rtpConn = None, c_rtcpConn = None, c_remoteAddr = None, c_remoteIP = [], c_remotePort = 0, c_localSDP = [],
     c_remoteSDP = [], c_srtpLocalKey = [], c_srtpIn = None, c_srtpOut = None, c_videoSrtpIn = None,
     c_videoSrtpOut = None, c_iceEnabled = False, c_iceAgent = None, c_codec = 0, c_sessionTimer = None,
     c_mediaActive = False, c_mediaTimeout = 0, c_timerReset = None, c_mediaDone = None, c_videoDone = None,
     c_audioMuted = False, c_videoMuted = None, c_videoChans = False, c_outClosed = False, c_videoOutClosed = False,
     c_videoRTPPort = 0, c_videoRTPConn = None, c_videoRTCPConn = None, c_videoRemoteAddr = None,
     c_pendingUpgrade = False, c_onNotify = None, c_wire = [], c_sent = [], c_fired = []\<rparr>"

definition newInboundCall :: "(string \<Rightarrow> string list) \<Rightarrow> string \<Rightarrow> call" where
  "newInboundCall hdrs callID =
     blank_call StateRinging DirectionInbound \<lparr>opt_EarlyMedia = False, opt_Video = False, opt_VideoCodecs = []\<rparr> hdrs callID"

definition newOutboundCall :: "DialOptions \<Rightarrow> (string \<Rightarrow> string list) \<Rightarrow> string \<Rightarrow> call" where
  "newOutboundCall opts hdrs callID = blank_call StateDialing DirectionOutbound opts hdrs callID"

end
