(* ===== verification/CallProps.thy ===== *)
theory CallProps
  imports Call
begin

text \<open>
  The life of a call.  Whatever the application, the peer and the timers do, in whatever order, the
  states a call reports are the states it takes, they follow the call state machine, and a call that
  has ended has released its sockets, timers and keys and says so once.
\<close>

named_theorems call_frame \<open>what leaves the state and the callbacks of a call alone\<close>

section \<open>Operations that do not change the state\<close>

lemma send_frame [call_frame]: "c_state (send m c) = c_state c" "c_fired (send m c) = c_fired c" "c_mediaDone (send m c) = c_mediaDone c"
  by (simp_all add: send_def)

lemma setRemoteEndpoint_frame [call_frame]:
  "c_state (setRemoteEndpoint e s c) = c_state c" "c_fired (setRemoteEndpoint e s c) = c_fired c" "c_mediaDone (setRemoteEndpoint e s c) = c_mediaDone c"
  by (simp_all add: setRemoteEndpoint_def Let_def split: list.split)

lemma ensureRTPPort_frame [call_frame]:
  "c_state (snd (ensureRTPPort e c)) = c_state c" "c_fired (snd (ensureRTPPort e c)) = c_fired c" "c_mediaDone (snd (ensureRTPPort e c)) = c_mediaDone c"
  by (simp_all add: ensureRTPPort_def Let_def split: option.split)

lemma ensureVideoRTPPort_frame [call_frame]:
  "c_state (snd (ensureVideoRTPPort e c)) = c_state c" "c_fired (snd (ensureVideoRTPPort e c)) = c_fired c" "c_mediaDone (snd (ensureVideoRTPPort e c)) = c_mediaDone c"
  by (simp_all add: ensureVideoRTPPort_def Let_def split: option.split)

lemma buildICEParams_frame [call_frame]:
  "c_state (snd (buildICEParams e c)) = c_state c" "c_fired (snd (buildICEParams e c)) = c_fired c" "c_mediaDone (snd (buildICEParams e c)) = c_mediaDone c"
  by (simp_all add: buildICEParams_def Let_def split: option.split)

lemma learn_ice_frame [call_frame]:
  "c_state (learn_ice s c) = c_state c" "c_fired (learn_ice s c) = c_fired c" "c_mediaDone (learn_ice s c) = c_mediaDone c"
  by (simp_all add: learn_ice_def split: option.split)

lemma snd_case_prod: "snd (case x of (a, b) \<Rightarrow> (f a b, g b)) = g (snd x)"
  by (cases x) simp

lemma buildLocalSDP_call: "snd (buildLocalSDP e d c) = snd (buildICEParams e (snd (ensureRTPPort e c)))"
  by (simp add: buildLocalSDP_def Let_def split: prod.split)

lemma buildAnswerSDP_call:
  "snd (buildAnswerSDP e s d c) = learn_ice s (snd (buildICEParams e (snd (ensureRTPPort e c))))"
  by (simp add: buildAnswerSDP_def Let_def split: prod.split)

lemma build_frame [call_frame]:
  "c_state (snd (buildLocalSDP e d c)) = c_state c" "c_fired (snd (buildLocalSDP e d c)) = c_fired c" "c_mediaDone (snd (buildLocalSDP e d c)) = c_mediaDone c"
  "c_state (snd (buildAnswerSDP e s d c)) = c_state c" "c_fired (snd (buildAnswerSDP e s d c)) = c_fired c" "c_mediaDone (snd (buildAnswerSDP e s d c)) = c_mediaDone c"
  by (simp_all add: buildLocalSDP_call buildAnswerSDP_call call_frame)

lemma negotiate_frame [call_frame]:
  "c_state (negotiateAudioCodec s c) = c_state c" "c_fired (negotiateAudioCodec s c) = c_fired c" "c_mediaDone (negotiateAudioCodec s c) = c_mediaDone c"
  "c_state (negotiateVideoCodec s c) = c_state c" "c_fired (negotiateVideoCodec s c) = c_fired c" "c_mediaDone (negotiateVideoCodec s c) = c_mediaDone c"
  "c_state (negotiateCodec s c) = c_state c" "c_fired (negotiateCodec s c) = c_fired c" "c_mediaDone (negotiateCodec s c) = c_mediaDone c"
  by (simp_all add: negotiateAudioCodec_def negotiateVideoCodec_def negotiateCodec_def Let_def split: option.split)

lemma video_frame [call_frame]:
  "c_state (setVideoRemoteEndpoint e s c) = c_state c" "c_fired (setVideoRemoteEndpoint e s c) = c_fired c" "c_mediaDone (setVideoRemoteEndpoint e s c) = c_mediaDone c"
  "c_state (initVideoChannels c) = c_state c" "c_fired (initVideoChannels c) = c_fired c" "c_mediaDone (initVideoChannels c) = c_mediaDone c"
  "c_state (stopVideoPipeline c) = c_state c" "c_fired (stopVideoPipeline c) = c_fired c" "c_mediaDone (stopVideoPipeline c) = c_mediaDone c"
  by (simp_all add: setVideoRemoteEndpoint_def initVideoChannels_def stopVideoPipeline_def split: option.split)

lemma timer_frame [call_frame]:
  "c_state (signalMediaTimerReset d c) = c_state c" "c_fired (signalMediaTimerReset d c) = c_fired c" "c_mediaDone (signalMediaTimerReset d c) = c_mediaDone c"
  "c_state (startSessionTimer c) = c_state c" "c_fired (startSessionTimer c) = c_fired c" "c_mediaDone (startSessionTimer c) = c_mediaDone c"
  by (simp_all add: signalMediaTimerReset_def startSessionTimer_def split: list.split option.split)

lemma write_rtp_frame [call_frame]:
  "c_state (write_rtp f p c) = c_state c" "c_fired (write_rtp f p c) = c_fired c" "c_mediaDone (write_rtp f p c) = c_mediaDone c"
  by (simp_all add: write_rtp_def split: option.split prod.split sum.split)

lemma fold_write_rtp_frame [call_frame]:
  "c_state (fold (write_rtp f) ps c) = c_state c" "c_fired (fold (write_rtp f) ps c) = c_fired c" "c_mediaDone (fold (write_rtp f) ps c) = c_mediaDone c"
  by (induction ps arbitrary: c) (simp_all add: call_frame)

section \<open>The state machine\<close>

definition allowed :: "CallState \<Rightarrow> CallState \<Rightarrow> bool" where
  "allowed s t =
     (case s of
        StateIdle \<Rightarrow> False
      | StateRinging \<Rightarrow> t \<in> {StateActive, StateEnded}
      | StateDialing \<Rightarrow> t \<in> {StateRemoteRinging, StateEarlyMedia, StateActive, StateEnded}
      | StateRemoteRinging \<Rightarrow> t \<in> {StateEarlyMedia, StateActive, StateEnded}
      | StateEarlyMedia \<Rightarrow> t \<in> {StateActive, StateEnded}
      | StateActive \<Rightarrow> t \<in> {StateOnHold, StateEnded}
      | StateOnHold \<Rightarrow> t \<in> {StateActive, StateEnded}
      | StateEnded \<Rightarrow> False)"

fun follows :: "CallState \<Rightarrow> CallState list \<Rightarrow> bool" where
  "follows s [] = True"
| "follows s (t # ts) = (allowed s t \<and> follows t ts)"

fun state_events :: "callback list \<Rightarrow> CallState list" where
  "state_events [] = []"
| "state_events (FireState s # ks) = s # state_events ks"
| "state_events (k # ks) = state_events ks"

fun end_events :: "callback list \<Rightarrow> EndReason list" where
  "end_events [] = []"
| "end_events (FireEnded r # ks) = r # end_events ks"
| "end_events (k # ks) = end_events ks"

lemma state_events_append [simp]: "state_events (xs @ ys) = state_events xs @ state_events ys"
  by (induction xs rule: state_events.induct) simp_all

lemma end_events_append [simp]: "end_events (xs @ ys) = end_events xs @ end_events ys"
  by (induction xs rule: end_events.induct) simp_all

lemma follows_append: "follows s (xs @ ys) \<longleftrightarrow> follows s xs \<and> follows (last (s # xs)) ys"
  by (induction xs arbitrary: s) auto

text \<open>Nothing of a call is left open: sockets closed, timer stopped, goroutines told to stop, key
  material wiped.\<close>

definition wiped :: "srtp_context option \<Rightarrow> bool" where
  "wiped ctx = (\<forall>x. ctx = Some x \<longrightarrow> (\<exists>y. x = Zeroize y))"

definition released :: "call \<Rightarrow> bool" where
  "released c =
     (c_rtpConn c = None \<and> c_rtcpConn c = None \<and> c_videoRTPConn c = None \<and> c_videoRTCPConn c = None
      \<and> c_sessionTimer c = None \<and> c_mediaDone c \<noteq> Some False \<and> c_videoDone c \<noteq> Some False
      \<and> wiped (c_srtpIn c) \<and> wiped (c_srtpOut c) \<and> wiped (c_videoSrtpIn c) \<and> wiped (c_videoSrtpOut c)
      \<and> \<not> c_pendingUpgrade c \<and> c_onNotify c = None)"

definition good :: "CallState \<Rightarrow> call \<Rightarrow> bool" where
  "good s0 c =
     (follows s0 (state_events (c_fired c)) \<and> last (s0 # state_events (c_fired c)) = c_state c
      \<and> length (end_events (c_fired c)) = (if c_state c = StateEnded then 1 else 0)
      \<and> c_state c \<noteq> StateIdle \<and> (c_state c = StateEnded \<longrightarrow> released c))"

definition quiet :: "call \<Rightarrow> call \<Rightarrow> bool" where
  "quiet c c' =
     (c_state c' = c_state c
      \<and> (\<exists>ks. c_fired c' = c_fired c @ ks \<and> state_events ks = [] \<and> end_events ks = []))"

lemma good_quiet: "good s0 c \<Longrightarrow> quiet c c' \<Longrightarrow> c_state c \<noteq> StateEnded \<Longrightarrow> good s0 c'"
  by (auto simp: good_def quiet_def)

lemma quietI: "c_state c' = c_state c \<Longrightarrow> c_fired c' = c_fired c \<Longrightarrow> quiet c c'"
  by (auto simp: quiet_def)

lemma quiet_fire:
  "quiet c c' \<Longrightarrow> state_events [k] = [] \<Longrightarrow> end_events [k] = [] \<Longrightarrow> quiet c (fire k c')"
  by (auto simp: quiet_def fire_def)

lemma quiet_trans: "quiet a b \<Longrightarrow> quiet b c \<Longrightarrow> quiet a c"
  by (auto simp: quiet_def)

lemma enter_fields:
  "c_state (enter st c) = st" "c_fired (enter st c) = c_fired c @ [FireState st]"
  by (simp_all add: enter_def fireOnState_def fire_def)

lemma finish_fields: "c_state (finish r c) = StateEnded" "c_fired (finish r c) = c_fired c @ [FireState StateEnded, FireEnded r]"
  by (simp_all add: finish_def fireOnEnded_def Let_def enter_def fireOnState_def fire_def)

lemma released_finish: "released (finish r c)"
  by (auto simp: released_def wiped_def finish_def fireOnEnded_def Let_def enter_def fireOnState_def fire_def)

text \<open>A step of a call: it stays where it is, or it takes one edge of the state machine and reports it.\<close>

definition moves :: "call \<Rightarrow> call \<Rightarrow> bool" where
  "moves c c' =
     (quiet c c' \<or>
      (\<exists>ks. c_fired c' = c_fired c @ ks \<and> state_events ks = [c_state c'] \<and> allowed (c_state c) (c_state c')
         \<and> (if c_state c' = StateEnded then length (end_events ks) = 1 \<and> released c' else end_events ks = [])))"

lemma moves_enter:
  assumes "quiet c d" "allowed (c_state c) st" "st \<noteq> StateEnded" "quiet (enter st d) c'"
  shows "moves c c'"
  using assms by (auto simp: moves_def quiet_def enter_fields)

lemma allowed_end: "s \<noteq> StateEnded \<Longrightarrow> s \<noteq> StateIdle \<Longrightarrow> allowed s StateEnded"
  by (cases s) (simp_all add: allowed_def)

lemma moves_finish:
  assumes "quiet c d" "c_state c \<noteq> StateEnded" "c_state c \<noteq> StateIdle"
  shows "moves c (finish r d)"
  using assms allowed_end [OF assms(2,3)] released_finish [of r d]
  by (auto simp: moves_def quiet_def finish_fields)

lemma good_moves:
  assumes "good s0 c" "c_state c \<noteq> StateEnded" "moves c c'"
  shows "good s0 c'"
  using assms(3) unfolding moves_def
proof
  assume "quiet c c'"
  then show ?thesis using good_quiet assms by blast
next
  assume "\<exists>ks. c_fired c' = c_fired c @ ks \<and> state_events ks = [c_state c'] \<and> allowed (c_state c) (c_state c')
      \<and> (if c_state c' = StateEnded then length (end_events ks) = 1 \<and> released c' else end_events ks = [])"
  then obtain ks where ks: "c_fired c' = c_fired c @ ks" "state_events ks = [c_state c']" "allowed (c_state c) (c_state c')"
    "if c_state c' = StateEnded then length (end_events ks) = 1 \<and> released c' else end_events ks = []" by blast
  moreover have "c_state c' \<noteq> StateIdle" using ks(3) by (cases "c_state c") (auto simp: allowed_def)
  ultimately show ?thesis
    using assms(1,2) by (auto simp: good_def follows_append split: if_splits)
qed

section \<open>Operations\<close>

datatype call_op =
    DoAccept
  | DoReject int string
  | DoEnd
  | DoHold
  | DoResume
  | DoReInvite string
  | DoSuspendTimeout
  | DoRestoreTimeout
  | DoSetDtmf DtmfMode
  | DoMute
  | DoUnmute
  | DoMuteVideo
  | DoUnmuteVideo
  | DoSendDTMF string
  | DoBlindTransfer string
  | DoAttendedTransfer call
  | DoAddVideo "int list"
  | DoUpgradeAccept VideoUpgradeRequest
  | DoUpgradeReject VideoUpgradeRequest
  | GotNotify int
  | GotResponse int
  | GotBye
  | GotCancel
  | GotReInvite bool string
  | SessionTimer
  | MediaTimer

text \<open>One operation; \<open>None\<close> is a panic.  \<open>marshal\<close> is the wire format of RTP packets.\<close>

fun call_step :: "(rtp_packet \<Rightarrow> bytes) \<Rightarrow> env \<Rightarrow> call_op \<Rightarrow> call \<Rightarrow> call option" where
  "call_step marshal e DoAccept c = map_option snd (Accept e c)"
| "call_step marshal e (DoReject code reason) c = Some (snd (Reject code reason c))"
| "call_step marshal e DoEnd c = Some (snd (Call.End c))"
| "call_step marshal e DoHold c = Some (snd (Hold e c))"
| "call_step marshal e DoResume c = Some (snd (Resume e c))"
| "call_step marshal e (DoReInvite s) c = Some (snd (SendReInvite_raw e s c))"
| "call_step marshal e DoSuspendTimeout c = Some (SuspendMediaTimeout c)"
| "call_step marshal e DoRestoreTimeout c = Some (RestoreMediaTimeout c)"
| "call_step marshal e (DoSetDtmf m) c = Some (SetDtmfMode m c)"
| "call_step marshal e DoMute c = Some (snd (Mute c))"
| "call_step marshal e DoUnmute c = Some (snd (Unmute c))"
| "call_step marshal e DoMuteVideo c = Some (snd (MuteVideo c))"
| "call_step marshal e DoUnmuteVideo c = Some (snd (UnmuteVideo c))"
| "call_step marshal e (DoSendDTMF d) c = Some (snd (SendDTMF e marshal d c))"
| "call_step marshal e (DoBlindTransfer t) c = Some (snd (BlindTransfer t c))"
| "call_step marshal e (DoAttendedTransfer b) c = Some (snd (AttendedTransfer e b c))"
| "call_step marshal e (DoAddVideo codecs) c = Some (snd (AddVideo e codecs c))"
| "call_step marshal e (DoUpgradeAccept r) c = map_option snd (upgrade_Accept e r c)"
| "call_step marshal e (DoUpgradeReject r) c = Some (snd (upgrade_Reject e r c))"
| "call_step marshal e (GotNotify code) c = Some (fst (FireNotify code c c))"
| "call_step marshal e (GotResponse code) c = Some (simulateResponse e code c)"
| "call_step marshal e GotBye c = Some (simulateBye c)"
| "call_step marshal e GotCancel c = Some (simulateCancel c)"
| "call_step marshal e (GotReInvite handler raw) c = Some (snd (handleReInvite e handler raw c))"
| "call_step marshal e SessionTimer c = Some (session_refresh e c)"
| "call_step marshal e MediaTimer c = Some (media_timeout c)"

text \<open>The two handlers that end a call without looking at its state.\<close>

fun unguarded :: "call_op \<Rightarrow> bool" where
  "unguarded GotBye = True"
| "unguarded MediaTimer = True"
| "unguarded op = False"

fun call_run :: "(rtp_packet \<Rightarrow> bytes) \<Rightarrow> (env \<times> call_op) list \<Rightarrow> call \<Rightarrow> call option" where
  "call_run marshal [] c = Some c"
| "call_run marshal ((e, op) # ops) c =
     (if unguarded op \<and> c_state c = StateEnded then None
      else case call_step marshal e op c of None \<Rightarrow> None | Some c' \<Rightarrow> call_run marshal ops c')"

section \<open>After the end\<close>

text \<open>An ended call keeps its state, its callbacks and what it has released.\<close>

definition at_rest :: "call \<Rightarrow> call \<Rightarrow> bool" where
  "at_rest c c' = (c_state c' = StateEnded \<and> c_fired c' = c_fired c \<and> (released c \<longrightarrow> released c'))"

lemma at_rest_refl: "c_state c = StateEnded \<Longrightarrow> at_rest c c"
  by (simp add: at_rest_def)

lemma ended_guarded:
  assumes "c_state c = StateEnded" "\<not> unguarded op" "call_step marshal e op c = Some c'"
  shows "at_rest c c'"
proof -
  have t: "at_rest c (signalMediaTimerReset d c)" for d
    using assms(1) by (simp add: at_rest_def signalMediaTimerReset_def released_def)
  have s: "at_rest c (send m c)" for m using assms(1) by (simp add: at_rest_def send_def released_def)
  have m: "at_rest c (SetDtmfMode m c)" for m using assms(1) by (simp add: at_rest_def SetDtmfMode_def released_def)
  have n: "fst (FireNotify code c c) = c" for code
    using assms(1) by (auto simp: FireNotify_def endWithReason_def split: option.split notify_handler.split)
  have h: "at_rest c (snd (handleReInvite e handler raw c))" for handler raw
    using assms(1) s by (auto simp: handleReInvite_def at_rest_refl split: option.split)
  show ?thesis
    using assms t s m n h at_rest_refl [OF assms(1)]
    by (cases op)
      (auto simp: Accept_def accept_section_def Reject_def Call.End_def Hold_def Resume_def SendReInvite_raw_def
        SuspendMediaTimeout_def RestoreMediaTimeout_def Mute_def Unmute_def MuteVideo_def UnmuteVideo_def SendDTMF_def
        BlindTransfer_def AttendedTransfer_def AddVideo_def upgrade_Accept_def acceptVideoUpgrade_def upgrade_Reject_def
        rejectVideoUpgrade_def simulateResponse_def simulateCancel_def session_refresh_def Let_def split: if_splits)
qed

lemma good_at_rest: "good s0 c \<Longrightarrow> c_state c = StateEnded \<Longrightarrow> at_rest c c' \<Longrightarrow> good s0 c'"
  by (simp add: good_def at_rest_def)

section \<open>Before the end\<close>

lemma startMedia_quiet: "startMedia e c = Some c' \<Longrightarrow> quiet c c'"
  by (auto simp: startMedia_def Let_def intro!: quietI split: if_splits option.splits)

lemma startVideoMedia_quiet: "startVideoMedia e c = Some c' \<Longrightarrow> quiet c c'"
  by (auto simp: startVideoMedia_def Let_def quiet_def fire_def split: if_splits option.splits)

lemma accept_tail_quiet: "accept_tail e a b c = Some c' \<Longrightarrow> quiet c c'"
  by (auto simp: accept_tail_def quietI intro!: quiet_fire dest!: startMedia_quiet startVideoMedia_quiet
      intro: quiet_trans split: if_splits option.splits)

lemma accept_section_moves:
  assumes "c_state c = StateRinging"
  shows "fst (accept_section e c) = None \<and> c_state (snd (accept_section e c)) = StateActive
    \<and> c_fired (snd (accept_section e c)) = c_fired c @ [FireState StateActive]"
  using assms by (simp add: accept_section_def Let_def case_prod_beta fireOnState_def fire_def call_frame split: option.split)

lemma accept_section_mediaDone:
  assumes "c_state c = StateRinging"
  shows "c_mediaDone (snd (accept_section e c)) = c_mediaDone c"
  using assms by (simp add: accept_section_def Let_def case_prod_beta fireOnState_def fire_def call_frame split: option.split)

lemma Accept_moves:
  assumes "Accept e c = Some (r, c')" "c_state c \<noteq> StateEnded"
  shows "moves c c'"
proof (cases "c_state c = StateRinging")
  case True
  obtain d where d: "accept_section e c = (None, d)" "c_state d = StateActive" "c_fired d = c_fired c @ [FireState StateActive]"
    using accept_section_moves [OF True, of e] by (cases "accept_section e c") auto
  then have "quiet d c'" using assms(1) by (auto simp: Accept_def dest!: accept_tail_quiet)
  then show ?thesis using True d by (auto simp: moves_def quiet_def allowed_def)
next
  case False
  then show ?thesis using assms by (auto simp: Accept_def accept_section_def moves_def intro: quietI)
qed

lemma End_moves: "c_state c \<noteq> StateEnded \<Longrightarrow> c_state c \<noteq> StateIdle \<Longrightarrow> moves c (snd (Call.End c))"
  by (cases "c_state c") (simp_all add: Call.End_def, (rule moves_finish; simp add: quietI call_frame)+)

lemma Hold_moves: "c_state c \<noteq> StateEnded \<Longrightarrow> moves c (snd (Hold e c))"
  by (auto simp: Hold_def Let_def case_prod_beta moves_def quiet_def enter_fields call_frame allowed_def)

lemma Resume_moves: "c_state c \<noteq> StateEnded \<Longrightarrow> moves c (snd (Resume e c))"
  by (auto simp: Resume_def Let_def case_prod_beta moves_def quiet_def enter_fields call_frame allowed_def)

lemma mute_quiet:
  "quiet c (snd (Mute c))" "quiet c (snd (Unmute c))" "quiet c (snd (MuteVideo c))" "quiet c (snd (UnmuteVideo c))"
  by (auto simp: Mute_def Unmute_def MuteVideo_def UnmuteVideo_def quiet_def fire_def split: option.split)

lemma signalling_quiet:
  "quiet c (snd (SendReInvite_raw e s c))" "quiet c (SuspendMediaTimeout c)" "quiet c (RestoreMediaTimeout c)"
  "quiet c (SetDtmfMode m c)" "quiet c (snd (BlindTransfer t c))" "quiet c (snd (AttendedTransfer e b c))"
  "quiet c (session_refresh e c)"
  by (auto intro!: quietI simp: SendReInvite_raw_def SuspendMediaTimeout_def RestoreMediaTimeout_def SetDtmfMode_def
      BlindTransfer_def AttendedTransfer_def session_refresh_def Let_def case_prod_beta call_frame)

lemma SendDTMF_quiet: "quiet c (snd (SendDTMF e f d c))"
  by (rule quietI) (simp_all add: SendDTMF_def Let_def call_frame split: option.split)

lemma AddVideo_quiet: "quiet c (snd (AddVideo e codecs c))"
proof -
  let ?d = "c\<lparr>c_opts := (c_opts c)\<lparr>opt_VideoCodecs := (if codecs = [] then [VideoCodecH264, VideoCodecVP8] else codecs), opt_Video := True\<rparr>\<rparr>"
  have "c_state (snd (ensureVideoRTPPort e ?d)) = c_state c" "c_fired (snd (ensureVideoRTPPort e ?d)) = c_fired c"
    by (simp_all add: call_frame)
  then show ?thesis
    by (cases "ensureVideoRTPPort e ?d")
      (auto intro!: quietI simp: AddVideo_def Let_def case_prod_beta call_frame split: bool.split)
qed

lemma rejectVideoUpgrade_quiet: "quiet c (rejectVideoUpgrade e r c)"
  by (rule quietI) (simp_all add: rejectVideoUpgrade_def buildAnswerRejectVideoSDP_def Let_def case_prod_beta call_frame)

lemma acceptVideoUpgrade_quiet:
  assumes "acceptVideoUpgrade e r c = Some c'"
  shows "quiet c c'"
proof (cases "c_state c = StateEnded")
  case True
  then show ?thesis using assms by (auto simp: acceptVideoUpgrade_def intro: quietI)
next
  case False
  then obtain d where "startVideoMedia e d = Some c'" "c_state d = c_state c" "c_fired d = c_fired c"
    using assms by (auto simp: acceptVideoUpgrade_def Let_def case_prod_beta call_frame split: option.splits sum.splits if_splits)
  then show ?thesis using startVideoMedia_quiet quietI quiet_trans by metis
qed

lemma direction_change_moves:
  assumes "direction_change d c = (ks, c')"
  shows "state_events ks = [] \<and> end_events ks = []
    \<and> (c_state c' = c_state c \<and> c_fired c' = c_fired c \<or> allowed (c_state c) (c_state c') \<and> c_state c' \<noteq> StateEnded
        \<and> c_fired c' = c_fired c @ [FireState (c_state c')])"
  using assms by (auto simp: direction_change_def Let_def enter_fields call_frame allowed_def split: if_splits)

lemma fold_fire: "c_state (fold fire ks c) = c_state c" "c_fired (fold fire ks c) = c_fired c @ ks"
  by (induction ks arbitrary: c) (simp_all add: fire_def)

lemma direction_change_step:
  assumes "direction_change d c = (ks, c1)" "c_state c2 = c_state c1" "c_fired c2 = c_fired c1" "c_state c0 = c_state c" "c_fired c0 = c_fired c"
  shows "moves c0 (fold fire ks c2)"
proof -
  have k: "state_events ks = []" "end_events ks = []" using direction_change_moves [OF assms(1)] by auto
  from direction_change_moves [OF assms(1)] consider
    "c_state c1 = c_state c" "c_fired c1 = c_fired c" |
    "allowed (c_state c) (c_state c1)" "c_state c1 \<noteq> StateEnded" "c_fired c1 = c_fired c @ [FireState (c_state c1)]" by blast
  then show ?thesis
    by cases (use assms k in \<open>auto simp: moves_def quiet_def fold_fire\<close>)
qed

lemma handleReInvite_moves:
  assumes "c_state c \<noteq> StateEnded"
  shows "moves c (snd (handleReInvite e handler raw c))"
proof (cases "sdp_Parse raw")
  case None
  then show ?thesis by (simp add: handleReInvite_def moves_def quietI call_frame)
next
  case (Some sess)
  let ?c = "setRemoteEndpoint e sess (c\<lparr>c_remoteSDP := raw\<rparr>)"
  obtain ks c1 where dc: "direction_change (Dir sess) ?c = (ks, c1)" by fastforce
  let ?down = "c_hasVideo c \<and> (case VideoMedia sess of None \<Rightarrow> True | Some m \<Rightarrow> md_Port m = 0 \<or> md_Codecs m = [])"
  let ?up = "\<not> c_hasVideo c \<and> (case VideoMedia sess of None \<Rightarrow> False | Some m \<Rightarrow> md_Codecs m \<noteq> [])
    \<and> (case VideoMedia sess of None \<Rightarrow> False | Some m \<Rightarrow> md_Port m > 0)"
  consider (down) ?down | (up) "\<not> ?down" ?up | (audio) "\<not> ?down" "\<not> ?up" by blast
  then show ?thesis
  proof cases
    case down
    then show ?thesis
      unfolding moves_def by (intro disjI1 quietI)
        (use Some assms in \<open>simp_all add: handleReInvite_def Let_def case_prod_beta call_frame\<close>)
  next
    case up
    have "quiet c (c\<lparr>c_pendingUpgrade := True\<rparr>)" by (simp add: quietI)
    then have "quiet c (rejectVideoUpgrade e r (c\<lparr>c_pendingUpgrade := True\<rparr>))" for r
      using rejectVideoUpgrade_quiet quiet_trans by blast
    moreover have "quiet c (fire FireVideoRequest (c\<lparr>c_pendingUpgrade := True\<rparr>))"
      by (auto simp: quiet_def fire_def)
    ultimately show ?thesis
      using Some assms up
      by (auto simp: handleReInvite_def moves_def quietI call_frame upgrade_Reject_def Let_def split: option.split)
  next
    case audio
    let ?c2 = "let c = negotiateCodec sess c1;
        (answer, c) = buildAnswerSDP e sess (if Dir sess = DirSendOnly then DirRecvOnly else DirSendRecv) c
      in send (Respond 200 ''OK'' answer) (c\<lparr>c_localSDP := answer\<rparr>)"
    have "snd (handleReInvite e handler raw c) = fold fire ks ?c2"
      unfolding handleReInvite_def Some option.case Let_def if_not_P [OF assms] if_not_P [OF audio(1)] if_not_P [OF audio(2)]
      using dc by (simp add: case_prod_beta)
    moreover have "moves c (fold fire ks ?c2)"
      by (rule direction_change_step [OF dc]) (simp_all add: Let_def case_prod_beta call_frame)
    ultimately show ?thesis by simp
  qed
qed

lemma peer_moves:
  assumes "c_state c \<noteq> StateEnded" "c_state c \<noteq> StateIdle"
  shows "moves c (simulateResponse e code c)" "moves c (simulateBye c)" "moves c (simulateCancel c)"
    "moves c (media_timeout c)" "moves c (endWithReason r c)" "moves c (snd (Reject code reason c))"
    "moves c (fst (FireNotify code c c))"
proof -
  have q: "quiet c c" "quiet c (send m c)" for m by (simp_all add: quietI call_frame)
  note f = moves_finish [OF q(1) assms] moves_finish [OF q(2) assms]
  have m: "moves c c" using q(1) by (simp add: moves_def)
  show "moves c (simulateBye c)" "moves c (simulateCancel c)" "moves c (media_timeout c)" "moves c (snd (Reject code reason c))"
    using f m by (simp_all add: simulateBye_def simulateCancel_def media_timeout_def Reject_def)
  show e: "moves c (endWithReason r c)" for r using f assms(1) by (simp add: endWithReason_def)
  show "moves c (fst (FireNotify code c c))"
    using m e by (simp add: FireNotify_def split: option.split notify_handler.split)
  show "moves c (simulateResponse e code c)"
    by (auto simp: simulateResponse_def moves_def quiet_def enter_fields fire_def allowed_def)
qed

lemma call_step_moves:
  assumes "c_state c \<noteq> StateEnded" "c_state c \<noteq> StateIdle" "call_step marshal e op c = Some c'"
  shows "moves c c'"
proof -
  have q: "quiet c d \<Longrightarrow> moves c d" for d by (simp add: moves_def)
  have m: "moves c c" by (simp add: q quietI)
  have u: "moves c d" if "upgrade_Accept e r c = Some (a, d)" for r a d
    using that m q acceptVideoUpgrade_quiet by (auto simp: upgrade_Accept_def split: if_splits)
  have w: "moves c (snd (upgrade_Reject e r c))" for r
    using rejectVideoUpgrade_quiet m by (auto simp: upgrade_Reject_def intro: q)
  show ?thesis
    using assms(3)
    by (cases op)
      (auto intro: u w q mute_quiet signalling_quiet SendDTMF_quiet AddVideo_quiet Accept_moves [OF _ assms(1)]
        End_moves [OF assms(1,2)] Hold_moves [OF assms(1)] Resume_moves [OF assms(1)]
        handleReInvite_moves [OF assms(1)] peer_moves [OF assms(1,2)])
qed

lemma good_run: "good s0 c \<Longrightarrow> call_run marshal ops c = Some c' \<Longrightarrow> good s0 c'"
proof (induction ops arbitrary: c)
  case (Cons x ops)
  obtain e op where x: "x = (e, op)" by fastforce
  obtain d where d: "call_step marshal e op c = Some d" "call_run marshal ops d = Some c'"
    "\<not> (unguarded op \<and> c_state c = StateEnded)"
    using Cons.prems(2) x by (auto split: if_splits option.splits)
  have "good s0 d"
  proof (cases "c_state c = StateEnded")
    case True
    then show ?thesis using good_at_rest [OF Cons.prems(1)] ended_guarded [OF _ _ d(1)] d(3) by blast
  next
    case False
    then show ?thesis using good_moves [OF Cons.prems(1)] call_step_moves [OF _ _ d(1)] Cons.prems(1)
      by (auto simp: good_def)
  qed
  then show ?case using Cons.IH d(2) by blast
qed simp


definition demo_env :: env where
  "demo_env = \<lparr>ev_bind = (\<lambda>_. True), ev_osPort = Some 4000, ev_localIP = ''10.0.0.9'',
     ev_creds = \<lparr>Ufrag = ''u'', Pwd = ''p''\<rparr>, ev_parseIP = (\<lambda>_. IPv4 10 0 0 9), ev_resolve = Some,
     ev_sendOk = True, ev_now = 7\<rparr>"

definition demo_call :: call where
  "demo_call = newOutboundCall \<lparr>opt_EarlyMedia = False, opt_Video = False, opt_VideoCodecs = []\<rparr> (\<lambda>_. []) ''id''"


section \<open>Where the handlers do not look\<close>

text \<open>
  A BYE for a call that has already ended is handled again.  It reports the ended state and the end a
  second time, with the reason of the BYE.
\<close>

theorem late_bye_ends_again:
  assumes "c_state c = StateEnded"
  shows "call_step marshal e GotBye c = Some c' \<Longrightarrow>
    end_events (c_fired c') = end_events (c_fired c) @ [EndedByRemote]
    \<and> state_events (c_fired c') = state_events (c_fired c) @ [StateEnded]"
  by (auto simp: simulateBye_def finish_fields)

theorem late_bye_ends_again_witness:
  "end_events (c_fired (the (call_step (\<lambda>_. []) demo_env GotBye (snd (Call.End demo_call))))) = [EndedByCancelled, EndedByRemote]"
proof -
  let ?c = "snd (Call.End demo_call)"
  have "c_state ?c = StateEnded" "end_events (c_fired ?c) = [EndedByCancelled]"
    by (simp_all add: demo_call_def newOutboundCall_def blank_call_def Call.End_def finish_fields send_def)
  then show ?thesis using late_bye_ends_again [of ?c "\<lambda>_. []" demo_env "simulateBye ?c"] by simp
qed

text \<open>
  A hang-up in the middle of \<open>Accept\<close> crashes it.  When a ringing call without media is accepted and
  the peer's BYE is handled after \<open>Accept\<close> has released the lock but before it starts the media, the
  sockets are gone and starting the media dereferences nil.
\<close>

theorem accept_bye_panics:
  assumes "c_state c = StateRinging" and "c_mediaDone c = None"
  shows "accept_tail e True hasVideo (simulateBye (snd (accept_section e c))) = None"
proof -
  have d: "c_mediaDone (snd (accept_section e c)) = None"
    using accept_section_mediaDone [OF assms(1)] assms(2) by simp
  have "c_mediaDone (simulateBye d) = None \<and> c_rtpConn (simulateBye d) = None" if "c_mediaDone d = None" for d
    using that by (simp add: simulateBye_def finish_def fireOnEnded_def Let_def enter_def fireOnState_def fire_def)
  from this [OF d] show ?thesis by (simp add: accept_tail_def startMedia_def)
qed

theorem accept_bye_panics_witness:
  "accept_tail demo_env True False (simulateBye (snd (accept_section demo_env (demo_call\<lparr>c_state := StateRinging\<rparr>)))) = None"
  by (rule accept_bye_panics) (simp_all add: demo_call_def newOutboundCall_def blank_call_def)

end
