(* ===== verification/CallTable.thy ===== *)
theory CallTable
  imports CallProps "HOL-Library.AList"
begin

text \<open>
  The table of calls that a phone and a server keep: \<open>registerCall\<close>, \<open>untrackCall\<close> and \<open>findCall\<close> of
  \<open>xphone.go\<close> and \<open>server.go\<close>.  Calls are objects on a heap; the table maps a Call-ID to the address of
  a call, and the end of a call puts the cleanup that \<open>registerCall\<close> installed on the queue of
  dispatched callbacks, from which it runs later.  The locale \<open>tracks_calls\<close> is what both owners
  promise: they change heap, table and queue in these ways only.
\<close>

section \<open>Heap, table and cleanup queue\<close>

record tracker =
  t_heap :: "call list"
  t_calls :: "(string \<times> nat) list"
  t_pending :: "string list"

definition new_tracker :: tracker where
  "new_tracker = \<lparr>t_heap = [], t_calls = [], t_pending = []\<rparr>"

definition findCall :: "string \<Rightarrow> 'a tracker_scheme \<Rightarrow> nat option" where
  "findCall callID t = map_of (t_calls t) callID"

definition untrackCall :: "string \<Rightarrow> 'a tracker_scheme \<Rightarrow> 'a tracker_scheme" where
  "untrackCall callID t = t\<lparr>t_calls := AList.delete callID (t_calls t)\<rparr>"

definition registerCall :: "call \<Rightarrow> 'a tracker_scheme \<Rightarrow> 'a tracker_scheme" where
  "registerCall c t =
     t\<lparr>t_heap := t_heap t @ [c], t_calls := AList.update (c_callID c) (length (t_heap t)) (t_calls t)\<rparr>"

text \<open>A method of the call at address \<open>r\<close>.  Every \<open>fireOnEnded\<close> in it dispatches the cleanup.\<close>

definition ends :: "call \<Rightarrow> nat" where
  "ends c = length (end_events (c_fired c))"

definition store_call :: "nat \<Rightarrow> call \<Rightarrow> 'a tracker_scheme \<Rightarrow> 'a tracker_scheme" where
  "store_call r c t =
     t\<lparr>t_heap := (t_heap t)[r := c],
       t_pending := t_pending t @ replicate (ends c - ends (t_heap t ! r)) (c_callID c)\<rparr>"

definition on_call :: "(call \<Rightarrow> call) \<Rightarrow> nat \<Rightarrow> 'a tracker_scheme \<Rightarrow> 'a tracker_scheme" where
  "on_call f r t = (if r < length (t_heap t) then store_call r (f (t_heap t ! r)) t else t)"

text \<open>The dispatcher goroutine of a call runs a cleanup.\<close>

definition run_cleanup :: "nat \<Rightarrow> 'a tracker_scheme \<Rightarrow> 'a tracker_scheme" where
  "run_cleanup i t =
     (if i < length (t_pending t)
      then untrackCall (t_pending t ! i) (t\<lparr>t_pending := take i (t_pending t) @ drop (Suc i) (t_pending t)\<rparr>)
      else t)"

text \<open>All tracked calls are ended and the table is replaced by an empty one, as \<open>Shutdown\<close> does.\<close>

definition end_call :: "nat \<Rightarrow> 'a tracker_scheme \<Rightarrow> 'a tracker_scheme" where
  "end_call r t = on_call (\<lambda>c. snd (Call.End c)) r t"

definition end_all :: "'a tracker_scheme \<Rightarrow> 'a tracker_scheme" where
  "end_all t = fold end_call (map snd (t_calls t)) (t\<lparr>t_calls := []\<rparr>)"

section \<open>The Call-ID of a call does not change\<close>

named_theorems callID_frame \<open>what leaves the Call-ID of a call alone\<close>

lemma callID_basic [callID_frame]:
  "c_callID (send m c) = c_callID c" "c_callID (fire k c) = c_callID c" "c_callID (enter st c) = c_callID c"
  "c_callID (fireOnState st c) = c_callID c" "c_callID (finish r c) = c_callID c"
  "c_callID (setRemoteEndpoint e s c) = c_callID c" "c_callID (learn_ice s c) = c_callID c"
  by (simp_all add: send_def fire_def enter_def fireOnState_def finish_def fireOnEnded_def Let_def
      setRemoteEndpoint_def learn_ice_def split: list.split option.split)

lemma callID_ports [callID_frame]:
  "c_callID (snd (ensureRTPPort e c)) = c_callID c" "c_callID (snd (ensureVideoRTPPort e c)) = c_callID c"
  "c_callID (snd (buildICEParams e c)) = c_callID c"
  by (simp_all add: ensureRTPPort_def ensureVideoRTPPort_def buildICEParams_def Let_def split: option.split)

lemma callID_sdp [callID_frame]:
  "c_callID (snd (buildLocalSDP e d c)) = c_callID c" "c_callID (snd (buildAnswerSDP e s d c)) = c_callID c"
  "c_callID (negotiateAudioCodec s c) = c_callID c" "c_callID (negotiateVideoCodec s c) = c_callID c"
  "c_callID (negotiateCodec s c) = c_callID c"
  by (simp_all add: buildLocalSDP_call buildAnswerSDP_call callID_frame negotiateAudioCodec_def
      negotiateVideoCodec_def negotiateCodec_def Let_def split: option.split)

lemma callID_video [callID_frame]:
  "c_callID (setVideoRemoteEndpoint e s c) = c_callID c" "c_callID (initVideoChannels c) = c_callID c"
  "c_callID (stopVideoPipeline c) = c_callID c" "c_callID (setupSRTP l k c) = c_callID c"
  by (simp_all add: setVideoRemoteEndpoint_def initVideoChannels_def stopVideoPipeline_def setupSRTP_def Let_def
      split: option.split sum.split)

lemma callID_timers [callID_frame]:
  "c_callID (signalMediaTimerReset d c) = c_callID c" "c_callID (startSessionTimer c) = c_callID c"
  "c_callID (endWithReason r c) = c_callID c"
  by (simp_all add: signalMediaTimerReset_def startSessionTimer_def endWithReason_def callID_frame
      split: list.split option.split)

lemma callID_wire [callID_frame]:
  "c_callID (fold (write_rtp f) ps c) = c_callID c" "c_callID (fold fire ks c) = c_callID c"
proof -
  have "c_callID (write_rtp f p c) = c_callID c" for p c
    by (simp add: write_rtp_def split: option.split prod.split sum.split)
  then show "c_callID (fold (write_rtp f) ps c) = c_callID c"
    by (induction ps arbitrary: c) simp_all
  show "c_callID (fold fire ks c) = c_callID c"
    by (induction ks arbitrary: c) (simp_all add: callID_frame)
qed

lemma callID_media:
  "startMedia e c = Some c' \<Longrightarrow> c_callID c' = c_callID c"
  "startVideoMedia e c = Some c' \<Longrightarrow> c_callID c' = c_callID c"
  by (auto simp: startMedia_def startVideoMedia_def Let_def fire_def split: if_splits option.splits)

lemma callID_Accept: "Accept e c = Some (r, c') \<Longrightarrow> c_callID c' = c_callID c"
proof -
  assume a: "Accept e c = Some (r, c')"
  have s: "c_callID (snd (accept_section e c)) = c_callID c"
    by (simp add: accept_section_def Let_def case_prod_beta callID_frame split: option.split)
  have t: "c_callID d' = c_callID d" if "accept_tail e x y d = Some d'" for x y d d'
    using that by (auto simp: accept_tail_def callID_frame dest!: callID_media split: if_splits option.splits)
  show ?thesis
    using a s t by (auto simp: Accept_def split: prod.splits option.splits)
qed

lemma callID_upgrade:
  "upgrade_Accept e r c = Some (r', c') \<Longrightarrow> c_callID c' = c_callID c"
  "c_callID (snd (upgrade_Reject e r c)) = c_callID c"
  by (auto simp: upgrade_Accept_def acceptVideoUpgrade_def upgrade_Reject_def rejectVideoUpgrade_def
      buildAnswerRejectVideoSDP_def Let_def case_prod_beta callID_frame dest!: callID_media
      split: if_splits option.splits sum.splits)

lemma callID_reinvite: "c_callID (snd (handleReInvite e h raw c)) = c_callID c"
proof -
  have d: "c_callID (snd (direction_change x c)) = c_callID c" for x c
    by (simp add: direction_change_def Let_def callID_frame)
  show ?thesis
    by (simp add: handleReInvite_def Let_def case_prod_beta callID_frame callID_upgrade d split: option.split)
qed

lemma callID_AddVideo: "c_callID (snd (AddVideo e codecs c)) = c_callID c"
proof -
  have "c_callID d = c_callID b" if "ensureVideoRTPPort e b = (ok, d)" for ok b d
    using callID_ports(2) [of e b] that by simp
  then show ?thesis
    by (auto simp: AddVideo_def Let_def case_prod_beta callID_frame split: prod.split bool.split)
qed

lemma call_step_callID: "call_step marshal e op c = Some c' \<Longrightarrow> c_callID c' = c_callID c"
  by (cases op)
    (auto simp: callID_frame callID_upgrade callID_reinvite callID_AddVideo Reject_def Call.End_def Hold_def
      Resume_def SendReInvite_raw_def SuspendMediaTimeout_def RestoreMediaTimeout_def SetDtmfMode_def Mute_def
      Unmute_def MuteVideo_def UnmuteVideo_def SendDTMF_def BlindTransfer_def AttendedTransfer_def FireNotify_def
      simulateResponse_def simulateBye_def simulateCancel_def session_refresh_def media_timeout_def Let_def
      case_prod_beta dest: callID_Accept split: CallState.split option.split notify_handler.split)

section \<open>How a call goes on\<close>

abbreviation ended :: "call \<Rightarrow> bool" where
  "ended c \<equiv> c_state c = StateEnded"

text \<open>What every method of a call keeps: the Call-ID, that it has ended, and the ends it has reported; a
  method that ends the call reports it.\<close>

definition proceeds :: "call \<Rightarrow> call \<Rightarrow> bool" where
  "proceeds c c' =
     (c_callID c' = c_callID c \<and> (c_state c \<noteq> StateIdle \<longrightarrow> c_state c' \<noteq> StateIdle) \<and> (ended c \<longrightarrow> ended c')
      \<and> ends c \<le> ends c' \<and> (\<not> ended c \<and> ended c' \<longrightarrow> ends c < ends c') \<and> (ends c < ends c' \<longrightarrow> ended c'))"

lemma proceeds_refl [simp]: "proceeds c c"
  by (simp add: proceeds_def)

lemma proceeds_trans: "proceeds a b \<Longrightarrow> proceeds b c \<Longrightarrow> proceeds a c"
  by (auto simp: proceeds_def)

lemma quiet_proceeds: "quiet c c' \<Longrightarrow> c_callID c' = c_callID c \<Longrightarrow> proceeds c c'"
  by (auto simp: quiet_def proceeds_def ends_def)

lemma moves_proceeds: "moves c c' \<Longrightarrow> c_callID c' = c_callID c \<Longrightarrow> \<not> ended c \<Longrightarrow> proceeds c c'"
proof -
  assume m: "moves c c'" and id: "c_callID c' = c_callID c" and l: "\<not> ended c"
  have "c_state c' \<noteq> StateIdle" if "allowed (c_state c) (c_state c')"
    using that by (cases "c_state c") (auto simp: allowed_def)
  then show ?thesis
    using m id l by (auto simp: moves_def proceeds_def ends_def quiet_def split: if_splits)
qed

lemma call_step_proceeds:
  assumes "call_step marshal e op c = Some c'" "c_state c \<noteq> StateIdle"
  shows "proceeds c c'"
proof (cases "ended c")
  case False
  then show ?thesis using call_step_moves [OF _ assms(2,1)] moves_proceeds call_step_callID [OF assms(1)] by blast
next
  case True
  show ?thesis
  proof (cases "unguarded op")
    case False
    then have "at_rest c c'" using ended_guarded True assms(1) by blast
    then show ?thesis using True call_step_callID [OF assms(1)] by (simp add: proceeds_def at_rest_def ends_def)
  next
    case u: True
    then show ?thesis
      using assms(1) True call_step_callID [OF assms(1)]
      by (cases op) (auto simp: proceeds_def ends_def simulateBye_def media_timeout_def finish_fields)
  qed
qed

lemma End_step: "call_step marshal e DoEnd c = Some (snd (Call.End c))"
  by simp

lemma End_ended: "c_state c \<noteq> StateIdle \<Longrightarrow> ended (snd (Call.End c))"
  by (cases "c_state c") (simp_all add: Call.End_def finish_fields)

section \<open>The ways the table changes\<close>

inductive table_step :: "tracker \<Rightarrow> tracker \<Rightarrow> bool" where
  ts_register: "c_state c = StateRinging \<or> c_state c = StateDialing \<Longrightarrow> ends c = 0 \<Longrightarrow> table_step t (registerCall c t)"
| ts_method: "r < length (t_heap t) \<Longrightarrow> proceeds (t_heap t ! r) c \<Longrightarrow> table_step t (store_call r c t)"
| ts_cleanup: "table_step t (run_cleanup i t)"
| ts_end_all: "table_step t (end_all t)"

inductive_cases table_stepE: "table_step t t'"

text \<open>The table is well formed: no Call-ID twice, every entry the address of the call with that Call-ID,
  and where that call has ended its cleanup is on its way.\<close>

definition wf_table :: "'a tracker_scheme \<Rightarrow> bool" where
  "wf_table t =
     (distinct (map fst (t_calls t)) \<and> (\<forall>c \<in> set (t_heap t). c_state c \<noteq> StateIdle)
      \<and> (\<forall>callID r. findCall callID t = Some r \<longrightarrow> r < length (t_heap t) \<and> c_callID (t_heap t ! r) = callID
           \<and> (ended (t_heap t ! r) \<longrightarrow> callID \<in> set (t_pending t))))"

text \<open>Nothing is lost: every call that has not ended is in the table under its Call-ID, and only calls that
  have ended wait for their cleanup.\<close>

definition pending_ended :: "'a tracker_scheme \<Rightarrow> bool" where
  "pending_ended t =
     (\<forall>callID \<in> set (t_pending t). \<exists>r < length (t_heap t). c_callID (t_heap t ! r) = callID \<and> ended (t_heap t ! r))"

definition all_tracked :: "'a tracker_scheme \<Rightarrow> bool" where
  "all_tracked t =
     ((\<forall>r < length (t_heap t). \<not> ended (t_heap t ! r) \<longrightarrow> findCall (c_callID (t_heap t ! r)) t = Some r)
      \<and> pending_ended t)"

abbreviation call_ids :: "'a tracker_scheme \<Rightarrow> string list" where
  "call_ids t \<equiv> map c_callID (t_heap t)"

lemma find_simps [simp]:
  "findCall k (registerCall c t) = (if k = c_callID c then Some (length (t_heap t)) else findCall k t)"
  "findCall k (untrackCall k' t) = (if k = k' then None else findCall k t)"
  "findCall k (store_call r c t) = findCall k t"
  by (simp_all add: findCall_def registerCall_def untrackCall_def store_call_def update_conv' delete_conv')

lemma wf_not_idle: "wf_table t \<Longrightarrow> r < length (t_heap t) \<Longrightarrow> c_state (t_heap t ! r) \<noteq> StateIdle"
  by (simp add: wf_table_def)

lemma wf_new: "wf_table new_tracker" "all_tracked new_tracker"
  by (simp_all add: wf_table_def all_tracked_def pending_ended_def new_tracker_def findCall_def)

lemma wf_register:
  assumes "wf_table t" "c_state c = StateRinging \<or> c_state c = StateDialing"
  shows "wf_table (registerCall c t)"
  using assms unfolding wf_table_def find_simps
  by (auto simp: registerCall_def distinct_update nth_append intro: less_SucI)

lemma wf_method:
  assumes "wf_table t" "r < length (t_heap t)" "proceeds (t_heap t ! r) c"
  shows "wf_table (store_call r c t)"
proof -
  have p: "c_callID c = c_callID (t_heap t ! r)" "c_state c \<noteq> StateIdle"
      "ended c \<Longrightarrow> ended (t_heap t ! r) \<or> 0 < ends c - ends (t_heap t ! r)"
    using assms wf_not_idle [OF assms(1,2)] by (auto simp: proceeds_def)
  have "\<forall>x \<in> set ((t_heap t)[r := c]). c_state x \<noteq> StateIdle"
    using assms(1) p(2) set_update_subset_insert [of "t_heap t" r c] by (auto simp: wf_table_def)
  then show ?thesis
    using assms(1,2) p unfolding wf_table_def find_simps
    by (auto simp: store_call_def nth_list_update)
qed

lemma wf_untrack:
  assumes "wf_table t" "set (t_pending t) \<subseteq> insert k (set ps)"
  shows "wf_table (untrackCall k (t\<lparr>t_pending := ps\<rparr>))"
proof -
  let ?t = "untrackCall k (t\<lparr>t_pending := ps\<rparr>)"
  have f: "findCall k' ?t = (if k' = k then None else findCall k' t)" for k'
    by (simp add: findCall_def untrackCall_def delete_conv')
  have t: "t_heap ?t = t_heap t" "t_pending ?t = ps" "t_calls ?t = AList.delete k (t_calls t)"
    by (simp_all add: untrackCall_def)
  have p: "callID \<in> set ps" if "callID \<in> set (t_pending t)" "callID \<noteq> k" for callID
    using assms(2) that by blast
  show ?thesis
    using assms(1) p unfolding wf_table_def f t by (simp add: distinct_delete)
qed

lemma pending_split:
  "i < length xs \<Longrightarrow> set xs \<subseteq> insert (xs ! i) (set (take i xs @ drop (Suc i) xs))"
  by (subst id_take_nth_drop [of i xs]) auto

lemma wf_cleanup: "wf_table t \<Longrightarrow> wf_table (run_cleanup i t)"
  by (simp add: run_cleanup_def wf_untrack [OF _ pending_split])

section \<open>Ending everything\<close>

lemma end_call_step:
  assumes "wf_table t" "r < length (t_heap t)"
  shows "end_call r t = store_call r (snd (Call.End (t_heap t ! r))) t" "proceeds (t_heap t ! r) (snd (Call.End (t_heap t ! r)))"
  using assms call_step_proceeds [OF End_step wf_not_idle [OF assms]] by (simp_all add: end_call_def on_call_def)

lemma wf_end_call: "wf_table t \<Longrightarrow> wf_table (end_call r t)"
  using end_call_step wf_method by (cases "r < length (t_heap t)") (force simp: end_call_def on_call_def)+

text \<open>Methods ran on some calls; nothing was registered or removed.\<close>

definition later :: "'a tracker_scheme \<Rightarrow> 'a tracker_scheme \<Rightarrow> bool" where
  "later t t' =
     (length (t_heap t') = length (t_heap t) \<and> t_calls t' = t_calls t \<and> set (t_pending t) \<subseteq> set (t_pending t')
      \<and> (\<forall>r < length (t_heap t). proceeds (t_heap t ! r) (t_heap t' ! r)))"

lemma later_trans: "later t u \<Longrightarrow> later u v \<Longrightarrow> later t v"
  using proceeds_trans by (fastforce simp: later_def)

lemma later_method: "r < length (t_heap t) \<Longrightarrow> proceeds (t_heap t ! r) c \<Longrightarrow> later t (store_call r c t)"
  by (auto simp: later_def store_call_def nth_list_update)

lemma end_call_later:
  assumes "wf_table t"
  shows "later t (end_call r t) \<and> (r < length (t_heap t) \<longrightarrow> ended (t_heap (end_call r t) ! r))
    \<and> (\<forall>q. q \<noteq> r \<longrightarrow> t_heap (end_call r t) ! q = t_heap t ! q)"
proof (cases "r < length (t_heap t)")
  case True
  note e = end_call_step [OF assms True]
  show ?thesis
    unfolding e(1) using later_method [OF True e(2)] End_ended [OF wf_not_idle [OF assms True]] True
    by (simp add: store_call_def)
qed (simp add: end_call_def on_call_def later_def)

lemma end_calls:
  "wf_table t \<Longrightarrow> wf_table (fold end_call rs t) \<and> later t (fold end_call rs t)
     \<and> (\<forall>r \<in> set rs. r < length (t_heap t) \<longrightarrow> ended (t_heap (fold end_call rs t) ! r))
     \<and> (\<forall>r. r \<notin> set rs \<longrightarrow> t_heap (fold end_call rs t) ! r = t_heap t ! r)"
proof (induction rs arbitrary: t)
  case (Cons q rs)
  let ?t = "end_call q t"
  note q = end_call_later [OF Cons.prems, of q] and IH = Cons.IH [OF wf_end_call [OF Cons.prems], of q]
  then have "later t (fold end_call rs ?t)" "length (t_heap ?t) = length (t_heap t)"
    using later_trans by (blast, simp add: later_def)
  moreover have "ended (t_heap (fold end_call rs ?t) ! q)" if "q < length (t_heap t)"
    using q IH that by (auto simp: later_def proceeds_def)
  ultimately show ?case using q IH by auto
qed (simp add: later_def)

lemma end_all_spec:
  assumes "wf_table t"
  shows "wf_table (end_all t) \<and> t_calls (end_all t) = [] \<and> length (t_heap (end_all t)) = length (t_heap t)
    \<and> (\<forall>r < length (t_heap t). proceeds (t_heap t ! r) (t_heap (end_all t) ! r)
         \<and> (if r \<in> snd ` set (t_calls t) then ended (t_heap (end_all t) ! r) else t_heap (end_all t) ! r = t_heap t ! r))"
proof -
  have "wf_table (t\<lparr>t_calls := []\<rparr>)" using assms by (simp add: wf_table_def findCall_def)
  from end_calls [OF this, of "map snd (t_calls t)"] show ?thesis
    by (auto simp: end_all_def later_def)
qed

section \<open>Nothing is lost\<close>

lemma store_call_ids: "proceeds (t_heap t ! r) c \<Longrightarrow> r < length (t_heap t) \<Longrightarrow> call_ids (store_call r c t) = call_ids t"
  by (simp add: store_call_def proceeds_def map_update) (metis list_update_id map_update nth_map)

lemma table_step_wf: "table_step t t' \<Longrightarrow> wf_table t \<Longrightarrow> wf_table t'"
  by (erule table_stepE) (auto intro: wf_register wf_method wf_cleanup simp: end_all_spec)

lemma table_step_ids: "table_step t t' \<Longrightarrow> wf_table t \<Longrightarrow> \<exists>xs. call_ids t' = call_ids t @ xs"
proof (erule table_stepE)
  assume "wf_table t" "t' = end_all t"
  then have "call_ids t' = call_ids t"
    using end_all_spec [of t] by (intro nth_equalityI) (auto simp: proceeds_def)
  then show ?thesis by simp
qed (auto simp: registerCall_def store_call_ids run_cleanup_def untrackCall_def)

lemma pending_method:
  assumes "pending_ended t" "r < length (t_heap t)" "proceeds (t_heap t ! r) c"
  shows "pending_ended (store_call r c t)"
  unfolding pending_ended_def
proof
  let ?t = "store_call r c t"
  fix callID assume "callID \<in> set (t_pending ?t)"
  then consider "callID \<in> set (t_pending t)" | "callID = c_callID c" "0 < ends c - ends (t_heap t ! r)"
    by (auto simp: store_call_def)
  then show "\<exists>q < length (t_heap ?t). c_callID (t_heap ?t ! q) = callID \<and> ended (t_heap ?t ! q)"
  proof cases
    case 1
    then obtain q where "q < length (t_heap t)" "c_callID (t_heap t ! q) = callID" "ended (t_heap t ! q)"
      using assms(1) by (auto simp: pending_ended_def)
    then show ?thesis using assms(3) by (intro exI [of _ q], cases "q = r") (auto simp: store_call_def proceeds_def)
  next
    case 2
    then show ?thesis using assms(2,3) by (intro exI [of _ r]) (auto simp: store_call_def proceeds_def)
  qed
qed

lemma pending_end_calls: "wf_table t \<Longrightarrow> pending_ended t \<Longrightarrow> pending_ended (fold end_call rs t)"
proof (induction rs arbitrary: t)
  case (Cons q rs)
  have "pending_ended (end_call q t)"
    using Cons.prems end_call_step pending_method
    by (cases "q < length (t_heap t)") (force simp: end_call_def on_call_def)+
  then show ?case using Cons.IH wf_end_call [OF Cons.prems(1)] by simp
qed simp

lemma tracked_method:
  assumes "all_tracked t" "r < length (t_heap t)" "proceeds (t_heap t ! r) c"
  shows "all_tracked (store_call r c t)"
proof -
  have "findCall (c_callID (t_heap (store_call r c t) ! q)) t = Some q"
    if "q < length (t_heap t)" "\<not> ended (t_heap (store_call r c t) ! q)" for q
    using assms that by (cases "q = r") (auto simp: all_tracked_def store_call_def proceeds_def)
  then show ?thesis
    using assms pending_method unfolding all_tracked_def find_simps by (auto simp: store_call_def)
qed

lemma tracked_cleanup:
  assumes "all_tracked t" "distinct (call_ids t)"
  shows "all_tracked (run_cleanup i t)"
proof (cases "i < length (t_pending t)")
  case True
  let ?k = "t_pending t ! i" and ?t = "run_cleanup i t"
  have t: "t_heap ?t = t_heap t" "set (t_pending ?t) \<subseteq> set (t_pending t)" "findCall k ?t = (if k = ?k then None else findCall k t)" for k
    using True by (auto simp: run_cleanup_def untrackCall_def findCall_def delete_conv' dest: in_set_takeD in_set_dropD)
  have "?k \<in> set (t_pending t)" using True by simp
  then obtain q where q: "q < length (t_heap t)" "c_callID (t_heap t ! q) = ?k" "ended (t_heap t ! q)"
    using assms(1) unfolding all_tracked_def pending_ended_def by blast
  have "c_callID (t_heap t ! r) \<noteq> ?k" if "r < length (t_heap t)" "\<not> ended (t_heap t ! r)" for r
    using nth_eq_iff_index_eq [OF assms(2), of r q] q that by auto
  then show ?thesis using assms(1) t(2) unfolding all_tracked_def pending_ended_def t(1,3) by auto
qed (use assms in \<open>simp add: run_cleanup_def\<close>)

lemma tracked_register:
  assumes "all_tracked t" "distinct (call_ids (registerCall c t))"
  shows "all_tracked (registerCall c t)"
proof -
  have "c_callID (t_heap t ! r) \<noteq> c_callID c" if "r < length (t_heap t)" for r
    using assms(2) imageI [OF nth_mem [OF that], of c_callID] by (auto simp: registerCall_def)
  then show ?thesis
    using assms(1) unfolding all_tracked_def pending_ended_def find_simps
    by (auto simp: registerCall_def nth_append less_Suc_eq)
qed

lemma tracked_end_all:
  assumes "wf_table t" "all_tracked t"
  shows "all_tracked (end_all t) \<and> (\<forall>c \<in> set (t_heap (end_all t)). ended c)"
proof -
  note e = end_all_spec [OF assms(1)]
  have l: "ended (t_heap (end_all t) ! r)" if r: "r < length (t_heap t)" for r
  proof (cases "ended (t_heap t ! r)")
    case True
    then show ?thesis using e r by (auto simp: proceeds_def)
  next
    case False
    then have "map_of (t_calls t) (c_callID (t_heap t ! r)) = Some r"
      using assms(2) r by (auto simp: all_tracked_def findCall_def)
    then have "r \<in> snd ` set (t_calls t)" by (force dest: map_of_SomeD)
    then show ?thesis using e r by auto
  qed
  have "wf_table (t\<lparr>t_calls := []\<rparr>)" "pending_ended (t\<lparr>t_calls := []\<rparr>)"
    using assms by (simp_all add: wf_table_def findCall_def all_tracked_def pending_ended_def)
  then have "pending_ended (end_all t)" unfolding end_all_def by (rule pending_end_calls)
  then show ?thesis using l e by (auto simp: all_tracked_def in_set_conv_nth)
qed

lemma table_step_tracked:
  assumes "table_step t t'" "wf_table t" "all_tracked t" "distinct (call_ids t')"
  shows "all_tracked t'"
proof -
  have "distinct (call_ids t)" using table_step_ids [OF assms(1,2)] assms(4) by auto
  then show ?thesis
    using assms(2-4) by (cases rule: table_step.cases [OF assms(1)])
      (auto intro: tracked_register tracked_method tracked_cleanup simp: tracked_end_all)
qed

lemma table_steps_wf: "table_step\<^sup>*\<^sup>* t t' \<Longrightarrow> wf_table t \<Longrightarrow> wf_table t'"
  by (induction rule: rtranclp_induct) (auto intro: table_step_wf)

lemma table_steps_tracked:
  "table_step\<^sup>*\<^sup>* t t' \<Longrightarrow> wf_table t \<Longrightarrow> all_tracked t \<Longrightarrow> distinct (call_ids t') \<Longrightarrow> all_tracked t'"
proof (induction rule: rtranclp_induct)
  case (step u v)
  have "wf_table u" using table_steps_wf [OF step.hyps(1)] step.prems by blast
  moreover have "distinct (call_ids u)" using table_step_ids [OF step.hyps(2) calculation] step.prems(3) by auto
  ultimately show ?case using step table_step_tracked by blast
qed

section \<open>Owners of a table\<close>

text \<open>The table inside the state of its owner.\<close>

abbreviation tab :: "'a tracker_scheme \<Rightarrow> tracker" where
  "tab s \<equiv> tracker.truncate s"

lemma tab_fields [simp]:
  "t_heap (tab s) = t_heap s" "t_calls (tab s) = t_calls s" "t_pending (tab s) = t_pending s"
  by (simp_all add: tracker.truncate_def)

lemma tab_update [simp]:
  "tab (s\<lparr>t_heap := h\<rparr>) = (tab s)\<lparr>t_heap := h\<rparr>" "tab (s\<lparr>t_calls := k\<rparr>) = (tab s)\<lparr>t_calls := k\<rparr>"
  "tab (s\<lparr>t_pending := q\<rparr>) = (tab s)\<lparr>t_pending := q\<rparr>"
  by (simp_all add: tracker.truncate_def)

lemma tab_table [simp]:
  "tab (registerCall c s) = registerCall c (tab s)" "tab (store_call r c s) = store_call r c (tab s)"
  "tab (on_call f r s) = on_call f r (tab s)" "tab (run_cleanup i s) = run_cleanup i (tab s)"
  "tab (end_call r s) = end_call r (tab s)"
  by (simp_all add: registerCall_def store_call_def on_call_def run_cleanup_def untrackCall_def end_call_def)

lemma tab_fold_end [simp]: "tab (fold end_call rs s) = fold end_call rs (tab s)"
  by (induction rs arbitrary: s) simp_all

lemma tab_end_all [simp]: "tab (end_all s) = end_all (tab s)"
  by (simp add: end_all_def)

lemma findCall_tab [simp]: "findCall k (tab s) = findCall k s"
  by (simp add: findCall_def)

lemma wf_tab [simp]: "wf_table (tab s) = wf_table s"
  by (simp add: wf_table_def)

lemma table_on_call:
  assumes "wf_table t" "\<And>c. c_state c \<noteq> StateIdle \<Longrightarrow> proceeds c (f c)"
  shows "table_step\<^sup>*\<^sup>* t (on_call f r t)"
proof (cases "r < length (t_heap t)")
  case True
  then have "table_step t (store_call r (f (t_heap t ! r)) t)"
    using assms wf_not_idle by (intro ts_method) auto
  then show ?thesis using True by (simp add: on_call_def)
qed (simp add: on_call_def)

lemma table_on_step:
  assumes "wf_table t" "\<And>c. \<exists>e op. call_step marshal e op c = Some (f c)"
  shows "table_step\<^sup>*\<^sup>* t (on_call f r t)"
proof (rule table_on_call [OF assms(1)])
  fix c :: call assume "c_state c \<noteq> StateIdle"
  then show "proceeds c (f c)" using assms(2) [of c] call_step_proceeds by blast
qed

lemma table_end_calls: "wf_table t \<Longrightarrow> table_step\<^sup>*\<^sup>* t (fold end_call rs t)"
proof (induction rs arbitrary: t)
  case (Cons r rs)
  have "table_step\<^sup>*\<^sup>* t (end_call r t)"
    unfolding end_call_def
    by (rule table_on_step [OF Cons.prems, where marshal = "\<lambda>_. []"]) (metis End_step)
  then show ?case using Cons.IH [OF wf_end_call [OF Cons.prems], of r] by simp
qed simp

section \<open>The interface\<close>

fun run :: "('ev \<Rightarrow> 's \<Rightarrow> 's option) \<Rightarrow> 'ev list \<Rightarrow> 's \<Rightarrow> 's option" where
  "run step [] s = Some s"
| "run step (ev # evs) s = (case step ev s of None \<Rightarrow> None | Some s' \<Rightarrow> run step evs s')"

locale tracks_calls =
  fixes step :: "'ev \<Rightarrow> 's \<Rightarrow> 's option" and tab :: "'s \<Rightarrow> tracker"
  assumes step_table: "wf_table (tab s) \<Longrightarrow> step ev s = Some s' \<Longrightarrow> table_step\<^sup>*\<^sup>* (tab s) (tab s')"
begin

lemma run_table: "run step evs s = Some s' \<Longrightarrow> wf_table (tab s) \<Longrightarrow> table_step\<^sup>*\<^sup>* (tab s) (tab s')"
proof (induction evs arbitrary: s)
  case (Cons ev evs)
  then obtain u where u: "step ev s = Some u" "run step evs u = Some s'" by (auto split: option.splits)
  note su = step_table [OF Cons.prems(2) u(1)]
  from Cons.IH [OF u(2) table_steps_wf [OF su Cons.prems(2)]] su show ?case by simp
qed simp

lemma run_wf: "run step evs s = Some s' \<Longrightarrow> tab s = new_tracker \<Longrightarrow> wf_table (tab s')"
  using run_table table_steps_wf wf_new by metis

lemma run_tracked:
  "run step evs s = Some s' \<Longrightarrow> tab s = new_tracker \<Longrightarrow> distinct (call_ids (tab s')) \<Longrightarrow> all_tracked (tab s')"
  using run_table table_steps_tracked wf_new by metis

text \<open>With the queue drained, the table is the set of live calls.\<close>

lemma run_drained:
  assumes "run step evs s = Some s'" "tab s = new_tracker" "distinct (call_ids (tab s'))" "t_pending (tab s') = []"
  shows "findCall k (tab s') = Some r \<longleftrightarrow>
    r < length (t_heap (tab s')) \<and> c_callID (t_heap (tab s') ! r) = k \<and> \<not> ended (t_heap (tab s') ! r)"
  using run_wf [OF assms(1,2)] run_tracked [OF assms(1-3)] assms(4)
  unfolding wf_table_def all_tracked_def by (metis empty_iff list.set(1))

end

end
