(* ===== verification/Options.thy ===== *)
theory Options
  imports Dtmf DialFailover
begin

text \<open>
  Configuration: the structs of \<open>options.go\<close> with their defaults, the split of an embedded port, the
  check for a URI parameter, and the helpers of \<open>sipua.go\<close> and \<open>xphone.go\<close> that read a configuration.
  \<open>net.ParseIP\<close> with \<open>To4\<close> is the argument \<open>ip4\<close>.
\<close>

section \<open>Hosts and ports\<close>

definition extractHostPort :: "string \<Rightarrow> int \<Rightarrow> string \<times> int" where
  "extractHostPort host port =
     (if host = [] then (host, port)
      else case SplitHostPort host of
             None \<Rightarrow> (host, port)
           | Some (h, portStr) \<Rightarrow>
               (case Atoi portStr of
                  None \<Rightarrow> (host, port)
                | Some p \<Rightarrow> if p \<le> 0 \<or> p > 65535 then (host, port) else (h, if port = 0 then p else port)))"

definition hasURIParam :: "string \<Rightarrow> string \<Rightarrow> bool" where
  "hasURIParam uri param =
     (let lower = ToLower uri; target = '';'' @ ToLower param
      in case Index lower target of
           None \<Rightarrow> False
         | Some idx \<Rightarrow>
             let e = idx + length target
             in if e = length lower then True else lower ! e \<in> {CHR '';'', CHR ''>'', CHR ''?''})"

definition effectiveRTPAddress :: "(string \<Rightarrow> bool option) \<Rightarrow> string \<Rightarrow> string" where
  "effectiveRTPAddress ip4 s = (if s = [] then [] else if ip4 s = Some True then s else [])"

definition codecPrefsToInts :: "int list \<Rightarrow> int list" where
  "codecPrefsToInts codecs = (if codecs = [] then [] else map id codecs)"

section \<open>Phones\<close>

record Config =
  cf_Username :: string
  cf_Password :: string
  cf_Host :: string
  cf_Port :: int
  cf_Transport :: string
  cf_AuthUsername :: string
  cf_RegisterExpiry :: int
  cf_RegisterRetry :: int
  cf_RegisterMaxRetry :: int
  cf_OutboundProxy :: string
  cf_OutboundUsername :: string
  cf_OutboundPassword :: string
  cf_NAT :: bool
  cf_SRTP :: bool
  cf_RTPAddress :: string
  cf_ICE :: bool
  cf_RTPPortMin :: int
  cf_RTPPortMax :: int
  cf_CodecPrefs :: "int list"
  cf_JitterBuffer :: int
  cf_MediaTimeout :: int
  cf_PCMRate :: int
  cf_DtmfMode :: DtmfMode
  cf_Registrarless :: bool

definition seconds :: "int \<Rightarrow> int" where
  "seconds n = n * 1000000000"

definition or_default :: "int \<Rightarrow> int \<Rightarrow> int" where
  "or_default d x = (if x = 0 then d else x)"

definition applyDefaults :: "Config \<Rightarrow> Config" where
  "applyDefaults cfg =
     (let (host, port) = extractHostPort (cf_Host cfg) (cf_Port cfg)
      in cfg\<lparr>cf_Host := host, cf_Port := or_default 5060 port,
             cf_Transport := (if cf_Transport cfg = [] then ''udp'' else cf_Transport cfg),
             cf_RegisterExpiry := or_default (seconds 60) (cf_RegisterExpiry cfg),
             cf_RegisterRetry := or_default (seconds 1) (cf_RegisterRetry cfg),
             cf_RegisterMaxRetry := or_default 3 (cf_RegisterMaxRetry cfg),
             cf_MediaTimeout := or_default (seconds 30) (cf_MediaTimeout cfg),
             cf_JitterBuffer := or_default 50000000 (cf_JitterBuffer cfg),
             cf_PCMRate := or_default 8000 (cf_PCMRate cfg)\<rparr>)"

definition WithOutboundProxy :: "string \<Rightarrow> Config \<Rightarrow> Config" where
  "WithOutboundProxy uri c =
     c\<lparr>cf_OutboundProxy := (if uri \<noteq> [] \<and> \<not> hasURIParam uri ''lr'' then uri @ '';lr'' else uri)\<rparr>"

text \<open>The credentials for an INVITE, from the per-call options and the configuration.\<close>

definition first_set :: "string list \<Rightarrow> string" where
  "first_set xs = (case filter (\<lambda>x. x \<noteq> []) xs of [] \<Rightarrow> [] | x # _ \<Rightarrow> x)"

definition resolveAuthCredentials :: "string \<times> string \<Rightarrow> Config \<Rightarrow> string \<times> string" where
  "resolveAuthCredentials auth cfg =
     (first_set [fst auth, cf_OutboundUsername cfg, cf_AuthUsername cfg, cf_Username cfg],
      first_set [snd auth, cf_OutboundPassword cfg, cf_Password cfg])"

definition resolveRegisterAuthUsername :: "Config \<Rightarrow> string" where
  "resolveRegisterAuthUsername cfg = first_set [cf_AuthUsername cfg, cf_Username cfg]"

definition resolveContactIP :: "(string \<Rightarrow> bool option) \<Rightarrow> Config \<Rightarrow> string \<Rightarrow> string \<Rightarrow> string" where
  "resolveContactIP ip4 cfg interfaceIP localIP =
     (if cf_NAT cfg \<and> effectiveRTPAddress ip4 (cf_RTPAddress cfg) \<noteq> [] then interfaceIP else localIP)"

section \<open>Servers\<close>

record ServerConfig =
  sc_Listen :: string
  sc_RTPPortMin :: int
  sc_RTPPortMax :: int
  sc_RTPAddress :: string
  sc_SRTP :: bool
  sc_CodecPrefs :: "int list"
  sc_JitterBuffer :: int
  sc_MediaTimeout :: int
  sc_PCMRate :: int
  sc_DtmfMode :: DtmfMode
  sc_Peers :: "PeerConfig list"
  sc_OutboundFailover :: OutboundFailoverConfig

definition normalizePeerHost :: "PeerConfig \<Rightarrow> PeerConfig" where
  "normalizePeerHost p =
     (let (host, port) = extractHostPort (pc_Host p) (pc_Port p) in p\<lparr>pc_Host := host, pc_Port := port\<rparr>)"

definition peer_defaults :: "PeerConfig \<Rightarrow> PeerConfig" where
  "peer_defaults p = (let p = normalizePeerHost p in p\<lparr>pc_Port := or_default 5060 (pc_Port p)\<rparr>)"

definition applyServerDefaults :: "ServerConfig \<Rightarrow> ServerConfig" where
  "applyServerDefaults cfg =
     cfg\<lparr>sc_Listen := (if sc_Listen cfg = [] then ''0.0.0.0:5060'' else sc_Listen cfg),
         sc_OutboundFailover := (sc_OutboundFailover cfg)
           \<lparr>PerHopTimeout := or_default (seconds 5) (PerHopTimeout (sc_OutboundFailover cfg))\<rparr>,
         sc_MediaTimeout := or_default (seconds 30) (sc_MediaTimeout cfg),
         sc_JitterBuffer := or_default 50000000 (sc_JitterBuffer cfg),
         sc_PCMRate := or_default 8000 (sc_PCMRate cfg),
         sc_Peers := map peer_defaults (sc_Peers cfg)\<rparr>"

section \<open>Reading host and port back\<close>

lemma LastIndexByte_append:
  "c \<notin> set y \<Longrightarrow> LastIndexByte (x @ c # y) c = Some (length x)"
  using IndexByte_append [of c "rev y" "rev x"] by (simp add: LastIndexByte_def)

text \<open>
  A host, and an address literal with colons, joined with a port splits into the same two; so a host
  with a port that is configured as one string is taken apart as intended.
\<close>

theorem join_split_host_port:
  assumes "CHR ''['' \<notin> set h" "CHR '']'' \<notin> set h" "CHR '':'' \<notin> set p" "CHR ''['' \<notin> set p" "CHR '']'' \<notin> set p" "h \<noteq> []"
  shows "SplitHostPort (JoinHostPort h p) = Some (h, p)"
proof (cases "CHR '':'' \<in> set h")
  case False
  then have "JoinHostPort h p = h @ CHR '':'' # p" by (simp add: JoinHostPort_def)
  moreover have "hd (h @ CHR '':'' # p) \<noteq> CHR ''[''" using assms(1,6) by (cases h) auto
  ultimately show ?thesis
    using LastIndexByte_append [OF assms(3), of h] assms False by (simp add: SplitHostPort_def)
next
  case True
  let ?s = "(CHR ''['' # h @ [CHR '']'']) @ CHR '':'' # p"
  have s: "JoinHostPort h p = ?s" using True by (simp add: JoinHostPort_def)
  have "IndexByte ((CHR ''['' # h) @ CHR '']'' # CHR '':'' # p) CHR '']'' = Some (length (CHR ''['' # h))"
    by (rule IndexByte_append) (use assms in simp)
  then show ?thesis
    using LastIndexByte_append [OF assms(3), of "CHR ''['' # h @ [CHR '']'']"] assms
    unfolding s by (simp add: SplitHostPort_def)
qed

theorem join_split_host_port_witness:
  "SplitHostPort (JoinHostPort ''2001:db8::1'' ''5060'') = Some (''2001:db8::1'', ''5060'')"
  by (rule join_split_host_port) simp_all

end
