(* ===== verification/Server.thy ===== *)
theory Server
  imports CallTable Options
begin

text \<open>
  The trunk server, \<open>server.go\<close>.  Its state is a record over the call table; the handlers of SIP
  requests, the operations of the application, the reaper and the goroutines that \<open>handleInvite\<close> and
  \<open>Dial\<close> leave running are functions on it, and \<open>srv_step\<close> is one event.  A goroutine that has
  registered its call but not finished with it is a task, so other events fall in between.  The SIP
  library (dialog matching, transactions, the wait for an answer), sockets, addresses and the clock are
  arguments.
\<close>

section \<open>Data\<close>

definition setupTTL :: int where "setupTTL = 30 * second"
definition activeTTL :: int where "activeTTL = 4 * 3600 * second"

text \<open>A request: the \<open>received\<close> parameter and host of its Via, its network source, and the values of the
  headers that are read (empty where there is none).\<close>

record request =
  rq_via :: "(string option \<times> string) option"
  rq_source :: string
  rq_auth :: string
  rq_callID :: string
  rq_from :: string
  rq_to :: string
  rq_headers :: "string \<Rightarrow> string list"
  rq_contentType :: string
  rq_body :: string

text \<open>A goroutine in progress: a new INVITE of a peer, its rest after the call is registered (with the
  number of handlers it has copied), and the rest of an outbound call with the responses to replay.\<close>

datatype task =
    InviteTask request string
  | InviteTail nat string nat
  | OutTail nat "(int \<times> string) list"

record 'ip server = tracker +
  s_cfg :: ServerConfig
  s_localIP :: string
  s_codecPrefs :: "int list"
  s_matchers :: "'ip peerMatcher list"
  s_listening :: bool
  s_stack :: bool
  s_cancel :: bool
  s_cancelled :: bool
  s_createdAt :: "(string \<times> int) list"
  s_incomingFns :: nat
  s_tasks :: "task list"
  s_out :: "(string \<times> sip_out) list"
  s_presented :: "nat list"

text \<open>What the server asks of the standard library.\<close>

record 'ip world =
  w_parseIP :: "string \<Rightarrow> 'ip option"
  w_parseCIDR :: "string \<Rightarrow> ('ip \<Rightarrow> bool) option"
  w_ip4 :: "string \<Rightarrow> bool option"
  w_lookupHost :: "string \<Rightarrow> string list option"
  w_marshal :: "rtp_packet \<Rightarrow> bytes"

definition newServer :: "'ip world \<Rightarrow> ServerConfig \<Rightarrow> 'ip server" where
  "newServer w cfg =
     \<lparr>t_heap = [], t_calls = [], t_pending = [], s_cfg = cfg, s_localIP = [], s_codecPrefs = codecPrefsToInts (sc_CodecPrefs cfg),
      s_matchers = buildPeerMatchers (w_parseIP w) (w_parseCIDR w) (sc_Peers cfg), s_listening = False, s_stack = False,
      s_cancel = False, s_cancelled = False, s_createdAt = [], s_incomingFns = 0, s_tasks = [], s_out = [], s_presented = []\<rparr>"

section \<open>Small helpers\<close>

definition sipReasonPhrase :: "int \<Rightarrow> string" where
  "sipReasonPhrase code =
     (if code = 200 then ''OK''
      else if code = 400 then ''Bad Request''
      else if code = 403 then ''Forbidden''
      else if code = 404 then ''Not Found''
      else if code = 405 then ''Method Not Allowed''
      else if code = 408 then ''Request Timeout''
      else if code = 480 then ''Temporarily Unavailable''
      else if code = 486 then ''Busy Here''
      else if code = 500 then ''Internal Server Error''
      else if code = 503 then ''Service Unavailable''
      else ''Unknown'')"

text \<open>\<open>parseSipfragStatus\<close> of \<open>sipua.go\<close>, with the fields of \<open>strings.SplitN\<close>.\<close>

definition parseSipfragStatus :: "string \<Rightarrow> int" where
  "parseSipfragStatus body =
     (let line = TrimSpace (case Index body [LF] of None \<Rightarrow> body | Some i \<Rightarrow> take i body)
      in if \<not> HasPrefix line ''SIP/'' then 0
         else case Split line '' '' of
                _ # code # _ \<Rightarrow> (case Atoi code of None \<Rightarrow> 0 | Some n \<Rightarrow> n)
              | _ \<Rightarrow> 0)"

definition network_source :: "request \<Rightarrow> string" where
  "network_source req =
     (if rq_source req \<noteq> [] then
        (case SplitHostPort (rq_source req) of
           Some (host, _) \<Rightarrow> if host \<noteq> [] then host else rq_source req
         | None \<Rightarrow> rq_source req)
      else case rq_via req of None \<Rightarrow> [] | Some (_, host) \<Rightarrow> host)"

definition extractSourceIP :: "request \<Rightarrow> string" where
  "extractSourceIP req =
     (case rq_via req of
        Some (Some received, _) \<Rightarrow> if received \<noteq> [] then received else network_source req
      | _ \<Rightarrow> network_source req)"

text \<open>\<open>detected\<close> is the local address of the probe connection, if there is one.  The field \<open>sc_Listen\<close> stands
  for \<open>listenAddr\<close>, the address of the given listener or the configured one.\<close>

definition resolveLocalIP :: "(string \<Rightarrow> bool option) \<Rightarrow> string option \<Rightarrow> ServerConfig \<Rightarrow> string" where
  "resolveLocalIP ip4 detected cfg =
     (let override = effectiveRTPAddress ip4 (sc_RTPAddress cfg);
          auto = (case detected of None \<Rightarrow> ''127.0.0.1'' | Some ip \<Rightarrow> ip)
      in if override \<noteq> [] then override
         else case SplitHostPort (sc_Listen cfg) of
                None \<Rightarrow> auto
              | Some (host, _) \<Rightarrow> if host \<noteq> [] \<and> host \<noteq> ''0.0.0.0'' \<and> host \<noteq> ''::'' then host else auto)"

definition resolveRTPAddressForPeer :: "(string \<Rightarrow> bool option) \<Rightarrow> PeerConfig option \<Rightarrow> 'ip server \<Rightarrow> string" where
  "resolveRTPAddressForPeer ip4 p s =
     (case p of
        None \<Rightarrow> s_localIP s
      | Some p \<Rightarrow>
          let override = effectiveRTPAddress ip4 (pc_RTPAddress p) in if override \<noteq> [] then override else s_localIP s)"

definition applyCallConfig :: "'ip server \<Rightarrow> call \<Rightarrow> call" where
  "applyCallConfig s c =
     c\<lparr>c_mediaTimeout := sc_MediaTimeout (s_cfg s), c_codecPrefs := s_codecPrefs s, c_dtmfMode := sc_DtmfMode (s_cfg s)\<rparr>"

definition reply :: "string \<Rightarrow> int \<Rightarrow> string \<Rightarrow> 'ip server \<Rightarrow> 'ip server" where
  "reply callID code reason s = s\<lparr>s_out := s_out s @ [(callID, Respond code reason [])]\<rparr>"

section \<open>The table\<close>

definition srv_registerCall :: "int \<Rightarrow> call \<Rightarrow> 'ip server \<Rightarrow> 'ip server" where
  "srv_registerCall now c s =
     (let s = registerCall c s in s\<lparr>s_createdAt := AList.update (c_callID c) now (s_createdAt s)\<rparr>)"

text \<open>A dispatched cleanup: \<open>untrackCall\<close> of the server.\<close>

definition srv_cleanup :: "nat \<Rightarrow> 'ip server \<Rightarrow> 'ip server" where
  "srv_cleanup i s =
     (if i < length (t_pending s)
      then (run_cleanup i s)\<lparr>s_createdAt := AList.delete (t_pending s ! i) (s_createdAt s)\<rparr> else s)"

definition spawn :: "task \<Rightarrow> 'ip server \<Rightarrow> 'ip server" where
  "spawn tk s = s\<lparr>s_tasks := s_tasks s @ [tk]\<rparr>"

section \<open>Inbound calls\<close>

definition inbound_call :: "'ip world \<Rightarrow> request \<Rightarrow> string \<Rightarrow> 'ip server \<Rightarrow> call" where
  "inbound_call w req peerName s =
     (let peerCfg = findPeer (sc_Peers (s_cfg s)) peerName;
          c = newInboundCall (rq_headers req) (rq_callID req);
          c = c\<lparr>c_localIP := resolveRTPAddressForPeer (w_ip4 w) peerCfg s,
                c_rtpPortMin := sc_RTPPortMin (s_cfg s), c_rtpPortMax := sc_RTPPortMax (s_cfg s)\<rparr>;
          c = applyCallConfig s c;
          c = (case peerCfg of
                 None \<Rightarrow> c
               | Some p \<Rightarrow> if pc_Codecs p \<noteq> [] then c\<lparr>c_codecPrefs := codecPrefsToInts (pc_Codecs p)\<rparr> else c)
      in c\<lparr>c_remoteSDP := rq_body req\<rparr>)"

text \<open>\<open>handleDialogInvite\<close> up to the registration of the call, and after it.\<close>

definition handleDialogInvite :: "'ip world \<Rightarrow> env \<Rightarrow> request \<Rightarrow> string \<Rightarrow> 'ip server \<Rightarrow> 'ip server" where
  "handleDialogInvite w e req peerName s =
     (if s_incomingFns s = 0 then reply (rq_callID req) 480 ''Temporarily Unavailable'' s
      else case ensureRTPPort e (inbound_call w req peerName s) of
             (False, c) \<Rightarrow>
               s\<lparr>s_out := s_out s @ map (Pair (rq_callID req)) (c_sent (snd (Reject 500 ''Internal Server Error'' c)))\<rparr>
           | (True, c) \<Rightarrow>
               spawn (InviteTail (length (t_heap s)) (rq_body req) (s_incomingFns s)) (srv_registerCall (ev_now e) c s))"

definition offered_srtp :: "bool \<Rightarrow> string option \<Rightarrow> Session \<Rightarrow> call \<Rightarrow> call" where
  "offered_srtp useSRTP key sess c =
     (if useSRTP \<and> IsSRTP sess then
        (case FirstCrypto sess of
           None \<Rightarrow> c
         | Some crypto \<Rightarrow> (case key of None \<Rightarrow> c | Some localKey \<Rightarrow> setupSRTP localKey (InlineKey crypto) c))
      else c)"

definition offered_video :: "env \<Rightarrow> Session \<Rightarrow> call \<Rightarrow> call" where
  "offered_video e sess c =
     (case VideoMedia sess of
        None \<Rightarrow> c
      | Some vm \<Rightarrow> if md_Codecs vm \<noteq> [] then snd (ensureVideoRTPPort e c) else c)"

definition invite_media :: "env \<Rightarrow> bool \<Rightarrow> string option \<Rightarrow> string \<Rightarrow> call \<Rightarrow> call" where
  "invite_media e useSRTP key sdpBody c =
     (case (if sdpBody = [] then None else sdp_Parse sdpBody) of
        None \<Rightarrow> c
      | Some sess \<Rightarrow> offered_video e sess (offered_srtp useSRTP key sess c))"

definition invite_tail :: "env \<Rightarrow> string option \<Rightarrow> nat \<Rightarrow> string \<Rightarrow> nat \<Rightarrow> 'ip server \<Rightarrow> 'ip server" where
  "invite_tail e key r sdpBody fns s =
     (let s = on_call (\<lambda>c. send (Respond 180 ''Ringing'' []) (invite_media e (sc_SRTP (s_cfg s)) key sdpBody c)) r s
      in s\<lparr>s_presented := s_presented s @ replicate fns r\<rparr>)"

text \<open>\<open>handleInvite\<close>.  \<open>readOk\<close> is the outcome of the library's \<open>ReadInvite\<close>, \<open>handler\<close> says whether the
  application handles video requests on the call that a re-INVITE is for.\<close>

definition handleInvite :: "'ip world \<Rightarrow> env \<Rightarrow> string \<Rightarrow> bool \<Rightarrow> bool \<Rightarrow> request \<Rightarrow> 'ip server \<Rightarrow> 'ip server" where
  "handleInvite w e nonce readOk handler req s =
     (let result = authenticatePeer (s_matchers s) (w_parseIP w (extractSourceIP req)) (rq_auth req) nonce
      in if ar_Challenge result then
           s\<lparr>s_out := s_out s @ [(rq_callID req, Respond 401 ''Unauthorized'' (''WWW-Authenticate: '' @ buildWWWAuthenticate (ar_Nonce result)))]\<rparr>
         else if \<not> ar_Authenticated result then reply (rq_callID req) 403 ''Forbidden'' s
         else if \<not> s_stack s \<or> \<not> readOk then s
         else case (if rq_callID req = [] then None else findCall (rq_callID req) s) of
                Some r \<Rightarrow> on_call (\<lambda>c. snd (handleReInvite e handler (rq_body req) c)) r s
              | None \<Rightarrow> spawn (InviteTask req (ar_Peer result)) (reply (rq_callID req) 100 ''Trying'' s))"

section \<open>In-dialog requests\<close>

text \<open>The call a request is for.\<close>

definition request_call :: "request \<Rightarrow> 'ip server \<Rightarrow> nat option" where
  "request_call req s = (if rq_callID req = [] then None else findCall (rq_callID req) s)"

text \<open>\<open>known\<close>: the server or the client dialog cache of the library has the dialog and has answered.\<close>

definition handleBye :: "bool \<Rightarrow> request \<Rightarrow> 'ip server \<Rightarrow> 'ip server" where
  "handleBye known req s =
     (if \<not> s_stack s \<or> \<not> known then reply (rq_callID req) 200 ''OK'' s
      else case request_call req s of None \<Rightarrow> s | Some r \<Rightarrow> on_call simulateBye r s)"

definition handleCancel :: "request \<Rightarrow> 'ip server \<Rightarrow> 'ip server" where
  "handleCancel req s =
     (let s = reply (rq_callID req) 200 ''OK'' s
      in case request_call req s of None \<Rightarrow> s | Some r \<Rightarrow> on_call simulateCancel r s)"

definition handleOptions :: "int option \<Rightarrow> request \<Rightarrow> 'ip server \<Rightarrow> 'ip server" where
  "handleOptions fn req s =
     (let code = (case fn of None \<Rightarrow> 200 | Some code \<Rightarrow> code) in reply (rq_callID req) code (sipReasonPhrase code) s)"

definition info_dtmf :: "string \<Rightarrow> call \<Rightarrow> call" where
  "info_dtmf digit c = (if c_dtmfMode c = DtmfSipInfo \<or> c_dtmfMode c = DtmfBoth then fire (FireDTMF digit) c else c)"

definition handleInfo :: "request \<Rightarrow> 'ip server \<Rightarrow> 'ip server" where
  "handleInfo req s =
     (let s = reply (rq_callID req) 200 ''OK'' s;
          digit = ParseInfoDTMF (rq_body req)
      in if Index (ToLower (rq_contentType req)) ''application/dtmf-relay'' = None \<or> digit = [] then s
         else case request_call req s of None \<Rightarrow> s | Some r \<Rightarrow> on_call (info_dtmf digit) r s)"

text \<open>A NOTIFY for a call that was transferred to the call at address \<open>b\<close>, which the closure installed by
  \<open>AttendedTransfer\<close> has captured, ends both; a blind transfer has no other call.\<close>

definition notify_calls :: "int \<Rightarrow> nat option \<Rightarrow> nat \<Rightarrow> 'a tracker_scheme \<Rightarrow> 'a tracker_scheme" where
  "notify_calls code b r t =
     (if r < length (t_heap t) then
        (let c = t_heap t ! r; t' = on_call (\<lambda>c. fst (FireNotify code c c)) r t
         in case b of
              None \<Rightarrow> t'
            | Some b \<Rightarrow> if b = r then t' else on_call (\<lambda>d. snd (FireNotify code c d)) b t')
      else t)"

definition handleNotify :: "nat option \<Rightarrow> request \<Rightarrow> 'ip server \<Rightarrow> 'ip server" where
  "handleNotify b req s =
     (let s = reply (rq_callID req) 200 ''OK'' s; code = parseSipfragStatus (rq_body req)
      in if code > 0 then (case request_call req s of None \<Rightarrow> s | Some r \<Rightarrow> notify_calls code b r s) else s)"

section \<open>Outbound calls\<close>

text \<open>The dialog \<open>dialOnce\<close> returns: the fields of \<open>sipgoDialogUAC\<close> that are read.\<close>

record uac =
  ua_callID :: string
  ua_headers :: "string \<Rightarrow> string list"
  ua_rtpPort :: "int option"
  ua_videoRtpPort :: "int option"
  ua_invite :: string
  ua_response :: string
  ua_srtpLocalKey :: string

text \<open>What the library made of an INVITE with a given body, and the surroundings of one attempt: sockets,
  the random key, whether the dial context is over afterwards.\<close>

record sip_outcome =
  so_responses :: "(int \<times> string) list"
  so_err :: "dial_error option"
  so_callID :: string
  so_headers :: "string \<Rightarrow> string list"
  so_body :: string

record dial_env =
  de_env :: env
  de_key :: "string option"
  de_ctxErr :: bool
  de_invite :: "string \<Rightarrow> sip_outcome"

definition offer_codecs :: "int list \<Rightarrow> int list \<Rightarrow> int list" where
  "offer_codecs peerCodecs prefs =
     (let codecPT = (if peerCodecs = [] then prefs else peerCodecs) in if codecPT = [] then defaultCodecPrefs else codecPT)"

definition setup_failed :: "string \<Rightarrow> bool \<Rightarrow> hop" where
  "setup_failed msg ctxErr = \<lparr>hop_responses = [], hop_err = Some (dialSetupError msg), hop_ctxErr = ctxErr\<rparr>"

definition dialOnce :: "'ip server \<Rightarrow> string \<Rightarrow> int list \<Rightarrow> dial_env \<Rightarrow> hop \<times> uac option" where
  "dialOnce s rtpAddr peerCodecs d =
     (case listenRTPPort (de_env d) (sc_RTPPortMin (s_cfg s)) (sc_RTPPortMax (s_cfg s)) of
        None \<Rightarrow> (setup_failed ''allocate RTP port'' (de_ctxErr d), None)
      | Some rtpPort \<Rightarrow>
          (let codecPT = offer_codecs peerCodecs (s_codecPrefs s);
               key = (if sc_SRTP (s_cfg s) then de_key d else Some [])
           in case key of
                None \<Rightarrow> (setup_failed ''generate SRTP key'' (de_ctxErr d), None)
              | Some k \<Rightarrow>
                  let sdpOffer = (if sc_SRTP (s_cfg s) then BuildOfferSRTP rtpAddr rtpPort codecPT DirSendRecv k
                                  else BuildOffer rtpAddr rtpPort codecPT DirSendRecv);
                      out = de_invite d sdpOffer
                  in (\<lparr>hop_responses = so_responses out, hop_err = so_err out, hop_ctxErr = de_ctxErr d\<rparr>,
                      if so_err out = None
                      then Some \<lparr>ua_callID = so_callID out, ua_headers = so_headers out, ua_rtpPort = Some rtpPort, ua_videoRtpPort = None,
                                 ua_invite = sdpOffer, ua_response = so_body out, ua_srtpLocalKey = k\<rparr>
                      else None)))"

definition outbound_call :: "env \<Rightarrow> DialOptions \<Rightarrow> uac \<Rightarrow> 'ip server \<Rightarrow> call" where
  "outbound_call e opts ua s =
     (let c = newOutboundCall opts (ua_headers ua) (ua_callID ua);
          c = applyCallConfig s (c\<lparr>c_localIP := s_localIP s\<rparr>);
          c = (case ua_rtpPort ua of None \<Rightarrow> c | Some p \<Rightarrow> c\<lparr>c_rtpConn := Some p, c_rtpPort := p\<rparr>);
          c = c\<lparr>c_localSDP := ua_invite ua\<rparr>
      in if ua_response ua = [] then c
         else let c = c\<lparr>c_remoteSDP := ua_response ua\<rparr>
              in case sdp_Parse (ua_response ua) of
                   None \<Rightarrow> c
                 | Some sess \<Rightarrow>
                     let c = setRemoteEndpoint e sess (negotiateCodec sess c)
                     in if ua_srtpLocalKey ua \<noteq> [] \<and> IsSRTP sess then
                          (case FirstCrypto sess of
                             None \<Rightarrow> c
                           | Some crypto \<Rightarrow> setupSRTP (ua_srtpLocalKey ua) (InlineKey crypto) c)
                        else c)"

text \<open>\<open>setupOutboundCall\<close> up to the registration, and the replay of the responses with the start of the
  media; \<open>None\<close> is a nil dereference.\<close>

definition setupOutboundCall :: "env \<Rightarrow> DialOptions \<Rightarrow> uac \<Rightarrow> (int \<times> string) list \<Rightarrow> 'ip server \<Rightarrow> 'ip server" where
  "setupOutboundCall e opts ua responses s =
     spawn (OutTail (length (t_heap s)) responses) (srv_registerCall (ev_now e) (outbound_call e opts ua s) s)"

definition replay :: "env \<Rightarrow> (int \<times> string) list \<Rightarrow> call \<Rightarrow> call" where
  "replay e responses c = fold (\<lambda>(code, reason). simulateResponse e code) responses c"

definition outbound_tail :: "env \<Rightarrow> nat \<Rightarrow> (int \<times> string) list \<Rightarrow> 'ip server \<Rightarrow> 'ip server option" where
  "outbound_tail e r responses s =
     (if r < length (t_heap s) then
        (let c = replay e responses (t_heap s ! r)
         in case (if c_rtpConn c \<noteq> None then startMedia e c else Some c) of
              None \<Rightarrow> None
            | Some c \<Rightarrow> Some (store_call r c s))
      else Some s)"

text \<open>\<open>Dial\<close>: the failover loop over \<open>dialOnce\<close>, then the call of the attempt that got through.\<close>

definition dial_attempt :: "'ip world \<Rightarrow> string \<Rightarrow> 'ip server \<Rightarrow> dial_env \<Rightarrow> hop \<times> uac option" where
  "dial_attempt w peer s d =
     (let peerCfg = findPeer (sc_Peers (s_cfg s)) peer
      in dialOnce s (resolveRTPAddressForPeer (w_ip4 w) peerCfg s)
           (case peerCfg of None \<Rightarrow> [] | Some p \<Rightarrow> codecPrefsToInts (pc_Codecs p)) d)"

definition dial_attempts :: "'ip world \<Rightarrow> (nat \<Rightarrow> dialCandidate \<Rightarrow> bool \<Rightarrow> dial_env) \<Rightarrow> string \<Rightarrow> 'ip server \<Rightarrow> dial_result \<times> attempt list" where
  "dial_attempts w att peer s =
     Dial (s_listening s) (sc_Peers (s_cfg s)) (sc_OutboundFailover (s_cfg s)) (w_ip4 w) (w_lookupHost w)
       (\<lambda>n cand guarded. fst (dial_attempt w peer s (att n cand guarded))) peer"

definition server_Dial :: "'ip world \<Rightarrow> (nat \<Rightarrow> dialCandidate \<Rightarrow> bool \<Rightarrow> dial_env) \<Rightarrow> DialOptions \<Rightarrow> string \<Rightarrow> 'ip server \<Rightarrow> (dial_error option + nat) \<times> 'ip server" where
  "server_Dial w att opts peer s =
     (case dial_attempts w att peer s of
        (DialFailed err, as) \<Rightarrow> (Inl err, s)
      | (Connected cand responses, as) \<Rightarrow>
          (let d = att (length as) (at_cand (last as)) (at_guarded (last as))
           in case snd (dial_attempt w peer s d) of
                None \<Rightarrow> (Inl None, s)
              | Some ua \<Rightarrow> (Inr (length (t_heap s)), setupOutboundCall (de_env d) opts ua responses s)))"

definition DialURI :: "dial_env \<Rightarrow> DialOptions \<Rightarrow> string \<Rightarrow> 'ip server \<Rightarrow> (dial_error option + nat) \<times> 'ip server" where
  "DialURI d opts uri s =
     (if \<not> HasPrefix uri ''sip:'' \<and> \<not> HasPrefix uri ''sips:'' then (Inl (Some (OtherDialError ''invalid SIP URI'')), s)
      else if CHR ''@'' \<notin> set uri then (Inl (Some (OtherDialError ''SIP URI has no user part'')), s)
      else if \<not> s_listening s then (Inl (Some ErrNotListening), s)
      else case dialOnce s (s_localIP s) [] d of
             (h, Some ua) \<Rightarrow> (Inr (length (t_heap s)), setupOutboundCall (de_env d) opts ua (hop_responses h) s)
           | (h, None) \<Rightarrow> (Inl (hop_err h), s))"

section \<open>The life of the server\<close>

text \<open>\<open>Listen\<close> up to the point where it serves, and after the listener has returned.  \<open>setupOk\<close> is the
  outcome of creating the SIP stack.\<close>

definition Listen :: "'ip world \<Rightarrow> string option \<Rightarrow> bool \<Rightarrow> 'ip server \<Rightarrow> bool \<times> 'ip server" where
  "Listen w detected setupOk s =
     (if s_listening s then (False, s)
      else let s = s\<lparr>s_localIP := resolveLocalIP (w_ip4 w) detected (s_cfg s)\<rparr>
           in if \<not> setupOk then (False, s)
              else (True, s\<lparr>s_stack := True, s_cancel := True, s_cancelled := False, s_listening := True\<rparr>))"

definition listen_return :: "'ip server \<Rightarrow> 'ip server" where
  "listen_return s = s\<lparr>s_listening := False, s_cancel := False, s_stack := False\<rparr>"

definition Shutdown :: "'ip server \<Rightarrow> 'ip server" where
  "Shutdown s =
     (let cancel = s_cancel s; s = end_all (s\<lparr>s_createdAt := []\<rparr>)
      in if cancel then s\<lparr>s_cancelled := True\<rparr> else s)"

text \<open>The reaper: the snapshot, the calls over their time, and \<open>End\<close> for each.\<close>

definition is_stale :: "int \<Rightarrow> int option \<Rightarrow> call \<Rightarrow> bool" where
  "is_stale now createdAt c =
     (if c_state c \<in> {StateRinging, StateDialing, StateRemoteRinging, StateEarlyMedia}
      then (case createdAt of None \<Rightarrow> False | Some t \<Rightarrow> now - t > setupTTL)
      else if c_state c \<in> {StateActive, StateOnHold}
      then (case c_startTime c of None \<Rightarrow> False | Some t \<Rightarrow> now - t > activeTTL)
      else False)"

definition stale_calls :: "int \<Rightarrow> 'ip server \<Rightarrow> nat list" where
  "stale_calls now s =
     map snd (filter (\<lambda>(callID, r). r < length (t_heap s) \<and> is_stale now (map_of (s_createdAt s) callID) (t_heap s ! r)) (t_calls s))"

definition reapStaleCalls :: "int \<Rightarrow> 'ip server \<Rightarrow> 'ip server" where
  "reapStaleCalls now s = fold end_call (stale_calls now s) s"

section \<open>Events\<close>

datatype srv_event =
    EvListen "string option" bool
  | EvListenReturn
  | EvOnIncoming
  | EvInvite env string bool bool request
  | EvBye bool request
  | EvCancel request
  | EvOptions "int option" request
  | EvInfo request
  | EvNotify "nat option" request
  | EvDial "nat \<Rightarrow> dialCandidate \<Rightarrow> bool \<Rightarrow> dial_env" DialOptions string
  | EvDialURI dial_env DialOptions string
  | EvTask nat env "string option"
  | EvCall nat env call_op
  | EvCleanup nat
  | EvReap int
  | EvShutdown

fun run_task :: "'ip world \<Rightarrow> env \<Rightarrow> string option \<Rightarrow> task \<Rightarrow> 'ip server \<Rightarrow> 'ip server option" where
  "run_task w e key (InviteTask req peer) s = Some (handleDialogInvite w e req peer s)"
| "run_task w e key (InviteTail r body fns) s = Some (invite_tail e key r body fns s)"
| "run_task w e key (OutTail r responses) s = outbound_tail e r responses s"

text \<open>One event; \<open>None\<close> is a panic.\<close>

fun srv_step :: "'ip world \<Rightarrow> srv_event \<Rightarrow> 'ip server \<Rightarrow> 'ip server option" where
  "srv_step w (EvListen detected ok) s = Some (snd (Listen w detected ok s))"
| "srv_step w EvListenReturn s = Some (listen_return s)"
| "srv_step w EvOnIncoming s = Some (s\<lparr>s_incomingFns := Suc (s_incomingFns s)\<rparr>)"
| "srv_step w (EvInvite e nonce ok handler req) s = Some (handleInvite w e nonce ok handler req s)"
| "srv_step w (EvBye known req) s = Some (handleBye known req s)"
| "srv_step w (EvCancel req) s = Some (handleCancel req s)"
| "srv_step w (EvOptions fn req) s = Some (handleOptions fn req s)"
| "srv_step w (EvInfo req) s = Some (handleInfo req s)"
| "srv_step w (EvNotify b req) s = Some (handleNotify b req s)"
| "srv_step w (EvDial att opts peer) s = Some (snd (server_Dial w att opts peer s))"
| "srv_step w (EvDialURI d opts uri) s = Some (snd (DialURI d opts uri s))"
| "srv_step w (EvTask i e key) s =
     (if i < length (s_tasks s)
      then run_task w e key (s_tasks s ! i) (s\<lparr>s_tasks := take i (s_tasks s) @ drop (Suc i) (s_tasks s)\<rparr>) else Some s)"
| "srv_step w (EvCall r e op) s =
     (if r < length (t_heap s)
      then map_option (\<lambda>c. store_call r c s) (call_step (w_marshal w) e op (t_heap s ! r)) else Some s)"
| "srv_step w (EvCleanup i) s = Some (srv_cleanup i s)"
| "srv_step w (EvReap now) s = Some (reapStaleCalls now s)"
| "srv_step w EvShutdown s = Some (Shutdown s)"

end
