(* ===== verification/UserAgent.thy ===== *)
theory UserAgent
  imports Server PhoneLifecycle
begin

text \<open>
  The phone's user agent: \<open>sipua.go\<close>, which dials with redirects and hands requests to the phone, and
  the part of \<open>xphone.go\<close> that owns calls.  The user agent starts a goroutine for most of what it hands
  over, so the state has tasks that run later and in any order.  The lifecycle of the phone is in
  \<open>PhoneLifecycle\<close>; here its state is a field that changes by itself.
\<close>

section \<open>Targets\<close>

record sip_Uri =
  uri_Scheme :: string
  uri_User :: string
  uri_Host :: string
  uri_Port :: int

definition parse_hostPart :: "string \<Rightarrow> string \<times> int" where
  "parse_hostPart hostPart =
     (let hostPart = (case Index hostPart '';'' of None \<Rightarrow> hostPart | Some semi \<Rightarrow> take semi hostPart)
      in case SplitHostPort hostPart of
           Some (h, p) \<Rightarrow> (h, Atoi_val p)
         | None \<Rightarrow> (hostPart, 0))"

definition parseSIPTarget :: "string \<Rightarrow> string \<Rightarrow> int \<Rightarrow> sip_Uri" where
  "parseSIPTarget target defaultHost defaultPort =
     (if HasPrefix target ''sip:'' \<or> HasPrefix target ''sips:'' then
        (let scheme = (if HasPrefix target ''sips:'' then ''sips'' else ''sip'');
             rest = (if HasPrefix target ''sips:'' then drop 5 target else drop 4 target)
         in case Index rest ''@'' of
              None \<Rightarrow> \<lparr>uri_Scheme = scheme, uri_User = rest, uri_Host = defaultHost, uri_Port = defaultPort\<rparr>
            | Some at \<Rightarrow>
                let (host, port) = parse_hostPart (drop (at + 1) rest)
                in \<lparr>uri_Scheme = scheme, uri_User = take at rest, uri_Host = host, uri_Port = port\<rparr>)
      else \<lparr>uri_Scheme = ''sip'', uri_User = target, uri_Host = defaultHost, uri_Port = defaultPort\<rparr>)"

section \<open>Dialling\<close>

definition maxRedirects :: nat where "maxRedirects = 3"

text \<open>What the library made of an INVITE: an error, a final 3xx with its Contact (if it has one), or a
  dialog.\<close>

datatype invite_result = InviteError string | Moved int "string option" | Answered

record ua_env =
  ue_env :: env
  ue_key :: "string option"
  ue_invite :: "string \<Rightarrow> invite_result \<times> (int \<times> string) list"
  ue_ackOk :: bool
  ue_callID :: string
  ue_headers :: "string \<Rightarrow> string list"
  ue_body :: string

datatype once_result = OnceError string | Redirect string | Dialog uac

definition ua_offer :: "Config \<Rightarrow> string \<Rightarrow> int \<Rightarrow> int option \<Rightarrow> int list \<Rightarrow> string \<Rightarrow> string" where
  "ua_offer cfg ip rtpPort videoPort videoCodecs key =
     (let codecPT = (if codecPrefsToInts (cf_CodecPrefs cfg) = [] then defaultCodecPrefs else codecPrefsToInts (cf_CodecPrefs cfg));
          vp = (case videoPort of None \<Rightarrow> 0 | Some p \<Rightarrow> p)
      in if cf_SRTP cfg then
           (if videoCodecs \<noteq> [] \<and> vp > 0 then BuildOfferVideoSRTP ip rtpPort codecPT vp videoCodecs DirSendRecv key
            else BuildOfferSRTP ip rtpPort codecPT DirSendRecv key)
         else if videoCodecs \<noteq> [] \<and> vp > 0 then BuildOfferVideo ip rtpPort codecPT vp videoCodecs DirSendRecv
         else BuildOffer ip rtpPort codecPT DirSendRecv)"

definition ua_dialOnce :: "Config \<Rightarrow> string \<Rightarrow> DialOptions \<Rightarrow> ua_env \<Rightarrow> once_result \<times> (int \<times> string) list" where
  "ua_dialOnce cfg ip opts d =
     (case listenRTPPort (ue_env d) (cf_RTPPortMin cfg) (cf_RTPPortMax cfg) of
        None \<Rightarrow> (OnceError ''allocate RTP port'', [])
      | Some rtpPort \<Rightarrow>
          (let wantVideo = (opt_Video opts \<and> opt_VideoCodecs opts \<noteq> []);
               videoPort = (if wantVideo then listenRTPPort (ue_env d) (cf_RTPPortMin cfg) (cf_RTPPortMax cfg) else None);
               key = (if cf_SRTP cfg then ue_key d else Some [])
           in if wantVideo \<and> videoPort = None then (OnceError ''allocate video RTP port'', [])
              else case key of
                     None \<Rightarrow> (OnceError ''generate SRTP key'', [])
                   | Some k \<Rightarrow>
                       let offer = ua_offer cfg ip rtpPort videoPort (opt_VideoCodecs opts) k
                       in (case ue_invite d offer of
                             (InviteError err, rs) \<Rightarrow> (OnceError err, rs)
                           | (Moved code None, rs) \<Rightarrow> (OnceError ''redirect with no Contact header'', rs)
                           | (Moved code (Some uri), rs) \<Rightarrow>
                               (if uri = [] then OnceError ''redirect with empty Contact URI'' else Redirect uri, rs)
                           | (Answered, rs) \<Rightarrow>
                               (if \<not> ue_ackOk d then OnceError ''ack''
                                else Dialog \<lparr>ua_callID = ue_callID d, ua_headers = ue_headers d, ua_rtpPort = Some rtpPort,
                                       ua_videoRtpPort = videoPort, ua_invite = offer, ua_response = ue_body d,
                                       ua_srtpLocalKey = k\<rparr>, rs))))"

text \<open>The loop of \<open>dialWithOpts\<close>: the outcome, every response that was reported, and the targets tried.\<close>

function dialWithOpts :: "(nat \<Rightarrow> string \<Rightarrow> once_result \<times> (int \<times> string) list) \<Rightarrow> nat \<Rightarrow> string \<Rightarrow> (string + uac) \<times> (int \<times> string) list \<times> string list" where
  "dialWithOpts once redirects target =
     (case once redirects target of
        (OnceError err, rs) \<Rightarrow> (Inl err, rs, [target])
      | (Dialog ua, rs) \<Rightarrow> (Inr ua, rs, [target])
      | (Redirect uri, rs) \<Rightarrow>
          if redirects + 1 > maxRedirects then (Inl ''too many redirects'', rs, [target])
          else (case dialWithOpts once (redirects + 1) uri of (r, rs', ts) \<Rightarrow> (r, rs @ rs', target # ts)))"
  by auto
termination by (relation "measure (\<lambda>(_, n, _). maxRedirects + 1 - n)") auto

declare dialWithOpts.simps [simp del]

section \<open>The phone's calls\<close>

text \<open>What the user agent has handed to a goroutine that has not run yet, or not to its end.\<close>

datatype ptask =
    PInvite request
  | PInviteTail nat string
  | PBye string
  | PCancel string
  | PNotify string int "nat option"
  | PInfo string string
  | POutTail nat "(int \<times> string) list"

text \<open>A NOTIFY or MESSAGE that goes to other parts: the voicemail and subscription handlers, the
  application.\<close>

datatype upcall = ToVoicemail string | ToSubscriptions string string string string string | ToMessages string string string string

record phone_ua = tracker +
  u_cfg :: Config
  u_state :: PhoneState
  u_localIP :: string
  u_hostIP :: string
  u_codecPrefs :: "int list"
  u_incomingFns :: nat
  u_tasks :: "ptask list"
  u_out :: "(string \<times> sip_out) list"
  u_presented :: "nat list"
  u_upcalls :: "upcall list"

text \<open>\<open>newPhone\<close> of \<open>xphone.go\<close>; \<open>interfaceIP\<close> is what \<open>localIPFor\<close> returns.\<close>

definition new_phone_ua :: "(string \<Rightarrow> bool option) \<Rightarrow> string \<Rightarrow> Config \<Rightarrow> phone_ua" where
  "new_phone_ua ip4 interfaceIP cfg =
     (let override = effectiveRTPAddress ip4 (cf_RTPAddress cfg); ip = (if override \<noteq> [] then override else interfaceIP)
      in \<lparr>t_heap = [], t_calls = [], t_pending = [], u_cfg = cfg, u_state = PhoneStateDisconnected, u_localIP = ip, u_hostIP = ip,
          u_codecPrefs = codecPrefsToInts (cf_CodecPrefs cfg), u_incomingFns = 0, u_tasks = [], u_out = [], u_presented = [],
          u_upcalls = []\<rparr>)"

definition phone_applyCallConfig :: "phone_ua \<Rightarrow> call \<Rightarrow> call" where
  "phone_applyCallConfig p c =
     c\<lparr>c_mediaTimeout := cf_MediaTimeout (u_cfg p), c_codecPrefs := u_codecPrefs p, c_dtmfMode := cf_DtmfMode (u_cfg p),
       c_iceEnabled := cf_ICE (u_cfg p), c_hostIP := u_hostIP p\<rparr>"

definition ua_reply :: "string \<Rightarrow> int \<Rightarrow> string \<Rightarrow> phone_ua \<Rightarrow> phone_ua" where
  "ua_reply callID code reason p = p\<lparr>u_out := u_out p @ [(callID, Respond code reason [])]\<rparr>"

definition ua_spawn :: "ptask \<Rightarrow> phone_ua \<Rightarrow> phone_ua" where
  "ua_spawn tk p = p\<lparr>u_tasks := u_tasks p @ [tk]\<rparr>"

section \<open>What the user agent hands over\<close>

text \<open>\<open>handleDialogReInvite\<close>: whether the request was for an existing call.\<close>

definition handleDialogReInvite :: "env \<Rightarrow> bool \<Rightarrow> string \<Rightarrow> string \<Rightarrow> phone_ua \<Rightarrow> bool \<times> phone_ua" where
  "handleDialogReInvite e handler callID sdpBody p =
     (case findCall callID p of
        None \<Rightarrow> (False, p)
      | Some r \<Rightarrow> (True, on_call (\<lambda>c. snd (handleReInvite e handler sdpBody c)) r p))"

definition ua_handleInvite :: "env \<Rightarrow> bool \<Rightarrow> bool \<Rightarrow> request \<Rightarrow> phone_ua \<Rightarrow> phone_ua" where
  "ua_handleInvite e readOk handler req p =
     (if \<not> readOk then p
      else case (if rq_callID req \<noteq> [] then handleDialogReInvite e handler (rq_callID req) (rq_body req) p else (False, p)) of
             (True, p) \<Rightarrow> p
           | (False, p) \<Rightarrow> ua_spawn (PInvite req) (ua_reply (rq_callID req) 100 ''Trying'' p))"

definition ua_onBye :: "bool \<Rightarrow> request \<Rightarrow> phone_ua \<Rightarrow> phone_ua" where
  "ua_onBye known req p =
     (if \<not> known then ua_reply (rq_callID req) 200 ''OK'' p
      else if rq_callID req \<noteq> [] then ua_spawn (PBye (rq_callID req)) p else p)"

definition ua_onCancel :: "request \<Rightarrow> phone_ua \<Rightarrow> phone_ua" where
  "ua_onCancel req p =
     (let p = ua_reply (rq_callID req) 200 ''OK'' p in if rq_callID req \<noteq> [] then ua_spawn (PCancel (rq_callID req)) p else p)"

definition ua_onInfo :: "request \<Rightarrow> phone_ua \<Rightarrow> phone_ua" where
  "ua_onInfo req p =
     (let p = ua_reply (rq_callID req) 200 ''OK'' p; digit = ParseInfoDTMF (rq_body req)
      in if Index (ToLower (rq_contentType req)) ''application/dtmf-relay'' = None \<or> digit = [] then p
         else if rq_callID req \<noteq> [] then ua_spawn (PInfo (rq_callID req) digit) p else p)"

definition contentTypeMWI :: string where "contentTypeMWI = ''application/simple-message-summary''"

text \<open>\<open>b\<close> is the other call of an attended transfer, as for the server; \<open>event\<close> and \<open>subState\<close> are the
  values of those headers.\<close>

definition ua_handleNotify :: "nat option \<Rightarrow> string \<Rightarrow> string \<Rightarrow> request \<Rightarrow> phone_ua \<Rightarrow> phone_ua" where
  "ua_handleNotify b event subState req p =
     (let p = ua_reply (rq_callID req) 200 ''OK'' p;
          ct = rq_contentType req;
          mediaType = TrimSpace (case IndexByte ct CHR '';'' of None \<Rightarrow> ct | Some semi \<Rightarrow> take semi ct);
          code = parseSipfragStatus (rq_body req)
      in if EqualFold mediaType contentTypeMWI then p\<lparr>u_upcalls := u_upcalls p @ [ToVoicemail (rq_body req)]\<rparr>
         else if code > 0 then (if rq_callID req \<noteq> [] then ua_spawn (PNotify (rq_callID req) code b) p else p)
         else p\<lparr>u_upcalls := u_upcalls p @ [ToSubscriptions event (rq_from req) ct (rq_body req) subState]\<rparr>)"

definition ua_onMessage :: "request \<Rightarrow> phone_ua \<Rightarrow> phone_ua" where
  "ua_onMessage req p =
     (let p = ua_reply (rq_callID req) 200 ''OK'' p;
          ct = (if rq_contentType req = [] then ''text/plain'' else rq_contentType req)
      in p\<lparr>u_upcalls := u_upcalls p @ [ToMessages (rq_from req) (rq_to req) ct (rq_body req)]\<rparr>)"

section \<open>What the phone does with it\<close>

definition phone_inbound_call :: "request \<Rightarrow> phone_ua \<Rightarrow> call" where
  "phone_inbound_call req p =
     (let c = newInboundCall (rq_headers req) (rq_callID req);
          c = c\<lparr>c_localIP := u_localIP p, c_rtpPortMin := cf_RTPPortMin (u_cfg p), c_rtpPortMax := cf_RTPPortMax (u_cfg p)\<rparr>
      in (phone_applyCallConfig p c)\<lparr>c_remoteSDP := rq_body req\<rparr>)"

text \<open>\<open>handleDialogInvite\<close> up to the registration of the call, and after it.\<close>

definition phone_handleDialogInvite :: "env \<Rightarrow> request \<Rightarrow> phone_ua \<Rightarrow> phone_ua" where
  "phone_handleDialogInvite e req p =
     (case ensureRTPPort e (phone_inbound_call req p) of
        (False, c) \<Rightarrow> ua_reply (rq_callID req) 500 ''Internal Server Error'' p
      | (True, c) \<Rightarrow> ua_spawn (PInviteTail (length (t_heap p)) (rq_body req)) (registerCall c p))"

definition phone_invite_tail :: "env \<Rightarrow> string option \<Rightarrow> nat \<Rightarrow> string \<Rightarrow> phone_ua \<Rightarrow> phone_ua" where
  "phone_invite_tail e key r sdpBody p =
     (let p = on_call (\<lambda>c. send (Respond 180 ''Ringing'' []) (invite_media e (cf_SRTP (u_cfg p)) key sdpBody c)) r p
      in p\<lparr>u_presented := u_presented p @ replicate (u_incomingFns p) r\<rparr>)"

definition handleDialogBye :: "string \<Rightarrow> phone_ua \<Rightarrow> phone_ua" where
  "handleDialogBye callID p = (case findCall callID p of None \<Rightarrow> p | Some r \<Rightarrow> on_call simulateBye r p)"

definition handleDialogCancel :: "string \<Rightarrow> phone_ua \<Rightarrow> phone_ua" where
  "handleDialogCancel callID p = (case findCall callID p of None \<Rightarrow> p | Some r \<Rightarrow> on_call simulateCancel r p)"

definition handleDialogNotify :: "string \<Rightarrow> int \<Rightarrow> nat option \<Rightarrow> phone_ua \<Rightarrow> phone_ua" where
  "handleDialogNotify callID code b p = (case findCall callID p of None \<Rightarrow> p | Some r \<Rightarrow> notify_calls code b r p)"

definition handleDialogInfo :: "string \<Rightarrow> string \<Rightarrow> phone_ua \<Rightarrow> phone_ua" where
  "handleDialogInfo callID digit p = (case findCall callID p of None \<Rightarrow> p | Some r \<Rightarrow> on_call (info_dtmf digit) r p)"

section \<open>Outbound calls of the phone\<close>

text \<open>The call \<open>Dial\<close> builds from a dialog; a fresh call has no ICE agent, so the credentials of the answer
  go nowhere.\<close>

definition negotiate_outbound :: "env \<Rightarrow> uac \<Rightarrow> Session \<Rightarrow> call \<Rightarrow> call" where
  "negotiate_outbound e ua sess c =
     (let c = setRemoteEndpoint e sess (negotiateCodec sess c);
          c = (if IceUfrag sess \<noteq> [] \<and> IcePwd sess \<noteq> []
               then c\<lparr>c_iceAgent := map_option (SetRemoteCredentials \<lparr>Ufrag = IceUfrag sess, Pwd = IcePwd sess\<rparr>) (c_iceAgent c)\<rparr> else c);
          c = (if ua_srtpLocalKey ua \<noteq> [] \<and> IsSRTP sess then
                 (case FirstCrypto sess of None \<Rightarrow> c | Some crypto \<Rightarrow> setupSRTP (ua_srtpLocalKey ua) (InlineKey crypto) c)
               else c)
      in if c_hasVideo c \<and> c_videoRTPConn c \<noteq> None then initVideoChannels (setVideoRemoteEndpoint e sess c) else c)"

definition phone_outbound_call :: "env \<Rightarrow> DialOptions \<Rightarrow> uac \<Rightarrow> phone_ua \<Rightarrow> call" where
  "phone_outbound_call e opts ua p =
     (let c = phone_applyCallConfig p (newOutboundCall opts (ua_headers ua) (ua_callID ua));
          c = (case ua_rtpPort ua of None \<Rightarrow> c | Some q \<Rightarrow> c\<lparr>c_rtpConn := Some q, c_rtpPort := q, c_localIP := u_localIP p\<rparr>);
          c = (case ua_videoRtpPort ua of None \<Rightarrow> c | Some q \<Rightarrow> c\<lparr>c_videoRTPConn := Some q, c_videoRTPPort := q\<rparr>);
          c = c\<lparr>c_localSDP := ua_invite ua\<rparr>
      in if ua_response ua = [] then c
         else let c = c\<lparr>c_remoteSDP := ua_response ua\<rparr>
              in case sdp_Parse (ua_response ua) of None \<Rightarrow> c | Some sess \<Rightarrow> negotiate_outbound e ua sess c)"

definition phone_outbound_tail :: "env \<Rightarrow> nat \<Rightarrow> (int \<times> string) list \<Rightarrow> phone_ua \<Rightarrow> phone_ua option" where
  "phone_outbound_tail e r responses p =
     (if r < length (t_heap p) then
        (let c = replay e responses (t_heap p ! r)
         in case (if c_rtpConn c \<noteq> None then startMedia e c else Some c) of
              None \<Rightarrow> None
            | Some c \<Rightarrow>
                (case (if c_hasVideo c \<and> c_videoRTPConn c \<noteq> None then startVideoMedia e c else Some c) of
                   None \<Rightarrow> None
                 | Some c \<Rightarrow> Some (store_call r c p)))
      else Some p)"

text \<open>\<open>classifyDialError\<close>: the caller's context, then the dial timeout, then the error itself.\<close>

datatype phone_dial_error = ErrNotRegistered | CallerContext | ErrDialTimeout | DialError string

definition classifyDialError :: "bool \<Rightarrow> bool \<Rightarrow> string \<Rightarrow> phone_dial_error" where
  "classifyDialError ctxDone dialCtxDone err =
     (if ctxDone then CallerContext else if dialCtxDone then ErrDialTimeout else DialError err)"

definition may_dial :: "phone_ua \<Rightarrow> bool" where
  "may_dial p =
     (u_state p = PhoneStateRegistered
      \<or> cf_Registrarless (u_cfg p) \<and> (u_state p = PhoneStatePrepared \<or> u_state p = PhoneStateRegistrationFailed))"

definition phone_Dial :: "(nat \<Rightarrow> string \<Rightarrow> ua_env) \<Rightarrow> bool \<Rightarrow> bool \<Rightarrow> DialOptions \<Rightarrow> string \<Rightarrow> phone_ua \<Rightarrow> (phone_dial_error + nat) \<times> phone_ua" where
  "phone_Dial att ctxDone dialCtxDone opts target p =
     (if \<not> may_dial p then (Inl ErrNotRegistered, p)
      else case dialWithOpts (\<lambda>n t. ua_dialOnce (u_cfg p) (u_localIP p) opts (att n t)) 0 target of
             (Inl err, rs, ts) \<Rightarrow> (Inl (classifyDialError ctxDone dialCtxDone err), p)
           | (Inr ua, rs, ts) \<Rightarrow>
               let e = ue_env (att (length ts - 1) (last ts))
               in (Inr (length (t_heap p)),
                   ua_spawn (POutTail (length (t_heap p)) rs) (registerCall (phone_outbound_call e opts ua p) p)))"

text \<open>What \<open>Disconnect\<close> does with the calls.\<close>

definition disconnect_calls :: "phone_ua \<Rightarrow> phone_ua" where
  "disconnect_calls p = (if u_state p = PhoneStateDisconnected then p else end_all (p\<lparr>u_state := PhoneStateDisconnected\<rparr>))"

section \<open>Events of the phone\<close>

datatype ua_event =
    UState PhoneState
  | UOnIncoming
  | UInvite env bool bool request
  | UBye bool request
  | UCancel request
  | UOptions request
  | UInfo request
  | UNotify "nat option" string string request
  | UMessage request
  | UDial "nat \<Rightarrow> string \<Rightarrow> ua_env" bool bool DialOptions string
  | UTask nat env "string option"
  | UCall nat env call_op
  | UCleanup nat
  | UDisconnect

fun run_ptask :: "env \<Rightarrow> string option \<Rightarrow> ptask \<Rightarrow> phone_ua \<Rightarrow> phone_ua option" where
  "run_ptask e key (PInvite req) p = Some (phone_handleDialogInvite e req p)"
| "run_ptask e key (PInviteTail r body) p = Some (phone_invite_tail e key r body p)"
| "run_ptask e key (PBye callID) p = Some (handleDialogBye callID p)"
| "run_ptask e key (PCancel callID) p = Some (handleDialogCancel callID p)"
| "run_ptask e key (PNotify callID code b) p = Some (handleDialogNotify callID code b p)"
| "run_ptask e key (PInfo callID digit) p = Some (handleDialogInfo callID digit p)"
| "run_ptask e key (POutTail r responses) p = phone_outbound_tail e r responses p"

fun ua_step :: "(rtp_packet \<Rightarrow> bytes) \<Rightarrow> ua_event \<Rightarrow> phone_ua \<Rightarrow> phone_ua option" where
  "ua_step marshal (UState st) p = Some (p\<lparr>u_state := st\<rparr>)"
| "ua_step marshal UOnIncoming p = Some (p\<lparr>u_incomingFns := Suc (u_incomingFns p)\<rparr>)"
| "ua_step marshal (UInvite e readOk handler req) p = Some (ua_handleInvite e readOk handler req p)"
| "ua_step marshal (UBye known req) p = Some (ua_onBye known req p)"
| "ua_step marshal (UCancel req) p = Some (ua_onCancel req p)"
| "ua_step marshal (UOptions req) p = Some (ua_reply (rq_callID req) 200 ''OK'' p)"
| "ua_step marshal (UInfo req) p = Some (ua_onInfo req p)"
| "ua_step marshal (UNotify b event subState req) p = Some (ua_handleNotify b event subState req p)"
| "ua_step marshal (UMessage req) p = Some (ua_onMessage req p)"
| "ua_step marshal (UDial att c1 c2 opts target) p = Some (snd (phone_Dial att c1 c2 opts target p))"
| "ua_step marshal (UTask i e key) p =
     (if i < length (u_tasks p)
      then run_ptask e key (u_tasks p ! i) (p\<lparr>u_tasks := take i (u_tasks p) @ drop (Suc i) (u_tasks p)\<rparr>) else Some p)"
| "ua_step marshal (UCall r e op) p =
     (if r < length (t_heap p) then map_option (\<lambda>c. store_call r c p) (call_step marshal e op (t_heap p ! r)) else Some p)"
| "ua_step marshal (UCleanup i) p = Some (run_cleanup i p)"
| "ua_step marshal UDisconnect p = Some (disconnect_calls p)"

end
