(* ===== verification/ServerProps.thy ===== *)
theory ServerProps
  imports Server
begin

text \<open>
  What the server promises: its call table is well formed and loses no call, whatever requests,
  goroutines and timers do in whatever order; the reaper, \<open>Shutdown\<close>, authentication, inbound and
  outbound call setup.
\<close>

section \<open>The server over the call table\<close>

lemma tab_other [simp]:
  "tab (s\<lparr>s_localIP := a1\<rparr>) = tab s" "tab (s\<lparr>s_listening := a2\<rparr>) = tab s" "tab (s\<lparr>s_stack := a3\<rparr>) = tab s"
  "tab (s\<lparr>s_cancel := a4\<rparr>) = tab s" "tab (s\<lparr>s_cancelled := a5\<rparr>) = tab s" "tab (s\<lparr>s_createdAt := a6\<rparr>) = tab s"
  "tab (s\<lparr>s_incomingFns := a7\<rparr>) = tab s" "tab (s\<lparr>s_tasks := a8\<rparr>) = tab s" "tab (s\<lparr>s_out := a9\<rparr>) = tab s"
  "tab (s\<lparr>s_presented := a10\<rparr>) = tab s"
  by (simp_all add: tracker.truncate_def)

lemma tab_small [simp]:
  "tab (reply k code reason s) = tab s" "tab (spawn tk s) = tab s"
  "tab (srv_registerCall now c s) = registerCall c (tab s)" "tab (srv_cleanup i s) = run_cleanup i (tab s)"
  "tab (listen_return s) = tab s" "tab (snd (Listen w d ok s)) = tab s"
proof -
  show "tab (srv_cleanup i s) = run_cleanup i (tab s)"
    by (cases "i < length (t_pending s)") (simp_all add: srv_cleanup_def, simp add: run_cleanup_def)
qed (simp_all add: reply_def spawn_def srv_registerCall_def listen_return_def Listen_def Let_def)

section \<open>Every event changes the table in the ways of the table\<close>

lemma setupSRTP_frame [call_frame]:
  "c_state (setupSRTP l k c) = c_state c" "c_fired (setupSRTP l k c) = c_fired c" "c_mediaDone (setupSRTP l k c) = c_mediaDone c"
  by (simp_all add: setupSRTP_def Let_def split: sum.split)

lemma quiet_keeps:
  "quiet c (setupSRTP l k c) \<and> c_callID (setupSRTP l k c) = c_callID c"
  "quiet c (snd (ensureVideoRTPPort e c)) \<and> c_callID (snd (ensureVideoRTPPort e c)) = c_callID c"
  "quiet c (send m c) \<and> c_callID (send m c) = c_callID c"
  by (simp_all add: quietI call_frame callID_frame)

lemma invite_media_proceeds: "proceeds c (send m (invite_media e srtp key body c))"
proof -
  have "proceeds c (offered_srtp srtp key sess c)" "proceeds c (offered_video e sess c)" "proceeds c (send m c)" for sess c
    using quiet_keeps quiet_proceeds by (simp_all add: offered_srtp_def offered_video_def split: option.split)
  note p = this
  have "proceeds c (invite_media e srtp key body c)"
    using proceeds_trans [OF p(1) p(2)] unfolding invite_media_def by (simp split: option.split)
  from proceeds_trans [OF this p(3)] show ?thesis .
qed

lemma replay_proceeds: "c_state c \<noteq> StateIdle \<Longrightarrow> proceeds c (replay e rs c)"
proof (induction rs arbitrary: c)
  case (Cons x rs)
  have p: "proceeds c (simulateResponse e (fst x) c)"
    by (rule call_step_proceeds [of "\<lambda>_. []" e "GotResponse (fst x)", OF _ Cons.prems]) simp
  then have "c_state (simulateResponse e (fst x) c) \<noteq> StateIdle" using Cons.prems by (simp add: proceeds_def)
  from Cons.IH [OF this]
  have "proceeds (simulateResponse e (fst x) c) (replay e rs (simulateResponse e (fst x) c))" .
  then show ?case using proceeds_trans [OF p] by (simp add: replay_def case_prod_beta)
qed (simp add: replay_def)

lemma startMedia_proceeds: "startMedia e c = Some c' \<Longrightarrow> proceeds c c'"
  by (rule quiet_proceeds [OF startMedia_quiet callID_media(1)])

lemma notify_proceeds:
  assumes "c_state c \<noteq> StateIdle"
  shows "proceeds c (fst (FireNotify code c c))" "proceeds c (snd (FireNotify code d c))"
proof -
  show "proceeds c (fst (FireNotify code c c))"
    by (rule call_step_proceeds [of "\<lambda>_. []" undefined "GotNotify code", OF _ assms]) simp
  have "proceeds c (endWithReason r c)" for r
    using assms by (auto simp: endWithReason_def proceeds_def ends_def finish_fields callID_frame)
  then show "proceeds c (snd (FireNotify code d c))"
    by (simp add: FireNotify_def split: option.split notify_handler.split)
qed

lemma table_notify: "wf_table t \<Longrightarrow> table_step\<^sup>*\<^sup>* t (notify_calls code b r t)"
proof -
  assume w: "wf_table t"
  let ?t = "on_call (\<lambda>c. fst (FireNotify code c c)) r t"
  have 1: "table_step\<^sup>*\<^sup>* t ?t" by (rule table_on_call [OF w notify_proceeds(1)])
  have "table_step\<^sup>*\<^sup>* ?t (on_call (\<lambda>d. snd (FireNotify code c d)) q ?t)" for q c
    by (rule table_on_call [OF table_steps_wf [OF 1 w] notify_proceeds(2)])
  from rtranclp_trans [OF 1 this] show ?thesis using 1 by (simp add: notify_calls_def Let_def split: option.split)
qed

lemma inbound_call_new:
  "c_state (inbound_call w req peer s) = StateRinging" "c_fired (inbound_call w req peer s) = []"
  "c_callID (inbound_call w req peer s) = rq_callID req" "c_direction (inbound_call w req peer s) = DirectionInbound"
  "c_sent (inbound_call w req peer s) = []" "c_remoteSDP (inbound_call w req peer s) = rq_body req"
  by (simp_all add: inbound_call_def applyCallConfig_def newInboundCall_def blank_call_def Let_def split: option.split)

lemma ensureRTPPort_pair:
  assumes "ensureRTPPort e c = (ok, c')"
  shows "c_state c' = c_state c" "c_fired c' = c_fired c" "c_callID c' = c_callID c"
  using ensureRTPPort_frame [of e c] callID_ports(1) [of e c] assms by simp_all

lemma outbound_call_new:
  "c_state (outbound_call e opts ua s) = StateDialing" "c_fired (outbound_call e opts ua s) = []"
  "c_callID (outbound_call e opts ua s) = ua_callID ua"
  by (simp_all add: outbound_call_def applyCallConfig_def newOutboundCall_def blank_call_def Let_def call_frame
      callID_frame split: option.split)

lemma table_register:
  "c_state c = StateRinging \<or> c_state c = StateDialing \<Longrightarrow> c_fired c = [] \<Longrightarrow> table_step\<^sup>*\<^sup>* t (registerCall c t)"
  by (rule r_into_rtranclp) (simp add: ts_register ends_def)

lemma table_dialog_invite: "table_step\<^sup>*\<^sup>* (tab s) (tab (handleDialogInvite w e req peer s))"
  by (auto simp: handleDialogInvite_def ensureRTPPort_pair inbound_call_new intro!: table_register
      split: prod.split bool.split)

lemma table_outbound: "table_step\<^sup>*\<^sup>* (tab s) (tab (setupOutboundCall e opts ua rs s))"
  by (simp add: setupOutboundCall_def outbound_call_new table_register)

lemma table_dial: "table_step\<^sup>*\<^sup>* (tab s) (tab (snd (server_Dial w att opts peer s)))"
  by (simp add: server_Dial_def Let_def table_outbound split: prod.split dial_result.split option.split)

lemma table_dialURI: "table_step\<^sup>*\<^sup>* (tab s) (tab (snd (DialURI d opts uri s)))"
  by (simp add: DialURI_def table_outbound split: prod.split option.split)

lemma table_outbound_tail:
  assumes "wf_table s" "outbound_tail e r rs s = Some s'"
  shows "table_step\<^sup>*\<^sup>* (tab s) (tab s')"
proof (cases "r < length (t_heap s)")
  case True
  let ?c = "replay e rs (t_heap s ! r)"
  obtain d where d: "(if c_rtpConn ?c \<noteq> None then startMedia e ?c else Some ?c) = Some d" "s' = store_call r d s"
    using assms(2) True by (auto simp: outbound_tail_def Let_def split: option.splits)
  have "proceeds ?c d" using d(1) startMedia_proceeds by (auto split: if_splits)
  then have "proceeds (t_heap s ! r) d"
    using proceeds_trans replay_proceeds [OF wf_not_idle [OF assms(1) True]] by blast
  then show ?thesis using True d(2) by (simp add: ts_method r_into_rtranclp)
qed (use assms in \<open>simp add: outbound_tail_def\<close>)

lemma table_task:
  assumes "wf_table s" "run_task w e key tk s = Some s'"
  shows "table_step\<^sup>*\<^sup>* (tab s) (tab s')"
proof (cases tk)
  case (InviteTail r body fns)
  have "table_step\<^sup>*\<^sup>* (tab s) (on_call (\<lambda>c. send m (invite_media e b key body c)) r (tab s))" for m b
    by (rule table_on_call [OF _ invite_media_proceeds]) (use assms(1) in simp)
  then show ?thesis using assms(2) InviteTail by (auto simp: invite_tail_def Let_def)
qed (use assms table_dialog_invite table_outbound_tail in auto)

lemma info_dtmf_proceeds: "proceeds c (info_dtmf d c)"
  by (rule quiet_proceeds) (auto simp: info_dtmf_def quiet_def fire_def)

lemma table_peer_methods:
  assumes "wf_table t"
  shows "table_step\<^sup>*\<^sup>* t (on_call simulateBye r t)" "table_step\<^sup>*\<^sup>* t (on_call simulateCancel r t)"
    "table_step\<^sup>*\<^sup>* t (on_call (info_dtmf d) r t)" "table_step\<^sup>*\<^sup>* t (on_call (\<lambda>c. snd (handleReInvite e h raw c)) r t)"
    "table_step\<^sup>*\<^sup>* t (on_call (\<lambda>c. send m (invite_media e b key body c)) r t)"
proof -
  show "table_step\<^sup>*\<^sup>* t (on_call simulateBye r t)"
    by (rule table_on_step [OF assms, where marshal = "\<lambda>_. []"]) (metis call_step.simps(22))
  show "table_step\<^sup>*\<^sup>* t (on_call simulateCancel r t)"
    by (rule table_on_step [OF assms, where marshal = "\<lambda>_. []"]) (metis call_step.simps(23))
  show "table_step\<^sup>*\<^sup>* t (on_call (\<lambda>c. snd (handleReInvite e h raw c)) r t)"
    by (rule table_on_step [OF assms, where marshal = "\<lambda>_. []"]) (metis call_step.simps(24))
  show "table_step\<^sup>*\<^sup>* t (on_call (info_dtmf d) r t)"
    by (rule table_on_call [OF assms info_dtmf_proceeds])
  show "table_step\<^sup>*\<^sup>* t (on_call (\<lambda>c. send m (invite_media e b key body c)) r t)"
    by (rule table_on_call [OF assms invite_media_proceeds])
qed

lemma tab_notify: "tab (notify_calls code b r t) = notify_calls code b r (tab t)"
  by (simp add: notify_calls_def Let_def split: option.split)

lemma srv_step_table:
  assumes "wf_table (tab s)" "srv_step w ev s = Some s'"
  shows "table_step\<^sup>*\<^sup>* (tab s) (tab s')"
proof (cases ev)
  case (EvTask i e key)
  then show ?thesis
    using assms table_task [of "s\<lparr>s_tasks := take i (s_tasks s) @ drop (Suc i) (s_tasks s)\<rparr>" w e key "s_tasks s ! i" s']
    by (auto simp: wf_table_def findCall_def split: if_splits)
next
  case (EvCall r e op)
  then show ?thesis
    using assms call_step_proceeds [OF _ wf_not_idle [of s]]
    by (auto intro!: r_into_rtranclp ts_method split: if_splits)
next
  case (EvReap now)
  then show ?thesis using assms table_end_calls [OF assms(1)] by (auto simp: reapStaleCalls_def)
next
  case EvShutdown
  then show ?thesis
    using assms(2) r_into_rtranclp [of table_step, OF ts_end_all, of "tab s"] by (auto simp: Shutdown_def Let_def)
qed (use assms table_peer_methods [OF assms(1)] table_notify [OF assms(1)] in \<open>auto simp: table_dial table_dialURI handleInvite_def
    handleBye_def handleCancel_def handleInfo_def handleNotify_def handleOptions_def Let_def tab_notify split: option.splits
    intro: r_into_rtranclp [of table_step, OF ts_cleanup]\<close>)

interpretation srv: tracks_calls "srv_step w" tab
  by unfold_locales (rule srv_step_table)

section \<open>Creation times\<close>

text \<open>The two maps of the server have the same keys.\<close>

definition synced :: "'ip server \<Rightarrow> bool" where
  "synced s = (fst ` set (s_createdAt s) = fst ` set (t_calls s) \<and> distinct (map fst (s_createdAt s)))"

lemma on_call_keys [simp]:
  "t_calls (on_call f r s) = t_calls s" "s_createdAt (on_call f r s) = s_createdAt s"
  "t_calls (store_call r c s) = t_calls s" "s_createdAt (store_call r c s) = s_createdAt s"
  "t_calls (notify_calls code b r s) = t_calls s" "s_createdAt (notify_calls code b r s) = s_createdAt s"
  by (simp_all add: on_call_def store_call_def notify_calls_def Let_def split: option.split)

lemma end_calls_keys [simp]:
  "t_calls (fold end_call rs s) = t_calls s" "s_createdAt (fold end_call rs s) = s_createdAt s"
  by (induction rs arbitrary: s) (simp_all add: end_call_def)

lemma reply_keys [simp]:
  "t_calls (reply k code reason s) = t_calls s" "s_createdAt (reply k code reason s) = s_createdAt s"
  "t_calls (spawn tk s) = t_calls s" "s_createdAt (spawn tk s) = s_createdAt s"
  by (simp_all add: reply_def spawn_def)

lemma synced_eq: "t_calls s' = t_calls s \<Longrightarrow> s_createdAt s' = s_createdAt s \<Longrightarrow> synced s \<Longrightarrow> synced s'"
  by (simp add: synced_def)

lemma synced_register: "synced s \<Longrightarrow> synced (spawn tk (srv_registerCall now c s))"
  by (simp add: synced_def srv_registerCall_def registerCall_def Let_def dom_update distinct_update)

lemma delete_keys_image: "fst ` set (AList.delete k xs) = fst ` set xs - {k}"
  using arg_cong [OF delete_keys [of k xs], of set] by (simp only: set_map set_removeAll)

lemma synced_cleanup: "synced s \<Longrightarrow> synced (srv_cleanup i s)"
  by (simp add: synced_def srv_cleanup_def run_cleanup_def untrackCall_def delete_keys_image distinct_delete)

lemma synced_setup: "synced s \<Longrightarrow> synced (setupOutboundCall e opts ua rs s)"
  by (simp add: setupOutboundCall_def synced_register)

lemma synced_task: "synced s \<Longrightarrow> run_task w e key tk s = Some s' \<Longrightarrow> synced s'"
  by (cases tk)
    (auto simp: handleDialogInvite_def invite_tail_def outbound_tail_def Let_def synced_register
      intro: synced_eq split: prod.splits bool.splits if_splits option.splits)

lemma synced_step: "synced s \<Longrightarrow> srv_step w ev s = Some s' \<Longrightarrow> synced s'"
proof (cases ev)
  case (EvTask i e key)
  assume "synced s" "srv_step w ev s = Some s'"
  then show ?thesis
    using EvTask synced_task [of "s\<lparr>s_tasks := take i (s_tasks s) @ drop (Suc i) (s_tasks s)\<rparr>"]
    by (auto simp: synced_def split: if_splits)
next
  case EvShutdown
  assume "srv_step w ev s = Some s'"
  then show ?thesis using EvShutdown by (cases "s_cancel s") (auto simp: Shutdown_def Let_def synced_def end_all_def)
qed (auto simp: Listen_def listen_return_def handleInvite_def handleBye_def handleCancel_def handleOptions_def handleInfo_def
    handleNotify_def server_Dial_def DialURI_def reapStaleCalls_def Let_def synced_setup synced_cleanup intro: synced_eq
    split: if_splits option.splits prod.splits dial_result.splits)

lemma synced_run: "run (srv_step w) evs s = Some s' \<Longrightarrow> synced s \<Longrightarrow> synced s'"
  by (induction evs arbitrary: s) (auto dest: synced_step split: option.splits)

section \<open>The table in every reachable state\<close>

lemma new_server: "tab (newServer w cfg) = new_tracker" "synced (newServer w cfg)"
  by (simp_all add: newServer_def new_tracker_def tracker.truncate_def synced_def)

text \<open>
  C8: the call table of the server is well typed in every state it can reach.  Take any configuration and
  any sequence of requests, goroutine steps, application calls, timers and cleanups that does not
  panic.  No Call-ID is in the table twice; the table and the map of creation times have the same
  Call-IDs; every entry leads to an existing call with that Call-ID, which is not idle; and an entry
  whose call has ended has its cleanup dispatched.
\<close>

theorem server_table_typed:
  assumes "run (srv_step w) evs (newServer w cfg) = Some s"
  shows "distinct (map fst (t_calls s)) \<and> fst ` set (s_createdAt s) = fst ` set (t_calls s)
    \<and> (\<forall>callID r. findCall callID s = Some r \<longrightarrow>
         r < length (t_heap s) \<and> c_callID (t_heap s ! r) = callID \<and> c_state (t_heap s ! r) \<noteq> StateIdle
         \<and> (c_state (t_heap s ! r) = StateEnded \<longrightarrow> callID \<in> set (t_pending s)))"
  using srv.run_wf [OF assms new_server(1)] synced_run [OF assms new_server(2)]
  by (auto simp: wf_table_def synced_def)

text \<open>
  C4: no call is lost.  As long as no two calls of a server have the same Call-ID, every call that has
  not ended is in the table, so requests, the reaper and \<open>Shutdown\<close> reach it; and when all dispatched
  cleanups have run, the table holds exactly the calls that have not ended.
\<close>

theorem server_loses_no_call:
  assumes "run (srv_step w) evs (newServer w cfg) = Some s" and "distinct (map c_callID (t_heap s))"
  shows "(\<forall>r < length (t_heap s). c_state (t_heap s ! r) \<noteq> StateEnded \<longrightarrow> findCall (c_callID (t_heap s ! r)) s = Some r)
    \<and> (t_pending s = [] \<longrightarrow>
         (\<forall>callID r. findCall callID s = Some r \<longleftrightarrow>
            r < length (t_heap s) \<and> c_callID (t_heap s ! r) = callID \<and> c_state (t_heap s ! r) \<noteq> StateEnded))"
  using srv.run_tracked [OF assms(1) new_server(1)] srv.run_drained [OF assms(1) new_server(1)] assms(2)
  by (simp add: all_tracked_def)

section \<open>Shutdown and the reaper\<close>

lemma Shutdown_fields: "t_heap (Shutdown s) = t_heap (end_all (tab s))" "t_calls (Shutdown s) = []"
proof -
  have "t_heap (Shutdown s) = t_heap (tab (Shutdown s))" by simp
  also have "tab (Shutdown s) = end_all (tab s)" by (simp add: Shutdown_def Let_def)
  finally show "t_heap (Shutdown s) = t_heap (end_all (tab s))" .
  show "t_calls (Shutdown s) = []" by (simp add: Shutdown_def Let_def end_all_def)
qed

definition goodbye :: "CallState \<Rightarrow> sip_out" where
  "goodbye st =
     (if st = StateRinging then Respond 487 ''Request Terminated'' []
      else if st = StateActive \<or> st = StateOnHold then SendBye else SendCancel)"

lemma End_says:
  "c_state c \<noteq> StateEnded \<Longrightarrow> c_state c \<noteq> StateIdle \<Longrightarrow> c_sent (snd (Call.End c)) = c_sent c @ [goodbye (c_state c)]"
  by (cases "c_state c")
    (simp_all add: Call.End_def goodbye_def send_def finish_def fireOnEnded_def Let_def enter_def fireOnState_def fire_def)

lemma End_ended_id: "ended c \<Longrightarrow> snd (Call.End c) = c"
  by (simp add: Call.End_def)

lemma End_released: "c_state c \<noteq> StateEnded \<Longrightarrow> c_state c \<noteq> StateIdle \<Longrightarrow> released (snd (Call.End c))"
  by (cases "c_state c") (simp_all add: Call.End_def released_finish)

lemma end_call_other: "q \<noteq> r \<Longrightarrow> t_heap (end_call r t) ! q = t_heap t ! q"
  by (simp add: end_call_def on_call_def store_call_def)

lemma end_call_same: "r < length (t_heap t) \<Longrightarrow> t_heap (end_call r t) ! r = snd (Call.End (t_heap t ! r))"
  by (simp add: end_call_def on_call_def store_call_def)

lemma end_call_length [simp]: "length (t_heap (end_call r t)) = length (t_heap t)"
  by (simp add: end_call_def on_call_def store_call_def)

lemma End_End: "c_state c \<noteq> StateIdle \<Longrightarrow> snd (Call.End (snd (Call.End c))) = snd (Call.End c)"
  using End_ended_id End_ended by blast

lemma end_calls_heap:
  "wf_table t \<Longrightarrow> r < length (t_heap t) \<Longrightarrow>
     t_heap (fold end_call rs t) ! r = (if r \<in> set rs then snd (Call.End (t_heap t ! r)) else t_heap t ! r)"
proof (induction rs arbitrary: t)
  case (Cons q rs)
  from Cons.IH [OF wf_end_call [OF Cons.prems(1)]] Cons.prems show ?case
    by (cases "q = r") (auto simp: end_call_other end_call_same End_End wf_not_idle)
qed simp


lemma stale_calls_iff:
  assumes "wf_table s" "r < length (t_heap s)"
  shows "r \<in> set (stale_calls now s) \<longleftrightarrow>
    findCall (c_callID (t_heap s ! r)) s = Some r \<and> is_stale now (map_of (s_createdAt s) (c_callID (t_heap s ! r))) (t_heap s ! r)"
proof -
  have d: "distinct (map fst (t_calls s))" using assms(1) by (simp add: wf_table_def)
  have "(k, r) \<in> set (t_calls s) \<longleftrightarrow> findCall k s = Some r" for k
    using d by (simp add: findCall_def)
  moreover have "c_callID (t_heap s ! r) = k" if "findCall k s = Some r" for k
    using assms(1) that by (auto simp: wf_table_def)
  ultimately show ?thesis
    using assms(2) by (auto simp: stale_calls_def image_iff)
qed

text \<open>
  The reaper ends exactly the calls that are over their time.  In every reachable state a run of the
  reaper ends a tracked call that is still being set up when it was registered more than 30 seconds
  ago, and a call that is up when it was answered more than four hours ago, tells its peer and
  releases what it holds; every other call is as it was.
\<close>

theorem reaper_exact:
  assumes "run (srv_step w) evs (newServer w cfg) = Some s" and "r < length (t_heap s)"
  shows "let c = t_heap s ! r; c' = t_heap (reapStaleCalls now s) ! r; tracked = (findCall (c_callID c) s = Some r);
      expired = (if c_state c = StateActive \<or> c_state c = StateOnHold
                 then \<exists>t. c_startTime c = Some t \<and> now - t > 14400000000000
                 else c_state c \<noteq> StateEnded \<and> (\<exists>t. map_of (s_createdAt s) (c_callID c) = Some t \<and> now - t > 30000000000))
    in if tracked \<and> expired
       then c_state c' = StateEnded \<and> c_sent c' = c_sent c @ [goodbye (c_state c)] \<and> released c' else c' = c"
proof -
  let ?c = "t_heap s ! r"
  have w: "wf_table s" using srv.run_wf [OF assms(1) new_server(1)] by simp
  note i = wf_not_idle [OF w assms(2)]
  have "is_stale now created ?c \<longleftrightarrow>
      (if c_state ?c = StateActive \<or> c_state ?c = StateOnHold then \<exists>t. c_startTime ?c = Some t \<and> now - t > 14400000000000
       else c_state ?c \<noteq> StateEnded \<and> (\<exists>t. created = Some t \<and> now - t > 30000000000))" for created
    using i by (cases "c_state ?c") (auto simp: is_stale_def setupTTL_def activeTTL_def second_def split: option.split)
  note e = stale_calls_iff [OF w assms(2), of now, unfolded this]
  have "is_stale now created ?c \<Longrightarrow> \<not> ended ?c" for created by (auto simp: is_stale_def)
  then have "r \<in> set (stale_calls now s) \<Longrightarrow> \<not> ended ?c" using stale_calls_iff [OF w assms(2)] by blast
  then show ?thesis
    using e end_calls_heap [OF w assms(2), of "stale_calls now s"] End_says [of ?c] End_ended [OF i] End_released [of ?c] i
    unfolding Let_def reapStaleCalls_def by (simp only: if_True if_False split: if_split) metis
qed

section \<open>Strangers\<close>

text \<open>An INVITE that the peer configuration accepts, by its source address or its digest response.\<close>

fun from_peer :: "'ip world \<Rightarrow> ServerConfig \<Rightarrow> srv_event \<Rightarrow> bool" where
  "from_peer w cfg (EvInvite e nonce ok handler req) =
     ar_Authenticated (authenticatePeer (buildPeerMatchers (w_parseIP w) (w_parseCIDR w) (sc_Peers cfg))
       (w_parseIP w (extractSourceIP req)) (rq_auth req) nonce)"
| "from_peer w cfg ev = False"

fun is_dial :: "srv_event \<Rightarrow> bool" where
  "is_dial (EvDial att opts peer) = True"
| "is_dial (EvDialURI d opts uri) = True"
| "is_dial ev = False"

fun outbound_task :: "task \<Rightarrow> bool" where
  "outbound_task (OutTail r responses) = True"
| "outbound_task tk = False"

text \<open>What the methods of calls leave alone in the server.\<close>

definition frame :: "'ip server \<Rightarrow> 'ip peerMatcher list \<times> nat list \<times> task list \<times> nat" where
  "frame s = (s_matchers s, s_presented s, s_tasks s, length (t_heap s))"

lemma frame_calls [simp]:
  "frame (store_call r c s) = frame s" "frame (on_call f r s) = frame s" "frame (notify_calls code b r s) = frame s"
  "frame (end_call r s) = frame s"
  by (simp_all add: frame_def store_call_def on_call_def notify_calls_def end_call_def Let_def split: option.split)

lemma frame_end_calls [simp]: "frame (fold end_call rs s) = frame s"
  by (induction rs arbitrary: s) simp_all

lemma frame_reply [simp]:
  "frame (reply k code reason s) = frame s" "frame (s\<lparr>s_out := x\<rparr>) = frame s" "frame (snd (Listen w d ok s)) = frame s"
  "frame (listen_return s) = frame s" "frame (srv_cleanup i s) = frame s" "frame (s\<lparr>s_incomingFns := n\<rparr>) = frame s"
  by (simp_all add: frame_def reply_def Listen_def listen_return_def srv_cleanup_def run_cleanup_def untrackCall_def Let_def)

lemma frame_shutdown [simp]: "frame (Shutdown s) = frame s"
proof -
  have "frame (end_all (s\<lparr>s_createdAt := []\<rparr>)) = frame (s\<lparr>s_createdAt := [], t_calls := []\<rparr>)"
    unfolding end_all_def by (simp only: frame_end_calls)
  then show ?thesis by (simp add: Shutdown_def Let_def frame_def)
qed

lemma frame_setup:
  "frame (setupOutboundCall e opts ua rs s) =
     (s_matchers s, s_presented s, s_tasks s @ [OutTail (length (t_heap s)) rs], Suc (length (t_heap s)))"
  by (simp add: frame_def setupOutboundCall_def spawn_def srv_registerCall_def registerCall_def Let_def)

definition closed_to_peers :: "'ip world \<Rightarrow> ServerConfig \<Rightarrow> nat \<Rightarrow> 'ip server \<Rightarrow> bool" where
  "closed_to_peers w cfg n s =
     (s_matchers s = buildPeerMatchers (w_parseIP w) (w_parseCIDR w) (sc_Peers cfg) \<and> s_presented s = []
      \<and> (\<forall>tk \<in> set (s_tasks s). outbound_task tk) \<and> length (t_heap s) \<le> n)"

lemma closed_frame: "frame s' = frame s \<Longrightarrow> closed_to_peers w cfg n s \<Longrightarrow> closed_to_peers w cfg n s'"
  by (simp add: frame_def closed_to_peers_def)

lemma closed_mono: "closed_to_peers w cfg n s \<Longrightarrow> closed_to_peers w cfg (n + k) s"
  by (simp add: closed_to_peers_def)

lemma closed_setup: "closed_to_peers w cfg n s \<Longrightarrow> closed_to_peers w cfg (Suc n) (setupOutboundCall e opts ua rs s)"
  using frame_setup [of e opts ua rs s] by (auto simp: closed_to_peers_def frame_def)

lemma stranger_invite:
  assumes "closed_to_peers w cfg n s" "\<not> from_peer w cfg (EvInvite e nonce ok h req)"
  shows "\<exists>code reason body. (code = 401 \<or> code = 403)
    \<and> handleInvite w e nonce ok h req s = s\<lparr>s_out := s_out s @ [(rq_callID req, Respond code reason body)]\<rparr>"
  using assms by (auto simp: closed_to_peers_def handleInvite_def Let_def reply_def)

lemma closed_task:
  assumes "closed_to_peers w cfg n s" "i < length (s_tasks s)"
    and "run_task w' e key (s_tasks s ! i) (s\<lparr>s_tasks := take i (s_tasks s) @ drop (Suc i) (s_tasks s)\<rparr>) = Some s'"
  shows "closed_to_peers w cfg n s'"
proof -
  let ?s = "s\<lparr>s_tasks := take i (s_tasks s) @ drop (Suc i) (s_tasks s)\<rparr>"
  have "outbound_task (s_tasks s ! i)" using assms(1,2) by (simp add: closed_to_peers_def)
  then obtain r rs where "s_tasks s ! i = OutTail r rs" by (cases "s_tasks s ! i") auto
  then have "frame s' = frame ?s"
    using assms(3) by (auto simp: outbound_tail_def Let_def split: if_splits option.splits)
  moreover have "closed_to_peers w cfg n ?s"
    using assms(1) by (auto simp: closed_to_peers_def dest: in_set_takeD in_set_dropD)
  ultimately show ?thesis by (rule closed_frame)
qed

lemma closed_step:
  assumes "closed_to_peers w cfg n s" "srv_step w ev s = Some s'" "\<not> from_peer w cfg ev"
  shows "closed_to_peers w cfg (if is_dial ev then Suc n else n) s'"
proof (cases "is_dial ev")
  case True
  have "closed_to_peers w cfg (Suc n) (snd (server_Dial w att opts peer s))"
    "closed_to_peers w cfg (Suc n) (snd (DialURI d opts uri s))" for att opts peer d uri
    using closed_setup [OF assms(1)] closed_mono [OF assms(1), of 1]
    by (simp_all add: server_Dial_def DialURI_def Let_def split: prod.split dial_result.split option.split)
  then show ?thesis using True assms(2) by (cases ev) auto
next
  case False
  then have "closed_to_peers w cfg n s'"
  proof (cases ev)
    case (EvInvite e nonce ok h req)
    have "\<not> from_peer w cfg (EvInvite e nonce ok h req)" using assms(3) EvInvite by simp
    from stranger_invite [OF assms(1) this] obtain x where "s' = s\<lparr>s_out := x\<rparr>" using assms(2) EvInvite by auto
    then show ?thesis using assms(1) by (auto intro: closed_frame [OF frame_reply(2)])
  next
    case (EvTask i e key)
    then show ?thesis using assms closed_task by (auto split: if_splits)
  qed (use assms False in \<open>auto intro!: closed_frame [OF _ assms(1)] simp: handleBye_def handleCancel_def handleOptions_def
      handleInfo_def handleNotify_def reapStaleCalls_def Let_def split: option.split if_splits\<close>)
  then show ?thesis using False by simp
qed

lemma closed_run:
  "run (srv_step w) evs s = Some s' \<Longrightarrow> \<forall>ev \<in> set evs. \<not> from_peer w cfg ev \<Longrightarrow> closed_to_peers w cfg n s \<Longrightarrow>
     closed_to_peers w cfg (n + length (filter is_dial evs)) s'"
proof (induction evs arbitrary: s n)
  case (Cons ev evs)
  then obtain u where u: "srv_step w ev s = Some u" "run (srv_step w) evs u = Some s'" by (auto split: option.splits)
  have "closed_to_peers w cfg (if is_dial ev then Suc n else n) u" using closed_step [OF Cons.prems(3) u(1)] Cons.prems(2) by simp
  from Cons.IH [OF u(2) _ this] Cons.prems(2) show ?case by (cases "is_dial ev") simp_all
qed simp

text \<open>
  C7: strangers get no call.  In a run in which no INVITE is accepted by the peer configuration, neither
  by its source address nor by a digest response, whatever else arrives and in whatever order: the
  application is never presented a call, every call of the server is one the application dialled,
  and the next INVITE of a stranger changes nothing but that it is answered 401 or 403.
\<close>

theorem strangers_get_no_call:
  assumes "run (srv_step w) evs (newServer w cfg) = Some s" and "\<forall>ev \<in> set evs. \<not> from_peer w cfg ev"
  shows "s_presented s = [] \<and> length (t_heap s) \<le> length (filter is_dial evs)
    \<and> (\<not> from_peer w cfg (EvInvite e nonce ok h req) \<longrightarrow>
         (\<exists>code reason body. (code = 401 \<or> code = 403)
            \<and> handleInvite w e nonce ok h req s = s\<lparr>s_out := s_out s @ [(rq_callID req, Respond code reason body)]\<rparr>))"
proof -
  have "closed_to_peers w cfg 0 (newServer w cfg)" by (simp add: closed_to_peers_def newServer_def)
  from closed_run [OF assms this] have c: "closed_to_peers w cfg (length (filter is_dial evs)) s" by simp
  then show ?thesis using stranger_invite [OF c] unfolding closed_to_peers_def by blast
qed

section \<open>Inbound calls\<close>

lemma invite_media_fields:
  "c_rtpConn (invite_media e b key body c) = c_rtpConn c" "c_rtpPort (invite_media e b key body c) = c_rtpPort c"
  "c_remoteSDP (invite_media e b key body c) = c_remoteSDP c" "c_sent (invite_media e b key body c) = c_sent c"
  "c_codecPrefs (invite_media e b key body c) = c_codecPrefs c" "c_state (invite_media e b key body c) = c_state c"
  "c_callID (invite_media e b key body c) = c_callID c" "c_fired (invite_media e b key body c) = c_fired c"
  by (simp_all add: invite_media_def offered_video_def offered_srtp_def ensureVideoRTPPort_def setupSRTP_def Let_def
      split: option.split sum.split)

lemma inbound_call_fields:
  "c_rtpPort (inbound_call w req peer s) = 0" "c_rtpPortMin (inbound_call w req peer s) = sc_RTPPortMin (s_cfg s)"
  "c_rtpPortMax (inbound_call w req peer s) = sc_RTPPortMax (s_cfg s)"
  "c_codecPrefs (inbound_call w req peer s) = (case findPeer (sc_Peers (s_cfg s)) peer of
     None \<Rightarrow> s_codecPrefs s | Some p \<Rightarrow> if pc_Codecs p = [] then s_codecPrefs s else pc_Codecs p)"
  "c_localIP (inbound_call w req peer s) = resolveRTPAddressForPeer (w_ip4 w) (findPeer (sc_Peers (s_cfg s)) peer) s"
  by (simp_all add: inbound_call_def applyCallConfig_def newInboundCall_def blank_call_def codecPrefsToInts_def Let_def
      split: option.split)

lemma ensureRTPPort_fields:
  "c_rtpPort c = 0 \<Longrightarrow> ensureRTPPort e c =
     (case listenRTPPort e (c_rtpPortMin c) (c_rtpPortMax c) of
        None \<Rightarrow> (False, if c_localIP c = [] then c\<lparr>c_localIP := ev_localIP e\<rparr> else c)
      | Some p \<Rightarrow> (True, (if c_localIP c = [] then c\<lparr>c_localIP := ev_localIP e\<rparr> else c)\<lparr>c_rtpPort := p, c_rtpConn := Some p\<rparr>))"
  by (simp add: ensureRTPPort_def Let_def split: option.split)

lemma localIP_media: "c_localIP c \<noteq> [] \<or> ev_localIP e = [] \<Longrightarrow> c_localIP (invite_media e b key body c) = c_localIP c"
  by (auto simp: invite_media_def offered_video_def offered_srtp_def ensureVideoRTPPort_def setupSRTP_def Let_def
      split: option.split sum.split)

text \<open>
  C17: an accepted INVITE becomes a ringing call.  The goroutine of a new INVITE from a peer refuses it
  with 480 where the application has no handler and with 500 where no RTP port is left, and then no
  call exists.  Otherwise, when nothing falls between its two parts, a new call is ringing and is
  found under its Call-ID, with the address and codecs configured for that peer, its socket bound and
  the offer kept; the peer has been sent 180 and each handler has been given the call.
\<close>

theorem inbound_call_setup:
  assumes "handleDialogInvite w e req peer s = s1" and "s_tasks s = []"
    and "run (srv_step w) [EvTask 0 e key] s1 = Some s2"
  shows "if s_incomingFns s = 0
    then t_heap s2 = t_heap s \<and> t_calls s2 = t_calls s
      \<and> s_out s2 = s_out s @ [(rq_callID req, Respond 480 ''Temporarily Unavailable'' [])]
    else case listenRTPPort e (sc_RTPPortMin (s_cfg s)) (sc_RTPPortMax (s_cfg s)) of
      None \<Rightarrow> t_heap s2 = t_heap s \<and> t_calls s2 = t_calls s
        \<and> s_out s2 = s_out s @ [(rq_callID req, Respond 500 ''Internal Server Error'' [])]
    | Some port \<Rightarrow>
        (\<exists>c. t_heap s2 = t_heap s @ [c] \<and> findCall (rq_callID req) s2 = Some (length (t_heap s))
          \<and> map_of (s_createdAt s2) (rq_callID req) = Some (ev_now e)
          \<and> s_presented s2 = s_presented s @ replicate (s_incomingFns s) (length (t_heap s))
          \<and> c_state c = StateRinging \<and> c_callID c = rq_callID req \<and> c_rtpConn c = Some port \<and> c_rtpPort c = port
          \<and> c_remoteSDP c = rq_body req \<and> c_sent c = [Respond 180 ''Ringing'' []] \<and> c_fired c = []
          \<and> c_localIP c = (let a = resolveRTPAddressForPeer (w_ip4 w) (findPeer (sc_Peers (s_cfg s)) peer) s
                           in if a = [] then ev_localIP e else a)
          \<and> c_codecPrefs c = (case findPeer (sc_Peers (s_cfg s)) peer of
                None \<Rightarrow> s_codecPrefs s | Some p \<Rightarrow> if pc_Codecs p = [] then s_codecPrefs s else pc_Codecs p))"
proof (cases "s_incomingFns s = 0")
  case True
  then show ?thesis using assms by (auto simp: handleDialogInvite_def reply_def)
next
  case False
  let ?c = "inbound_call w req peer s"
  note en = ensureRTPPort_fields [OF inbound_call_fields(1), of e w req peer s, unfolded inbound_call_fields(2,3)]
  show ?thesis
  proof (cases "listenRTPPort e (sc_RTPPortMin (s_cfg s)) (sc_RTPPortMax (s_cfg s))")
    case None
    have "c_sent (snd (Reject 500 ''Internal Server Error'' c)) = [Respond 500 ''Internal Server Error'' []]"
      if "c_state c = StateRinging" "c_sent c = []" for c
      using that by (simp add: Reject_def send_def finish_def fireOnEnded_def Let_def enter_def fireOnState_def fire_def)
    then show ?thesis
      using False assms None en by (auto simp: handleDialogInvite_def inbound_call_new)
  next
    case (Some port)
    obtain d where d: "ensureRTPPort e ?c = (True, d)" "c_state d = StateRinging" "c_callID d = rq_callID req" "c_fired d = []"
        "c_rtpConn d = Some port" "c_rtpPort d = port" "c_remoteSDP d = rq_body req" "c_sent d = []"
        "c_codecPrefs d = c_codecPrefs ?c" "c_localIP d = (if c_localIP ?c = [] then ev_localIP e else c_localIP ?c)"
      using en Some by (simp add: inbound_call_new)
    let ?m = "send (Respond 180 ''Ringing'' []) (invite_media e (sc_SRTP (s_cfg s)) key (rq_body req) d)"
    have s1: "s1 = spawn (InviteTail (length (t_heap s)) (rq_body req) (s_incomingFns s)) (srv_registerCall (ev_now e) d s)"
      using assms(1) False d(1) by (simp add: handleDialogInvite_def)
    have "c_localIP d \<noteq> [] \<or> ev_localIP e = []" using d(10) by simp
    note lip = localIP_media [OF this]
    have "t_heap s2 = t_heap s @ [?m]" "t_calls s2 = t_calls s1" "s_createdAt s2 = s_createdAt s1"
        "s_presented s2 = s_presented s @ replicate (s_incomingFns s) (length (t_heap s))"
      using assms(2,3) s1
      by (auto simp: spawn_def srv_registerCall_def registerCall_def invite_tail_def on_call_def store_call_def Let_def)
    moreover have "findCall (rq_callID req) s1 = Some (length (t_heap s))" "map_of (s_createdAt s1) (rq_callID req) = Some (ev_now e)"
      using s1 d(3) by (simp_all add: spawn_def srv_registerCall_def registerCall_def findCall_def update_conv' Let_def)
    moreover have "c_sent ?m = [Respond 180 ''Ringing'' []]" "c_state ?m = StateRinging" "c_callID ?m = rq_callID req"
        "c_rtpConn ?m = Some port" "c_rtpPort ?m = port" "c_remoteSDP ?m = rq_body req" "c_fired ?m = []"
        "c_codecPrefs ?m = c_codecPrefs ?c" "c_localIP ?m = c_localIP d"
      using d lip by (simp_all add: send_def invite_media_fields)
    ultimately show ?thesis
      using False Some d(10) by (simp add: findCall_def inbound_call_fields Let_def)
  qed
qed

section \<open>A server at work\<close>

definition demo_world :: "nat world" where
  "demo_world = \<lparr>w_parseIP = (\<lambda>a. if a = ''10.0.0.1'' then Some 1 else if a = ''10.0.0.2'' then Some 2 else Some 3), w_parseCIDR = (\<lambda>_. None), w_ip4 = (\<lambda>_. Some True),
     w_lookupHost = (\<lambda>_. None), w_marshal = (\<lambda>_. [])\<rparr>"

definition demo_cfg :: ServerConfig where
  "demo_cfg = \<lparr>sc_Listen = ''10.0.0.9:5060'', sc_RTPPortMin = 4000, sc_RTPPortMax = 4010, sc_RTPAddress = [], sc_SRTP = False,
     sc_CodecPrefs = [0], sc_JitterBuffer = 0, sc_MediaTimeout = 0, sc_PCMRate = 8000, sc_DtmfMode = DtmfRfc4733,
     sc_Peers = [demo_trunk], sc_OutboundFailover = \<lparr>Disabled = False, PerHopTimeout = 5, MaxAttempts = 2\<rparr>\<rparr>"

definition demo_invite :: "string \<Rightarrow> request" where
  "demo_invite ip = \<lparr>rq_via = None, rq_source = ip, rq_auth = [], rq_callID = ''a1'', rq_from = [], rq_to = [], rq_headers = (\<lambda>_. []), rq_contentType = [], rq_body = []\<rparr>"

definition demo_events :: "srv_event list" where
  "demo_events = [EvListen None True, EvOnIncoming, EvInvite demo_env [] True False (demo_invite ''10.0.0.1''), EvTask 0 demo_env None, EvTask 0 demo_env None]"

definition demo_server :: "nat server" where
  "demo_server = the (run (srv_step demo_world) demo_events (newServer demo_world demo_cfg))"

lemma server_demo_run: "run (srv_step demo_world) demo_events (newServer demo_world demo_cfg) = Some demo_server"
proof -
  have "\<not> Option.is_none (run (srv_step demo_world) demo_events (newServer demo_world demo_cfg))" by code_simp
  then show ?thesis by (simp add: demo_server_def Option.is_none_def)
qed

lemma demo_facts:
  "map c_state (t_heap demo_server) = [StateRinging]" "map c_callID (t_heap demo_server) = [''a1'']"
  "map c_sent (t_heap demo_server) = [[Respond 180 ''Ringing'' []]]"
  "t_calls demo_server = [(''a1'', 0)]" "s_createdAt demo_server = [(''a1'', 7)]"
  by code_simp+

theorem server_table_typed_witness:
  "distinct (map fst (t_calls demo_server)) \<and> fst ` set (s_createdAt demo_server) = {''a1''}
   \<and> c_state (t_heap demo_server ! 0) \<noteq> StateIdle"
proof -
  have "findCall ''a1'' demo_server = Some 0" by (simp add: findCall_def demo_facts)
  then show ?thesis using server_table_typed [OF server_demo_run] by (auto simp: demo_facts)
qed

lemma demo_call_facts:
  "length (t_heap demo_server) = 1" "c_state (t_heap demo_server ! 0) = StateRinging" "c_callID (t_heap demo_server ! 0) = ''a1''"
  using demo_facts(1,2) by (cases "t_heap demo_server"; auto)+

theorem server_loses_no_call_witness: "findCall ''a1'' demo_server = Some 0"
  using server_loses_no_call [OF server_demo_run] by (simp add: demo_facts demo_call_facts)


theorem reaper_exact_witness:
  "c_state (t_heap (reapStaleCalls 30000000008 demo_server) ! 0) = StateEnded
   \<and> t_heap (reapStaleCalls 30000000007 demo_server) ! 0 = t_heap demo_server ! 0"
  using reaper_exact [OF server_demo_run, of 0 30000000008] reaper_exact [OF server_demo_run, of 0 30000000007]
  by (simp add: demo_facts demo_call_facts findCall_def Let_def)

definition stranger_events :: "srv_event list" where
  "stranger_events = [EvListen None True, EvOnIncoming, EvInvite demo_env [] True False (demo_invite ''10.0.0.66'')]"

lemma stranger_run:
  "\<not> Option.is_none (run (srv_step demo_world) stranger_events (newServer demo_world demo_cfg))"
  "list_all (\<lambda>ev. \<not> from_peer demo_world demo_cfg ev) stranger_events" "filter is_dial stranger_events = []"
  by code_simp+

theorem strangers_get_no_call_witness:
  "t_heap (the (run (srv_step demo_world) stranger_events (newServer demo_world demo_cfg))) = []"
proof -
  obtain s where "run (srv_step demo_world) stranger_events (newServer demo_world demo_cfg) = Some s"
    using stranger_run(1) by (auto simp: Option.is_none_def)
  from strangers_get_no_call [OF this] stranger_run this show ?thesis by (simp add: list_all_iff)
qed

definition idle_server :: "nat server" where
  "idle_server = (snd (Listen demo_world None True (newServer demo_world demo_cfg)))\<lparr>s_incomingFns := 1\<rparr>"

definition ringing_server :: "nat server" where
  "ringing_server = the (run (srv_step demo_world) [EvTask 0 demo_env None]
     (handleDialogInvite demo_world demo_env (demo_invite ''10.0.0.1'') ''trunk'' idle_server))"

lemma ringing_run:
  "run (srv_step demo_world) [EvTask 0 demo_env None]
     (handleDialogInvite demo_world demo_env (demo_invite ''10.0.0.1'') ''trunk'' idle_server) = Some ringing_server"
proof -
  have "\<not> Option.is_none (run (srv_step demo_world) [EvTask 0 demo_env None]
     (handleDialogInvite demo_world demo_env (demo_invite ''10.0.0.1'') ''trunk'' idle_server))" by code_simp
  then show ?thesis by (simp only: ringing_server_def Option.is_none_def option.collapse simp_thms)
qed

theorem inbound_call_setup_witness:
  "s_presented ringing_server = [0] \<and> c_rtpPort (t_heap ringing_server ! 0) = 4000
   \<and> c_sent (t_heap ringing_server ! 0) = [Respond 180 ''Ringing'' []]"
proof -
  have f: "s_tasks idle_server = []" "t_heap idle_server = []" "s_presented idle_server = []" "s_incomingFns idle_server = 1"
      "s_cfg idle_server = demo_cfg"
    by (simp_all add: idle_server_def Listen_def newServer_def demo_cfg_def Let_def)
  have p: "listenRTPPort demo_env (sc_RTPPortMin demo_cfg) (sc_RTPPortMax demo_cfg) = Some 4000" by code_simp
  from inbound_call_setup [OF refl f(1) ringing_run, unfolded f p] show ?thesis by auto
qed

end
