(* ===== verification/ServerCalls.thy ===== *)
theory ServerCalls
  imports ServerProps
begin

text \<open>
  Outbound calls of the server, from the failover loop to a call with running media, and the places
  where a request that falls between the two parts of a handler, or a Call-ID used twice, breaks
  what otherwise holds.
\<close>

section \<open>The attempt that got through\<close>

text \<open>The hop an attempt records is the hop that was made, with its number.\<close>

lemma dial_loop_hops:
  "dial_loop fo ip4 lk once p n src lastErr = (r, as) \<Longrightarrow> i < length as \<Longrightarrow>
     at_hop (as ! i) = once (n + i) (at_cand (as ! i)) (at_guarded (as ! i))"
proof (induction fo ip4 lk once p n src lastErr arbitrary: r as i rule: dial_loop.induct)
  case (1 fo ip4 lk once p n src lastErr)
  note eq = dial_loop.simps [of fo ip4 lk once p n src lastErr]
  show ?case
  proof (cases "nextCandidate ip4 lk p src")
    case (Pair c src')
    show ?thesis
    proof (cases c)
      case None
      then show ?thesis using "1.prems" eq Pair by simp
    next
      case (Some cand)
      define lp where "lp = (MaxAttempts fo > 0 \<and> int n \<ge> MaxAttempts fo)"
      define g where "g = (moreCandidates src' \<and> \<not> lp \<and> PerHopTimeout fo > 0)"
      define h where "h = once n cand g"
      define stop where "stop = (hop_err h = None \<or> hop_ctxErr h \<or> sawSuccessResponse (hop_responses h)
        \<or> \<not> retryableDialError (hop_err h) \<or> lp)"
      obtain r' as' where rec: "dial_loop fo ip4 lk once p (n + 1) src' (hop_err h) = (r', as')" by fastforce
      have "dial_loop fo ip4 lk once p n src lastErr =
          (if hop_err h = None then (Connected cand (hop_responses h), [\<lparr>at_cand = cand, at_guarded = g, at_hop = h\<rparr>])
           else if stop then (DialFailed (hop_err h), [\<lparr>at_cand = cand, at_guarded = g, at_hop = h\<rparr>])
           else (r', \<lparr>at_cand = cand, at_guarded = g, at_hop = h\<rparr> # as'))"
        unfolding eq Pair Some prod.case option.case Let_def lp_def [symmetric] g_def [symmetric] h_def [symmetric] rec
        by (auto simp: stop_def)
      then have as: "as = \<lparr>at_cand = cand, at_guarded = g, at_hop = h\<rparr> # (if stop then [] else as')"
        using "1.prems"(1) by (auto simp: stop_def split: if_splits)
      show ?thesis
      proof (cases i)
        case 0
        then show ?thesis using as by (simp add: h_def)
      next
        case (Suc j)
        then have st: "\<not> stop" "j < length as'" using as "1.prems"(2) by (auto split: if_splits)
        have "at_hop (as' ! j) = once (n + 1 + j) (at_cand (as' ! j)) (at_guarded (as' ! j))"
          by (rule "1.IH" [OF Pair [symmetric] Some refl refl refl refl, folded lp_def, folded g_def, folded h_def])
            (use st rec in \<open>auto simp: stop_def\<close>)
        then show ?thesis using as st Suc by simp
      qed
    qed
  qed
qed

lemma dial_last_hop:
  assumes "dial_attempts w att peer s = (Connected cand responses, as)"
  shows "as \<noteq> []"
    and "hop_err (fst (dial_attempt w peer s (att (length as) (at_cand (last as)) (at_guarded (last as))))) = None"
    and "hop_responses (fst (dial_attempt w peer s (att (length as) (at_cand (last as)) (at_guarded (last as))))) = responses"
proof -
  let ?fo = "sc_OutboundFailover (s_cfg s)"
  let ?once = "\<lambda>n c g. fst (dial_attempt w peer s (att n c g))"
  obtain p where loop: "dial_loop ?fo (w_ip4 w) (w_lookupHost w) ?once p 1 (newSource ?fo p) None = (Connected cand responses, as)"
    using assms by (auto simp: dial_attempts_def Dial_def split: if_splits option.splits)
  have "dial_targets ?fo (w_ip4 w) (w_lookupHost w) p \<noteq> []" by (simp add: dial_targets_def)
  then have as: "as \<noteq> []" "dial_outcome (last as) = Connected cand responses"
    using dial_loop_policy [OF loop] by (auto simp: src_rest_new)
  have "at_hop (last as) = ?once (length as) (at_cand (last as)) (at_guarded (last as))"
    using dial_loop_hops [OF loop, of "length as - 1"] as(1) by (simp add: last_conv_nth)
  then show "as \<noteq> []" "hop_err (?once (length as) (at_cand (last as)) (at_guarded (last as))) = None"
    "hop_responses (?once (length as) (at_cand (last as)) (at_guarded (last as))) = responses"
    using as by (auto simp: dial_outcome_def split: if_splits)
qed

lemma dial_attempt_uac:
  assumes "hop_err (fst (dial_attempt w peer s d)) = None"
  obtains ua port where "snd (dial_attempt w peer s d) = Some ua" "ua_rtpPort ua = Some port"
  using assms by (auto simp: dial_attempt_def dialOnce_def setup_failed_def Let_def split: option.splits if_splits)

section \<open>Replaying the responses\<close>

lemma simulateResponse_frame:
  "c_rtpConn (simulateResponse e code c) = c_rtpConn c" "c_mediaDone (simulateResponse e code c) = c_mediaDone c"
  "c_direction (simulateResponse e code c) = c_direction c" "c_callID (simulateResponse e code c) = c_callID c"
  by (simp_all add: simulateResponse_def fire_def enter_def fireOnState_def)

lemma replay_frame:
  "c_rtpConn (replay e rs c) = c_rtpConn c" "c_mediaDone (replay e rs c) = c_mediaDone c"
  "c_direction (replay e rs c) = c_direction c" "c_callID (replay e rs c) = c_callID c"
  unfolding replay_def by (induction rs arbitrary: c) (auto simp: simulateResponse_frame)

lemma replay_active:
  "c_state c = StateActive \<Longrightarrow> c_state (replay e rs c) = StateActive \<and> c_startTime (replay e rs c) = c_startTime c"
  unfolding replay_def by (induction rs arbitrary: c) (auto simp: simulateResponse_def)

lemma replay_state:
  "c_state c \<in> {StateDialing, StateRemoteRinging, StateEarlyMedia} \<Longrightarrow>
     (if 200 \<in> fst ` set rs then c_state (replay e rs c) = StateActive \<and> c_startTime (replay e rs c) = Some (ev_now e)
      else c_state (replay e rs c) \<in> {StateDialing, StateRemoteRinging, StateEarlyMedia})"
proof (induction rs arbitrary: c)
  case (Cons x rs)
  let ?c = "simulateResponse e (fst x) c"
  have r: "replay e (x # rs) c = replay e rs ?c" by (simp add: replay_def case_prod_beta)
  show ?case
  proof (cases "fst x = 200")
    case True
    then have "c_state ?c = StateActive" "c_startTime ?c = Some (ev_now e)"
      using Cons.prems by (auto simp: simulateResponse_def fire_def enter_def fireOnState_def)
    then show ?thesis using replay_active [of ?c e rs] True r by auto
  next
    case False
    then have "c_state ?c \<in> {StateDialing, StateRemoteRinging, StateEarlyMedia}"
      using Cons.prems by (auto simp: simulateResponse_def fire_def enter_def fireOnState_def)
    from Cons.IH [OF this] False r show ?thesis by auto
  qed
qed (simp add: replay_def)

lemma negotiation_frame:
  "c_direction (setRemoteEndpoint e sess c) = c_direction c" "c_rtpConn (setRemoteEndpoint e sess c) = c_rtpConn c"
  "c_localSDP (setRemoteEndpoint e sess c) = c_localSDP c" "c_direction (negotiateCodec sess c) = c_direction c"
  "c_rtpConn (negotiateCodec sess c) = c_rtpConn c" "c_localSDP (negotiateCodec sess c) = c_localSDP c"
  "c_direction (setupSRTP l k c) = c_direction c" "c_rtpConn (setupSRTP l k c) = c_rtpConn c" "c_localSDP (setupSRTP l k c) = c_localSDP c"
  by (simp_all add: setRemoteEndpoint_def negotiateCodec_def negotiateAudioCodec_def negotiateVideoCodec_def setupSRTP_def Let_def
      split: list.split option.split sum.split)

lemma outbound_call_fields:
  "c_direction (outbound_call e opts ua s) = DirectionOutbound" "c_rtpConn (outbound_call e opts ua s) = ua_rtpPort ua"
  "c_mediaDone (outbound_call e opts ua s) = None" "c_localSDP (outbound_call e opts ua s) = ua_invite ua"
  by (simp_all add: outbound_call_def applyCallConfig_def newOutboundCall_def blank_call_def Let_def call_frame negotiation_frame
      split: option.split)

section \<open>Outbound calls\<close>

lemma startMedia_fresh:
  assumes "c_rtpConn c = Some port" "c_mediaDone c = None"
  shows "\<exists>c'. startMedia e c = Some c' \<and> c_mediaDone c' = Some False \<and> c_rtpConn c' = Some port \<and> c_state c' = c_state c
    \<and> c_callID c' = c_callID c \<and> c_direction c' = c_direction c \<and> c_startTime c' = c_startTime c"
  using assms by (simp add: startMedia_def Let_def)


definition demo_answer :: "nat \<Rightarrow> dialCandidate \<Rightarrow> bool \<Rightarrow> dial_env" where
  "demo_answer n cand guarded = \<lparr>de_env = demo_env, de_key = None, de_ctxErr = False,
     de_invite = (\<lambda>_. \<lparr>so_responses = [(180, ''Ringing''), (200, ''OK'')], so_err = None, so_callID = ''b2'', so_headers = (\<lambda>_. []), so_body = []\<rparr>)\<rparr>"

definition dialling_server :: "nat server" where
  "dialling_server = (snd (Listen demo_world None True (newServer demo_world
     (demo_cfg\<lparr>sc_OutboundFailover := \<lparr>Disabled = True, PerHopTimeout = 5, MaxAttempts = 2\<rparr>\<rparr>))))"

lemma demo_hop:
  "hop_err (fst (dial_attempt demo_world ''trunk'' dialling_server (demo_answer n cand g))) = None"
  "hop_responses (fst (dial_attempt demo_world ''trunk'' dialling_server (demo_answer n cand g))) = [(180, ''Ringing''), (200, ''OK'')]"
proof -
  have "s_cfg dialling_server = demo_cfg\<lparr>sc_OutboundFailover := \<lparr>Disabled = True, PerHopTimeout = 5, MaxAttempts = 2\<rparr>\<rparr>"
    by (simp add: dialling_server_def Listen_def newServer_def demo_cfg_def Let_def)
  moreover have "listenRTPPort demo_env (sc_RTPPortMin demo_cfg) (sc_RTPPortMax demo_cfg) = Some 4000" by code_simp
  ultimately show "hop_err (fst (dial_attempt demo_world ''trunk'' dialling_server (demo_answer n cand g))) = None"
    "hop_responses (fst (dial_attempt demo_world ''trunk'' dialling_server (demo_answer n cand g))) = [(180, ''Ringing''), (200, ''OK'')]"
    by (simp_all add: dial_attempt_def dialOnce_def demo_answer_def demo_cfg_def Let_def)
qed

lemma demo_attempts: "\<exists>cand as. dial_attempts demo_world demo_answer ''trunk'' dialling_server = (Connected cand [(180, ''Ringing''), (200, ''OK'')], as)"
proof -
  have "s_listening dialling_server" "findPeer (sc_Peers (s_cfg dialling_server)) ''trunk'' = Some demo_trunk"
    "Disabled (sc_OutboundFailover (s_cfg dialling_server))"
    by (simp_all add: dialling_server_def Listen_def newServer_def demo_cfg_def findPeer_def demo_trunk_def Let_def)
  then show ?thesis by (simp add: dial_attempts_def Dial_def newSource_def dial_loop.simps demo_hop Let_def)
qed


section \<open>Between the parts of a handler\<close>

text \<open>
  A CANCEL that falls between the registration of a call and the rest of its setup leaks a socket.  The
  call is ended and its sockets are closed; then the setup goes on, binds a video socket for the
  ended call, which nothing closes any more, sends 180, and presents the ended call to the application.
\<close>

lemma cancel_fields:
  assumes "c_state c = StateRinging"
  shows "c_state (simulateCancel c) = StateEnded" "c_rtpPortMin (simulateCancel c) = c_rtpPortMin c"
    "c_rtpPortMax (simulateCancel c) = c_rtpPortMax c" "c_videoRTPPort (simulateCancel c) = c_videoRTPPort c"
  using assms by (simp_all add: simulateCancel_def finish_def fireOnEnded_def Let_def enter_def fireOnState_def fire_def)

lemma offered_srtp_fields:
  "c_state (offered_srtp b key sess c) = c_state c" "c_rtpPortMin (offered_srtp b key sess c) = c_rtpPortMin c"
  "c_rtpPortMax (offered_srtp b key sess c) = c_rtpPortMax c" "c_videoRTPPort (offered_srtp b key sess c) = c_videoRTPPort c"
  by (simp_all add: offered_srtp_def setupSRTP_def Let_def split: option.split sum.split)

lemma inbound_ports:
  assumes "ensureRTPPort e (inbound_call w req peer s) = (ok, d)"
  shows "c_rtpPortMin d = sc_RTPPortMin (s_cfg s)" "c_rtpPortMax d = sc_RTPPortMax (s_cfg s)" "c_videoRTPPort d = 0"
proof -
  have "c_videoRTPPort (inbound_call w req peer s) = 0"
    by (simp add: inbound_call_def applyCallConfig_def newInboundCall_def blank_call_def Let_def split: option.split)
  then show "c_rtpPortMin d = sc_RTPPortMin (s_cfg s)" "c_rtpPortMax d = sc_RTPPortMax (s_cfg s)" "c_videoRTPPort d = 0"
    using assms ensureRTPPort_fields [OF inbound_call_fields(1), of e w req peer s] inbound_call_fields(2,3)
    by (auto split: option.splits)
qed

theorem cancel_leaks_video_socket:
  assumes "handleDialogInvite w e req peer s = s1" and "s_tasks s = []" and "s_incomingFns s > 0" and "rq_callID req \<noteq> []"
    and "listenRTPPort e (sc_RTPPortMin (s_cfg s)) (sc_RTPPortMax (s_cfg s)) = Some p"
    and "listenRTPPort e' (sc_RTPPortMin (s_cfg s)) (sc_RTPPortMax (s_cfg s)) = Some p'"
    and "sdp_Parse (rq_body req) = Some sess" and "rq_body req \<noteq> []" and "VideoMedia sess = Some vm" and "md_Codecs vm \<noteq> []"
  shows "\<exists>s2 c. run (srv_step w) [EvCancel req, EvTask 0 e' key] s1 = Some s2 \<and> t_heap s2 = t_heap s @ [c]
    \<and> c_state c = StateEnded \<and> c_videoRTPConn c = Some p' \<and> snd (Call.End c) = c \<and> length (t_heap s) \<in> set (s_presented s2)"
proof -
  obtain d where d: "ensureRTPPort e (inbound_call w req peer s) = (True, d)"
    using ensureRTPPort_fields [OF inbound_call_fields(1), of e w req peer s] assms(5) by (simp add: inbound_call_fields)
  note f = ensureRTPPort_pair [OF d] inbound_ports [OF d]
  let ?r = "length (t_heap s)"
  have s1: "s1 = spawn (InviteTail ?r (rq_body req) (s_incomingFns s)) (srv_registerCall (ev_now e) d s)"
    using assms(1,3) d by (simp add: handleDialogInvite_def)
  let ?x = "simulateCancel d"
  let ?y = "send (Respond 180 ''Ringing'' []) (invite_media e' (sc_SRTP (s_cfg s)) key (rq_body req) ?x)"
  have dr: "c_state d = StateRinging" "c_callID d = rq_callID req" using f(1,3) by (simp_all add: inbound_call_new)
  have "c_state ?y = StateEnded \<and> c_videoRTPConn ?y = Some p'"
    using assms(6-10) f(4-6) cancel_fields [OF dr(1)]
    by (simp add: invite_media_def offered_video_def ensureVideoRTPPort_def Let_def send_def offered_srtp_fields)
  moreover have "\<exists>s2. run (srv_step w) [EvCancel req, EvTask 0 e' key] s1 = Some s2 \<and> t_heap s2 = t_heap s @ [?y]
      \<and> s_presented s2 = s_presented s @ replicate (s_incomingFns s) ?r"
    using assms(2,4) dr
    by (simp add: s1 handleCancel_def reply_def request_call_def findCall_def update_conv' spawn_def srv_registerCall_def
        registerCall_def on_call_def store_call_def invite_tail_def Let_def)
  ultimately show ?thesis using assms(3) End_ended_id [of ?y] by (auto simp: set_replicate_conv_if)
qed

definition video_offer :: string where
  "video_offer = ''v=0'' @ CRLF @ ''m=audio 4000 RTP/AVP 0'' @ CRLF @ ''m=video 4002 RTP/AVP 96'' @ CRLF"

lemma video_offer_parsed:
  "map_option (\<lambda>sess. map_option md_Codecs (VideoMedia sess)) (sdp_Parse video_offer) = Some (Some [96])"
  by code_simp

theorem cancel_leaks_video_socket_witness:
  "\<exists>s1 s2 c. handleDialogInvite demo_world demo_env ((demo_invite ''10.0.0.1'')\<lparr>rq_body := video_offer\<rparr>) ''trunk'' idle_server = s1
     \<and> run (srv_step demo_world) [EvCancel ((demo_invite ''10.0.0.1'')\<lparr>rq_body := video_offer\<rparr>), EvTask 0 demo_env None] s1 = Some s2
     \<and> t_heap s2 = [c] \<and> c_state c = StateEnded \<and> c_videoRTPConn c = Some 4000"
proof -
  let ?req = "(demo_invite ''10.0.0.1'')\<lparr>rq_body := video_offer\<rparr>"
  have f: "s_tasks idle_server = []" "t_heap idle_server = []" "0 < s_incomingFns idle_server" "s_cfg idle_server = demo_cfg"
      "rq_callID ?req \<noteq> []" "rq_body ?req = video_offer" "video_offer \<noteq> []"
    by (simp_all add: idle_server_def Listen_def newServer_def demo_cfg_def demo_invite_def video_offer_def Let_def)
  have p: "listenRTPPort demo_env (sc_RTPPortMin demo_cfg) (sc_RTPPortMax demo_cfg) = Some 4000" by code_simp
  obtain sess vm where v: "sdp_Parse video_offer = Some sess" "VideoMedia sess = Some vm" "md_Codecs vm = [96]"
    using video_offer_parsed by auto
  have "\<exists>s2 c. run (srv_step demo_world) [EvCancel ?req, EvTask 0 demo_env None]
        (handleDialogInvite demo_world demo_env ?req ''trunk'' idle_server) = Some s2 \<and> t_heap s2 = t_heap idle_server @ [c]
      \<and> c_state c = StateEnded \<and> c_videoRTPConn c = Some 4000 \<and> snd (Call.End c) = c \<and> length (t_heap idle_server) \<in> set (s_presented s2)"
    by (rule cancel_leaks_video_socket [OF refl, where sess = sess and vm = vm and p = 4000]) (use f p v in simp_all)
  then show ?thesis using f(2) by auto
qed

text \<open>
  Two calls with one Call-ID break the table.  When two INVITEs with the same Call-ID and different
  branches, as a forking proxy sends them, arrive before the first is registered, the second call
  replaces the first in the table, and the cleanup of the first removes the second: it rings on,
  and no CANCEL, BYE, reaper run or \<open>Shutdown\<close> finds it.
\<close>

definition forked_events :: "srv_event list" where
  "forked_events = [EvListen None True, EvOnIncoming,
     EvInvite demo_env [] True False (demo_invite ''10.0.0.1''), EvInvite demo_env [] True False (demo_invite ''10.0.0.1''),
     EvTask 0 demo_env None, EvTask 0 demo_env None, EvTask 0 demo_env None, EvTask 0 demo_env None,
     EvCall 0 demo_env (DoReject 486 ''Busy Here''), EvCleanup 0]"

theorem forked_invite_orphans_call:
  "case run (srv_step demo_world) forked_events (newServer demo_world demo_cfg) of
     None \<Rightarrow> False
   | Some s \<Rightarrow> map c_state (t_heap s) = [StateEnded, StateRinging] \<and> map c_callID (t_heap s) = [''a1'', ''a1'']
       \<and> findCall ''a1'' s = None \<and> map c_state (t_heap (Shutdown s)) = [StateEnded, StateRinging]"
  by code_simp

end
