(* ===== verification/UserAgentProps.thy ===== *)
theory UserAgentProps
  imports UserAgent ServerCalls
begin

text \<open>
  What the phone's user agent promises: the call table of the phone is well formed and loses no call,
  redirects are bounded, a dialled call is set up without a panic; and what the goroutine per request
  costs, the order of digits.
\<close>

section \<open>The phone over the call table\<close>

lemma ptab_other [simp]:
  "tab (p\<lparr>u_state := a1\<rparr>) = tab p" "tab (p\<lparr>u_incomingFns := a2\<rparr>) = tab p" "tab (p\<lparr>u_tasks := a3\<rparr>) = tab p"
  "tab (p\<lparr>u_out := a4\<rparr>) = tab p" "tab (p\<lparr>u_presented := a5\<rparr>) = tab p" "tab (p\<lparr>u_upcalls := a6\<rparr>) = tab p"
  by (simp_all add: tracker.truncate_def)

lemma ptab_small [simp]: "tab (ua_reply k code reason p) = tab p" "tab (ua_spawn tk p) = tab p"
  by (simp_all add: ua_reply_def ua_spawn_def)

lemma phone_inbound_new:
  "c_state (phone_inbound_call req p) = StateRinging" "c_fired (phone_inbound_call req p) = []"
  by (simp_all add: phone_inbound_call_def phone_applyCallConfig_def newInboundCall_def blank_call_def Let_def)

lemma negotiate_outbound_frame:
  "c_state (negotiate_outbound e ua sess c) = c_state c" "c_fired (negotiate_outbound e ua sess c) = c_fired c"
  "c_callID (negotiate_outbound e ua sess c) = c_callID c" "c_mediaDone (negotiate_outbound e ua sess c) = c_mediaDone c"
  by (simp_all add: negotiate_outbound_def Let_def call_frame callID_frame split: option.split)

lemma phone_outbound_new:
  "c_state (phone_outbound_call e opts ua p) = StateDialing" "c_fired (phone_outbound_call e opts ua p) = []"
  "c_callID (phone_outbound_call e opts ua p) = ua_callID ua" "c_mediaDone (phone_outbound_call e opts ua p) = None"
  by (simp_all add: phone_outbound_call_def phone_applyCallConfig_def newOutboundCall_def blank_call_def Let_def
      negotiate_outbound_frame split: option.split)

lemma startVideoMedia_proceeds: "startVideoMedia e c = Some c' \<Longrightarrow> proceeds c c'"
  by (rule quiet_proceeds [OF startVideoMedia_quiet callID_media(2)])

lemma table_phone_tail:
  assumes "wf_table p" "phone_outbound_tail e r rs p = Some p'"
  shows "table_step\<^sup>*\<^sup>* (tab p) (tab p')"
proof (cases "r < length (t_heap p)")
  case True
  let ?c = "replay e rs (t_heap p ! r)"
  obtain d d' where d: "(if c_rtpConn ?c \<noteq> None then startMedia e ?c else Some ?c) = Some d"
      "(if c_hasVideo d \<and> c_videoRTPConn d \<noteq> None then startVideoMedia e d else Some d) = Some d'" "p' = store_call r d' p"
    using assms(2) True by (auto simp: phone_outbound_tail_def Let_def split: option.splits)
  have "proceeds ?c d" using d(1) startMedia_proceeds by (auto split: if_splits)
  moreover have "proceeds d d'" using d(2) startVideoMedia_proceeds by (auto split: if_splits)
  ultimately have "proceeds (t_heap p ! r) d'"
    using proceeds_trans replay_proceeds [OF wf_not_idle [OF assms(1) True]] by blast
  then show ?thesis using True d(3) by (simp add: ts_method r_into_rtranclp)
qed (use assms in \<open>simp add: phone_outbound_tail_def\<close>)

lemma table_phone_dial: "table_step\<^sup>*\<^sup>* (tab p) (tab (snd (phone_Dial att c1 c2 opts target p)))"
  by (simp add: phone_Dial_def Let_def phone_outbound_new table_register split: prod.split sum.split)

lemma table_ptask:
  assumes "wf_table p" "run_ptask e key tk p = Some p'"
  shows "table_step\<^sup>*\<^sup>* (tab p) (tab p')"
proof -
  have w: "wf_table (tab p)" using assms(1) by simp
  note m = table_peer_methods [OF w] table_notify [OF w]
  have "table_step\<^sup>*\<^sup>* (tab p) (tab (phone_handleDialogInvite e req p))" for req
    by (auto simp: phone_handleDialogInvite_def ensureRTPPort_pair phone_inbound_new intro!: table_register
        split: prod.split bool.split)
  then show ?thesis
    using assms m table_phone_tail
    by (cases tk) (auto simp: phone_invite_tail_def handleDialogBye_def handleDialogCancel_def handleDialogNotify_def
        handleDialogInfo_def Let_def tab_notify split: option.splits)
qed

lemma ua_step_table:
  assumes "wf_table (tab p)" "ua_step marshal ev p = Some p'"
  shows "table_step\<^sup>*\<^sup>* (tab p) (tab p')"
proof (cases ev)
  case (UInvite e readOk handler req)
  then show ?thesis
    using assms(2) table_peer_methods(4) [OF assms(1)]
    by (auto simp: ua_handleInvite_def handleDialogReInvite_def split: option.splits if_splits)
next
  case (UTask i e key)
  then show ?thesis
    using assms table_ptask [of "p\<lparr>u_tasks := take i (u_tasks p) @ drop (Suc i) (u_tasks p)\<rparr>" e key "u_tasks p ! i" p']
    by (auto simp: wf_table_def findCall_def split: if_splits)
next
  case (UCall r e op)
  then show ?thesis
    using assms call_step_proceeds [OF _ wf_not_idle [of p]] by (auto intro!: r_into_rtranclp ts_method split: if_splits)
next
  case UDisconnect
  then show ?thesis
    using assms(2) r_into_rtranclp [of table_step, OF ts_end_all, of "tab p"] by (auto simp: disconnect_calls_def)
next
  case (UCleanup i)
  then show ?thesis using assms(2) r_into_rtranclp [of table_step, OF ts_cleanup, of "tab p"] by auto
qed (use assms table_phone_dial in \<open>auto simp: ua_onBye_def ua_onCancel_def ua_onInfo_def ua_handleNotify_def ua_onMessage_def Let_def\<close>)

interpretation ua: tracks_calls "ua_step marshal" tab
  by unfold_locales (rule ua_step_table)

section \<open>Calls of the phone\<close>

lemma new_phone_table: "tab (new_phone_ua ip4 ifIP cfg) = new_tracker"
  by (simp add: new_phone_ua_def new_tracker_def tracker.truncate_def Let_def)

text \<open>
  C10: the phone loses no call.  Take any configuration and any sequence of requests, goroutine steps,
  application calls, lifecycle changes, timers and cleanups without a panic, in which no two calls have
  the same Call-ID.  Every call that has not ended is found under its Call-ID; when the dispatched
  cleanups have run only those are; and \<open>Disconnect\<close> from any state but disconnected leaves an empty
  table and no call that has not ended.
\<close>

theorem phone_loses_no_call:
  assumes "run (ua_step marshal) evs (new_phone_ua ip4 ifIP cfg) = Some p" and "distinct (map c_callID (t_heap p))"
  shows "(\<forall>r < length (t_heap p). c_state (t_heap p ! r) \<noteq> StateEnded \<longrightarrow> findCall (c_callID (t_heap p ! r)) p = Some r)
    \<and> (t_pending p = [] \<longrightarrow>
         (\<forall>callID r. findCall callID p = Some r \<longleftrightarrow>
            r < length (t_heap p) \<and> c_callID (t_heap p ! r) = callID \<and> c_state (t_heap p ! r) \<noteq> StateEnded))
    \<and> (u_state p \<noteq> PhoneStateDisconnected \<longrightarrow>
         t_calls (disconnect_calls p) = [] \<and> (\<forall>c \<in> set (t_heap (disconnect_calls p)). c_state c = StateEnded))"
proof -
  have w: "wf_table (tab p)" by (rule ua.run_wf [OF assms(1) new_phone_table])
  have tr: "all_tracked (tab p)" using ua.run_tracked [OF assms(1) new_phone_table] assms(2) by simp
  have "t_calls (disconnect_calls p) = t_calls (tab (disconnect_calls p))" "t_heap (disconnect_calls p) = t_heap (tab (disconnect_calls p))"
    by simp_all
  moreover have "tab (disconnect_calls p) = end_all (tab p)" if "u_state p \<noteq> PhoneStateDisconnected"
    using that by (simp add: disconnect_calls_def)
  ultimately have "u_state p \<noteq> PhoneStateDisconnected \<Longrightarrow>
      t_calls (disconnect_calls p) = [] \<and> (\<forall>c \<in> set (t_heap (disconnect_calls p)). c_state c = StateEnded)"
    using tracked_end_all [OF w tr] end_all_spec [OF w] by simp
  then show ?thesis
    using tr ua.run_drained [OF assms(1) new_phone_table] assms(2) by (simp add: all_tracked_def)
qed

section \<open>Redirects\<close>

lemma dialWithOpts_chain:
  "dialWithOpts once n target = (res, rs, ts) \<Longrightarrow>
     ts \<noteq> [] \<and> hd ts = target \<and> (n \<le> maxRedirects \<longrightarrow> n + length ts \<le> maxRedirects + 1)
     \<and> (\<forall>i. Suc i < length ts \<longrightarrow> fst (once (n + i) (ts ! i)) = Redirect (ts ! Suc i))
     \<and> rs = concat (map (\<lambda>i. snd (once (n + i) (ts ! i))) [0..<length ts])
     \<and> (case res of
          Inr ua \<Rightarrow> fst (once (n + length ts - 1) (last ts)) = Dialog ua
        | Inl err \<Rightarrow> fst (once (n + length ts - 1) (last ts)) = OnceError err
            \<or> n + length ts > maxRedirects \<and> (\<exists>uri. fst (once (n + length ts - 1) (last ts)) = Redirect uri))"
proof (induction once n target arbitrary: res rs ts rule: dialWithOpts.induct)
  case (1 once n target)
  note eq = dialWithOpts.simps [of once n target]
  show ?case
  proof (cases "once n target")
    case (Pair o1 rs1)
    consider (err) err where "o1 = OnceError err" | (dlg) ua where "o1 = Dialog ua"
      | (stop) uri where "o1 = Redirect uri" "n + 1 > maxRedirects" | (go) uri where "o1 = Redirect uri" "\<not> n + 1 > maxRedirects"
      by (cases o1) auto
    then show ?thesis
    proof cases
      case (go uri)
      obtain r rs' ts' where rec: "dialWithOpts once (n + 1) uri = (r, rs', ts')" by (metis prod_cases3)
      note IH = "1.IH" [OF Pair [symmetric] go rec]
      have r: "res = r" "rs = rs1 @ rs'" "ts = target # ts'"
        using "1.prems" eq Pair go rec by simp_all
      have "map (\<lambda>i. snd (once (n + i) ((target # ts') ! i))) [0..<Suc (length ts')] =
          rs1 # map (\<lambda>i. snd (once (n + 1 + i) (ts' ! i))) [0..<length ts']"
        using Pair by (simp add: upt_conv_Cons map_Suc_upt [symmetric] comp_def del: upt_Suc)
      moreover have "fst (once (n + i) ((target # ts') ! i)) = Redirect ((target # ts') ! Suc i)" if "Suc i < length (target # ts')" for i
        using IH that Pair go by (cases i) (auto simp: hd_conv_nth)
      ultimately show ?thesis using IH r go by (auto split: sum.splits)
    qed (use "1.prems" eq Pair in auto)
  qed
qed

text \<open>
  C20: redirects end.  Whatever the targets answer, \<open>dialWithOpts\<close> sends at least one and at most four
  INVITEs, the first to the target that was asked for and each later one to the Contact of the
  redirect before it; the responses reported are those of all attempts in order; and the outcome is
  the dialog or the error of the last attempt, or the redirect limit.
\<close>

theorem redirects_bounded:
  "case dialWithOpts once 0 target of (res, rs, ts) \<Rightarrow>
     ts \<noteq> [] \<and> hd ts = target \<and> length ts \<le> 4
     \<and> (\<forall>i. Suc i < length ts \<longrightarrow> fst (once i (ts ! i)) = Redirect (ts ! Suc i))
     \<and> rs = concat (map (\<lambda>i. snd (once i (ts ! i))) [0..<length ts])
     \<and> (case res of
          Inr ua \<Rightarrow> fst (once (length ts - 1) (last ts)) = Dialog ua
        | Inl err \<Rightarrow> fst (once (length ts - 1) (last ts)) = OnceError err
            \<or> length ts = 4 \<and> (\<exists>uri. fst (once (length ts - 1) (last ts)) = Redirect uri))"
  using dialWithOpts_chain [of once 0 target]
  by (cases "dialWithOpts once 0 target") (auto simp: maxRedirects_def split: sum.splits)

definition demo_redirect :: "nat \<Rightarrow> string \<Rightarrow> once_result \<times> (int \<times> string) list" where
  "demo_redirect n target = (Redirect (target @ ''x''), [(302, ''Moved Temporarily'')])"

theorem redirects_bounded_witness:
  "snd (snd (dialWithOpts demo_redirect 0 ''a'')) = [''a'', ''ax'', ''axx'', ''axxx'']
   \<and> fst (dialWithOpts demo_redirect 0 ''a'') = Inl ''too many redirects''
   \<and> fst (demo_redirect 1 (snd (snd (dialWithOpts demo_redirect 0 ''a'')) ! 1)) = Redirect (snd (snd (dialWithOpts demo_redirect 0 ''a'')) ! 2)"
proof -
  have e: "dialWithOpts demo_redirect 0 ''a'' = (Inl ''too many redirects'', replicate 4 (302, ''Moved Temporarily''), [''a'', ''ax'', ''axx'', ''axxx''])"
    by (simp add: dialWithOpts.simps demo_redirect_def maxRedirects_def numeral_eq_Suc)
  have "\<forall>i. Suc i < length (snd (snd (dialWithOpts demo_redirect 0 ''a''))) \<longrightarrow>
      fst (demo_redirect i (snd (snd (dialWithOpts demo_redirect 0 ''a'')) ! i)) = Redirect (snd (snd (dialWithOpts demo_redirect 0 ''a'')) ! Suc i)"
    using redirects_bounded [where once = demo_redirect and target = "''a''"] by (auto split: prod.splits)
  from this [rule_format, of 1] e show ?thesis by (simp add: numeral_eq_Suc)
qed

section \<open>Dialled calls\<close>

lemma dialled_video:
  "c_hasVideo (phone_outbound_call e opts ua p) \<Longrightarrow> c_videoRTPConn (phone_outbound_call e opts ua p) \<noteq> None \<Longrightarrow>
     c_videoMuted (phone_outbound_call e opts ua p) \<noteq> None"
proof -
  have "c_hasVideo (negotiate_outbound e ua sess c) \<Longrightarrow> c_videoRTPConn (negotiate_outbound e ua sess c) \<noteq> None \<Longrightarrow>
      c_videoMuted (negotiate_outbound e ua sess c) \<noteq> None" for sess c
    by (auto simp: negotiate_outbound_def Let_def initVideoChannels_def split: if_splits)
  then show "c_hasVideo (phone_outbound_call e opts ua p) \<Longrightarrow> c_videoRTPConn (phone_outbound_call e opts ua p) \<noteq> None \<Longrightarrow>
     c_videoMuted (phone_outbound_call e opts ua p) \<noteq> None"
    by (auto simp: phone_outbound_call_def phone_applyCallConfig_def newOutboundCall_def blank_call_def Let_def split: option.splits if_splits)
qed

lemma replay_video:
  "c_hasVideo (replay e rs c) = c_hasVideo c" "c_videoRTPConn (replay e rs c) = c_videoRTPConn c" "c_videoMuted (replay e rs c) = c_videoMuted c"
proof -
  have "c_hasVideo (simulateResponse e code c) = c_hasVideo c" "c_videoRTPConn (simulateResponse e code c) = c_videoRTPConn c"
    "c_videoMuted (simulateResponse e code c) = c_videoMuted c" for code c
    by (simp_all add: simulateResponse_def fire_def enter_def fireOnState_def)
  then show "c_hasVideo (replay e rs c) = c_hasVideo c" "c_videoRTPConn (replay e rs c) = c_videoRTPConn c" "c_videoMuted (replay e rs c) = c_videoMuted c"
    unfolding replay_def by (induction rs arbitrary: c) auto
qed

lemma startMedia_video:
  assumes "startMedia e c = Some c'"
  shows "c_hasVideo c' = c_hasVideo c" "c_videoRTPConn c' = c_videoRTPConn c" "c_videoMuted c' = c_videoMuted c" "c_state c' = c_state c"
  using assms by (auto simp: startMedia_def Let_def split: if_splits option.splits)

lemma video_total: "(c_hasVideo c \<and> c_videoRTPConn c \<noteq> None \<longrightarrow> c_videoMuted c \<noteq> None) \<Longrightarrow>
    \<exists>c'. (if c_hasVideo c \<and> c_videoRTPConn c \<noteq> None then startVideoMedia e c else Some c) = Some c'
      \<and> c_state c' = c_state c \<and> c_callID c' = c_callID c"
  by (auto simp: startVideoMedia_def Let_def fire_def split: option.split)

lemma media_total:
  "\<exists>c'. (if c_rtpConn c \<noteq> None then startMedia e c else Some c) = Some c' \<and> c_state c' = c_state c \<and> c_callID c' = c_callID c
     \<and> c_hasVideo c' = c_hasVideo c \<and> c_videoRTPConn c' = c_videoRTPConn c \<and> c_videoMuted c' = c_videoMuted c"
  by (cases "c_rtpConn c"; cases "c_mediaDone c") (simp_all add: startMedia_def Let_def)


section \<open>The order of digits\<close>

text \<open>
  The phone can deliver digits in the wrong order.  Two INFO requests for a call that takes digits
  from INFO are each handed to a goroutine of their own; when the second runs first, the application
  is given the second digit first.
\<close>

theorem phone_reorders_digits:
  assumes "findCall (rq_callID req1) p = Some r" and "rq_callID req2 = rq_callID req1" and "rq_callID req1 \<noteq> []" and "r < length (t_heap p)"
    and "c_dtmfMode (t_heap p ! r) = DtmfSipInfo" and "u_tasks p = []"
    and "Index (ToLower (rq_contentType req1)) ''application/dtmf-relay'' \<noteq> None" and "ParseInfoDTMF (rq_body req1) = d1" and "d1 \<noteq> []"
    and "Index (ToLower (rq_contentType req2)) ''application/dtmf-relay'' \<noteq> None" and "ParseInfoDTMF (rq_body req2) = d2" and "d2 \<noteq> []"
  shows "\<exists>p'. run (ua_step marshal) [UInfo req1, UInfo req2, UTask 1 e None, UTask 0 e None] p = Some p'
    \<and> c_fired (t_heap p' ! r) = c_fired (t_heap p ! r) @ [FireDTMF d2, FireDTMF d1]"
  using assms
  by (simp add: ua_onInfo_def ua_reply_def ua_spawn_def handleDialogInfo_def findCall_def on_call_def store_call_def info_dtmf_def
      fire_def Let_def)

section \<open>A phone at work\<close>

definition demo_config :: Config where
  "demo_config = \<lparr>cf_Username = ''u'', cf_Password = [], cf_Host = ''pbx'', cf_Port = 5060, cf_Transport = ''udp'', cf_AuthUsername = [],
     cf_RegisterExpiry = 0, cf_RegisterRetry = 0, cf_RegisterMaxRetry = 0, cf_OutboundProxy = [], cf_OutboundUsername = [], cf_OutboundPassword = [],
     cf_NAT = False, cf_SRTP = False, cf_RTPAddress = [], cf_ICE = False, cf_RTPPortMin = 4000, cf_RTPPortMax = 4010, cf_CodecPrefs = [0],
     cf_JitterBuffer = 0, cf_MediaTimeout = 0, cf_PCMRate = 8000, cf_DtmfMode = DtmfSipInfo, cf_Registrarless = False\<rparr>"

abbreviation demo_new_phone :: phone_ua where
  "demo_new_phone \<equiv> new_phone_ua (\<lambda>_. Some True) ''10.0.0.9'' demo_config"

definition phone_events :: "ua_event list" where
  "phone_events = [UState PhoneStateRegistered, UOnIncoming, UInvite demo_env True False (demo_invite ''10.0.0.1''), UTask 0 demo_env None, UTask 0 demo_env None]"

definition demo_phone :: phone_ua where
  "demo_phone = the (run (ua_step (\<lambda>_. [])) phone_events demo_new_phone)"

lemma demo_phone_run: "run (ua_step (\<lambda>_. [])) phone_events demo_new_phone = Some demo_phone"
proof -
  have "\<not> Option.is_none (run (ua_step (\<lambda>_. [])) phone_events demo_new_phone)" by code_simp
  then show ?thesis by (simp only: demo_phone_def Option.is_none_def option.collapse simp_thms)
qed

lemma demo_phone_facts:
  "map c_callID (t_heap demo_phone) = [''a1'']" "map c_dtmfMode (t_heap demo_phone) = [DtmfSipInfo]" "map c_state (t_heap demo_phone) = [StateRinging]"
  "u_state demo_phone = PhoneStateRegistered" "u_tasks demo_phone = []" "t_calls demo_phone = [(''a1'', 0)]"
  by code_simp+

lemma demo_phone_call:
  "length (t_heap demo_phone) = 1" "c_callID (t_heap demo_phone ! 0) = ''a1''" "c_dtmfMode (t_heap demo_phone ! 0) = DtmfSipInfo"
  "c_state (t_heap demo_phone ! 0) = StateRinging"
  using demo_phone_facts(1,2,3) by (cases "t_heap demo_phone"; auto)+

theorem phone_loses_no_call_witness:
  "findCall ''a1'' demo_phone = Some 0 \<and> t_calls (disconnect_calls demo_phone) = []"
  using phone_loses_no_call [OF demo_phone_run] by (simp add: demo_phone_facts demo_phone_call)

definition demo_info :: "string \<Rightarrow> request" where
  "demo_info digit = (demo_invite [])\<lparr>rq_contentType := ''application/dtmf-relay'', rq_body := ''Signal='' @ digit\<rparr>"

theorem phone_reorders_digits_witness:
  "\<exists>p'. run (ua_step (\<lambda>_. [])) [UInfo (demo_info ''1''), UInfo (demo_info ''2''), UTask 1 demo_env None, UTask 0 demo_env None] demo_phone = Some p'
     \<and> c_fired (t_heap p' ! 0) = c_fired (t_heap demo_phone ! 0) @ [FireDTMF ''2'', FireDTMF ''1'']"
proof (rule phone_reorders_digits)
  show "Index (ToLower (rq_contentType (demo_info ''1''))) ''application/dtmf-relay'' \<noteq> None"
    "Index (ToLower (rq_contentType (demo_info ''2''))) ''application/dtmf-relay'' \<noteq> None"
    "ParseInfoDTMF (rq_body (demo_info ''1'')) = ''1''" "ParseInfoDTMF (rq_body (demo_info ''2'')) = ''2''"
    by code_simp+
qed (simp_all add: demo_info_def demo_invite_def findCall_def demo_phone_facts demo_phone_call)

definition demo_ua_env :: "nat \<Rightarrow> string \<Rightarrow> ua_env" where
  "demo_ua_env n target = \<lparr>ue_env = demo_env, ue_key = None,
     ue_invite = (\<lambda>_. if n = 0 then (Moved 302 (Some ''sip:x@h''), [(302, ''Moved'')]) else (Answered, [(180, ''Ringing''), (200, ''OK'')])),
     ue_ackOk = True, ue_callID = ''b2'', ue_headers = (\<lambda>_. []), ue_body = []\<rparr>"

lemma demo_redirected:
  "\<exists>ua ts. dialWithOpts (\<lambda>n t. ua_dialOnce (u_cfg demo_phone) ip \<lparr>opt_EarlyMedia = False, opt_Video = False, opt_VideoCodecs = []\<rparr> (demo_ua_env n t)) 0 ''9''
     = (Inr ua, [(302, ''Moved''), (180, ''Ringing''), (200, ''OK'')], ts)"
proof -
  have "listenRTPPort demo_env 4000 4010 = Some 4000" by code_simp
  moreover have "cf_RTPPortMin (u_cfg demo_phone) = 4000" "cf_RTPPortMax (u_cfg demo_phone) = 4010" "\<not> cf_SRTP (u_cfg demo_phone)"
    by code_simp+
  ultimately show ?thesis
    by (simp add: dialWithOpts.simps maxRedirects_def ua_dialOnce_def demo_ua_env_def Let_def)
qed


end
