(* ===== verification/Subscriptions.thy ===== *)
theory Subscriptions
  imports UserAgent
begin

text \<open>
  Event subscriptions, \<open>subscribe.go\<close>, with the bodies they carry, \<open>dialog_info.go\<close>, and the voicemail
  subscriber, \<open>mwi.go\<close>.  A subscription is an object on a heap, the manager's table maps its identifier
  to the address.  Every goroutine that is inside an operation is a task; a step runs one task up to
  the next lock, send or callback, so runs interleave the way the goroutines do.  The XML decoder is the
  parameter \<open>unmarshal\<close>: it gives the states of the dialogs, or nothing for a body it refuses.
\<close>

section \<open>Events of the subscriptions\<close>

datatype ExtensionState =
  ExtensionAvailable | ExtensionRinging | ExtensionOnThePhone | ExtensionOffline | ExtensionUnknown

datatype SubState = SubStatePending | SubStateActive | SubStateTerminated

record NotifyEvent =
  ne_Event :: string
  ne_ContentType :: string
  ne_Body :: string
  ne_SubscriptionState :: SubState
  ne_Expires :: int
  ne_Reason :: string

record VoicemailStatus =
  vm_MessagesWaiting :: bool
  vm_Account :: string
  vm_NewMessages :: int
  vm_OldMessages :: int

section \<open>Dialog information\<close>

type_synonym unmarshal = "string \<Rightarrow> string list option"

fun dialog_flags :: "string list \<Rightarrow> bool \<times> bool \<times> bool \<Rightarrow> bool \<times> bool \<times> bool" where
  "dialog_flags [] f = f"
| "dialog_flags (d # ds) (hasConfirmed, hasEarly, allTerminated) =
     dialog_flags ds
       (if d = ''confirmed'' then (True, hasEarly, False)
        else if d = ''early'' \<or> d = ''proceeding'' then (hasConfirmed, True, False)
        else if d = ''terminated'' then (hasConfirmed, hasEarly, allTerminated)
        else (hasConfirmed, hasEarly, False))"

definition parseDialogInfo :: "unmarshal \<Rightarrow> string \<Rightarrow> ExtensionState option" where
  "parseDialogInfo unmarshal body =
     (case unmarshal body of
        None \<Rightarrow> None
      | Some dialogs \<Rightarrow>
          if dialogs = [] then Some ExtensionAvailable
          else case dialog_flags dialogs (False, False, True) of
                 (hasConfirmed, hasEarly, allTerminated) \<Rightarrow>
                   if hasConfirmed then Some ExtensionOnThePhone
                   else if hasEarly then Some ExtensionRinging
                   else if allTerminated then Some ExtensionAvailable
                   else Some ExtensionUnknown)"

section \<open>Headers\<close>

fun state_params :: "string list \<Rightarrow> int \<Rightarrow> string \<Rightarrow> int \<times> string" where
  "state_params [] expires reason = (expires, reason)"
| "state_params (p # ps) expires reason =
     (let param = TrimSpace p
      in if HasPrefix param ''expires='' then state_params ps (Atoi_val (drop 8 param)) reason
         else if HasPrefix param ''reason='' then state_params ps expires (drop 7 param)
         else state_params ps expires reason)"

definition parseSubscriptionState :: "string \<Rightarrow> SubState \<times> int \<times> string" where
  "parseSubscriptionState header =
     (if header = [] then (SubStateActive, 0, [])
      else let parts = Split header '';'';
               stateStr = ToLower (TrimSpace (hd parts));
               state = (if stateStr = ''pending'' then SubStatePending
                        else if stateStr = ''terminated'' then SubStateTerminated
                        else SubStateActive)
           in (state, state_params (tl parts) 0 []))"

definition extractSIPUser :: "string \<Rightarrow> string" where
  "extractSIPUser uri =
     (let s = (if HasPrefix uri ''sip:'' then drop 4 uri else if HasPrefix uri ''sips:'' then drop 5 uri else uri)
      in case Index s ''@'' of None \<Rightarrow> s | Some at \<Rightarrow> take at s)"

section \<open>Subscriptions and their manager\<close>

text \<open>A refresh context is named by the subscription it was made for and a serial number.\<close>

type_synonym ctx = "nat \<times> nat"

record subscription =
  su_id :: string
  su_uri :: string
  su_event :: string
  su_expires :: int
  su_isWatch :: bool
  su_extension :: string
  su_watchFn :: bool
  su_prevState :: ExtensionState
  su_notifyFn :: bool
  su_refreshCancel :: "ctx option"

text \<open>What \<open>handleNotify\<close> has read under the lock and still has to do.\<close>

record job =
  j_sub :: nat
  j_cancelFn :: "ctx option"
  j_resubscribe :: bool
  j_restartRefresh :: bool
  j_isWatch :: bool
  j_watchFn :: bool
  j_notifyFn :: bool
  j_extension :: string
  j_prev :: ExtensionState
  j_event :: NotifyEvent

text \<open>The goroutines, by where they are: in the SUBSCRIBE of \<open>doSubscribe\<close>; in \<open>remove\<close> after the lock; in
  \<open>stop\<close> before and after the lock; a refresher, before its ticker, in its loop, in its SUBSCRIBE, and
  after a rejection; \<open>handleNotify\<close> after its lock; \<open>resubscribe\<close>.\<close>

datatype stask =
    InSubscribe nat
  | InRemove nat
  | InStop
  | StopSub nat
  | LaunchRefresh ctx int
  | RefreshLoop ctx
  | InRefresh ctx
  | RefreshRejected ctx
  | NotifyCancel job
  | NotifyRestart job
  | NotifyDispatch job
  | WatchFire string ExtensionState ExtensionState
  | Resubscribe nat
  | ResubscribeCheck nat
  | InResubscribe nat

datatype returned = Subscribed string | SubscribeError string | ErrSubscriptionRejected | ErrSubscriptionNotFound | Removed string

datatype callback = WatchFn string ExtensionState ExtensionState | NotifyFn string NotifyEvent

text \<open>A SUBSCRIBE handed to the transport; \<open>sb_live\<close>: its context was not done.\<close>

record sent_subscribe =
  sb_uri :: string
  sb_headers :: "(string \<times> string) list"
  sb_live :: bool

record manager =
  m_host :: string
  m_heap :: "subscription list"
  m_subs :: "(string \<times> nat) list"
  m_done :: bool
  m_cancelled :: "ctx set"
  m_fresh :: nat
  m_tasks :: "stask list"
  m_sent :: "sent_subscribe list"
  m_returned :: "returned list"
  m_calls :: "callback list"

definition newSubscriptionManager :: "string \<Rightarrow> manager" where
  "newSubscriptionManager host =
     \<lparr>m_host = host, m_heap = [], m_subs = [], m_done = False, m_cancelled = {}, m_fresh = 0, m_tasks = [],
       m_sent = [], m_returned = [], m_calls = []\<rparr>"

definition defaultSubscribeExpires :: int where "defaultSubscribeExpires = 600"

definition ctx_done :: "ctx \<Rightarrow> manager \<Rightarrow> bool" where
  "ctx_done c m \<longleftrightarrow> m_done m \<or> c \<in> m_cancelled m"

definition go_task :: "stask \<Rightarrow> manager \<Rightarrow> manager" where
  "go_task tk m = m\<lparr>m_tasks := m_tasks m @ [tk]\<rparr>"

definition cancel_ctx :: "ctx option \<Rightarrow> manager \<Rightarrow> manager" where
  "cancel_ctx c m = m\<lparr>m_cancelled := m_cancelled m \<union> set_option c\<rparr>"

definition delete_sub :: "nat \<Rightarrow> manager \<Rightarrow> manager" where
  "delete_sub r m = m\<lparr>m_subs := AList.delete (su_id (m_heap m ! r)) (m_subs m)\<rparr>"

definition subscribeHeaders :: "subscription \<Rightarrow> (string \<times> string) list" where
  "subscribeHeaders s =
     [(''Event'', su_event s), (''Expires'', Itoa (su_expires s))] @
     (if su_isWatch s then [(''Accept'', ''application/dialog-info+xml'')] else [])"

definition SendSubscribe :: "string \<Rightarrow> (string \<times> string) list \<Rightarrow> bool \<Rightarrow> manager \<Rightarrow> manager" where
  "SendSubscribe uri hdrs live m =
     m\<lparr>m_sent := m_sent m @ [\<lparr>sb_uri = uri, sb_headers = hdrs, sb_live = live\<rparr>]\<rparr>"

definition sendUnsubscribe :: "subscription \<Rightarrow> manager \<Rightarrow> manager" where
  "sendUnsubscribe s = SendSubscribe (su_uri s) [(''Event'', su_event s), (''Expires'', ''0'')] True"

text \<open>The interval is a \<open>time.Duration\<close>, 64 bits of nanoseconds.\<close>

definition refresh_interval :: "int \<Rightarrow> int" where
  "refresh_interval expires = sint (word_of_int (expires div 2 * 1000000000) :: 64 word)"

definition startRefresh :: "nat \<Rightarrow> manager \<Rightarrow> manager" where
  "startRefresh r m =
     (let c = (r, m_fresh m); s = m_heap m ! r
      in go_task (LaunchRefresh c (refresh_interval (su_expires s)))
           (m\<lparr>m_fresh := m_fresh m + 1, m_heap := (m_heap m)[r := s\<lparr>su_refreshCancel := Some c\<rparr>]\<rparr>))"

section \<open>Subscribing and unsubscribing\<close>

definition doSubscribe :: "subscription \<Rightarrow> manager \<Rightarrow> manager" where
  "doSubscribe sub m =
     (let r = length (m_heap m);
          m = m\<lparr>m_heap := m_heap m @ [sub], m_subs := AList.update (su_id sub) r (m_subs m)\<rparr>
      in go_task (InSubscribe r) (SendSubscribe (su_uri sub) (subscribeHeaders sub) True m))"

definition watch :: "string \<Rightarrow> string \<Rightarrow> bool \<Rightarrow> manager \<Rightarrow> manager" where
  "watch newID extension fn m =
     doSubscribe \<lparr>su_id = newID, su_uri = ''sip:'' @ extension @ ''@'' @ m_host m, su_event = ''dialog'',
       su_expires = defaultSubscribeExpires, su_isWatch = True, su_extension = extension, su_watchFn = fn,
       su_prevState = ExtensionUnknown, su_notifyFn = False, su_refreshCancel = None\<rparr> m"

definition subscribeEvent :: "string \<Rightarrow> string \<Rightarrow> string \<Rightarrow> int \<Rightarrow> bool \<Rightarrow> manager \<Rightarrow> manager" where
  "subscribeEvent newID uri event expires fn m =
     doSubscribe \<lparr>su_id = newID, su_uri = uri, su_event = event,
       su_expires = (if expires \<le> 0 then defaultSubscribeExpires else expires), su_isWatch = False,
       su_extension = [], su_watchFn = False, su_prevState = ExtensionAvailable, su_notifyFn = fn,
       su_refreshCancel = None\<rparr> m"

text \<open>The rest of \<open>doSubscribe\<close>, with the reply of the transport.\<close>

type_synonym sub_reply = "int \<times> string option"

definition subscribed :: "sub_reply \<Rightarrow> nat \<Rightarrow> manager \<Rightarrow> manager" where
  "subscribed rep r m =
     (case rep of
        (code, Some err) \<Rightarrow> (delete_sub r m)\<lparr>m_returned := m_returned m @ [SubscribeError err]\<rparr>
      | (code, None) \<Rightarrow>
          if code \<ge> 400 then (delete_sub r m)\<lparr>m_returned := m_returned m @ [ErrSubscriptionRejected]\<rparr>
          else (startRefresh r m)\<lparr>m_returned := m_returned m @ [Subscribed (su_id (m_heap m ! r))]\<rparr>)"

definition remove_sub :: "string \<Rightarrow> manager \<Rightarrow> manager" where
  "remove_sub i m =
     (case map_of (m_subs m) i of
        None \<Rightarrow> m\<lparr>m_returned := m_returned m @ [ErrSubscriptionNotFound]\<rparr>
      | Some r \<Rightarrow> go_task (InRemove r) (m\<lparr>m_subs := AList.delete i (m_subs m)\<rparr>))"

text \<open>\<open>remove\<close> after the lock; \<open>stop\<close> does the same with every subscription it took from the table.\<close>

definition end_sub :: "nat \<Rightarrow> manager \<Rightarrow> manager" where
  "end_sub r m = sendUnsubscribe (m_heap m ! r) (cancel_ctx (su_refreshCancel (m_heap m ! r)) m)"

definition removed :: "nat \<Rightarrow> manager \<Rightarrow> manager" where
  "removed r m = (end_sub r m)\<lparr>m_returned := m_returned m @ [Removed (su_id (m_heap m ! r))]\<rparr>"

definition stop :: "manager \<Rightarrow> manager" where
  "stop m = go_task InStop (m\<lparr>m_done := True\<rparr>)"

definition stop_section :: "manager \<Rightarrow> manager" where
  "stop_section m = m\<lparr>m_subs := [], m_tasks := m_tasks m @ map (StopSub \<circ> snd) (m_subs m)\<rparr>"

section \<open>Refreshing\<close>

definition refresh :: "ctx \<Rightarrow> manager \<Rightarrow> manager" where
  "refresh c m =
     (let s = m_heap m ! fst c
      in go_task (InRefresh c) (SendSubscribe (su_uri s) (subscribeHeaders s) (\<not> ctx_done c m) m))"

definition refreshed :: "sub_reply \<Rightarrow> ctx \<Rightarrow> manager \<Rightarrow> manager" where
  "refreshed rep c m =
     (case rep of
        (code, Some err) \<Rightarrow> go_task (RefreshLoop c) m
      | (code, None) \<Rightarrow>
          if code \<ge> 400 then go_task (RefreshRejected c) (delete_sub (fst c) m) else go_task (RefreshLoop c) m)"

section \<open>Notifications\<close>

definition matches :: "string \<Rightarrow> string \<Rightarrow> subscription \<Rightarrow> bool" where
  "matches event from s \<longleftrightarrow>
     su_event s = event \<and>
     (if su_isWatch s then extractSIPUser from = su_extension s else extractSIPUser (su_uri s) = extractSIPUser from)"

text \<open>The table is a Go map, so any match may come first: \<open>pick\<close> chooses.\<close>

definition findMatch :: "nat \<Rightarrow> string \<Rightarrow> string \<Rightarrow> manager \<Rightarrow> nat option" where
  "findMatch pick event from m =
     (let cs = filter (\<lambda>r. matches event from (m_heap m ! r)) (map snd (m_subs m))
      in if cs = [] then None else Some (cs ! (pick mod length cs)))"

definition will_resubscribe :: "SubState \<Rightarrow> string \<Rightarrow> bool" where
  "will_resubscribe subState reason \<longleftrightarrow>
     subState = SubStateTerminated \<and> (reason = ''deactivated'' \<or> reason = ''timeout'')"

definition notify_job :: "nat \<Rightarrow> subscription \<Rightarrow> NotifyEvent \<Rightarrow> job" where
  "notify_job r s n =
     (let again = will_resubscribe (ne_SubscriptionState n) (ne_Reason n);
          restart = (ne_Expires n > 0 \<and> ne_Expires n \<noteq> su_expires s)
      in \<lparr>j_sub = r,
          j_cancelFn = (if ne_SubscriptionState n = SubStateTerminated \<and> \<not> again \<or> restart then su_refreshCancel s else None),
          j_resubscribe = again, j_restartRefresh = restart, j_isWatch = su_isWatch s, j_watchFn = su_watchFn s,
          j_notifyFn = su_notifyFn s, j_extension = su_extension s, j_prev = su_prevState s, j_event = n\<rparr>)"

definition notified :: "nat \<Rightarrow> NotifyEvent \<Rightarrow> manager \<Rightarrow> manager" where
  "notified r n m =
     (let s = m_heap m ! r; j = notify_job r s n;
          m = (if ne_SubscriptionState n = SubStateTerminated \<and> \<not> j_resubscribe j then delete_sub r m else m);
          m = (if j_restartRefresh j then m\<lparr>m_heap := (m_heap m)[r := s\<lparr>su_expires := ne_Expires n\<rparr>]\<rparr> else m)
      in go_task (NotifyCancel j) m)"

definition notify_event :: "string \<Rightarrow> string \<Rightarrow> string \<Rightarrow> string \<Rightarrow> NotifyEvent" where
  "notify_event event contentType body subscriptionState =
     (case parseSubscriptionState subscriptionState of
        (subState, stateExpires, reason) \<Rightarrow>
          \<lparr>ne_Event = event, ne_ContentType = contentType, ne_Body = body,
            ne_SubscriptionState = subState, ne_Expires = stateExpires, ne_Reason = reason\<rparr>)"

definition handleNotify :: "nat \<Rightarrow> string \<Rightarrow> string \<Rightarrow> string \<Rightarrow> string \<Rightarrow> string \<Rightarrow> manager \<Rightarrow> manager" where
  "handleNotify pick event from contentType body subscriptionState m =
     (case findMatch pick event from m of
        None \<Rightarrow> m
      | Some r \<Rightarrow> notified r (notify_event event contentType body subscriptionState) m)"

definition notify_cancel :: "job \<Rightarrow> manager \<Rightarrow> manager" where
  "notify_cancel j m =
     (let m = cancel_ctx (j_cancelFn j) m;
          m = (if j_resubscribe j then go_task (Resubscribe (j_sub j)) m else m)
      in go_task (NotifyRestart j) m)"

definition notify_restart :: "job \<Rightarrow> manager \<Rightarrow> manager" where
  "notify_restart j m = go_task (NotifyDispatch j) (if j_restartRefresh j then startRefresh (j_sub j) m else m)"

definition notify_dispatch :: "unmarshal \<Rightarrow> job \<Rightarrow> manager \<Rightarrow> manager" where
  "notify_dispatch unmarshal j m =
     (if j_isWatch j \<and> j_watchFn j then
        (case parseDialogInfo unmarshal (ne_Body (j_event j)) of
           None \<Rightarrow> m
         | Some st \<Rightarrow>
             go_task (WatchFire (j_extension j) st (j_prev j))
               (m\<lparr>m_heap := (m_heap m)[j_sub j := (m_heap m ! j_sub j)\<lparr>su_prevState := st\<rparr>]\<rparr>))
      else if j_notifyFn j then m\<lparr>m_calls := m_calls m @ [NotifyFn (su_id (m_heap m ! j_sub j)) (j_event j)]\<rparr>
      else m)"

definition resubscribe :: "nat \<Rightarrow> manager \<Rightarrow> manager" where
  "resubscribe r m =
     (let s = m_heap m ! r
      in if map_of (m_subs m) (su_id s) = None then m
         else go_task (InResubscribe r) (SendSubscribe (su_uri s) (subscribeHeaders s) (\<not> m_done m) m))"

definition resubscribed :: "sub_reply \<Rightarrow> nat \<Rightarrow> manager \<Rightarrow> manager" where
  "resubscribed rep r m =
     (case rep of
        (code, Some err) \<Rightarrow> delete_sub r m
      | (code, None) \<Rightarrow> if code \<ge> 400 then delete_sub r m else startRefresh r m)"

section \<open>Steps\<close>

text \<open>What lets a waiting goroutine go on: the tick of its ticker, the end of its context, or a reply.\<close>

datatype wake = Tick | Done | Reply int "string option"

fun reply_of :: "wake \<Rightarrow> sub_reply" where
  "reply_of (Reply code err) = (code, err)"
| "reply_of w = (0, Some ''context canceled'')"

text \<open>One step of a task that has been taken off the list.  \<open>None\<close> is a panic: \<open>time.NewTicker\<close> refuses an
  interval that is not positive.  The select of a refresher may take the tick although the context is done.\<close>

fun run_task :: "unmarshal \<Rightarrow> wake \<Rightarrow> stask \<Rightarrow> manager \<Rightarrow> manager option" where
  "run_task um w (InSubscribe r) m = Some (subscribed (reply_of w) r m)"
| "run_task um w (InRemove r) m = Some (removed r m)"
| "run_task um w InStop m = Some (stop_section m)"
| "run_task um w (StopSub r) m = Some (end_sub r m)"
| "run_task um w (LaunchRefresh c interval) m = (if interval \<le> 0 then None else Some (go_task (RefreshLoop c) m))"
| "run_task um w (RefreshLoop c) m =
     Some (if w = Tick then refresh c m else if ctx_done c m then m else go_task (RefreshLoop c) m)"
| "run_task um w (InRefresh c) m = Some (refreshed (reply_of w) c m)"
| "run_task um w (RefreshRejected c) m =
     Some (go_task (RefreshLoop c) (cancel_ctx (su_refreshCancel (m_heap m ! fst c)) m))"
| "run_task um w (NotifyCancel j) m = Some (notify_cancel j m)"
| "run_task um w (NotifyRestart j) m = Some (notify_restart j m)"
| "run_task um w (NotifyDispatch j) m = Some (notify_dispatch um j m)"
| "run_task um w (WatchFire ext st prev) m = Some (m\<lparr>m_calls := m_calls m @ [WatchFn ext st prev]\<rparr>)"
| "run_task um w (Resubscribe r) m =
     Some (go_task (ResubscribeCheck r) (cancel_ctx (su_refreshCancel (m_heap m ! r)) m))"
| "run_task um w (ResubscribeCheck r) m = Some (resubscribe r m)"
| "run_task um w (InResubscribe r) m = Some (resubscribed (reply_of w) r m)"

datatype sub_event =
    Watch string string bool
  | SubscribeEvent string string string int bool
  | Unsubscribe string
  | StopManager
  | Notify nat string string string string string
  | Proceed nat wake

fun sub_step :: "unmarshal \<Rightarrow> sub_event \<Rightarrow> manager \<Rightarrow> manager option" where
  "sub_step um (Watch newID extension fn) m = Some (watch newID extension fn m)"
| "sub_step um (SubscribeEvent newID uri event expires fn) m = Some (subscribeEvent newID uri event expires fn m)"
| "sub_step um (Unsubscribe i) m = Some (remove_sub i m)"
| "sub_step um StopManager m = Some (stop m)"
| "sub_step um (Notify pick event from ct body st) m = Some (handleNotify pick event from ct body st m)"
| "sub_step um (Proceed i w) m =
     (if i < length (m_tasks m)
      then run_task um w (m_tasks m ! i) (m\<lparr>m_tasks := take i (m_tasks m) @ drop (Suc i) (m_tasks m)\<rparr>)
      else Some m)"

section \<open>The phone's side\<close>

text \<open>\<open>Watch\<close>, \<open>Unwatch\<close>, \<open>SubscribeEvent\<close> and \<open>UnsubscribeEvent\<close> of the phone; \<open>None\<close> is \<open>ErrNotConnected\<close>.\<close>

definition phone_Watch :: "string \<Rightarrow> string \<Rightarrow> bool \<Rightarrow> manager option \<Rightarrow> manager option" where
  "phone_Watch newID extension fn sm = map_option (watch newID extension fn) sm"

definition phone_Unwatch :: "string \<Rightarrow> manager option \<Rightarrow> manager option" where
  "phone_Unwatch i sm = map_option (remove_sub i) sm"

definition phone_SubscribeEvent :: "string \<Rightarrow> string \<Rightarrow> string \<Rightarrow> int \<Rightarrow> bool \<Rightarrow> manager option \<Rightarrow> manager option" where
  "phone_SubscribeEvent newID uri event expires fn sm = map_option (subscribeEvent newID uri event expires fn) sm"

definition phone_UnsubscribeEvent :: "string \<Rightarrow> manager option \<Rightarrow> manager option" where
  "phone_UnsubscribeEvent i sm = map_option (remove_sub i) sm"

section \<open>Voicemail\<close>

definition parseMessageCounts :: "string \<Rightarrow> int \<times> int" where
  "parseMessageCounts s =
     (let s = (case IndexByte s CHR ''('' of None \<Rightarrow> s | Some paren \<Rightarrow> TrimSpace (take paren s))
      in case SplitN s ''/'' 2 of
           [a, b] \<Rightarrow>
             (case (Atoi (TrimSpace a), Atoi (TrimSpace b)) of (Some n, Some old) \<Rightarrow> (n, old) | _ \<Rightarrow> (0, 0))
         | _ \<Rightarrow> (0, 0))"

definition summary_field :: "string \<Rightarrow> string \<Rightarrow> VoicemailStatus \<times> bool \<Rightarrow> VoicemailStatus \<times> bool" where
  "summary_field key val acc =
     (case acc of (status, found) \<Rightarrow>
        if EqualFold key ''Messages-Waiting'' then (status\<lparr>vm_MessagesWaiting := EqualFold val ''yes''\<rparr>, True)
        else if EqualFold key ''Message-Account'' then (status\<lparr>vm_Account := val\<rparr>, found)
        else if EqualFold key ''Voice-Message'' then
          (case parseMessageCounts val of (n, old) \<Rightarrow> (status\<lparr>vm_NewMessages := n, vm_OldMessages := old\<rparr>, found))
        else acc)"

definition summary_line :: "string \<Rightarrow> VoicemailStatus \<times> bool \<Rightarrow> VoicemailStatus \<times> bool" where
  "summary_line l acc =
     (let line = TrimSpace l
      in if line = [] then acc
         else case IndexByte line CHR '':'' of
                None \<Rightarrow> acc
              | Some colon \<Rightarrow> summary_field (TrimSpace (take colon line)) (TrimSpace (drop (colon + 1) line)) acc)"

definition parseMessageSummary :: "string \<Rightarrow> VoicemailStatus \<times> bool" where
  "parseMessageSummary body =
     fold summary_line (Split body [LF])
       (\<lparr>vm_MessagesWaiting = False, vm_Account = [], vm_NewMessages = 0, vm_OldMessages = 0\<rparr>, False)"

text \<open>The subscriber, which the phone starts once.  \<open>w_loop\<close> is where its goroutine is; \<open>w_fns\<close> is the
  number of callbacks that the composed handler calls, \<open>None\<close> without one.\<close>

datatype mwi_loop = NoLoop | FirstSubscribe | WaitTicker

record mwiSubscriber =
  w_uri :: string
  w_fns :: "nat option"
  w_cancel :: bool
  w_done :: bool
  w_loop :: mwi_loop
  w_sent :: "sent_subscribe list"
  w_calls :: "(nat \<times> VoicemailStatus) list"

definition newMWISubscriber :: "string \<Rightarrow> mwiSubscriber" where
  "newMWISubscriber uri =
     \<lparr>w_uri = uri, w_fns = None, w_cancel = False, w_done = False, w_loop = NoLoop, w_sent = [], w_calls = []\<rparr>"

definition setOnVoicemail :: "nat \<Rightarrow> mwiSubscriber \<Rightarrow> mwiSubscriber" where
  "setOnVoicemail fns s = s\<lparr>w_fns := Some fns\<rparr>"

definition mwiHeaders :: "string \<Rightarrow> (string \<times> string) list" where
  "mwiHeaders expires = [(''Event'', ''message-summary''), (''Accept'', contentTypeMWI), (''Expires'', expires)]"

definition mwi_send :: "string \<Rightarrow> bool \<Rightarrow> mwiSubscriber \<Rightarrow> mwiSubscriber" where
  "mwi_send expires live s =
     s\<lparr>w_sent := w_sent s @ [\<lparr>sb_uri = w_uri s, sb_headers = mwiHeaders expires, sb_live = live\<rparr>]\<rparr>"

definition mwi_subscribe :: "mwiSubscriber \<Rightarrow> mwiSubscriber" where
  "mwi_subscribe s = mwi_send (Itoa 600) (\<not> w_done s) s"

definition mwi_start :: "mwiSubscriber \<Rightarrow> mwiSubscriber" where
  "mwi_start s = s\<lparr>w_cancel := True, w_loop := FirstSubscribe\<rparr>"

definition mwi_stop :: "mwiSubscriber \<Rightarrow> mwiSubscriber" where
  "mwi_stop s = mwi_send ''0'' True (if w_cancel s then s\<lparr>w_done := True\<rparr> else s)"

text \<open>The loop: the first SUBSCRIBE whatever the context, then one for each tick, until the context is done.\<close>

definition mwi_wake :: "wake \<Rightarrow> mwiSubscriber \<Rightarrow> mwiSubscriber" where
  "mwi_wake w s =
     (case w_loop s of
        NoLoop \<Rightarrow> s
      | FirstSubscribe \<Rightarrow> (mwi_subscribe s)\<lparr>w_loop := WaitTicker\<rparr>
      | WaitTicker \<Rightarrow> if w = Tick then mwi_subscribe s else if w_done s then s\<lparr>w_loop := NoLoop\<rparr> else s)"

definition mwi_handleNotify :: "string \<Rightarrow> mwiSubscriber \<Rightarrow> mwiSubscriber" where
  "mwi_handleNotify body s =
     (case parseMessageSummary body of
        (status, ok) \<Rightarrow>
          if \<not> ok then s
          else case w_fns s of None \<Rightarrow> s | Some n \<Rightarrow> s\<lparr>w_calls := w_calls s @ map (\<lambda>i. (i, status)) [0..<n]\<rparr>)"

text \<open>The phone's voicemail callbacks.  \<open>connected\<close> is the end of a successful \<open>runRegistration\<close>: with the callbacks
  it has copied it makes the subscriber and keeps it, if the phone is still registered (\<open>current\<close>).\<close>

record voicemail_phone =
  vp_uri :: string
  vp_fns :: nat
  vp_mwi :: "mwiSubscriber option"

definition OnVoicemail :: "voicemail_phone \<Rightarrow> voicemail_phone" where
  "OnVoicemail p = p\<lparr>vp_fns := vp_fns p + 1, vp_mwi := map_option (setOnVoicemail (vp_fns p + 1)) (vp_mwi p)\<rparr>"

definition start_mwi :: "nat \<Rightarrow> string \<Rightarrow> mwiSubscriber" where
  "start_mwi fns uri =
     (let sub = newMWISubscriber uri in mwi_start (if fns > 0 then setOnVoicemail fns sub else sub))"

definition connected :: "bool \<Rightarrow> nat \<Rightarrow> voicemail_phone \<Rightarrow> voicemail_phone" where
  "connected current fns p = (if vp_uri p \<noteq> [] \<and> current then p\<lparr>vp_mwi := Some (start_mwi fns (vp_uri p))\<rparr> else p)"

end
