(* ===== verification/SubscriptionProps.thy ===== *)
theory SubscriptionProps
  imports Subscriptions
begin

text \<open>
  Properties of the subscription manager and of the voicemail parser: no subscription in the table is
  left without somebody who will refresh it, a stopped manager is silent, a watch reports the chain of
  states, and what goes wrong when a NOTIFY overtakes the answer to the SUBSCRIBE.
\<close>

named_theorems sub_defs \<open>the small operations of the manager\<close>

declare go_task_def [sub_defs] cancel_ctx_def [sub_defs] delete_sub_def [sub_defs] SendSubscribe_def [sub_defs]
  sendUnsubscribe_def [sub_defs] startRefresh_def [sub_defs]

section \<open>The shape of a manager\<close>

abbreviation tabled :: "manager \<Rightarrow> nat \<Rightarrow> bool" where
  "tabled m r \<equiv> r \<in> snd ` set (m_subs m)"

definition ctx_ok :: "nat \<Rightarrow> nat \<Rightarrow> ctx option \<Rightarrow> bool" where
  "ctx_ok n r co \<longleftrightarrow> (case co of None \<Rightarrow> True | Some c \<Rightarrow> fst c = r \<and> snd c < n)"

fun task_ok :: "manager \<Rightarrow> stask \<Rightarrow> bool" where
  "task_ok m (InSubscribe r) = (r < length (m_heap m))"
| "task_ok m (InRemove r) = (r < length (m_heap m) \<and> \<not> tabled m r)"
| "task_ok m InStop = m_done m"
| "task_ok m (StopSub r) = (r < length (m_heap m) \<and> m_done m)"
| "task_ok m (LaunchRefresh c interval) = (fst c < length (m_heap m))"
| "task_ok m (RefreshLoop c) = (fst c < length (m_heap m))"
| "task_ok m (InRefresh c) = (fst c < length (m_heap m))"
| "task_ok m (RefreshRejected c) = (fst c < length (m_heap m) \<and> \<not> tabled m (fst c))"
| "task_ok m (NotifyCancel j) =
     (j_sub j < length (m_heap m) \<and> ctx_ok (m_fresh m) (j_sub j) (j_cancelFn j) \<and>
      (j_cancelFn j = None \<or> j_restartRefresh j \<or> \<not> tabled m (j_sub j)))"
| "task_ok m (NotifyRestart j) = (j_sub j < length (m_heap m))"
| "task_ok m (NotifyDispatch j) = (j_sub j < length (m_heap m))"
| "task_ok m (WatchFire ext st prev) = True"
| "task_ok m (Resubscribe r) = (r < length (m_heap m))"
| "task_ok m (ResubscribeCheck r) = (r < length (m_heap m))"
| "task_ok m (InResubscribe r) = (r < length (m_heap m))"

definition table_ok :: "manager \<Rightarrow> bool" where
  "table_ok m \<longleftrightarrow>
     distinct (map fst (m_subs m)) \<and>
     (\<forall>(k, r) \<in> set (m_subs m). r < length (m_heap m) \<and> su_id (m_heap m ! r) = k)"

definition ctxs_ok :: "manager \<Rightarrow> bool" where
  "ctxs_ok m \<longleftrightarrow>
     (\<forall>r < length (m_heap m). ctx_ok (m_fresh m) r (su_refreshCancel (m_heap m ! r))) \<and>
     (\<forall>c \<in> m_cancelled m. snd c < m_fresh m)"

definition sub_inv :: "manager \<Rightarrow> bool" where
  "sub_inv m \<longleftrightarrow> table_ok m \<and> ctxs_ok m \<and> (\<forall>tk \<in> set (m_tasks m). task_ok m tk)"

text \<open>A manager that has moved on: a bigger heap with the same identifiers, a smaller table, more serial
  numbers.\<close>

definition grown :: "manager \<Rightarrow> manager \<Rightarrow> bool" where
  "grown m m' \<longleftrightarrow>
     length (m_heap m) \<le> length (m_heap m') \<and> m_fresh m \<le> m_fresh m' \<and> (m_done m \<longrightarrow> m_done m') \<and>
     (\<forall>r < length (m_heap m). tabled m' r \<longrightarrow> tabled m r)"

lemma task_ok_grown: "task_ok m tk \<Longrightarrow> grown m m' \<Longrightarrow> task_ok m' tk"
  by (cases tk) (auto simp: grown_def ctx_ok_def split: option.splits)

lemma sub_inv_grown:
  assumes "sub_inv m" "grown m m'" "table_ok m'" "ctxs_ok m'"
    and "\<And>tk. tk \<in> set (m_tasks m') \<Longrightarrow> tk \<in> set (m_tasks m) \<or> task_ok m' tk"
  shows "sub_inv m'"
  unfolding sub_inv_def
proof (intro conjI ballI)
  fix tk assume "tk \<in> set (m_tasks m')"
  then show "task_ok m' tk" using assms task_ok_grown by (fastforce simp: sub_inv_def)
qed (use assms in simp_all)

lemma grown_refl [simp]: "grown m m"
  by (simp add: grown_def)

lemma tabled_bound: "sub_inv m \<Longrightarrow> tabled m r \<Longrightarrow> r < length (m_heap m)"
  by (auto simp: sub_inv_def table_ok_def)

lemma tabled_lookup:
  assumes "sub_inv m" "tabled m r" shows "map_of (m_subs m) (su_id (m_heap m ! r)) = Some r"
  using assms by (auto simp: sub_inv_def table_ok_def)

lemma tabled_delete:
  assumes "sub_inv m" shows "tabled (delete_sub r m) x \<longleftrightarrow> tabled m x \<and> su_id (m_heap m ! x) \<noteq> su_id (m_heap m ! r)"
proof -
  have "set (m_subs (delete_sub r m)) = {p \<in> set (m_subs m). fst p \<noteq> su_id (m_heap m ! r)}"
    by (auto simp: delete_sub_def AList.delete_eq)
  moreover have "su_id (m_heap m ! snd p) = fst p" if "p \<in> set (m_subs m)" for p
    using assms that by (auto simp: sub_inv_def table_ok_def)
  ultimately show ?thesis by (force simp: image_iff)
qed

section \<open>The operations keep the shape\<close>

lemma ctx_ok_mono: "ctx_ok n r co \<Longrightarrow> n \<le> n' \<Longrightarrow> ctx_ok n' r co"
  by (auto simp: ctx_ok_def split: option.splits)

lemma inv_go: "sub_inv m \<Longrightarrow> task_ok m tk \<Longrightarrow> sub_inv (go_task tk m)"
proof (rule sub_inv_grown)
  assume "task_ok m tk"
  then have "task_ok (go_task tk m) tk" by (rule task_ok_grown) (simp add: grown_def go_task_def)
  then show "x \<in> set (m_tasks (go_task tk m)) \<Longrightarrow> x \<in> set (m_tasks m) \<or> task_ok (go_task tk m) x" for x
    by (auto simp: go_task_def)
qed (auto simp: grown_def table_ok_def ctxs_ok_def sub_inv_def go_task_def)

lemma inv_drop: "sub_inv m \<Longrightarrow> set ts \<subseteq> set (m_tasks m) \<Longrightarrow> sub_inv (m\<lparr>m_tasks := ts\<rparr>)"
  by (rule sub_inv_grown) (auto simp: grown_def table_ok_def ctxs_ok_def sub_inv_def)

lemma inv_log:
  "sub_inv (SendSubscribe uri hdrs live m) = sub_inv m" "sub_inv (m\<lparr>m_returned := rs\<rparr>) = sub_inv m"
  "sub_inv (m\<lparr>m_calls := cs\<rparr>) = sub_inv m"
proof -
  have same: "task_ok (SendSubscribe uri hdrs live m) tk = task_ok m tk" "task_ok (m\<lparr>m_returned := rs\<rparr>) tk = task_ok m tk"
    "task_ok (m\<lparr>m_calls := cs\<rparr>) tk = task_ok m tk" for tk
    by (cases tk; simp add: SendSubscribe_def)+
  show "sub_inv (SendSubscribe uri hdrs live m) = sub_inv m" "sub_inv (m\<lparr>m_returned := rs\<rparr>) = sub_inv m"
    "sub_inv (m\<lparr>m_calls := cs\<rparr>) = sub_inv m"
    by (simp_all add: sub_inv_def same) (simp_all add: SendSubscribe_def table_ok_def ctxs_ok_def)
qed

lemma inv_cancel: "sub_inv m \<Longrightarrow> ctx_ok (m_fresh m) r co \<Longrightarrow> sub_inv (cancel_ctx co m)"
  by (rule sub_inv_grown) (auto simp: grown_def table_ok_def ctxs_ok_def sub_inv_def cancel_ctx_def ctx_ok_def)

lemma inv_delete: "sub_inv m \<Longrightarrow> sub_inv (delete_sub r m)"
proof (rule sub_inv_grown)
  assume m: "sub_inv m"
  show "grown m (delete_sub r m)"
    using m by (auto simp: grown_def tabled_delete) (simp_all add: delete_sub_def)
  have "set (AList.delete k xs) \<subseteq> set xs" for k and xs :: "(string \<times> nat) list"
    by (auto simp: AList.delete_eq)
  then show "table_ok (delete_sub r m)"
    using m by (fastforce simp: sub_inv_def table_ok_def delete_sub_def distinct_delete)
qed (auto simp: sub_inv_def ctxs_ok_def delete_sub_def)

text \<open>A change to one subscription that leaves its identifier alone.\<close>

lemma inv_update:
  assumes "sub_inv m" "r < length (m_heap m)" "su_id s = su_id (m_heap m ! r)"
    "ctx_ok (m_fresh m) r (su_refreshCancel s)"
  shows "sub_inv (m\<lparr>m_heap := (m_heap m)[r := s]\<rparr>)"
proof (rule sub_inv_grown [OF assms(1)])
  show "table_ok (m\<lparr>m_heap := (m_heap m)[r := s]\<rparr>)"
    using assms by (fastforce simp: sub_inv_def table_ok_def nth_list_update)
qed (use assms in \<open>auto simp: grown_def ctxs_ok_def sub_inv_def nth_list_update\<close>)

lemma inv_start: "sub_inv m \<Longrightarrow> r < length (m_heap m) \<Longrightarrow> sub_inv (startRefresh r m)"
proof -
  assume m: "sub_inv m" "r < length (m_heap m)"
  let ?m = "m\<lparr>m_fresh := m_fresh m + 1\<rparr>"
  have "sub_inv ?m" using m(1)
    by (rule sub_inv_grown)
       (use m(1) in \<open>auto simp: grown_def table_ok_def ctxs_ok_def sub_inv_def less_Suc_eq intro: ctx_ok_mono\<close>)
  then have "sub_inv (?m\<lparr>m_heap := (m_heap ?m)[r := (m_heap m ! r)\<lparr>su_refreshCancel := Some (r, m_fresh m)\<rparr>]\<rparr>)"
    by (rule inv_update) (simp_all add: m ctx_ok_def)
  then show ?thesis using m(2) unfolding startRefresh_def Let_def by (auto intro!: inv_go)
qed

lemma ctx_of: "sub_inv m \<Longrightarrow> r < length (m_heap m) \<Longrightarrow> ctx_ok (m_fresh m) r (su_refreshCancel (m_heap m ! r))"
  by (simp add: sub_inv_def ctxs_ok_def)

lemma frame_simps [simp]:
  "m_heap (delete_sub r m) = m_heap m" "m_fresh (delete_sub r m) = m_fresh m" "m_done (delete_sub r m) = m_done m"
  "m_cancelled (delete_sub r m) = m_cancelled m" "m_tasks (delete_sub r m) = m_tasks m"
  "m_heap (cancel_ctx co m) = m_heap m" "m_subs (cancel_ctx co m) = m_subs m" "m_done (cancel_ctx co m) = m_done m"
  "m_fresh (cancel_ctx co m) = m_fresh m" "m_tasks (cancel_ctx co m) = m_tasks m"
  "m_cancelled (cancel_ctx co m) = m_cancelled m \<union> set_option co"
  "m_heap (go_task tk m) = m_heap m" "m_subs (go_task tk m) = m_subs m" "m_done (go_task tk m) = m_done m"
  "m_fresh (go_task tk m) = m_fresh m" "m_cancelled (go_task tk m) = m_cancelled m"
  "m_tasks (go_task tk m) = m_tasks m @ [tk]"
  "m_heap (SendSubscribe uri hdrs live m) = m_heap m" "m_subs (SendSubscribe uri hdrs live m) = m_subs m"
  "m_done (SendSubscribe uri hdrs live m) = m_done m" "m_cancelled (SendSubscribe uri hdrs live m) = m_cancelled m"
  "m_tasks (SendSubscribe uri hdrs live m) = m_tasks m"
  "m_subs (startRefresh r m) = m_subs m" "m_done (startRefresh r m) = m_done m"
  "m_cancelled (startRefresh r m) = m_cancelled m" "length (m_heap (startRefresh r m)) = length (m_heap m)"
  by (simp_all add: sub_defs Let_def)

lemma delete_gone: "sub_inv m \<Longrightarrow> \<not> tabled (delete_sub r m) r"
  by (simp add: tabled_delete)

lemma inv_end_sub: "sub_inv m \<Longrightarrow> r < length (m_heap m) \<Longrightarrow> sub_inv (end_sub r m)"
  by (auto simp: end_sub_def sendUnsubscribe_def inv_log intro!: inv_cancel ctx_of)

lemma set_update_subset: "set (AList.update k v xs) \<subseteq> insert (k, v) (set xs)"
  by (induction xs) auto

lemma inv_subscribe: "sub_inv m \<Longrightarrow> su_refreshCancel s = None \<Longrightarrow> sub_inv (doSubscribe s m)"
proof -
  assume m: "sub_inv m" "su_refreshCancel s = None"
  let ?m = "m\<lparr>m_heap := m_heap m @ [s], m_subs := AList.update (su_id s) (length (m_heap m)) (m_subs m)\<rparr>"
  have tab: "set (m_subs ?m) \<subseteq> insert (su_id s, length (m_heap m)) (set (m_subs m))"
    by (simp add: set_update_subset)
  have "sub_inv ?m"
  proof (rule sub_inv_grown [OF m(1)])
    show "grown m ?m" using tab by (fastforce simp: grown_def)
    show "table_ok ?m"
      using m(1) tab by (fastforce simp: sub_inv_def table_ok_def nth_append distinct_update)
    show "ctxs_ok ?m"
      using m by (auto simp: sub_inv_def ctxs_ok_def nth_append ctx_ok_def less_Suc_eq)
  qed simp
  then show ?thesis unfolding doSubscribe_def Let_def by (auto simp: inv_log intro!: inv_go)
qed

lemma inv_remove: "sub_inv m \<Longrightarrow> sub_inv (remove_sub i m)"
proof (cases "map_of (m_subs m) i")
  case (Some r)
  assume m: "sub_inv m"
  have i: "(i, r) \<in> set (m_subs m)" using Some by (rule map_of_SomeD)
  then have r: "tabled m r" "su_id (m_heap m ! r) = i" "r < length (m_heap m)"
    using m image_eqI [OF _ i, of r snd] by (auto simp: sub_inv_def table_ok_def)
  have "remove_sub i m = go_task (InRemove r) (delete_sub r m)"
    using Some r by (simp add: remove_sub_def delete_sub_def)
  then show ?thesis using m r delete_gone by (auto intro!: inv_go inv_delete)
qed (simp add: remove_sub_def inv_log)

lemma find_match:
  assumes "findMatch pick event from m = Some r"
  shows "tabled m r" "matches event from (m_heap m ! r)"
proof -
  define cs where "cs = filter (\<lambda>r. matches event from (m_heap m ! r)) (map snd (m_subs m))"
  have "cs \<noteq> []" "r = cs ! (pick mod length cs)"
    using assms by (simp_all only: findMatch_def cs_def [symmetric] Let_def split: if_splits) simp_all
  then have "r \<in> set cs" by simp
  then show "tabled m r" "matches event from (m_heap m ! r)" by (auto simp: cs_def)
qed

lemma inv_notified:
  assumes m: "sub_inv m" and r: "tabled m r" shows "sub_inv (notified r n m)"
proof -
  have len: "r < length (m_heap m)" using tabled_bound m r by blast
  define j where "j = notify_job r (m_heap m ! r) n"
  define gone where "gone \<longleftrightarrow> ne_SubscriptionState n = SubStateTerminated \<and> \<not> j_resubscribe j"
  define m1 where "m1 = (if gone then delete_sub r m else m)"
  define m2 where "m2 = (if j_restartRefresh j then m1\<lparr>m_heap := (m_heap m1)[r := (m_heap m ! r)\<lparr>su_expires := ne_Expires n\<rparr>]\<rparr> else m1)"
  have m1: "sub_inv m1" "m_heap m1 = m_heap m" "m_fresh m1 = m_fresh m" using m by (simp_all add: m1_def inv_delete)
  have m2: "sub_inv m2" "length (m_heap m2) = length (m_heap m)" "m_fresh m2 = m_fresh m" "m_subs m2 = m_subs m1"
    using inv_update [OF m1(1), of r "(m_heap m ! r)\<lparr>su_expires := ne_Expires n\<rparr>"] m1 ctx_of [OF m len] len
    by (simp_all add: m2_def)
  have j: "j_sub j = r" "ctx_ok (m_fresh m) r (j_cancelFn j)" "j_cancelFn j = None \<or> j_restartRefresh j \<or> gone"
    using ctx_of [OF m len] by (auto simp: j_def gone_def notify_job_def Let_def ctx_ok_def)
  have "\<not> tabled m2 r" if gone using that delete_gone [OF m] m2(4) by (simp add: m1_def)
  then have "task_ok m2 (NotifyCancel j)" using j len m2 by auto
  then have "sub_inv (go_task (NotifyCancel j) m2)" using inv_go m2(1) by blast
  moreover have "notified r n m = go_task (NotifyCancel j) m2"
    by (simp only: notified_def Let_def j_def gone_def m1_def m2_def)
  ultimately show ?thesis by simp
qed

lemma inv_notify: "sub_inv m \<Longrightarrow> sub_inv (handleNotify pick event from ct body hdr m)"
  using find_match(1) [of pick event "from" m] by (simp add: handleNotify_def inv_notified split: option.split)

text \<open>A task that has been taken off the list.\<close>

lemma inv_task:
  assumes "sub_inv m" "task_ok m tk" "run_task um w tk m = Some m'" shows "sub_inv m'"
proof (cases tk)
  case (InSubscribe r)
  then show ?thesis using assms
    by (auto simp: subscribed_def inv_log inv_delete inv_start split: prod.splits option.splits if_splits)
next
  case (InRemove r)
  then show ?thesis using assms by (auto simp: removed_def inv_log inv_end_sub)
next
  case (NotifyCancel j)
  have c: "sub_inv (cancel_ctx (j_cancelFn j) m)" using NotifyCancel assms inv_cancel by auto
  have len: "j_sub j < length (m_heap m)" using NotifyCancel assms by auto
  have "sub_inv (if j_resubscribe j then go_task (Resubscribe (j_sub j)) (cancel_ctx (j_cancelFn j) m) else cancel_ctx (j_cancelFn j) m)"
    using c len by (auto intro!: inv_go)
  then show ?thesis using NotifyCancel assms(3) len by (auto simp: notify_cancel_def Let_def intro!: inv_go)
next
  case (NotifyDispatch j)
  have "sub_inv (m\<lparr>m_heap := (m_heap m)[j_sub j := (m_heap m ! j_sub j)\<lparr>su_prevState := st\<rparr>]\<rparr>)" for st
    using NotifyDispatch assms ctx_of by (intro inv_update) auto
  then show ?thesis using NotifyDispatch assms
    by (auto simp: notify_dispatch_def inv_log intro!: inv_go split: if_splits option.splits)
next
  case InStop
  have "sub_inv (m\<lparr>m_subs := []\<rparr>)"
    using assms(1) by (rule sub_inv_grown) (use assms(1) in \<open>auto simp: sub_inv_def grown_def table_ok_def ctxs_ok_def\<close>)
  then have "sub_inv (stop_section m)"
    by (rule sub_inv_grown) (use assms InStop in \<open>fastforce simp: stop_section_def grown_def sub_inv_def table_ok_def ctxs_ok_def\<close>)+
  then show ?thesis using InStop assms by simp
next
  case (RefreshRejected c)
  then show ?thesis using assms ctx_of by (auto intro!: inv_go inv_cancel)
next
  case (Resubscribe r)
  then show ?thesis using assms ctx_of by (auto intro!: inv_go inv_cancel)
qed (use assms delete_gone in \<open>auto simp: inv_log inv_end_sub inv_delete inv_start refresh_def refreshed_def notify_restart_def
    resubscribe_def resubscribed_def Let_def intro!: inv_go split: if_splits prod.splits option.splits\<close>)

lemma inv_step: "sub_inv m \<Longrightarrow> sub_step um ev m = Some m' \<Longrightarrow> sub_inv m'"
proof (cases ev)
  case (Proceed i w)
  assume m: "sub_inv m" and step: "sub_step um ev m = Some m'"
  let ?m = "m\<lparr>m_tasks := take i (m_tasks m) @ drop (Suc i) (m_tasks m)\<rparr>"
  have "sub_inv ?m" using m by (rule inv_drop) (auto dest: in_set_takeD in_set_dropD)
  moreover have "task_ok ?m (m_tasks m ! i)" if "i < length (m_tasks m)"
    by (rule task_ok_grown [of m]) (use m that in \<open>auto simp: sub_inv_def grown_def\<close>)
  ultimately have "i < length (m_tasks m) \<Longrightarrow> run_task um w (m_tasks m ! i) ?m = Some m' \<Longrightarrow> ?thesis"
    using inv_task by blast
  then show ?thesis using step Proceed m by (simp split: if_splits)
next
  case StopManager
  assume m: "sub_inv m" and step: "sub_step um ev m = Some m'"
  have "sub_inv (m\<lparr>m_done := True\<rparr>)"
    using m by (rule sub_inv_grown) (use m in \<open>auto simp: sub_inv_def grown_def table_ok_def ctxs_ok_def\<close>)
  then show ?thesis using step StopManager by (auto simp: stop_def intro!: inv_go)
next
  case (Notify pick event frm ct body st)
  then show "sub_inv m \<Longrightarrow> sub_step um ev m = Some m' \<Longrightarrow> sub_inv m'" using inv_notify by auto
qed (auto simp: watch_def subscribeEvent_def intro!: inv_subscribe inv_remove)

section \<open>Somebody will refresh\<close>

text \<open>What keeps subscription \<open>r\<close> alive when the contexts of \<open>X\<close> are cancelled: the goroutine that is about
  to start its refresher, or a refresher whose context is not done.\<close>

fun keeps :: "ctx set \<Rightarrow> nat \<Rightarrow> stask \<Rightarrow> bool" where
  "keeps X r (InSubscribe r') = (r' = r)"
| "keeps X r (LaunchRefresh c interval) = (fst c = r \<and> c \<notin> X)"
| "keeps X r (RefreshLoop c) = (fst c = r \<and> c \<notin> X)"
| "keeps X r (InRefresh c) = (fst c = r \<and> c \<notin> X)"
| "keeps X r (NotifyCancel j) = (j_sub j = r \<and> (j_restartRefresh j \<or> j_resubscribe j))"
| "keeps X r (NotifyRestart j) = (j_sub j = r \<and> j_restartRefresh j)"
| "keeps X r (Resubscribe r') = (r' = r)"
| "keeps X r (ResubscribeCheck r') = (r' = r)"
| "keeps X r (InResubscribe r') = (r' = r)"
| "keeps X r tk = False"

definition kept :: "manager \<Rightarrow> nat \<Rightarrow> bool" where
  "kept m r \<longleftrightarrow> list_ex (keeps (m_cancelled m) r) (m_tasks m)"

definition all_kept :: "manager \<Rightarrow> bool" where
  "all_kept m \<longleftrightarrow> m_done m \<or> (\<forall>r. tabled m r \<longrightarrow> kept m r)"

lemma keptI: "tk \<in> set (m_tasks m) \<Longrightarrow> keeps (m_cancelled m) r tk \<Longrightarrow> kept m r"
  by (auto simp: kept_def list_ex_iff)

lemma keeps_cancelled: "keeps X r tk \<Longrightarrow> \<not> keeps Y r tk \<Longrightarrow> \<exists>c. c \<in> Y \<and> c \<notin> X \<and> fst c = r"
  by (cases tk) auto

text \<open>A step that takes the task \<open>gone\<close> off the list has to see to the subscriptions that are new in the
  table, that \<open>gone\<close> kept, or one of whose contexts it cancels.\<close>

lemma kept_step:
  assumes "all_kept m" "set (m_tasks m) \<subseteq> insert gone (set (m_tasks m'))" "m_done m \<Longrightarrow> m_done m'"
    and new: "\<And>r. tabled m' r \<Longrightarrow> \<not> m_done m' \<Longrightarrow>
      \<not> tabled m r \<or> keeps (m_cancelled m) r gone \<or> r \<in> fst ` (m_cancelled m' - m_cancelled m) \<Longrightarrow> kept m' r"
  shows "all_kept m'"
proof -
  have "kept m' r" if live: "\<not> m_done m'" and r: "tabled m' r" for r
  proof (rule ccontr)
    assume not: "\<not> kept m' r"
    then have n: "tabled m r" "\<not> keeps (m_cancelled m) r gone" "r \<notin> fst ` (m_cancelled m' - m_cancelled m)"
      using new [OF r live] by blast+
    then obtain tk where tk: "tk \<in> set (m_tasks m)" "keeps (m_cancelled m) r tk"
      using assms(1,3) live by (auto simp: all_kept_def kept_def list_ex_iff)
    then have "tk \<in> set (m_tasks m')" using assms(2) n(2) by auto
    then have "\<not> keeps (m_cancelled m') r tk" using not keptI by blast
    then show False using keeps_cancelled [OF tk(2)] n(3) by fastforce
  qed
  then show ?thesis by (auto simp: all_kept_def)
qed

lemma kept_started: "r < length (m_heap m) \<Longrightarrow> ctxs_ok m \<Longrightarrow> kept (startRefresh r m) r"
  by (auto simp: startRefresh_def kept_def Let_def ctxs_ok_def)

lemma kept_more: "kept m r \<Longrightarrow> kept (go_task tk m) r"
  by (auto simp: kept_def)

lemma kept_log: "kept (m\<lparr>m_returned := rs\<rparr>) r = kept m r" "kept (m\<lparr>m_calls := cs\<rparr>) r = kept m r"
  "kept (m\<lparr>m_heap := hs\<rparr>) r = kept m r" "kept (SendSubscribe uri hdrs live m) r = kept m r"
  by (simp_all add: kept_def SendSubscribe_def)

definition sees_to :: "stask \<Rightarrow> manager \<Rightarrow> manager \<Rightarrow> bool" where
  "sees_to tk m m' \<longleftrightarrow>
     set (m_tasks m) \<subseteq> set (m_tasks m') \<and> (m_done m \<longrightarrow> m_done m') \<and>
     (\<forall>r. tabled m' r \<longrightarrow> \<not> m_done m' \<longrightarrow>
        \<not> tabled m r \<or> keeps (m_cancelled m) r tk \<or> r \<in> fst ` (m_cancelled m' - m_cancelled m) \<longrightarrow> kept m' r)"

lemma sees_to_delete:
  assumes "sub_inv m" "\<And>x. keeps (m_cancelled m) x tk \<Longrightarrow> x = r" "m_cancelled m' = m_cancelled m"
    "set (m_tasks m) \<subseteq> set (m_tasks m')" "m_done m' = m_done m" "m_subs m' = m_subs (delete_sub r m)"
  shows "sees_to tk m m'"
  unfolding sees_to_def using assms tabled_delete [OF assms(1), where r = r] by simp blast

lemma sees_to_start:
  assumes "sub_inv m" "\<And>x. keeps (m_cancelled m) x tk \<Longrightarrow> x = r" "r < length (m_heap m)"
    "m_tasks m' = m_tasks (startRefresh r m)" "m_cancelled m' = m_cancelled m" "m_done m' = m_done m" "m_subs m' = m_subs m"
  shows "sees_to tk m m'"
proof -
  have "kept (startRefresh r m) r" using assms by (intro kept_started) (auto simp: sub_inv_def)
  then have "kept m' r" using assms by (simp add: kept_def)
  moreover have "set (m_tasks m) \<subseteq> set (m_tasks m')" by (auto simp: assms(4) startRefresh_def Let_def)
  ultimately show ?thesis using assms by (auto simp: sees_to_def)
qed

text \<open>A step that passes the care for \<open>r\<close> on to a new task.\<close>

lemma sees_to_pass:
  assumes "\<And>x. tabled m x \<Longrightarrow> \<not> m_done m \<Longrightarrow> keeps (m_cancelled m) x tk \<or> x \<in> fst ` (m_cancelled m' - m_cancelled m) \<Longrightarrow> kept m' x"
    "set (m_tasks m) \<subseteq> set (m_tasks m')" "m_done m' = m_done m" "m_subs m' = m_subs m"
  shows "sees_to tk m m'"
  using assms by (auto simp: sees_to_def)

lemma ctx_owner: "ctx_ok n r co \<Longrightarrow> x \<in> fst ` ((X \<union> set_option co) - X) \<Longrightarrow> x = r"
  by (auto simp: ctx_ok_def)

lemma sees_to_cancel:
  assumes "sub_inv m" "r < length (m_heap m)" "\<not> tabled m r" "\<And>x. \<not> keeps (m_cancelled m) x tk"
    "m_cancelled m' = m_cancelled m \<union> set_option (su_refreshCancel (m_heap m ! r))"
    "set (m_tasks m) \<subseteq> set (m_tasks m')" "m_done m' = m_done m" "m_subs m' = m_subs m"
  shows "sees_to tk m m'"
proof (rule sees_to_pass)
  fix x assume x: "tabled m x" "\<not> m_done m" "keeps (m_cancelled m) x tk \<or> x \<in> fst ` (m_cancelled m' - m_cancelled m)"
  then have "x = r" using ctx_owner [OF ctx_of [OF assms(1,2)]] assms(4,5) by simp
  then show "kept m' x" using x(1) assms(3) by simp
qed (use assms in simp_all)

lemma kept_task:
  assumes "sub_inv m" "task_ok m tk" "run_task um w tk m = Some m'" shows "sees_to tk m m'"
proof (cases tk)
  case (InSubscribe r)
  show ?thesis
  proof (cases "snd (reply_of w) \<noteq> None \<or> fst (reply_of w) \<ge> 400")
    case True
    then show ?thesis using assms InSubscribe
      by (intro sees_to_delete [of _ _ r]) (auto simp: subscribed_def split: prod.splits option.splits if_splits)
  next
    case False
    then show ?thesis using assms InSubscribe
      by (intro sees_to_start [of _ _ r]) (auto simp: subscribed_def split: prod.splits option.splits if_splits)
  qed
next
  case (InResubscribe r)
  show ?thesis
  proof (cases "snd (reply_of w) \<noteq> None \<or> fst (reply_of w) \<ge> 400")
    case True
    then show ?thesis using assms InResubscribe
      by (intro sees_to_delete [of _ _ r]) (auto simp: resubscribed_def split: prod.splits option.splits if_splits)
  next
    case False
    then show ?thesis using assms InResubscribe
      by (intro sees_to_start [of _ _ r]) (auto simp: resubscribed_def split: prod.splits option.splits if_splits)
  qed
next
  case (InRefresh c)
  show ?thesis
  proof (cases "snd (reply_of w) = None \<and> fst (reply_of w) \<ge> 400")
    case True
    then show ?thesis using assms InRefresh
      by (intro sees_to_delete [of _ _ "fst c"]) (auto simp: refreshed_def split: prod.splits option.splits if_splits)
  next
    case False
    then show ?thesis using assms InRefresh
      by (intro sees_to_pass) (auto simp: refreshed_def kept_def split: prod.splits option.splits if_splits)
  qed
next
  case InStop
  then show ?thesis using assms by (auto simp: sees_to_def stop_section_def)
next
  case (StopSub r)
  then show ?thesis using assms by (auto simp: sees_to_def end_sub_def sendUnsubscribe_def)
next
  case (InRemove r)
  then show ?thesis using assms
    by (intro sees_to_cancel [of _ r]) (auto simp: removed_def end_sub_def sendUnsubscribe_def)
next
  case (RefreshRejected c)
  then show ?thesis using assms by (intro sees_to_cancel [of _ "fst c"]) auto
next
  case (Resubscribe r)
  then show ?thesis using assms ctx_of [OF assms(1), of r]
    by (intro sees_to_pass) (auto simp: kept_def ctx_ok_def)
next
  case (ResubscribeCheck r)
  then show ?thesis using assms tabled_lookup [OF assms(1), of r]
    by (intro sees_to_pass) (auto simp: resubscribe_def Let_def kept_def split: if_splits)
next
  case (LaunchRefresh c interval)
  then show ?thesis using assms by (intro sees_to_pass) (auto simp: kept_def split: if_splits)
next
  case (RefreshLoop c)
  then show ?thesis using assms
    by (intro sees_to_pass) (auto simp: kept_def refresh_def Let_def ctx_done_def split: if_splits)
next
  case (NotifyCancel j)
  have f: "m_tasks (notify_cancel j m) = m_tasks m @ (if j_resubscribe j then [Resubscribe (j_sub j)] else []) @ [NotifyRestart j]"
    "m_done (notify_cancel j m) = m_done m" "m_subs (notify_cancel j m) = m_subs m"
    "m_cancelled (notify_cancel j m) = m_cancelled m \<union> set_option (j_cancelFn j)"
    by (simp_all add: notify_cancel_def Let_def)
  have ok: "ctx_ok (m_fresh m) (j_sub j) (j_cancelFn j)"
    "j_cancelFn j = None \<or> j_restartRefresh j \<or> \<not> tabled m (j_sub j)" and m': "m' = notify_cancel j m"
    using NotifyCancel assms by auto
  show ?thesis unfolding m'
  proof (rule sees_to_pass)
    fix x assume x: "tabled m x" "keeps (m_cancelled m) x tk \<or> x \<in> fst ` (m_cancelled (notify_cancel j m) - m_cancelled m)"
    then have "x = j_sub j" using ctx_owner [OF ok(1)] NotifyCancel f(4) by auto
    moreover have "j_restartRefresh j \<or> j_resubscribe j" using x ok(2) \<open>x = j_sub j\<close> NotifyCancel f(4) by auto
    ultimately show "kept (notify_cancel j m) x" by (auto simp: kept_def f)
  qed (auto simp: f)
next
  case (NotifyRestart j)
  then have len: "j_sub j < length (m_heap m)" using assms(2) by simp
  have "kept (startRefresh (j_sub j) m) (j_sub j)" using assms(1) len by (intro kept_started) (auto simp: sub_inv_def)
  moreover have "set (m_tasks m) \<subseteq> set (m_tasks (startRefresh (j_sub j) m))" by (auto simp: startRefresh_def Let_def)
  ultimately show ?thesis using assms(3) NotifyRestart
    by (intro sees_to_pass) (auto simp: notify_restart_def kept_more split: if_splits)
next
  case (NotifyDispatch j)
  then show ?thesis using assms
    by (intro sees_to_pass) (auto simp: notify_dispatch_def split: if_splits option.splits)
next
  case (WatchFire ext st prev)
  then show ?thesis using assms by (intro sees_to_pass) auto
qed

lemma kept_notified: "sub_inv m \<Longrightarrow> sees_to InStop m (notified r n m)"
proof -
  assume m: "sub_inv m"
  define m' where "m' = notified r n m"
  have f: "m_tasks m' = m_tasks m @ [NotifyCancel (notify_job r (m_heap m ! r) n)]" "m_done m' = m_done m"
    "m_cancelled m' = m_cancelled m" "m_subs m' = m_subs m \<or> m_subs m' = m_subs (delete_sub r m)"
    by (simp_all add: m'_def notified_def Let_def)
  have "tabled m x" if "tabled m' x" for x using that f(4) tabled_delete [OF m] by metis
  then show ?thesis using f unfolding sees_to_def m'_def [symmetric] by (simp add: subset_insertI)
qed

lemma kept_step_event: "sub_inv m \<Longrightarrow> all_kept m \<Longrightarrow> sub_step um ev m = Some m' \<Longrightarrow> all_kept m'"
proof -
  assume m: "sub_inv m" "all_kept m" and step: "sub_step um ev m = Some m'"
  have kept: "all_kept m'" if "sees_to InStop m m'"
    by (rule kept_step [OF m(2), of InStop]) (use that in \<open>auto simp: sees_to_def\<close>)
  have subscribe: "sees_to InStop m (doSubscribe s m)" for s
  proof -
    have "tabled (doSubscribe s m) x \<Longrightarrow> tabled m x \<or> x = length (m_heap m)" for x
      using set_update_subset [of "su_id s" "length (m_heap m)" "m_subs m"] by (force simp: doSubscribe_def Let_def)
    then show ?thesis by (fastforce simp: sees_to_def doSubscribe_def Let_def kept_def)
  qed
  show ?thesis
  proof (cases ev)
    case (Proceed i w)
    show ?thesis
    proof (cases "i < length (m_tasks m)")
      case True
      let ?m = "m\<lparr>m_tasks := take i (m_tasks m) @ drop (Suc i) (m_tasks m)\<rparr>"
      have "sub_inv ?m" using m(1) by (rule inv_drop) (auto dest: in_set_takeD in_set_dropD)
      moreover have "task_ok ?m (m_tasks m ! i)"
        by (rule task_ok_grown [of m]) (use m(1) True in \<open>auto simp: sub_inv_def grown_def\<close>)
      ultimately have see: "sees_to (m_tasks m ! i) ?m m'" using kept_task step Proceed True by simp
      have "set (m_tasks m) \<subseteq> insert (m_tasks m ! i) (set (m_tasks ?m))"
        using arg_cong [OF id_take_nth_drop [OF True], of set] by simp
      then show ?thesis using see by (intro kept_step [OF m(2)]) (auto simp: sees_to_def)
    qed (use step Proceed m in simp)
  next
    case (Notify pick event frm ct body st)
    then show ?thesis using step m kept kept_notified [OF m(1)]
      by (auto simp: handleNotify_def split: option.splits)
  next
    case (Unsubscribe i)
    have "sees_to InStop m (remove_sub i m)"
      by (auto simp: sees_to_def remove_sub_def AList.delete_eq split: option.split)
    then show ?thesis using step kept Unsubscribe by simp
  next
    case StopManager
    then show ?thesis using step by (auto simp: all_kept_def stop_def)
  qed (use step kept subscribe in \<open>auto simp: watch_def subscribeEvent_def\<close>)
qed

lemma new_manager: "sub_inv (newSubscriptionManager host)" "all_kept (newSubscriptionManager host)"
  by (simp_all add: newSubscriptionManager_def sub_inv_def table_ok_def ctxs_ok_def all_kept_def)

lemma manager_run:
  assumes "run (sub_step um) evs m = Some m'" "sub_inv m" "all_kept m"
  shows "sub_inv m'" "all_kept m'"
  using assms
proof (induction evs arbitrary: m)
  case (Cons ev evs)
  { case 1 then show ?case using Cons.IH inv_step kept_step_event by (auto split: option.splits) }
  { case 2 then show ?case using Cons.IH inv_step kept_step_event by (auto split: option.splits) }
qed simp_all

text \<open>C11: No subscription is forgotten.  In every reachable state of a manager that has not been stopped, whatever
  the order of replies, notifications, ticks and unsubscriptions, a subscription in the table sits under
  its own identifier and somebody will refresh it: a refresher with a live context, or a goroutine that
  is about to start one.\<close>

theorem subscriptions_kept_alive:
  assumes "run (sub_step um) evs (newSubscriptionManager host) = Some m"
    and "(k, r) \<in> set (m_subs m)" and "\<not> m_done m"
  shows "su_id (m_heap m ! r) = k \<and> kept m r"
proof -
  have "tabled m r" using assms(2) by force
  then show ?thesis
    using manager_run [OF assms(1) new_manager] assms(2,3) by (auto simp: sub_inv_def table_ok_def all_kept_def)
qed

section \<open>After the stop\<close>

fun subscribes :: "sub_event \<Rightarrow> bool" where
  "subscribes (Watch newID extension fn) = True"
| "subscribes (SubscribeEvent newID uri event expires fn) = True"
| "subscribes ev = False"

text \<open>A request that does not ask for a subscription: its context is done, or it ends one.\<close>

definition harmless :: "sent_subscribe \<Rightarrow> bool" where
  "harmless x \<longleftrightarrow> \<not> sb_live x \<or> map_of (sb_headers x) ''Expires'' = Some ''0''"

definition quieted :: "manager \<Rightarrow> manager \<Rightarrow> bool" where
  "quieted m m' \<longleftrightarrow>
     m_done m' \<and> (\<exists>new. m_sent m' = m_sent m @ new \<and> list_all harmless new) \<and> (m_subs m = [] \<longrightarrow> m_subs m' = [])"

lemma quieted_same: "m_done m \<Longrightarrow> m_done m' = m_done m \<Longrightarrow> m_sent m' = m_sent m \<Longrightarrow> (m_subs m = [] \<Longrightarrow> m_subs m' = []) \<Longrightarrow> quieted m m'"
  by (simp add: quieted_def)

lemma quieted_send:
  "m_done m \<Longrightarrow> m_done m' = m_done m \<Longrightarrow> m_sent m' = m_sent m @ [x] \<Longrightarrow> harmless x \<Longrightarrow> m_subs m' = m_subs m \<Longrightarrow> quieted m m'"
  by (simp add: quieted_def)

lemma quieted_trans: "quieted m m' \<Longrightarrow> quieted m' m'' \<Longrightarrow> quieted m m''"
  by (auto simp: quieted_def)

lemma sent_simps [simp]:
  "m_sent (delete_sub r m) = m_sent m" "m_sent (cancel_ctx co m) = m_sent m" "m_sent (go_task tk m) = m_sent m"
  "m_sent (startRefresh r m) = m_sent m"
  "m_sent (SendSubscribe uri hdrs live m) = m_sent m @ [\<lparr>sb_uri = uri, sb_headers = hdrs, sb_live = live\<rparr>]"
  by (simp_all add: sub_defs Let_def)

lemma delete_empty: "m_subs m = [] \<Longrightarrow> m_subs (delete_sub r m) = []"
  by (simp add: delete_sub_def)

lemma quiet_end_sub: "m_done m \<Longrightarrow> quieted m (end_sub r m)"
  by (rule quieted_send) (simp_all add: end_sub_def sendUnsubscribe_def harmless_def, simp_all)

lemma quiet_task: "m_done m \<Longrightarrow> run_task um w tk m = Some m' \<Longrightarrow> quieted m m'"
proof (cases tk)
  case (InSubscribe r)
  assume "m_done m" "run_task um w tk m = Some m'"
  then show ?thesis using InSubscribe
    by (intro quieted_same) (auto simp: subscribed_def delete_empty split: prod.splits option.splits if_splits)
next
  case (InRemove r)
  assume m: "m_done m" "run_task um w tk m = Some m'"
  then show ?thesis using InRemove quiet_end_sub [OF m(1), of r] by (auto simp: quieted_def removed_def)
next
  case (RefreshLoop c)
  assume m: "m_done m" "run_task um w tk m = Some m'"
  have "quieted m (refresh c m)"
    using m(1) by (intro quieted_send) (simp_all add: refresh_def Let_def harmless_def ctx_done_def, simp_all)
  then show ?thesis using RefreshLoop m by (auto intro!: quieted_same split: if_splits)
next
  case (InRefresh c)
  assume "m_done m" "run_task um w tk m = Some m'"
  then show ?thesis using InRefresh
    by (intro quieted_same) (auto simp: refreshed_def delete_empty split: prod.splits option.splits if_splits)
next
  case (ResubscribeCheck r)
  assume m: "m_done m" "run_task um w tk m = Some m'"
  have "quieted m (resubscribe r m)" if "map_of (m_subs m) (su_id (m_heap m ! r)) \<noteq> None"
    using m(1) that by (intro quieted_send) (auto simp: resubscribe_def Let_def harmless_def)
  then show ?thesis using ResubscribeCheck m
    by (cases "map_of (m_subs m) (su_id (m_heap m ! r))") (auto simp: resubscribe_def intro: quieted_same)
next
  case (InResubscribe r)
  assume "m_done m" "run_task um w tk m = Some m'"
  then show ?thesis using InResubscribe
    by (intro quieted_same) (auto simp: resubscribed_def delete_empty split: prod.splits option.splits if_splits)
next
  case (NotifyCancel j)
  assume "m_done m" "run_task um w tk m = Some m'"
  then show ?thesis using NotifyCancel by (auto simp: notify_cancel_def Let_def intro!: quieted_same)
next
  case (NotifyRestart j)
  assume "m_done m" "run_task um w tk m = Some m'"
  then show ?thesis using NotifyRestart by (auto simp: notify_restart_def intro!: quieted_same)
next
  case (NotifyDispatch j)
  assume "m_done m" "run_task um w tk m = Some m'"
  then show ?thesis using NotifyDispatch
    by (auto simp: notify_dispatch_def intro!: quieted_same split: if_splits option.splits)
next
  case (StopSub r)
  assume "m_done m" "run_task um w tk m = Some m'"
  then show ?thesis using StopSub quiet_end_sub by auto
qed (auto simp: stop_section_def intro!: quieted_same split: if_splits)

lemma quiet_step: "m_done m \<Longrightarrow> \<not> subscribes ev \<Longrightarrow> sub_step um ev m = Some m' \<Longrightarrow> quieted m m'"
proof (cases ev)
  case (Proceed i w)
  assume m: "m_done m" "sub_step um ev m = Some m'"
  let ?m = "m\<lparr>m_tasks := take i (m_tasks m) @ drop (Suc i) (m_tasks m)\<rparr>"
  have "run_task um w tk ?m = Some m' \<Longrightarrow> quieted m m'" for tk
    using quiet_task [of ?m um w tk m'] m(1) by (simp add: quieted_def)
  then show ?thesis using m Proceed by (auto intro: quieted_same split: if_splits)
next
  case (Notify pick event frm ct body st)
  assume m: "m_done m" "sub_step um ev m = Some m'"
  have "quieted m (notified r n m)" for r n
    using m(1) by (intro quieted_same) (auto simp: notified_def Let_def delete_empty)
  then show ?thesis using m Notify by (auto simp: handleNotify_def intro: quieted_same split: option.splits)
next
  case (Unsubscribe i)
  assume "m_done m" "sub_step um ev m = Some m'"
  then show ?thesis using Unsubscribe by (intro quieted_same) (auto simp: remove_sub_def split: option.splits)
qed (auto simp: stop_def intro!: quieted_same)

text \<open>C12: A stopped manager is silent.  Once \<open>stop\<close> has been called and nobody subscribes any more, whatever
  goroutines are left and whatever they are told, every request still handed to the transport either
  carries a done context or ends a subscription, and an empty table stays empty.\<close>

theorem stop_is_final:
  assumes "run (sub_step um) evs m = Some m'" "m_done m" "list_all (\<lambda>ev. \<not> subscribes ev) evs"
  shows "(\<exists>new. m_sent m' = m_sent m @ new \<and> list_all harmless new) \<and> (m_subs m = [] \<longrightarrow> m_subs m' = [])"
proof -
  have "quieted m m'" using assms
  proof (induction evs arbitrary: m)
    case (Cons ev evs)
    then obtain m1 where "sub_step um ev m = Some m1" "run (sub_step um) evs m1 = Some m'"
      by (auto split: option.splits)
    moreover from this have "quieted m m1" using Cons.prems by (intro quiet_step) auto
    moreover from this have "m_done m1" by (simp add: quieted_def)
    ultimately show ?case using Cons.IH [of m1] Cons.prems(3) quieted_trans by simp
  qed (simp add: quieted_def)
  then show ?thesis by (auto simp: quieted_def)
qed

section \<open>What a watch reports\<close>

lemma run_append: "run step (xs @ ys) s = (case run step xs s of None \<Rightarrow> None | Some s' \<Rightarrow> run step ys s')"
  by (induction xs arbitrary: s) (simp_all split: option.split)

lemma step_last:
  "sub_step um (Proceed (length ts) w) (m\<lparr>m_tasks := ts @ tk # us\<rparr>) = run_task um w tk (m\<lparr>m_tasks := ts @ us\<rparr>)"
  by simp

text \<open>A NOTIFY and the four steps that handle it when nothing comes between; the manager has \<open>n\<close> other tasks.\<close>

definition notify_steps :: "nat \<Rightarrow> nat \<Rightarrow> string \<Rightarrow> string \<Rightarrow> string \<Rightarrow> string \<Rightarrow> sub_event list" where
  "notify_steps n pick frm ct hdr body = Notify pick ''dialog'' frm ct body hdr # replicate 4 (Proceed n Tick)"

definition reported :: "nat \<Rightarrow> ExtensionState \<Rightarrow> manager \<Rightarrow> manager" where
  "reported r st m =
     (let s = m_heap m ! r
      in m\<lparr>m_heap := (m_heap m)[r := s\<lparr>su_prevState := st\<rparr>], m_calls := m_calls m @ [WatchFn (su_extension s) st (su_prevState s)]\<rparr>)"

lemma watch_one:
  assumes r: "findMatch pick ''dialog'' frm m = Some r"
    and s: "su_isWatch (m_heap m ! r)" "su_watchFn (m_heap m ! r)"
    and hdr: "parseSubscriptionState hdr = (st, ex, reason)" "st \<noteq> SubStateTerminated" "ex \<le> 0 \<or> ex = su_expires (m_heap m ! r)"
    and body: "parseDialogInfo um body = Some state"
  shows "run (sub_step um) (notify_steps (length (m_tasks m)) pick frm ct hdr body) m = Some (reported r state m)"
proof -
  define j where "j = notify_job r (m_heap m ! r) (notify_event ''dialog'' ct body hdr)"
  have j: "j_cancelFn j = None" "\<not> j_resubscribe j" "\<not> j_restartRefresh j" "j_isWatch j" "j_watchFn j" "j_sub j = r"
    "j_extension j = su_extension (m_heap m ! r)" "j_prev j = su_prevState (m_heap m ! r)" "ne_Body (j_event j) = body"
    using hdr s by (auto simp: j_def notify_job_def notify_event_def will_resubscribe_def Let_def)
  have n: "handleNotify pick ''dialog'' frm ct body hdr m = m\<lparr>m_tasks := m_tasks m @ [NotifyCancel j]\<rparr>"
    using r hdr j(2,3) by (simp add: handleNotify_def notified_def Let_def j_def [symmetric] go_task_def)
      (simp add: notify_event_def)
  have c: "notify_cancel j m = m\<lparr>m_tasks := m_tasks m @ [NotifyRestart j]\<rparr>"
    and t: "notify_restart j m = m\<lparr>m_tasks := m_tasks m @ [NotifyDispatch j]\<rparr>"
    using j by (simp_all add: notify_cancel_def notify_restart_def go_task_def cancel_ctx_def)
  have d: "notify_dispatch um j m = (m\<lparr>m_heap := (m_heap m)[r := (m_heap m ! r)\<lparr>su_prevState := state\<rparr>]\<rparr>)
      \<lparr>m_tasks := m_tasks m @ [WatchFire (j_extension j) state (j_prev j)]\<rparr>"
    using j body by (simp add: notify_dispatch_def go_task_def)
  have four: "replicate 4 (Proceed (length (m_tasks m)) Tick) =
      [Proceed (length (m_tasks m)) Tick, Proceed (length (m_tasks m)) Tick, Proceed (length (m_tasks m)) Tick, Proceed (length (m_tasks m)) Tick]"
    by (simp add: numeral_eq_Suc)
  show ?thesis
    by (simp add: notify_steps_def four n c t d reported_def Let_def j)
qed

text \<open>The reports of a sequence of states: each with the one before it.\<close>

definition watch_reports :: "string \<Rightarrow> ExtensionState \<Rightarrow> ExtensionState list \<Rightarrow> callback list" where
  "watch_reports ext prev sts = map2 (WatchFn ext) sts (prev # sts)"

text \<open>A watch reports every state with its predecessor.  When the notifications for a watched extension are
  handled one after the other, the callback is called once for each, with the state the body gives and
  the state reported before, beginning with the one the subscription had; nothing else changes.\<close>

theorem watch_reports_chain:
  assumes "findMatch pick ''dialog'' frm m = Some r" and "r < length (m_heap m)"
    and "su_isWatch (m_heap m ! r)" and "su_watchFn (m_heap m ! r)"
    and "parseSubscriptionState hdr = (st, ex, reason)" and "st \<noteq> SubStateTerminated"
    and "ex \<le> 0 \<or> ex = su_expires (m_heap m ! r)"
    and "map (parseDialogInfo um) bodies = map Some states"
  shows "\<exists>m'. run (sub_step um) (concat (map (notify_steps (length (m_tasks m)) pick frm ct hdr) bodies)) m = Some m' \<and>
    m_calls m' = m_calls m @ watch_reports (su_extension (m_heap m ! r)) (su_prevState (m_heap m ! r)) states \<and>
    m_subs m' = m_subs m \<and> m_tasks m' = m_tasks m \<and> m_sent m' = m_sent m"
  using assms
proof (induction bodies arbitrary: m states)
  case Nil
  then show ?case by (simp add: watch_reports_def)
next
  case (Cons body bodies)
  obtain s ss where ss: "states = s # ss" "parseDialogInfo um body = Some s" "map (parseDialogInfo um) bodies = map Some ss"
    using Cons.prems(8) by (cases states) auto
  have len: "r < length (m_heap m)" by fact
  define m1 where "m1 = reported r s m"
  have one: "run (sub_step um) (notify_steps (length (m_tasks m)) pick frm ct hdr body) m = Some m1"
    unfolding m1_def using Cons.prems(1,3-7) ss(2) by (rule watch_one)
  have f: "m_tasks m1 = m_tasks m" "m_subs m1 = m_subs m" "m_sent m1 = m_sent m" "length (m_heap m1) = length (m_heap m)"
    "m_calls m1 = m_calls m @ [WatchFn (su_extension (m_heap m ! r)) s (su_prevState (m_heap m ! r))]"
    "m_heap m1 ! r = (m_heap m ! r)\<lparr>su_prevState := s\<rparr>"
    using len by (simp_all add: m1_def reported_def Let_def)
  have "matches ''dialog'' frm (m_heap m1 ! x) = matches ''dialog'' frm (m_heap m ! x)" for x
    by (cases "x = r") (simp_all add: matches_def m1_def reported_def Let_def len)
  then have "findMatch pick ''dialog'' frm m1 = Some r" using Cons.prems(1) f(2) by (simp add: findMatch_def)
  from Cons.IH [OF this _ _ _ Cons.prems(5,6) _ ss(3)] obtain m' where
    "run (sub_step um) (concat (map (notify_steps (length (m_tasks m1)) pick frm ct hdr) bodies)) m1 = Some m'"
    "m_calls m' = m_calls m1 @ watch_reports (su_extension (m_heap m ! r)) s ss"
    "m_subs m' = m_subs m" "m_tasks m' = m_tasks m" "m_sent m' = m_sent m"
    using Cons.prems(3,4,7) len f by auto
  then show ?case using one f by (auto simp: run_append ss(1) watch_reports_def)
qed

section \<open>Notifications that go wrong\<close>

text \<open>C38: A NOTIFY crashes the process.  An active subscription state with \<open>expires=1\<close> makes \<open>handleNotify\<close> start a
  refresher whose interval is half a second rounded down to nothing, and \<open>time.NewTicker\<close> panics.\<close>

theorem expires_one_panics:
  assumes "findMatch pick event frm m = Some r" and "su_expires (m_heap m ! r) \<noteq> 1" and "r < length (m_heap m)"
    and "parseSubscriptionState hdr = (SubStateActive, 1, reason)" and "n = length (m_tasks m)"
  shows "run (sub_step um) (Notify pick event frm ct body hdr # replicate 3 (Proceed n w)) m = None"
proof -
  define s where "s = m_heap m ! r"
  define j where "j = notify_job r s (notify_event event ct body hdr)"
  have j: "\<not> j_resubscribe j" "j_restartRefresh j" "j_sub j = r"
    using assms by (auto simp: j_def s_def notify_job_def notify_event_def will_resubscribe_def Let_def)
  let ?m = "m\<lparr>m_heap := (m_heap m)[r := s\<lparr>su_expires := 1\<rparr>]\<rparr>"
  have n: "handleNotify pick event frm ct body hdr m = ?m\<lparr>m_tasks := m_tasks m @ [NotifyCancel j]\<rparr>"
    using assms(1,4) j by (simp add: handleNotify_def notified_def Let_def s_def [symmetric] j_def [symmetric] go_task_def)
      (simp add: notify_event_def)
  have i: "refresh_interval 1 = 0" by (simp add: refresh_interval_def)
  have three: "replicate 3 x = [x, x, x]" for x :: sub_event by (simp add: numeral_eq_Suc)
  show ?thesis using j assms(3,5)
    by (simp add: n three notify_cancel_def notify_restart_def startRefresh_def go_task_def cancel_ctx_def Let_def i)
qed

text \<open>Unsubscribing does not end the subscription.  The first NOTIFY overtakes the answer to the SUBSCRIBE and
  names another interval: \<open>handleNotify\<close> starts a refresher, and the answer starts a second one whose
  cancel function replaces that of the first.  After \<open>Unwatch\<close> the table is empty and the server has the
  SUBSCRIBE with \<open>Expires: 0\<close>, but the first refresher goes on and subscribes again.\<close>

definition overtaking :: "sub_event list" where
  "overtaking =
     [Watch ''CA01'' ''1001'' True, Notify 0 ''dialog'' ''sip:1001@pbx'' [] [] ''active;expires=300'',
      Proceed 1 Tick, Proceed 1 Tick, Proceed 0 (Reply 200 None), Unsubscribe ''CA01'',
      Proceed 3 Tick, Proceed 0 Tick, Proceed 2 Tick]"

theorem refresher_outlives_unwatch:
  "case run (sub_step um) overtaking (newSubscriptionManager ''pbx'') of
     None \<Rightarrow> False
   | Some m \<Rightarrow> m_subs m = [] \<and> m_returned m = [Subscribed ''CA01'', Removed ''CA01''] \<and>
       map (\<lambda>x. (map_of (sb_headers x) ''Expires'', sb_live x)) (m_sent m)
         = [(Some ''600'', True), (Some ''0'', True), (Some ''300'', True)]"
  unfolding overtaking_def by code_simp

section \<open>Bodies\<close>

text \<open>What a list of dialogs says of an extension: a confirmed dialog wins, then an early or proceeding one; it
  is available when every dialog has terminated.\<close>

lemma dialog_flags_spec:
  "dialog_flags ds (a, b, c) =
     (a \<or> ''confirmed'' \<in> set ds, b \<or> ''early'' \<in> set ds \<or> ''proceeding'' \<in> set ds, c \<and> (\<forall>d \<in> set ds. d = ''terminated''))"
proof (induction ds arbitrary: a b c)
  case (Cons d ds)
  show ?case by (cases "d = ''confirmed''"; cases "d = ''early''"; cases "d = ''proceeding''"; cases "d = ''terminated''")
    (simp_all add: Cons)
qed simp

theorem dialog_info_spec:
  "parseDialogInfo um body =
     (case um body of
        None \<Rightarrow> None
      | Some ds \<Rightarrow> Some (if ''confirmed'' \<in> set ds then ExtensionOnThePhone
                        else if ''early'' \<in> set ds \<or> ''proceeding'' \<in> set ds then ExtensionRinging
                        else if set ds \<subseteq> {''terminated''} then ExtensionAvailable else ExtensionUnknown))"
  by (auto simp: parseDialogInfo_def dialog_flags_spec split: option.split)

text \<open>A message summary the way RFC 3842 writes it.\<close>

definition summary_body :: "VoicemailStatus \<Rightarrow> string" where
  "summary_body v =
     Join [''Messages-Waiting: '' @ (if vm_MessagesWaiting v then ''yes'' else ''no'') @ [CR],
           ''Message-Account: '' @ vm_Account v @ [CR],
           ''Voice-Message: '' @ (Itoa (vm_NewMessages v) @ ''/'' @ Itoa (vm_OldMessages v) @ '' (0/0)'') @ [CR], []] [LF]"

definition plain :: "string \<Rightarrow> bool" where
  "plain v \<longleftrightarrow> v \<noteq> [] \<and> trimmed v \<and> LF \<notin> set v"

lemma TrimSpace_snoc: "trimmed v \<Longrightarrow> is_space c \<Longrightarrow> TrimSpace (v @ [c]) = v"
proof (cases "v = []")
  case False
  assume v: "trimmed v" "is_space c"
  then have "dropWhile is_space (v @ [c]) = v @ [c]" using False by (cases v) (auto simp: trimmed_def)
  moreover have "dropWhile is_space (rev v) = rev v"
    using v(1) False by (simp add: trimmed_def dropWhile_eq_self_iff hd_rev)
  ultimately show ?thesis using v(2) by (simp add: TrimSpace_def TrimLeftIf_def TrimRightIf_def)
qed (simp add: TrimSpace_def TrimLeftIf_def TrimRightIf_def)

lemma summary_line_field:
  assumes k: "k \<noteq> []" "trimmed k" "CHR '':'' \<notin> set k" and v: "v \<noteq> []" "trimmed v"
  shows "summary_line (k @ '': '' @ v @ [CR]) acc = summary_field k v acc"
proof -
  have "trimmed (k @ '': '' @ v)" using k v by (auto simp: trimmed_def)
  then have l: "TrimSpace (k @ '': '' @ v @ [CR]) = k @ '': '' @ v"
    using TrimSpace_snoc [of "k @ '': '' @ v" CR] by (simp add: is_space_def)
  have i: "IndexByte (k @ '': '' @ v) CHR '':'' = Some (length k)" using IndexByte_append k(3) by simp
  have "TrimSpace ('' '' @ v) = v" using v by (simp add: TrimSpace_space is_space_def TrimSpace_trimmed)
  then show ?thesis using k l i by (simp add: summary_line_def TrimSpace_trimmed)
qed

lemma Itoa_chars: "c \<in> set (Itoa i) \<Longrightarrow> c \<noteq> CHR ''/'' \<and> c \<noteq> CHR ''('' \<and> c \<noteq> LF"
  by (auto dest!: Itoa_range)

lemma counts_printed:
  assumes "- (2 ^ 63) \<le> n" "n < 2 ^ 63" "- (2 ^ 63) \<le> old" "old < 2 ^ 63"
  shows "parseMessageCounts (Itoa n @ ''/'' @ Itoa old @ '' (0/0)'') = (n, old)"
proof -
  have t: "trimmed (Itoa n @ ''/'' @ Itoa old)"
    using trimmed_Itoa [of n] trimmed_Itoa [of old] SipMessage.Itoa_not_Nil by (auto simp: trimmed_def is_space_def)
  have p: "IndexByte ((Itoa n @ ''/'' @ Itoa old @ '' '') @ CHR ''('' # ''0/0)'') CHR ''('' = Some (length (Itoa n @ ''/'' @ Itoa old @ '' ''))"
    by (rule IndexByte_append) (auto dest: Itoa_chars)
  have s: "SplitN (Itoa n @ ''/'' @ Itoa old) ''/'' 2 = [Itoa n, Itoa old]"
  proof -
    have "Index (Itoa n @ ''/'' @ Itoa old) ''/'' = Some (length (Itoa n))"
      by (rule Index_append) (auto dest: Itoa_chars)
    then show ?thesis by (simp add: numeral_2_eq_2)
  qed
  show ?thesis
    using p s assms TrimSpace_snoc [OF t, of "CHR '' ''"]
    by (simp add: parseMessageCounts_def is_space_def Atoi_Itoa TrimSpace_trimmed)
qed

text \<open>A message summary survives the wire: the voicemail status printed with its counts is the one that
  \<open>parseMessageSummary\<close> reads.\<close>

theorem message_summary_roundtrip:
  assumes "plain (vm_Account v)"
    and "0 \<le> vm_NewMessages v" "vm_NewMessages v < 2 ^ 63" "0 \<le> vm_OldMessages v" "vm_OldMessages v < 2 ^ 63"
  shows "parseMessageSummary (summary_body v) = (v, True)"
proof -
  let ?counts = "Itoa (vm_NewMessages v) @ ''/'' @ Itoa (vm_OldMessages v) @ '' (0/0)''"
  let ?wait = "if vm_MessagesWaiting v then ''yes'' else ''no''"
  have split: "Split (summary_body v) [LF] =
      [''Messages-Waiting'' @ '': '' @ ?wait @ [CR], ''Message-Account'' @ '': '' @ vm_Account v @ [CR],
       ''Voice-Message'' @ '': '' @ ?counts @ [CR], []]"
    unfolding summary_body_def using assms(1) Itoa_chars by (subst Split_Join) (auto simp: plain_def)
  have w: "summary_line (''Messages-Waiting'' @ '': '' @ ?wait @ [CR]) acc = summary_field ''Messages-Waiting'' ?wait acc" for acc
    by (rule summary_line_field) (auto simp: trimmed_def is_space_def)
  have a: "summary_line (''Message-Account'' @ '': '' @ vm_Account v @ [CR]) acc = summary_field ''Message-Account'' (vm_Account v) acc" for acc
    by (rule summary_line_field) (use assms(1) in \<open>auto simp: trimmed_def is_space_def plain_def\<close>)
  have "trimmed ?counts" using trimmed_Itoa SipMessage.Itoa_not_Nil by (simp add: trimmed_def is_space_def)
  then have c: "summary_line (''Voice-Message'' @ '': '' @ ?counts @ [CR]) acc = summary_field ''Voice-Message'' ?counts acc" for acc
    by (intro summary_line_field) (auto simp: trimmed_def is_space_def)
  have n: "parseMessageCounts ?counts = (vm_NewMessages v, vm_OldMessages v)" using assms by (intro counts_printed) auto
  have fold_eq: "EqualFold ''Messages-Waiting'' ''Messages-Waiting''" "\<not> EqualFold ''Message-Account'' ''Messages-Waiting''"
    "EqualFold ''Message-Account'' ''Message-Account''" "\<not> EqualFold ''Voice-Message'' ''Messages-Waiting''"
    "\<not> EqualFold ''Voice-Message'' ''Message-Account''" "EqualFold ''Voice-Message'' ''Voice-Message''"
    "EqualFold ''yes'' ''yes''" "\<not> EqualFold ''no'' ''yes''"
    by code_simp+
  have e: "summary_line [] acc = acc" for acc by (simp add: summary_line_def TrimSpace_def TrimLeftIf_def TrimRightIf_def)
  show ?thesis
    unfolding parseMessageSummary_def split
    using n by (simp only: fold_simps w a c e) (simp add: summary_field_def fold_eq)
qed

text \<open>A voicemail callback is lost.  \<open>OnVoicemail\<close> between the moment the registration copies the callbacks and
  the moment it keeps the subscriber adds its callback to the phone, but the subscriber calls the old ones only.\<close>

theorem voicemail_callback_lost:
  assumes "vp_uri p \<noteq> []"
  shows "vp_fns (connected True (vp_fns p) (OnVoicemail p)) = vp_fns p + 1 \<and>
    map_option w_fns (vp_mwi (connected True (vp_fns p) (OnVoicemail p))) = Some (if vp_fns p > 0 then Some (vp_fns p) else None)"
  using assms by (simp add: connected_def OnVoicemail_def start_mwi_def mwi_start_def setOnVoicemail_def newMWISubscriber_def Let_def)

section \<open>Concrete runs\<close>

definition demo_bodies :: "string list" where
  "demo_bodies = [''ringing'', ''talking'', ''idle'']"

definition demo_unmarshal :: unmarshal where
  "demo_unmarshal body =
     (if body = ''ringing'' then Some [''early''] else if body = ''talking'' then Some [''terminated'', ''confirmed'']
      else if body = ''idle'' then Some [] else None)"

definition demo_watch :: "sub_event list" where
  "demo_watch = [Watch ''CA01'' ''1001'' True, Proceed 0 (Reply 200 None), Proceed 0 Tick]"

definition demo_manager :: manager where
  "demo_manager = the (run (sub_step demo_unmarshal) demo_watch (newSubscriptionManager ''pbx''))"

lemma demo_watch_run: "run (sub_step demo_unmarshal) demo_watch (newSubscriptionManager ''pbx'') = Some demo_manager"
proof -
  have "\<not> Option.is_none (run (sub_step demo_unmarshal) demo_watch (newSubscriptionManager ''pbx''))" by code_simp
  then show ?thesis by (simp add: demo_manager_def Option.is_none_def)
qed

lemma demo_manager_facts:
  "m_subs demo_manager = [(''CA01'', 0)]" "m_tasks demo_manager = [RefreshLoop (0, 0)]" "\<not> m_done demo_manager"
  "length (m_heap demo_manager) = 1" "findMatch 0 ''dialog'' ''sip:1001@pbx'' demo_manager = Some 0"
  "su_isWatch (m_heap demo_manager ! 0)" "su_watchFn (m_heap demo_manager ! 0)" "su_expires (m_heap demo_manager ! 0) = 600"
  "su_extension (m_heap demo_manager ! 0) = ''1001''" "su_prevState (m_heap demo_manager ! 0) = ExtensionUnknown"
  "m_calls demo_manager = []"
  by code_simp+

theorem subscriptions_kept_alive_witness:
  "su_id (m_heap demo_manager ! 0) = ''CA01'' \<and> kept demo_manager 0"
  using subscriptions_kept_alive [OF demo_watch_run, of "''CA01''" 0] by (simp add: demo_manager_facts)

theorem watch_reports_chain_witness:
  "\<exists>m'. run (sub_step demo_unmarshal) (concat (map (notify_steps 1 0 ''sip:1001@pbx'' [] ''active;expires=600'') demo_bodies)) demo_manager = Some m' \<and>
     m_calls m' = [WatchFn ''1001'' ExtensionRinging ExtensionUnknown, WatchFn ''1001'' ExtensionOnThePhone ExtensionRinging,
                   WatchFn ''1001'' ExtensionAvailable ExtensionOnThePhone]"
proof -
  have p: "parseSubscriptionState ''active;expires=600'' = (SubStateActive, 600, [])" by code_simp
  have b: "map (parseDialogInfo demo_unmarshal) demo_bodies = map Some [ExtensionRinging, ExtensionOnThePhone, ExtensionAvailable]"
    by code_simp
  show ?thesis
    using watch_reports_chain [OF demo_manager_facts(5) _ demo_manager_facts(6,7) p _ _ b, of "[]"]
    by (auto simp: demo_manager_facts watch_reports_def)
qed

text \<open>The manager of a stopped phone with two goroutines left: the refresher and the one inside \<open>stop\<close>.\<close>

definition demo_leftover :: "sub_event list" where
  "demo_leftover = [Proceed 0 Tick, Proceed 0 Tick, Proceed 0 (Reply 408 None), Proceed 0 Tick]"

definition demo_stopped :: manager where
  "demo_stopped = stop demo_manager"

theorem stop_is_final_witness:
  "\<exists>m' new. run (sub_step demo_unmarshal) demo_leftover demo_stopped = Some m' \<and>
     m_sent m' = m_sent demo_stopped @ new \<and> list_all harmless new"
proof -
  have "\<not> Option.is_none (run (sub_step demo_unmarshal) demo_leftover demo_stopped)" by code_simp
  then obtain m' where m': "run (sub_step demo_unmarshal) demo_leftover demo_stopped = Some m'"
    by (auto simp: Option.is_none_def)
  have "m_done demo_stopped" "list_all (\<lambda>ev. \<not> subscribes ev) demo_leftover" by code_simp+
  then show ?thesis using stop_is_final [OF m'] m' by blast
qed

theorem expires_one_panics_witness:
  "run (sub_step demo_unmarshal) (Notify 0 ''dialog'' ''sip:1001@pbx'' [] [] ''active;expires=1'' # replicate 3 (Proceed 1 Tick)) demo_manager = None"
proof -
  have "parseSubscriptionState ''active;expires=1'' = (SubStateActive, 1, [])" by code_simp
  then show ?thesis using expires_one_panics [OF demo_manager_facts(5)] by (simp add: demo_manager_facts)
qed

definition demo_status :: VoicemailStatus where
  "demo_status = \<lparr>vm_MessagesWaiting = True, vm_Account = ''sip:*97@pbx.local'', vm_NewMessages = 2, vm_OldMessages = 8\<rparr>"

theorem message_summary_roundtrip_witness: "parseMessageSummary (summary_body demo_status) = (demo_status, True)"
proof -
  have "plain (vm_Account demo_status)" "0 \<le> vm_NewMessages demo_status" "vm_NewMessages demo_status < 2 ^ 63"
    "0 \<le> vm_OldMessages demo_status" "vm_OldMessages demo_status < 2 ^ 63"
    by code_simp+
  then show ?thesis by (rule message_summary_roundtrip)
qed

end
