(* ===== verification/Turn.thy ===== *)
theory Turn
  imports Stun
begin

text \<open>
  The TURN client, \<open>turn/turn.go\<close>, over the STUN messages of \<open>Stun\<close>.  The socket is a queue of received
  datagrams and a list of sent ones; an exchange takes what else arrives before its deadline as an
  argument.  The refresh loop is two events, the ticks of its two tickers.  \<open>None\<close> is a panic:
  \<open>EncodeXORAddr\<close> refuses IPv6.
\<close>

abbreviation AllocateRequest :: u16 where "AllocateRequest \<equiv> 0x0003"
abbreviation AllocateResponse :: u16 where "AllocateResponse \<equiv> 0x0103"
abbreviation AllocateError :: u16 where "AllocateError \<equiv> 0x0113"
abbreviation RefreshRequest :: u16 where "RefreshRequest \<equiv> 0x0004"
abbreviation RefreshResponse :: u16 where "RefreshResponse \<equiv> 0x0104"
abbreviation CreatePermissionRequest :: u16 where "CreatePermissionRequest \<equiv> 0x0008"
abbreviation CreatePermissionResponse :: u16 where "CreatePermissionResponse \<equiv> 0x0108"
abbreviation ChannelBindRequest :: u16 where "ChannelBindRequest \<equiv> 0x0009"
abbreviation ChannelBindResponse :: u16 where "ChannelBindResponse \<equiv> 0x0109"
abbreviation AttrChannelNumber :: u16 where "AttrChannelNumber \<equiv> 0x000C"
abbreviation AttrLifetime :: u16 where "AttrLifetime \<equiv> 0x000D"
abbreviation AttrXORPeerAddress :: u16 where "AttrXORPeerAddress \<equiv> 0x0012"
abbreviation AttrRealm :: u16 where "AttrRealm \<equiv> 0x0014"
abbreviation AttrNonce :: u16 where "AttrNonce \<equiv> 0x0015"
abbreviation AttrXORRelayedAddress :: u16 where "AttrXORRelayedAddress \<equiv> 0x0016"
abbreviation AttrRequestedTransport :: u16 where "AttrRequestedTransport \<equiv> 0x0019"

definition attr :: "u16 \<Rightarrow> bytes \<Rightarrow> Attr" where
  "attr t v = \<lparr>attr_Type = t, attr_Value = v\<rparr>"

lemma attr_sel [simp]: "attr_Type (attr t v) = t" "attr_Value (attr t v) = v"
  by (simp_all add: attr_def)

section \<open>The client\<close>

datatype turn_error =
    SendFailed | DeadlineFailed | RecvFailed | ResponseTooShort | BadRelayedAddress stun_error | NoRelayedAddress
  | NoRealm | AllocateRejected int string | UnexpectedResponse u16 | PermissionFailed u16 | ChannelsExhausted | BindFailed u16

text \<open>\<open>tc_loop\<close> is the refresh loop with its interval in seconds, \<open>tc_rx\<close> and \<open>tc_tx\<close> are the socket.\<close>

record turn_client =
  tc_serverAddr :: UDPAddr
  tc_username :: string
  tc_password :: string
  tc_realm :: string
  tc_nonce :: string
  tc_key :: bytes
  tc_relayAddr :: "UDPAddr option"
  tc_lifetime :: u32
  tc_channelBindings :: "(UDPAddr \<times> u16) list"
  tc_permissions :: "UDPAddr list"
  tc_nextChannel :: u16
  tc_loop :: "nat option"
  tc_rx :: "(UDPAddr \<times> bytes) list"
  tc_tx :: "bytes list"

definition NewClient :: "UDPAddr \<Rightarrow> string \<Rightarrow> string \<Rightarrow> turn_client" where
  "NewClient serverAddr username password =
     \<lparr>tc_serverAddr = serverAddr, tc_username = username, tc_password = password, tc_realm = [], tc_nonce = [],
       tc_key = [], tc_relayAddr = None, tc_lifetime = 0, tc_channelBindings = [], tc_permissions = [],
       tc_nextChannel = 0x4000, tc_loop = None, tc_rx = [], tc_tx = []\<rparr>"

text \<open>One use of the network: the random transaction id, whether the write and the deadline succeed, and
  what arrives until the deadline.\<close>

record exchange =
  x_txnID :: bytes
  x_writeOk :: bool
  x_deadlineOk :: bool
  x_arrivals :: "(UDPAddr \<times> bytes) list"

definition write_to :: "exchange \<Rightarrow> bytes \<Rightarrow> turn_client \<Rightarrow> turn_client" where
  "write_to x msg c = (if x_writeOk x then c\<lparr>tc_tx := tc_tx c @ [msg]\<rparr> else c)"

definition sendRecv :: "exchange \<Rightarrow> bytes \<Rightarrow> turn_client \<Rightarrow> (turn_error + bytes) \<times> turn_client" where
  "sendRecv x msg c =
     (if \<not> x_writeOk x then (Inl SendFailed, c)
      else let c = write_to x msg c
           in if \<not> x_deadlineOk x then (Inl DeadlineFailed, c)
              else case dropWhile (\<lambda>(src, data). udp_IP src \<noteq> udp_IP (tc_serverAddr c)) (tc_rx c @ x_arrivals x) of
                     [] \<Rightarrow> (Inl RecvFailed, c\<lparr>tc_rx := []\<rparr>)
                   | (src, data) # rest \<Rightarrow> (Inr (take 2048 data), c\<lparr>tc_rx := rest\<rparr>))"

definition credentialAttrs :: "turn_client \<Rightarrow> Attr list" where
  "credentialAttrs c =
     [attr AttrUsername (bytes_of (tc_username c)), attr AttrRealm (bytes_of (tc_realm c)),
      attr AttrNonce (bytes_of (tc_nonce c))]"

definition buildAuthMsg :: "exchange \<Rightarrow> u16 \<Rightarrow> Attr list \<Rightarrow> turn_client \<Rightarrow> bytes" where
  "buildAuthMsg x msgType attrs c =
     AppendIntegrity (BuildMessage msgType (x_txnID x) (attrs @ credentialAttrs c)) (tc_key c)"

section \<open>Allocation\<close>

fun realm_nonce :: "Attr list \<Rightarrow> turn_client \<Rightarrow> turn_client" where
  "realm_nonce [] c = c"
| "realm_nonce (a # as) c =
     realm_nonce as
       (if attr_Type a = AttrRealm then c\<lparr>tc_realm := string_of (attr_Value a)\<rparr>
        else if attr_Type a = AttrNonce then c\<lparr>tc_nonce := string_of (attr_Value a)\<rparr> else c)"

definition extractRealmNonce :: "bytes \<Rightarrow> turn_client \<Rightarrow> turn_error option \<times> turn_client" where
  "extractRealmNonce resp c =
     (if length resp < HeaderSize then (Some ResponseTooShort, c)
      else let c = realm_nonce (ParseAttrs (drop HeaderSize resp)) c
           in if tc_realm c = [] then (Some NoRealm, c)
              else (None, c\<lparr>tc_key := LongTermKey (tc_username c) (tc_realm c) (tc_password c)\<rparr>))"

fun allocate_attrs :: "Attr list \<Rightarrow> UDPAddr option \<Rightarrow> turn_client \<Rightarrow> (stun_error + UDPAddr option) \<times> turn_client" where
  "allocate_attrs [] relay c = (Inr relay, c)"
| "allocate_attrs (a # as) relay c =
     (if attr_Type a = AttrXORRelayedAddress then
        (case ParseXORAddr (attr_Value a) of
           Inl e \<Rightarrow> (Inl e, c)
         | Inr addr \<Rightarrow> allocate_attrs as (Some addr) c)
      else if attr_Type a = AttrLifetime \<and> length (attr_Value a) \<ge> 4 then
        allocate_attrs as relay (c\<lparr>tc_lifetime := get_u32 (subslice 0 4 (attr_Value a))\<rparr>)
      else allocate_attrs as relay c)"

definition parseAllocateSuccess :: "bytes \<Rightarrow> turn_client \<Rightarrow> (turn_error + UDPAddr) \<times> turn_client" where
  "parseAllocateSuccess resp c =
     (if length resp < HeaderSize then (Inl ResponseTooShort, c)
      else case allocate_attrs (ParseAttrs (drop HeaderSize resp)) None c of
             (Inl e, c) \<Rightarrow> (Inl (BadRelayedAddress e), c)
           | (Inr None, c) \<Rightarrow> (Inl NoRelayedAddress, c)
           | (Inr (Some relay), c) \<Rightarrow> (Inr relay, c\<lparr>tc_relayAddr := Some relay\<rparr>))"

definition startRefreshLoop :: "turn_client \<Rightarrow> turn_client" where
  "startRefreshLoop c =
     (let refreshSec = tc_lifetime c div 2
      in c\<lparr>tc_loop := Some (if refreshSec < 30 then 30 else unat refreshSec)\<rparr>)"

definition allocated :: "bytes \<Rightarrow> turn_client \<Rightarrow> (turn_error + UDPAddr) \<times> turn_client" where
  "allocated resp c =
     (case parseAllocateSuccess resp c of (Inl e, c) \<Rightarrow> (Inl e, c) | (Inr addr, c) \<Rightarrow> (Inr addr, startRefreshLoop c))"

definition requested_transport :: Attr where
  "requested_transport = attr AttrRequestedTransport [17, 0, 0, 0]"

definition allocateAuthenticated :: "exchange \<Rightarrow> turn_client \<Rightarrow> (turn_error + UDPAddr) \<times> turn_client" where
  "allocateAuthenticated x c =
     (case sendRecv x (buildAuthMsg x AllocateRequest [requested_transport] c) c of
        (Inl e, c) \<Rightarrow> (Inl e, c)
      | (Inr resp, c) \<Rightarrow>
          (case MsgType resp of
             None \<Rightarrow> (Inl ResponseTooShort, c)
           | Some msgType \<Rightarrow>
               if msgType = AllocateError then
                 (case ParseErrorCode (ParseAttrs (drop HeaderSize resp)) of (code, reason) \<Rightarrow> (Inl (AllocateRejected code reason), c))
               else if msgType = AllocateResponse then allocated resp c
               else (Inl (UnexpectedResponse msgType), c)))"

definition Allocate :: "exchange \<Rightarrow> exchange \<Rightarrow> turn_client \<Rightarrow> (turn_error + UDPAddr) \<times> turn_client" where
  "Allocate x x' c =
     (case sendRecv x (BuildMessage AllocateRequest (x_txnID x) [requested_transport]) c of
        (Inl e, c) \<Rightarrow> (Inl e, c)
      | (Inr resp, c) \<Rightarrow>
          (case MsgType resp of
             None \<Rightarrow> (Inl ResponseTooShort, c)
           | Some msgType \<Rightarrow>
               if msgType = AllocateError then
                 (case extractRealmNonce resp c of
                    (Some e, c) \<Rightarrow> (Inl e, c)
                  | (None, c) \<Rightarrow> allocateAuthenticated x' c)
               else if msgType = AllocateResponse then allocated resp c
               else (Inl (UnexpectedResponse msgType), c)))"

section \<open>Permissions and channels\<close>

text \<open>\<open>msgType, _ := stun.MsgType(resp)\<close>: zero when the response is too short.\<close>

definition msg_type :: "bytes \<Rightarrow> u16" where
  "msg_type resp = (case MsgType resp of None \<Rightarrow> 0 | Some t \<Rightarrow> t)"

definition hasPermission :: "UDPAddr \<Rightarrow> turn_client \<Rightarrow> bool" where
  "hasPermission peer c = list_ex (\<lambda>p. udp_IP p = udp_IP peer \<and> udp_Port p = udp_Port peer) (tc_permissions c)"

definition permission_msg :: "exchange \<Rightarrow> UDPAddr \<Rightarrow> turn_client \<Rightarrow> bytes option" where
  "permission_msg x peer c =
     map_option (\<lambda>v. buildAuthMsg x CreatePermissionRequest [attr AttrXORPeerAddress v] c) (EncodeXORAddr peer)"

definition CreatePermission :: "exchange \<Rightarrow> UDPAddr \<Rightarrow> turn_client \<Rightarrow> ((turn_error + unit) \<times> turn_client) option" where
  "CreatePermission x peer c =
     (case permission_msg x peer c of
        None \<Rightarrow> None
      | Some msg \<Rightarrow>
          Some (case sendRecv x msg c of
                  (Inl e, c) \<Rightarrow> (Inl e, c)
                | (Inr resp, c) \<Rightarrow>
                    if msg_type resp = CreatePermissionResponse then
                      (Inr (), if hasPermission peer c then c else c\<lparr>tc_permissions := tc_permissions c @ [peer]\<rparr>)
                    else (Inl (PermissionFailed (msg_type resp)), c)))"

definition bind_msg :: "exchange \<Rightarrow> u16 \<Rightarrow> UDPAddr \<Rightarrow> turn_client \<Rightarrow> bytes option" where
  "bind_msg x channel peer c =
     map_option (\<lambda>v. buildAuthMsg x ChannelBindRequest [attr AttrChannelNumber (put_u16 channel @ [0, 0]), attr AttrXORPeerAddress v] c)
       (EncodeXORAddr peer)"

definition ChannelBind :: "exchange \<Rightarrow> UDPAddr \<Rightarrow> turn_client \<Rightarrow> ((turn_error + u16) \<times> turn_client) option" where
  "ChannelBind x peer c =
     (let channel = tc_nextChannel c
      in if channel > 0x7FFE then Some (Inl ChannelsExhausted, c)
         else
           let c = c\<lparr>tc_nextChannel := channel + 1\<rparr>
           in case bind_msg x channel peer c of
                None \<Rightarrow> None
              | Some msg \<Rightarrow>
                  Some (case sendRecv x msg c of
                          (Inl e, c) \<Rightarrow> (Inl e, c)
                        | (Inr resp, c) \<Rightarrow>
                            if msg_type resp = ChannelBindResponse then
                              (Inr channel, c\<lparr>tc_channelBindings := tc_channelBindings c @ [(peer, channel)]\<rparr>)
                            else (Inl (BindFailed (msg_type resp)), c)))"

definition ChannelForPeer :: "UDPAddr \<Rightarrow> turn_client \<Rightarrow> u16 option" where
  "ChannelForPeer peer c =
     map_option snd (find (\<lambda>(p, channel). udp_IP p = udp_IP peer \<and> udp_Port p = udp_Port peer) (tc_channelBindings c))"

section \<open>Refreshing and stopping\<close>

definition refresh_msg :: "exchange \<Rightarrow> u32 \<Rightarrow> turn_client \<Rightarrow> bytes" where
  "refresh_msg x lifetime c = buildAuthMsg x RefreshRequest [attr AttrLifetime (put_u32 lifetime)] c"

definition sendRefresh :: "exchange \<Rightarrow> turn_client \<Rightarrow> turn_client" where
  "sendRefresh x c = write_to x (refresh_msg x (tc_lifetime c) c) c"

text \<open>The loops of \<open>refreshPermissions\<close> and \<open>refreshChannels\<close> over the copied lists, with one use of the network
  for each request.\<close>

fun refreshPermissions :: "(nat \<Rightarrow> exchange) \<Rightarrow> UDPAddr list \<Rightarrow> turn_client \<Rightarrow> turn_client option" where
  "refreshPermissions x [] c = Some c"
| "refreshPermissions x (peer # peers) c =
     (case permission_msg (x (length peers)) peer c of
        None \<Rightarrow> None
      | Some msg \<Rightarrow> refreshPermissions x peers (write_to (x (length peers)) msg c))"

fun refreshChannels :: "(nat \<Rightarrow> exchange) \<Rightarrow> (UDPAddr \<times> u16) list \<Rightarrow> turn_client \<Rightarrow> turn_client option" where
  "refreshChannels x [] c = Some c"
| "refreshChannels x ((peer, channel) # bs) c =
     (case bind_msg (x (length bs)) channel peer c of
        None \<Rightarrow> None
      | Some msg \<Rightarrow> refreshChannels x bs (write_to (x (length bs)) msg c))"

definition deallocate :: "exchange \<Rightarrow> turn_client \<Rightarrow> turn_client" where
  "deallocate x c =
     (write_to x (refresh_msg x 0 c) c)\<lparr>tc_relayAddr := None, tc_permissions := [], tc_channelBindings := []\<rparr>"

definition Stop :: "exchange \<Rightarrow> turn_client \<Rightarrow> turn_client" where
  "Stop x c = deallocate x (c\<lparr>tc_loop := None\<rparr>)"

section \<open>Channel data\<close>

definition WrapChannelData :: "u16 \<Rightarrow> bytes \<Rightarrow> bytes" where
  "WrapChannelData channel data = put_u16 channel @ put_u16 (word_of_nat (length data)) @ data"

definition ParseChannelData :: "bytes \<Rightarrow> (u16 \<times> bytes) option" where
  "ParseChannelData data =
     (if length data < 4 then None
      else let channel = get_u16 (subslice 0 2 data); n = unat (get_u16 (subslice 2 4 data))
           in if length data < 4 + n then None else Some (channel, subslice 4 (4 + n) data))"

definition IsChannelData :: "bytes \<Rightarrow> bool" where
  "IsChannelData data \<longleftrightarrow> length data > 0 \<and> data ! 0 \<ge> 0x40 \<and> data ! 0 \<le> 0x7F"

section \<open>Steps\<close>

datatype turn_event =
    TAllocate exchange exchange
  | TPermission exchange UDPAddr
  | TBind exchange UDPAddr
  | TStop exchange
  | TRefreshTick exchange
  | TPermTick "nat \<Rightarrow> exchange" "nat \<Rightarrow> exchange"
  | TArrive UDPAddr bytes

fun turn_step :: "turn_event \<Rightarrow> turn_client \<Rightarrow> turn_client option" where
  "turn_step (TAllocate x x') c = Some (snd (Allocate x x' c))"
| "turn_step (TPermission x peer) c = map_option snd (CreatePermission x peer c)"
| "turn_step (TBind x peer) c = map_option snd (ChannelBind x peer c)"
| "turn_step (TStop x) c = Some (Stop x c)"
| "turn_step (TRefreshTick x) c = Some (if tc_loop c = None then c else sendRefresh x c)"
| "turn_step (TPermTick x y) c =
     (if tc_loop c = None then Some c
      else case refreshPermissions x (tc_permissions c) c of
             None \<Rightarrow> None
           | Some c' \<Rightarrow> refreshChannels y (tc_channelBindings c') c')"
| "turn_step (TArrive src data) c = Some (c\<lparr>tc_rx := tc_rx c @ [(src, data)]\<rparr>)"

fun turn_run :: "turn_event list \<Rightarrow> turn_client \<Rightarrow> turn_client option" where
  "turn_run [] c = Some c"
| "turn_run (ev # evs) c = (case turn_step ev c of None \<Rightarrow> None | Some c' \<Rightarrow> turn_run evs c')"

end
