(* ===== verification/TurnProps.thy ===== *)
theory TurnProps
  imports Turn
begin

text \<open>
  Properties of the TURN client: the channel numbers it hands out, the frames that use them, the login at
  the server and the authentication of every later request, the end of an allocation, and what a response
  nobody reads does to the next request.
\<close>

section \<open>What the network leaves alone\<close>

lemma write_to_frame [simp]:
  "tc_channelBindings (write_to x msg c) = tc_channelBindings c" "tc_nextChannel (write_to x msg c) = tc_nextChannel c"
  "tc_permissions (write_to x msg c) = tc_permissions c" "tc_key (write_to x msg c) = tc_key c"
  "tc_username (write_to x msg c) = tc_username c" "tc_realm (write_to x msg c) = tc_realm c"
  "tc_nonce (write_to x msg c) = tc_nonce c" "tc_password (write_to x msg c) = tc_password c"
  "tc_relayAddr (write_to x msg c) = tc_relayAddr c" "tc_loop (write_to x msg c) = tc_loop c"
  "tc_serverAddr (write_to x msg c) = tc_serverAddr c" "tc_lifetime (write_to x msg c) = tc_lifetime c"
  "tc_rx (write_to x msg c) = tc_rx c" "tc_tx (write_to x msg c) = tc_tx c @ (if x_writeOk x then [msg] else [])"
  by (simp_all add: write_to_def)

lemma sendRecv_frame [simp]:
  "tc_channelBindings (snd (sendRecv x msg c)) = tc_channelBindings c" "tc_nextChannel (snd (sendRecv x msg c)) = tc_nextChannel c"
  "tc_permissions (snd (sendRecv x msg c)) = tc_permissions c" "tc_key (snd (sendRecv x msg c)) = tc_key c"
  "tc_username (snd (sendRecv x msg c)) = tc_username c" "tc_realm (snd (sendRecv x msg c)) = tc_realm c"
  "tc_nonce (snd (sendRecv x msg c)) = tc_nonce c" "tc_password (snd (sendRecv x msg c)) = tc_password c"
  "tc_serverAddr (snd (sendRecv x msg c)) = tc_serverAddr c"
  "tc_tx (snd (sendRecv x msg c)) = tc_tx c @ (if x_writeOk x then [msg] else [])"
  by (simp_all add: sendRecv_def Let_def split: list.split)

section \<open>Channel numbers\<close>

definition channels_ok :: "turn_client \<Rightarrow> bool" where
  "channels_ok c \<longleftrightarrow>
     distinct (map snd (tc_channelBindings c)) \<and>
     (\<forall>ch \<in> snd ` set (tc_channelBindings c). 0x4000 \<le> ch \<and> ch \<le> 0x7FFE \<and> ch < tc_nextChannel c) \<and>
     0x4000 \<le> tc_nextChannel c \<and> tc_nextChannel c \<le> 0x7FFF"

definition same_channels :: "turn_client \<Rightarrow> turn_client \<Rightarrow> bool" where
  "same_channels c c' \<longleftrightarrow> tc_channelBindings c' = tc_channelBindings c \<and> tc_nextChannel c' = tc_nextChannel c"

lemma channels_same: "channels_ok c \<Longrightarrow> same_channels c c' \<Longrightarrow> channels_ok c'"
  by (simp add: channels_ok_def same_channels_def)

lemma same_realm_nonce: "same_channels c (realm_nonce as c)"
  by (induction as c rule: realm_nonce.induct) (simp_all add: same_channels_def split: if_splits)

lemma same_allocate_attrs: "same_channels c (snd (allocate_attrs as relay c))"
  by (induction as relay c rule: allocate_attrs.induct) (auto simp: same_channels_def split: sum.split)

lemma same_allocated: "same_channels c (snd (allocated resp c))"
  using same_allocate_attrs [of c "ParseAttrs (drop HeaderSize resp)" None]
  by (auto simp: allocated_def parseAllocateSuccess_def startRefreshLoop_def same_channels_def Let_def
      split: prod.splits sum.splits option.splits)

lemma same_authenticated: "same_channels c (snd (allocateAuthenticated x c))"
proof -
  obtain r d where s: "sendRecv x (buildAuthMsg x AllocateRequest [requested_transport] c) c = (r, d)" by fastforce
  have "same_channels c d" using sendRecv_frame(1,2) [of x "buildAuthMsg x AllocateRequest [requested_transport] c" c] s
    by (simp add: same_channels_def)
  then show ?thesis using same_allocated [of d]
    by (auto simp: allocateAuthenticated_def s same_channels_def split: sum.split option.split prod.split)
qed

lemma same_Allocate: "same_channels c (snd (Allocate x x' c))"
proof -
  obtain r d where s: "sendRecv x (BuildMessage AllocateRequest (x_txnID x) [requested_transport]) c = (r, d)" by fastforce
  have d: "same_channels c d" using sendRecv_frame(1,2) [of x "BuildMessage AllocateRequest (x_txnID x) [requested_transport]" c] s
    by (simp add: same_channels_def)
  have "same_channels d (snd (extractRealmNonce resp d))" for resp
    using same_realm_nonce [of d "ParseAttrs (drop HeaderSize resp)"] by (simp add: extractRealmNonce_def Let_def same_channels_def)
  then show ?thesis using d same_allocated [of d] same_authenticated
    by (auto simp: Allocate_def s same_channels_def split: sum.split option.split prod.split) (metis snd_conv)+
qed

lemma same_refresh_permissions: "refreshPermissions x peers c = Some c' \<Longrightarrow> same_channels c c'"
  by (induction peers arbitrary: c) (auto simp: same_channels_def split: option.splits)

lemma same_refresh_channels: "refreshChannels x bs c = Some c' \<Longrightarrow> same_channels c c'"
  by (induction bs arbitrary: c) (auto simp: same_channels_def split: option.splits)

lemma next_channel: "\<not> 0x7FFE < (n :: u16) \<Longrightarrow> n < n + 1 \<and> n + 1 \<le> 0x7FFF"
  by (unat_arith, auto)

lemma channels_bind:
  assumes "channels_ok c" "ChannelBind x peer c = Some (r, c')" shows "channels_ok c'"
proof (cases "0x7FFE < tc_nextChannel c")
  case False
  let ?n = "tc_nextChannel c" and ?c = "c\<lparr>tc_nextChannel := tc_nextChannel c + 1\<rparr>"
  obtain msg where msg: "bind_msg x ?n peer ?c = Some msg"
    using assms(2) False by (auto simp: ChannelBind_def Let_def split: option.splits)
  obtain res d where s: "sendRecv x msg ?c = (res, d)" by fastforce
  have d: "tc_channelBindings d = tc_channelBindings c" "tc_nextChannel d = ?n + 1"
    using sendRecv_frame(1,2) [of x msg ?c] s by simp_all
  have n: "?n < ?n + 1" "?n + 1 \<le> 0x7FFF" using next_channel False by auto
  have ok: "channels_ok d" using assms(1) n by (auto simp: channels_ok_def d intro: less_trans)
  have "?n \<notin> snd ` set (tc_channelBindings c)" using assms(1) by (auto simp: channels_ok_def)
  then have "channels_ok (d\<lparr>tc_channelBindings := tc_channelBindings d @ [(peer, ?n)]\<rparr>)"
    using ok n False assms(1) by (auto simp: channels_ok_def d)
  then show ?thesis using assms(2) False ok
    by (auto simp: ChannelBind_def Let_def msg s split: sum.splits if_splits)
qed (use assms in \<open>simp add: ChannelBind_def Let_def\<close>)

lemma channels_step: "channels_ok c \<Longrightarrow> turn_step ev c = Some c' \<Longrightarrow> channels_ok c'"
proof (cases ev)
  case (TPermission x peer)
  assume c: "channels_ok c" "turn_step ev c = Some c'"
  then obtain msg where "permission_msg x peer c = Some msg" using TPermission
    by (auto simp: CreatePermission_def split: option.splits)
  moreover obtain res d where s: "sendRecv x msg c = (res, d)" by fastforce
  moreover have "same_channels c d" using sendRecv_frame(1,2) [of x msg c] s by (simp add: same_channels_def)
  ultimately have "same_channels c c'" using c(2) TPermission
    by (auto simp: CreatePermission_def same_channels_def split: sum.splits if_splits)
  then show ?thesis using channels_same c(1) by blast
next
  case (TBind x peer)
  assume "channels_ok c" "turn_step ev c = Some c'"
  then show ?thesis using TBind channels_bind by (auto split: option.splits)
next
  case (TPermTick x y)
  assume c: "channels_ok c" "turn_step ev c = Some c'"
  show ?thesis
  proof (cases "tc_loop c")
    case (Some n)
    then obtain d where d: "refreshPermissions x (tc_permissions c) c = Some d" "refreshChannels y (tc_channelBindings d) d = Some c'"
      using c(2) TPermTick by (auto split: option.splits)
    then show ?thesis using same_refresh_permissions [OF d(1)] same_refresh_channels [OF d(2)] channels_same c(1) by blast
  qed (use c TPermTick in simp)
next
  case (TAllocate x x')
  assume "channels_ok c" "turn_step ev c = Some c'"
  then show ?thesis using TAllocate same_Allocate channels_same by auto
next
  case (TStop x)
  assume "channels_ok c" "turn_step ev c = Some c'"
  then show ?thesis using TStop by (auto simp: channels_ok_def Stop_def deallocate_def)
next
  case (TRefreshTick x)
  assume c: "channels_ok c" "turn_step ev c = Some c'"
  have "same_channels c c'" using TRefreshTick c(2) by (auto simp: same_channels_def sendRefresh_def)
  then show ?thesis using channels_same c(1) by blast
next
  case (TArrive src data)
  assume c: "channels_ok c" "turn_step ev c = Some c'"
  have "same_channels c c'" using TArrive c(2) by (auto simp: same_channels_def)
  then show ?thesis using channels_same c(1) by blast
qed

lemma channels_run: "turn_run evs c = Some c' \<Longrightarrow> channels_ok c \<Longrightarrow> channels_ok c'"
proof (induction evs arbitrary: c)
  case (Cons ev evs)
  then obtain d where "turn_step ev c = Some d" "turn_run evs d = Some c'" by (auto split: option.splits)
  then show ?case using Cons.IH [of d] channels_step [OF Cons.prems(2)] by blast
qed simp

text \<open>C40: Channels are distinct and in range.  Whatever allocations, bindings, failures and stops came before, the
  channels bound to peers are pairwise distinct and lie between 0x4000 and 0x7FFE; the counter never wraps,
  and a further binding that succeeds gets a number no peer has.\<close>

theorem channels_distinct_in_range:
  assumes "turn_run evs (NewClient serverAddr username password) = Some c"
  shows "distinct (map snd (tc_channelBindings c)) \<and>
    (\<forall>(peer, ch) \<in> set (tc_channelBindings c). 0x4000 \<le> ch \<and> ch \<le> 0x7FFE \<and> ch < tc_nextChannel c) \<and>
    tc_nextChannel c \<le> 0x7FFF"
  using channels_run [OF assms] by (fastforce simp: channels_ok_def NewClient_def)

section \<open>Frames\<close>

lemma top_bits: "0x4000 \<le> (ch :: u16) \<Longrightarrow> ch \<le> 0x7FFE \<Longrightarrow> (0x40 :: byte) \<le> ucast (drop_bit 8 ch) \<and> ucast (drop_bit 8 ch) \<le> (0x7F :: byte)"
proof -
  assume ch: "0x4000 \<le> ch" "ch \<le> 0x7FFE"
  have u: "uint (ucast (drop_bit 8 ch) :: byte) = uint ch div 256"
  proof -
    have "uint ch div 256 < 256" "0 \<le> uint ch div 256" using uint_lt2p [of ch] by (simp_all add: pos_imp_zdiv_nonneg_iff)
    then show ?thesis by (simp add: unsigned_ucast_eq drop_bit_eq_div take_bit_eq_mod uint_div_distrib mod_pos_pos_trivial)
  qed
  have "0x4000 \<le> uint ch" "uint ch \<le> 0x7FFE" using ch by (simp_all add: word_le_def)
  then show ?thesis by (simp add: word_le_def u) presburger
qed

text \<open>Relay frames are unambiguous.  Data framed for a channel in the client's range is recognised as channel
  data and gives back channel and data, with whatever padding the transport adds; it can be taken neither
  for a STUN message nor, by its version bits, for RTP.\<close>

theorem channel_data_roundtrip:
  assumes "0x4000 \<le> channel" "channel \<le> 0x7FFE" "length data < 2 ^ 16"
  shows "IsChannelData (WrapChannelData channel data @ padding) \<and>
    ParseChannelData (WrapChannelData channel data @ padding) = Some (channel, data) \<and>
    \<not> IsMessage (WrapChannelData channel data @ padding) \<and>
    drop_bit 6 (WrapChannelData channel data ! 0) = 1"
proof -
  let ?f = "WrapChannelData channel data @ padding"
  have first: "?f ! 0 = ucast (drop_bit 8 channel)" "WrapChannelData channel data ! 0 = ucast (drop_bit 8 channel)"
    by (simp_all add: WrapChannelData_def put_u16_def)
  have top: "(0x40 :: byte) \<le> ucast (drop_bit 8 channel)" "ucast (drop_bit 8 channel) \<le> (0x7F :: byte)"
    using top_bits assms by auto
  have bits: "drop_bit 6 b = 1 \<and> b AND 0xC0 \<noteq> 0" if b: "0x40 \<le> b" "b \<le> 0x7F" for b :: byte
  proof -
    have u: "0x40 \<le> uint b" "uint b \<le> 0x7F" using b by (simp_all add: word_le_def)
    then have "uint (drop_bit 6 b) = 1" by (simp add: drop_bit_eq_div uint_div_distrib)
    then have d: "drop_bit 6 b = 1" by (metis unsigned_1 word_uint_eqI)
    then have "bit (drop_bit 6 b) 0" by simp
    then have "bit b 6" by (simp add: bit_drop_bit_eq)
    then have "bit (b AND 0xC0) 6" by (simp add: bit_simps)
    then show ?thesis using d by auto
  qed
  have len: "unat (get_u16 (subslice 2 4 ?f)) = length data" using assms(3)
    by (simp add: WrapChannelData_def wire_simps unat_of_nat)
  have "get_u16 (subslice 0 2 ?f) = channel" "subslice 4 (4 + length data) ?f = data"
    by (simp_all add: WrapChannelData_def wire_simps subslice_append_right) (simp add: subslice_def)
  then have "ParseChannelData ?f = Some (channel, data)"
    using len by (simp add: ParseChannelData_def) (simp add: WrapChannelData_def)
  moreover have "IsChannelData ?f" using first top by (simp add: IsChannelData_def) (simp add: WrapChannelData_def put_u16_def)
  moreover have "\<not> IsMessage ?f" using first(1) bits [OF top] by (simp add: IsMessage_def)
  ultimately show ?thesis using bits [OF top] first(2) by simp
qed

section \<open>Authentication\<close>

text \<open>What a server with long-term credentials checks of a request.\<close>

definition request_ok :: "string \<Rightarrow> string \<Rightarrow> string \<Rightarrow> string \<Rightarrow> bytes \<Rightarrow> bool" where
  "request_ok username password realm nonce msg \<longleftrightarrow>
     (let attrs = ParseAttrs (drop HeaderSize msg)
      in FindAttr attrs AttrUsername = Some (bytes_of username) \<and> FindAttr attrs AttrRealm = Some (bytes_of realm) \<and>
         FindAttr attrs AttrNonce = Some (bytes_of nonce) \<and>
         VerifyIntegrity msg (FindAttrOffset msg AttrMessageIntegrity) (LongTermKey username realm password))"

definition has_key :: "turn_client \<Rightarrow> bool" where
  "has_key c \<longleftrightarrow>
     tc_key c = LongTermKey (tc_username c) (tc_realm c) (tc_password c) \<and>
     length (tc_username c) < 2 ^ 16 \<and> length (tc_realm c) < 2 ^ 16 \<and> length (tc_nonce c) < 2 ^ 16"

definition accepted :: "turn_client \<Rightarrow> bytes \<Rightarrow> bool" where
  "accepted c = request_ok (tc_username c) (tc_password c) (tc_realm c) (tc_nonce c)"

text \<open>The attributes the client puts before its credentials.\<close>

definition plain_attrs :: "Attr list \<Rightarrow> bool" where
  "plain_attrs attrs \<longleftrightarrow>
     list_all (\<lambda>a. length (attr_Value a) < 2 ^ 16 \<and> attr_Type a \<notin> {AttrUsername, AttrRealm, AttrNonce, AttrMessageIntegrity}) attrs"

lemma find_skip: "\<forall>a \<in> set as. attr_Type a \<noteq> t \<Longrightarrow> FindAttr (as @ bs) t = FindAttr bs t"
  by (induction as) auto

lemma auth_msg_ok:
  assumes "length (x_txnID x) = 12" "has_key c" "plain_attrs attrs"
  shows "accepted c (buildAuthMsg x t attrs c)"
proof -
  let ?as = "attrs @ credentialAttrs c"
  define h where "h = secured_hash t (x_txnID x) ?as (tc_key c)"
  have h: "length h = 20" by (simp add: h_def secured_hash_def)
  let ?body = "concat (map attr_bytes ?as) @ attr_bytes (mi_attr h) @ []"
  let ?msg = "with_header t (word_of_nat (length (concat (map attr_bytes ?as)) + 24)) (x_txnID x) ?body"
  have msg: "buildAuthMsg x t attrs c = ?msg"
    using AppendIntegrity_secured [OF assms(1), of t ?as "tc_key c"] by (simp add: buildAuthMsg_def h_def)
  have small: "\<forall>a \<in> set ?as. length (attr_Value a) < 2 ^ 16 \<and> attr_Type a \<noteq> AttrMessageIntegrity"
    using assms(2,3) by (auto simp: plain_attrs_def list_all_iff credentialAttrs_def has_key_def)
  have mi: "length (attr_Value (mi_attr h)) < 2 ^ 16" using h by (simp add: mi_attr_def)
  have "\<forall>a \<in> set (?as @ [mi_attr h]). length (attr_Value a) < 2 ^ 16" using small mi by auto
  then have "ParseAttrs (drop HeaderSize ?msg) = ?as @ [mi_attr h]"
    using ParseAttrs_concat [of "?as @ [mi_attr h]" "[]"] assms(1) by (simp add: with_header_reads(5))
  moreover have "\<forall>a \<in> set attrs. attr_Type a \<noteq> AttrUsername" "\<forall>a \<in> set attrs. attr_Type a \<noteq> AttrRealm"
      "\<forall>a \<in> set attrs. attr_Type a \<noteq> AttrNonce"
    using assms(3) by (auto simp: plain_attrs_def list_all_iff)
  ultimately have creds: "FindAttr (ParseAttrs (drop HeaderSize ?msg)) AttrUsername = Some (bytes_of (tc_username c))"
      "FindAttr (ParseAttrs (drop HeaderSize ?msg)) AttrRealm = Some (bytes_of (tc_realm c))"
      "FindAttr (ParseAttrs (drop HeaderSize ?msg)) AttrNonce = Some (bytes_of (tc_nonce c))"
    by (simp_all add: find_skip credentialAttrs_def)
  have off: "FindAttrOffset ?msg AttrMessageIntegrity = int (20 + length (concat (map attr_bytes ?as)))"
    by (rule FindAttrOffset_secured [OF assms(1) small h])
  have "VerifyIntegrity ?msg (FindAttrOffset ?msg AttrMessageIntegrity) (tc_key c)"
    unfolding off VerifyIntegrity_secured [OF assms(1) refl h] by (simp add: h_def)
  then show ?thesis unfolding accepted_def request_ok_def msg using creds assms(2) by (simp add: has_key_def)
qed

text \<open>The client's steps other than a new allocation, on transaction ids of the right length.\<close>

fun relays :: "turn_event \<Rightarrow> bool" where
  "relays (TAllocate x x') = False"
| "relays (TPermission x peer) = (length (x_txnID x) = 12)"
| "relays (TBind x peer) = (length (x_txnID x) = 12)"
| "relays (TStop x) = (length (x_txnID x) = 12)"
| "relays (TRefreshTick x) = (length (x_txnID x) = 12)"
| "relays (TPermTick x y) = (\<forall>n. length (x_txnID (x n)) = 12 \<and> length (x_txnID (y n)) = 12)"
| "relays (TArrive src data) = True"

definition says :: "turn_client \<Rightarrow> turn_client \<Rightarrow> bool" where
  "says c c' \<longleftrightarrow>
     tc_username c' = tc_username c \<and> tc_password c' = tc_password c \<and> tc_realm c' = tc_realm c \<and>
     tc_nonce c' = tc_nonce c \<and> tc_key c' = tc_key c \<and>
     (\<exists>new. tc_tx c' = tc_tx c @ new \<and> list_all (accepted c) new)"

lemma says_refl: "says c c"
  by (simp add: says_def)

lemma says_trans: "says c d \<Longrightarrow> says d e \<Longrightarrow> says c e"
  by (auto simp: says_def accepted_def)

lemma says_key: "says c d \<Longrightarrow> has_key c \<Longrightarrow> has_key d"
  by (simp add: says_def has_key_def)

lemma says_write: "accepted c msg \<Longrightarrow> says c (write_to x msg c)"
  by (auto simp: says_def)

lemma says_sendRecv: "accepted c msg \<Longrightarrow> says c (snd (sendRecv x msg c))"
  by (auto simp: says_def)

lemma encoded_length: "EncodeXORAddr peer = Some v \<Longrightarrow> length v = 8"
  by (auto simp: EncodeXORAddr_def split: IP.splits)

lemma permission_msg_ok:
  "permission_msg x peer c = Some msg \<Longrightarrow> length (x_txnID x) = 12 \<Longrightarrow> has_key c \<Longrightarrow> accepted c msg"
  by (auto simp: permission_msg_def plain_attrs_def dest!: encoded_length intro!: auth_msg_ok)

lemma bind_msg_ok:
  "bind_msg x channel peer c = Some msg \<Longrightarrow> length (x_txnID x) = 12 \<Longrightarrow> has_key c \<Longrightarrow> accepted c msg"
  by (auto simp: bind_msg_def plain_attrs_def dest!: encoded_length intro!: auth_msg_ok)

lemma refresh_msg_ok: "length (x_txnID x) = 12 \<Longrightarrow> has_key c \<Longrightarrow> accepted c (refresh_msg x lt c)"
  by (auto simp: refresh_msg_def plain_attrs_def intro!: auth_msg_ok)

lemma says_permissions:
  "refreshPermissions x peers c = Some c' \<Longrightarrow> \<forall>n. length (x_txnID (x n)) = 12 \<Longrightarrow> has_key c \<Longrightarrow> says c c'"
proof (induction peers arbitrary: c)
  case (Cons peer peers)
  then obtain msg where msg: "permission_msg (x (length peers)) peer c = Some msg"
    and rest: "refreshPermissions x peers (write_to (x (length peers)) msg c) = Some c'"
    by (auto split: option.splits)
  have "says c (write_to (x (length peers)) msg c)" using msg Cons.prems permission_msg_ok says_write by blast
  then show ?case using Cons.IH [OF rest Cons.prems(2)] says_key Cons.prems(3) says_trans by blast
qed (simp add: says_refl)

lemma says_channels:
  "refreshChannels x bs c = Some c' \<Longrightarrow> \<forall>n. length (x_txnID (x n)) = 12 \<Longrightarrow> has_key c \<Longrightarrow> says c c'"
proof (induction bs arbitrary: c)
  case (Cons b bs)
  obtain peer channel where b: "b = (peer, channel)" by fastforce
  obtain msg where msg: "bind_msg (x (length bs)) channel peer c = Some msg"
    and rest: "refreshChannels x bs (write_to (x (length bs)) msg c) = Some c'"
    using Cons.prems(1) by (auto simp: b split: option.splits)
  have "says c (write_to (x (length bs)) msg c)" using msg Cons.prems bind_msg_ok says_write by blast
  then show ?case using Cons.IH [OF rest Cons.prems(2)] says_key Cons.prems(3) says_trans by blast
qed (simp add: says_refl)

lemma says_step: "has_key c \<Longrightarrow> relays ev \<Longrightarrow> turn_step ev c = Some c' \<Longrightarrow> says c c'"
proof (cases ev)
  case (TPermission x peer)
  assume c: "has_key c" "relays ev" "turn_step ev c = Some c'"
  then obtain msg where msg: "permission_msg x peer c = Some msg" using TPermission
    by (auto simp: CreatePermission_def split: option.splits)
  obtain res d where s: "sendRecv x msg c = (res, d)" by fastforce
  have "says c d" using says_sendRecv [of c msg x] permission_msg_ok [OF msg] c TPermission s by simp
  then show ?thesis using c(3) TPermission msg s
    by (auto simp: CreatePermission_def says_def split: sum.splits if_splits)
next
  case (TBind x peer)
  assume c: "has_key c" "relays ev" "turn_step ev c = Some c'"
  let ?c = "c\<lparr>tc_nextChannel := tc_nextChannel c + 1\<rparr>"
  show ?thesis
  proof (cases "0x7FFE < tc_nextChannel c")
    case False
    then obtain msg where msg: "bind_msg x (tc_nextChannel c) peer ?c = Some msg" using c(3) TBind
      by (auto simp: ChannelBind_def Let_def split: option.splits)
    obtain res d where s: "sendRecv x msg ?c = (res, d)" by fastforce
    have "has_key ?c" using c(1) by (simp add: has_key_def)
    then have "says ?c d" using says_sendRecv [of ?c msg x] bind_msg_ok [OF msg] c TBind s by simp
    then have "says c d" by (simp add: says_def accepted_def)
    then show ?thesis using c(3) TBind False msg s
      by (auto simp: ChannelBind_def Let_def says_def split: sum.splits if_splits)
  qed (use c TBind in \<open>auto simp: ChannelBind_def Let_def says_refl\<close>)
next
  case (TStop x)
  assume c: "has_key c" "relays ev" "turn_step ev c = Some c'"
  have "has_key (c\<lparr>tc_loop := None\<rparr>)" using c(1) by (simp add: has_key_def)
  then have "accepted (c\<lparr>tc_loop := None\<rparr>) (refresh_msg x 0 (c\<lparr>tc_loop := None\<rparr>))"
    using refresh_msg_ok c(2) TStop by simp
  then show ?thesis using c(3) TStop by (auto simp: Stop_def deallocate_def says_def accepted_def)
next
  case (TRefreshTick x)
  assume c: "has_key c" "relays ev" "turn_step ev c = Some c'"
  then have "says c (sendRefresh x c)" unfolding sendRefresh_def using TRefreshTick by (intro says_write refresh_msg_ok) auto
  then show ?thesis using c(3) TRefreshTick says_refl by (auto split: if_splits)
next
  case (TPermTick x y)
  assume c: "has_key c" "relays ev" "turn_step ev c = Some c'"
  show ?thesis
  proof (cases "tc_loop c")
    case (Some n)
    then obtain d where d: "refreshPermissions x (tc_permissions c) c = Some d" "refreshChannels y (tc_channelBindings d) d = Some c'"
      using c(3) TPermTick by (auto split: option.splits)
    have "says c d" using says_permissions [OF d(1)] c(1,2) TPermTick by simp
    moreover have "says d c'" using says_channels [OF d(2)] c(2) TPermTick says_key [OF \<open>says c d\<close> c(1)] by simp
    ultimately show ?thesis by (rule says_trans)
  qed (use c TPermTick in \<open>simp add: says_refl\<close>)
next
  case (TArrive src data)
  assume "turn_step ev c = Some c'"
  then show ?thesis using TArrive by (auto simp: says_def)
qed simp

text \<open>C39: Every request is authenticated.  A client that holds the long-term key of its realm signs everything it
  sends, permissions, bindings, refreshes and the final release: the server finds user, realm and nonce, and
  the integrity of the message verifies.\<close>

theorem turn_requests_authenticated:
  assumes "turn_run evs c = Some c'" "has_key c" "list_all relays evs"
  shows "\<exists>new. tc_tx c' = tc_tx c @ new \<and>
    list_all (request_ok (tc_username c) (tc_password c) (tc_realm c) (tc_nonce c)) new"
proof -
  have "says c c'" using assms
  proof (induction evs arbitrary: c)
    case (Cons ev evs)
    then obtain d where d: "turn_step ev c = Some d" "turn_run evs d = Some c'" by (auto split: option.splits)
    have "says c d" using says_step [OF Cons.prems(2) _ d(1)] Cons.prems(3) by simp
    then show ?case using Cons.IH [OF d(2)] says_key Cons.prems(2,3) says_trans by auto
  qed (simp add: says_refl)
  then show ?thesis by (auto simp: says_def accepted_def)
qed

section \<open>Login\<close>

text \<open>The answers of a server: the challenge to the first request and the success of the second.\<close>

definition challenge :: "bytes \<Rightarrow> string \<Rightarrow> string \<Rightarrow> bytes" where
  "challenge txn realm nonce =
     BuildMessage AllocateError txn
       [attr AttrErrorCode ([0, 0, 4, 1] @ bytes_of ''Unauthorized''), attr AttrRealm (bytes_of realm), attr AttrNonce (bytes_of nonce)]"

definition success :: "bytes \<Rightarrow> bytes \<Rightarrow> u32 \<Rightarrow> bytes" where
  "success txn v lifetime =
     BuildMessage AllocateResponse txn [attr AttrXORRelayedAddress v, attr AttrLifetime (put_u32 lifetime)]"

definition strangers :: "UDPAddr \<Rightarrow> (UDPAddr \<times> bytes) list \<Rightarrow> bool" where
  "strangers server ds \<longleftrightarrow> list_all (\<lambda>(src, data). udp_IP src \<noteq> udp_IP server) ds"

lemma sendRecv_answer:
  assumes "x_writeOk x" "x_deadlineOk x" "tc_rx c = []" "x_arrivals x = noise @ [(src, data)]"
    "strangers (tc_serverAddr c) noise" "udp_IP src = udp_IP (tc_serverAddr c)" "length data \<le> 2048"
  shows "sendRecv x msg c = (Inr data, c\<lparr>tc_tx := tc_tx c @ [msg], tc_rx := []\<rparr>)"
proof -
  have "dropWhile (\<lambda>(src, data). udp_IP src \<noteq> udp_IP (tc_serverAddr c)) (noise @ [(src, data)]) = [(src, data)]"
    using assms(5,6) by (subst dropWhile_append2) (auto simp: strangers_def list_all_iff)
  then show ?thesis using assms by (simp add: sendRecv_def write_to_def)
qed

lemma built_attrs:
  assumes "length txn = 12" "list_all (\<lambda>a. length (attr_Value a) < 2 ^ 16) attrs"
  shows "MsgType (BuildMessage t txn attrs) = Some t" "ParseAttrs (drop HeaderSize (BuildMessage t txn attrs)) = attrs"
    "HeaderSize \<le> length (BuildMessage t txn attrs)"
  using assms ParseAttrs_concat [of attrs "[]"]
  by (simp_all add: BuildMessage_header MsgType_def with_header_reads list_all_iff)

lemma pad4_le: "pad4 n \<le> n + 3"
  by (simp add: pad4_def)

lemma challenge_facts:
  assumes "length txn = 12" "length realm + length nonce \<le> 1900" "realm \<noteq> []"
  shows "length (challenge txn realm nonce) \<le> 2048" "MsgType (challenge txn realm nonce) = Some AllocateError"
    "extractRealmNonce (challenge txn realm nonce) c =
       (None, c\<lparr>tc_realm := realm, tc_nonce := nonce, tc_key := LongTermKey (tc_username c) realm (tc_password c)\<rparr>)"
proof -
  let ?as = "[attr AttrErrorCode ([0, 0, 4, 1] @ bytes_of ''Unauthorized''), attr AttrRealm (bytes_of realm), attr AttrNonce (bytes_of nonce)]"
  have small: "list_all (\<lambda>a. length (attr_Value a) < 2 ^ 16) ?as" using assms(2) by simp
  note b = built_attrs [OF assms(1) small, where t = AllocateError, folded challenge_def]
  show "MsgType (challenge txn realm nonce) = Some AllocateError" by (rule b(1))
  have "length (challenge txn realm nonce) = 20 + 20 + (4 + pad4 (length realm)) + (4 + pad4 (length nonce))"
    using assms(1) by (simp add: challenge_def BuildMessage_header with_header_reads pad4_def)
  then show "length (challenge txn realm nonce) \<le> 2048"
    using pad4_le [of "length realm"] pad4_le [of "length nonce"] assms(2) by simp
  have "\<not> length (challenge txn realm nonce) < HeaderSize" using b(3) by simp
  then show "extractRealmNonce (challenge txn realm nonce) c =
      (None, c\<lparr>tc_realm := realm, tc_nonce := nonce, tc_key := LongTermKey (tc_username c) realm (tc_password c)\<rparr>)"
    using assms(3) by (simp add: extractRealmNonce_def b(2) Let_def)
qed

lemma success_facts:
  assumes "length txn = 12" "0 \<le> udp_Port relay" "udp_Port relay < 2 ^ 16" "EncodeXORAddr relay = Some v"
  shows "length (success txn v lt) \<le> 2048" "MsgType (success txn v lt) = Some AllocateResponse"
    "allocated (success txn v lt) c =
       (Inr relay, c\<lparr>tc_lifetime := lt, tc_relayAddr := Some relay, tc_loop := Some (if lt div 2 < 30 then 30 else unat (lt div 2))\<rparr>)"
proof -
  obtain a b d e where ip: "udp_IP relay = IPv4 a b d e" using assms(4) by (auto simp: EncodeXORAddr_def split: IP.splits)
  have relay: "relay = \<lparr>udp_IP = IPv4 a b d e, udp_Port = udp_Port relay\<rparr>" using ip by (cases relay) simp
  have p: "ParseXORAddr v = Inr relay" and v: "length v = 8"
    using ParseXORAddr_Encode [of "udp_Port relay" a b d e v] assms(2-4) relay by simp_all
  let ?as = "[attr AttrXORRelayedAddress v, attr AttrLifetime (put_u32 lt)]"
  have small: "list_all (\<lambda>a. length (attr_Value a) < 2 ^ 16) ?as" using v by simp
  note b = built_attrs [OF assms(1) small, where t = AllocateResponse, folded success_def]
  show "MsgType (success txn v lt) = Some AllocateResponse" by (rule b(1))
  show "length (success txn v lt) \<le> 2048"
    using assms(1) v by (simp add: success_def BuildMessage_header with_header_reads pad4_def)
  have "\<not> length (success txn v lt) < HeaderSize" using b(3) by simp
  then show "allocated (success txn v lt) c =
      (Inr relay, c\<lparr>tc_lifetime := lt, tc_relayAddr := Some relay, tc_loop := Some (if lt div 2 < 30 then 30 else unat (lt div 2))\<rparr>)"
    by (simp add: allocated_def parseAllocateSuccess_def b(2) p startRefreshLoop_def Let_def wire_simps)
qed

text \<open>C33: Allocation with credentials.  Against a server that challenges the first request and grants the second,
  whatever other hosts send meanwhile, \<open>Allocate\<close> returns the relay address of the answer; the second request
  carries credentials the server accepts, and the refresh loop runs at half the lifetime granted, but not
  faster than every 30 seconds.\<close>

theorem turn_allocate_login:
  assumes net: "x_writeOk x" "x_deadlineOk x" "x_writeOk x'" "x_deadlineOk x'" "tc_rx c = []"
    and ids: "length (x_txnID x') = 12" "length txn = 12" "length txn' = 12"
    and answers: "x_arrivals x = noise @ [(src, challenge txn realm nonce)]" "x_arrivals x' = noise' @ [(src, success txn' v lt)]"
    and from_server: "strangers (tc_serverAddr c) noise" "strangers (tc_serverAddr c) noise'" "udp_IP src = udp_IP (tc_serverAddr c)"
    and realm: "realm \<noteq> []" "length realm + length nonce \<le> 1900" "length (tc_username c) < 2 ^ 16"
    and relay: "0 \<le> udp_Port relay" "udp_Port relay < 2 ^ 16" "EncodeXORAddr relay = Some v"
  shows "\<exists>c' second. Allocate x x' c = (Inr relay, c') \<and> tc_relayAddr c' = Some relay \<and> tc_lifetime c' = lt \<and>
    tc_loop c' = Some (max 30 (unat lt div 2)) \<and> has_key c' \<and>
    tc_tx c' = tc_tx c @ [BuildMessage AllocateRequest (x_txnID x) [requested_transport], second] \<and>
    request_ok (tc_username c) (tc_password c) realm nonce second"
proof -
  note ch = challenge_facts [OF ids(2) realm(2,1)] and su = success_facts [OF ids(3) relay]
  define first where "first = BuildMessage AllocateRequest (x_txnID x) [requested_transport]"
  define d where "d = c\<lparr>tc_tx := tc_tx c @ [first], tc_rx := []\<rparr>"
  define k where "k = d\<lparr>tc_realm := realm, tc_nonce := nonce, tc_key := LongTermKey (tc_username d) realm (tc_password d)\<rparr>"
  define second where "second = buildAuthMsg x' AllocateRequest [requested_transport] k"
  define e where "e = k\<lparr>tc_tx := tc_tx k @ [second], tc_rx := []\<rparr>"
  have 1: "sendRecv x first c = (Inr (challenge txn realm nonce), d)"
    unfolding d_def by (rule sendRecv_answer [OF net(1,2,5) answers(1) from_server(1,3) ch(1)])
  have 2: "sendRecv x' second k = (Inr (success txn' v lt), e)"
    unfolding e_def by (rule sendRecv_answer [OF net(3,4) _ answers(2) _ _ su(1)]) (simp_all add: k_def d_def from_server)
  have key: "has_key k" using realm by (simp add: has_key_def k_def d_def)
  have ok: "accepted k second" unfolding second_def
    by (rule auth_msg_ok [OF ids(1) key]) (simp add: plain_attrs_def requested_transport_def)
  have all: "Allocate x x' c = allocated (success txn' v lt) e"
    using 2 ch(2) su(2) by (simp add: Allocate_def 1 [unfolded first_def] ch(3) k_def [symmetric] allocateAuthenticated_def second_def)
  have half: "(if lt div 2 < 30 then 30 else unat (lt div 2)) = max 30 (unat lt div 2)"
    by (simp add: word_less_nat_alt unat_div max_def)
  define c' where "c' = e\<lparr>tc_lifetime := lt, tc_relayAddr := Some relay, tc_loop := Some (max 30 (unat lt div 2))\<rparr>"
  have "has_key c'" "tc_tx c' = tc_tx c @ [first, second]" "request_ok (tc_username c) (tc_password c) realm nonce second"
    using key ok by (simp_all add: c'_def e_def k_def d_def has_key_def accepted_def)
  moreover have "Allocate x x' c = (Inr relay, c')" unfolding all su(3) half c'_def ..
  ultimately show ?thesis unfolding first_def by (intro exI [of _ c'] exI [of _ second]) (simp add: c'_def)
qed

section \<open>The end, and a response nobody reads\<close>

text \<open>\<open>Stop\<close> releases the allocation: the loop has ended, relay address, permissions and channels are gone, the
  last message asks for lifetime zero, and no tick sends anything any more.\<close>

theorem turn_stop_releases:
  assumes "x_writeOk x"
  shows "tc_loop (Stop x c) = None \<and> tc_relayAddr (Stop x c) = None \<and> tc_permissions (Stop x c) = [] \<and>
    (\<forall>peer. ChannelForPeer peer (Stop x c) = None) \<and>
    tc_tx (Stop x c) = tc_tx c @ [buildAuthMsg x RefreshRequest [attr AttrLifetime [0, 0, 0, 0]] c] \<and>
    turn_step (TRefreshTick y) (Stop x c) = Some (Stop x c) \<and> turn_step (TPermTick z z') (Stop x c) = Some (Stop x c)"
  using assms
  by (simp add: Stop_def deallocate_def ChannelForPeer_def refresh_msg_def buildAuthMsg_def credentialAttrs_def put_u32_def)

text \<open>An answer nobody reads spoils the next request.  The refresh loop sends its requests without reading the
  answers; the next \<open>CreatePermission\<close> takes the answer to the refresh for its own, and reports a failure
  although the server has granted the permission, which is then not recorded and not refreshed.\<close>

theorem refresh_answer_misread:
  assumes "tc_loop c \<noteq> None" "tc_rx c = []" "x_writeOk y" "x_deadlineOk y" "udp_IP src = udp_IP (tc_serverAddr c)"
    and "MsgType answer = Some RefreshResponse" "length answer \<le> 2048" "EncodeXORAddr peer = Some v"
    and "x_arrivals y = [(src, BuildMessage CreatePermissionResponse (x_txnID y) [])]"
    and "turn_run [TRefreshTick x, TArrive src answer] c = Some d"
  shows "\<exists>d'. CreatePermission y peer d = Some (Inl (PermissionFailed RefreshResponse), d') \<and> tc_permissions d' = tc_permissions c"
proof -
  have d: "d = (sendRefresh x c)\<lparr>tc_rx := [(src, answer)]\<rparr>"
    using assms(1,2,10) by (auto simp: sendRefresh_def)
  then obtain msg where msg: "permission_msg y peer d = Some msg" using assms(8) by (simp add: permission_msg_def)
  have s: "sendRecv y msg d = (Inr answer, d\<lparr>tc_tx := tc_tx d @ [msg], tc_rx := x_arrivals y\<rparr>)"
    using assms(3-5,7) d by (simp add: sendRecv_def sendRefresh_def write_to_def)
  have "tc_permissions d = tc_permissions c" by (simp add: d sendRefresh_def)
  then show ?thesis using assms(6) by (simp add: CreatePermission_def msg s msg_type_def)
qed

section \<open>A concrete session\<close>

definition demo_server :: UDPAddr where
  "demo_server = \<lparr>udp_IP = IPv4 192 0 2 1, udp_Port = 3478\<rparr>"

definition demo_peer :: UDPAddr where
  "demo_peer = \<lparr>udp_IP = IPv4 198 51 100 7, udp_Port = 40000\<rparr>"

definition demo_exchange :: "bytes list \<Rightarrow> exchange" where
  "demo_exchange answers =
     \<lparr>x_txnID = replicate 12 9, x_writeOk = True, x_deadlineOk = True, x_arrivals = map (Pair demo_server) answers\<rparr>"

definition demo_relayed :: bytes where
  "demo_relayed = the (EncodeXORAddr demo_peer)"

lemma demo_relayed: "EncodeXORAddr demo_peer = Some demo_relayed"
  by (simp add: demo_relayed_def EncodeXORAddr_def demo_peer_def)

theorem turn_allocate_login_witness:
  "\<exists>c' second. Allocate (demo_exchange [challenge (replicate 12 1) ''r'' ''n'']) (demo_exchange [success (replicate 12 2) demo_relayed 600])
      (NewClient demo_server ''u'' ''p'') = (Inr demo_peer, c') \<and> tc_relayAddr c' = Some demo_peer \<and> tc_lifetime c' = 600 \<and>
    tc_loop c' = Some 300 \<and> has_key c' \<and>
    tc_tx c' = [BuildMessage AllocateRequest (replicate 12 9) [requested_transport], second] \<and>
    request_ok ''u'' ''p'' ''r'' ''n'' second"
proof -
  let ?x = "demo_exchange [challenge (replicate 12 1) ''r'' ''n'']" and ?y = "demo_exchange [success (replicate 12 2) demo_relayed 600]"
  let ?c = "NewClient demo_server ''u'' ''p''"
  have c: "tc_rx ?c = []" "tc_serverAddr ?c = demo_server" "tc_username ?c = ''u''" "tc_password ?c = ''p''" "tc_tx ?c = []"
    by (simp_all add: NewClient_def)
  have port: "udp_Port demo_peer = 40000" by (simp add: demo_peer_def)
  have x: "x_writeOk (demo_exchange as)" "x_deadlineOk (demo_exchange as)" "x_txnID (demo_exchange as) = replicate 12 9"
    "x_arrivals (demo_exchange [a]) = [] @ [(demo_server, a)]" for as a
    by (simp_all add: demo_exchange_def)
  have n: "max 30 (unat (600 :: u32) div 2) = 300" "strangers s []" for s by (simp_all add: strangers_def)
  show ?thesis
    using turn_allocate_login [OF x(1,2) x(1,2) c(1) _ _ _ x(4) x(4) n(2) n(2) _ _ _ _ _ _ demo_relayed,
        where txn = "replicate 12 1" and txn' = "replicate 12 2" and realm = "''r''" and nonce = "''n''" and lt = 600] unfolding c n port x(3)
    by auto
qed

definition demo_bind :: turn_event where
  "demo_bind = TBind (demo_exchange [BuildMessage ChannelBindResponse (replicate 12 9) []]) demo_peer"

definition demo_client :: turn_client where
  "demo_client =
     (NewClient demo_server ''u'' ''p'')\<lparr>tc_realm := ''r'', tc_nonce := ''n'', tc_key := LongTermKey ''u'' ''r'' ''p'', tc_loop := Some 300\<rparr>"

lemma demo_bound:
  assumes "tc_rx c = []" "tc_serverAddr c = demo_server" "tc_nextChannel c = 0x4000" "tc_channelBindings c = []"
  shows "\<exists>c'. turn_step demo_bind c = Some c' \<and> tc_channelBindings c' = [(demo_peer, 0x4000)]"
proof -
  let ?x = "demo_exchange [BuildMessage ChannelBindResponse (replicate 12 9) []]" and ?c = "c\<lparr>tc_nextChannel := 0x4001\<rparr>"
  obtain msg where msg: "bind_msg ?x 0x4000 demo_peer ?c = Some msg" by (simp add: bind_msg_def demo_relayed)
  have t: "MsgType (BuildMessage ChannelBindResponse (replicate 12 9) []) = Some ChannelBindResponse"
    by (rule built_attrs(1)) simp_all
  have "sendRecv ?x msg ?c = (Inr (BuildMessage ChannelBindResponse (replicate 12 9) []), ?c\<lparr>tc_tx := tc_tx ?c @ [msg], tc_rx := []\<rparr>)"
    by (rule sendRecv_answer [of _ _ "[]" demo_server])
       (simp_all add: demo_exchange_def strangers_def assms BuildMessage_header with_header_reads)
  then show ?thesis by (simp add: demo_bind_def ChannelBind_def Let_def assms msg msg_type_def t)
qed

theorem channels_distinct_in_range_witness:
  "\<exists>c. turn_run [demo_bind] (NewClient demo_server ''u'' ''p'') = Some c \<and> tc_channelBindings c = [(demo_peer, 0x4000)] \<and>
     tc_nextChannel c \<le> 0x7FFF"
proof -
  obtain c where c: "turn_step demo_bind (NewClient demo_server ''u'' ''p'') = Some c" "tc_channelBindings c = [(demo_peer, 0x4000)]"
    using demo_bound [of "NewClient demo_server ''u'' ''p''"] by (auto simp: NewClient_def)
  then have "turn_run [demo_bind] (NewClient demo_server ''u'' ''p'') = Some c" by simp
  then show ?thesis using channels_distinct_in_range [of "[demo_bind]" demo_server "''u''" "''p''" c] c(2) by blast
qed

theorem turn_requests_authenticated_witness:
  "\<exists>c' new. turn_run [demo_bind] demo_client = Some c' \<and> tc_channelBindings c' = [(demo_peer, 0x4000)] \<and> tc_tx c' = new \<and>
     list_all (request_ok ''u'' ''p'' ''r'' ''n'') new"
proof -
  obtain c where c: "turn_step demo_bind demo_client = Some c" "tc_channelBindings c = [(demo_peer, 0x4000)]"
    using demo_bound [of demo_client] by (auto simp: demo_client_def NewClient_def)
  then have run: "turn_run [demo_bind] demo_client = Some c" by simp
  have "has_key demo_client" "list_all relays [demo_bind]"
    by (simp_all add: has_key_def demo_client_def NewClient_def demo_bind_def demo_exchange_def)
  from turn_requests_authenticated [OF run this] show ?thesis
    using run c(2) by (simp add: demo_client_def NewClient_def)
qed

theorem channel_data_roundtrip_witness:
  "ParseChannelData (WrapChannelData 0x4000 [1, 2, 3] @ [0]) = Some (0x4000, [1, 2, 3])"
  using channel_data_roundtrip [of "0x4000" "[1, 2, 3]" "[0]"] by simp

theorem turn_stop_releases_witness: "tc_loop (Stop (demo_exchange []) demo_client) = None"
  using turn_stop_releases [of "demo_exchange []"] by (simp add: demo_exchange_def)

theorem refresh_answer_misread_witness:
  "\<exists>d d'. turn_run [TRefreshTick (demo_exchange []), TArrive demo_server (BuildMessage RefreshResponse (replicate 12 9) [])] demo_client = Some d \<and>
     CreatePermission (demo_exchange [BuildMessage CreatePermissionResponse (replicate 12 9) []]) demo_peer d =
       Some (Inl (PermissionFailed RefreshResponse), d') \<and> tc_permissions d' = []"
proof -
  let ?a = "BuildMessage RefreshResponse (replicate 12 9) []"
  have a: "MsgType ?a = Some RefreshResponse" by (rule built_attrs(1)) simp_all
  obtain d where d: "turn_run [TRefreshTick (demo_exchange []), TArrive demo_server ?a] demo_client = Some d" by simp
  have f: "tc_loop demo_client \<noteq> None" "tc_rx demo_client = []" "tc_serverAddr demo_client = demo_server" "tc_permissions demo_client = []"
    by (simp_all add: demo_client_def NewClient_def)
  show ?thesis
    using refresh_answer_misread [OF f(1,2) _ _ _ a _ demo_relayed _ d, where y = "demo_exchange [BuildMessage CreatePermissionResponse (replicate 12 9) []]"] d
    by (simp add: demo_exchange_def f BuildMessage_header with_header_reads)
qed

end
