(* ===== verification/Transactions.thy ===== *)
theory Transactions
  imports DigestAuth "HOL-Library.AList"
begin

text \<open>
  Client transactions, \<open>internal/sip/transaction.go\<close>, the datagrams under them, \<open>conn.go\<close>, and the REGISTER
  client on top, \<open>client.go\<close>.  A pending transaction is an object on a heap that holds its response
  channel; the table maps a Via branch to it.  Calls that wait in a \<open>select\<close> are kept in a list, and a step
  lets one of them take a response, its timer or the end of the manager.
\<close>

section \<open>Datagrams\<close>

definition maxSIPMessageSize :: nat where "maxSIPMessageSize = 65535"

definition Receive :: "string \<Rightarrow> string" where
  "Receive datagram = take maxSIPMessageSize datagram"

section \<open>The manager\<close>

datatype tx_result =
    Response Message
  | ErrTransactionTimeout
  | ErrTransactionStopped
  | ErrNoPending
  | ErrSend

text \<open>\<open>px_branch\<close> is the branch the object was made for; the code does not read it.\<close>

record pendingTx =
  px_branch :: string
  px_respCh :: "Message list"

text \<open>A call in its \<open>select\<close>: \<open>Send\<close> with its branch, or \<open>ReadResponse\<close>.\<close>

datatype wait = InSend string nat | InRead nat

fun wait_tx :: "wait \<Rightarrow> nat" where
  "wait_tx (InSend branch r) = r"
| "wait_tx (InRead r) = r"

record txmanager =
  tm_pending :: "(string \<times> nat) list"
  tm_txs :: "pendingTx list"
  tm_onRequest :: bool
  tm_stopped :: bool
  tm_reading :: bool
  tm_requests :: "Message list"
  tm_wire :: "string list"
  tm_waits :: "wait list"
  tm_returned :: "(nat option \<times> tx_result) list"

definition NewTransactionManager :: txmanager where
  "NewTransactionManager =
     \<lparr>tm_pending = [], tm_txs = [], tm_onRequest = False, tm_stopped = False, tm_reading = True,
       tm_requests = [], tm_wire = [], tm_waits = [], tm_returned = []\<rparr>"

definition returns :: "nat option \<Rightarrow> tx_result \<Rightarrow> txmanager \<Rightarrow> txmanager" where
  "returns r res m = m\<lparr>tm_returned := tm_returned m @ [(r, res)]\<rparr>"

definition removeTx :: "string \<Rightarrow> txmanager \<Rightarrow> txmanager" where
  "removeTx branch m = m\<lparr>tm_pending := AList.delete branch (tm_pending m)\<rparr>"

definition tm_Stop :: "txmanager \<Rightarrow> txmanager" where
  "tm_Stop m = (if tm_stopped m then m else m\<lparr>tm_stopped := True, tm_pending := []\<rparr>)"

text \<open>The branch of a request, and the request with a Via header; \<open>gen\<close> is the branch \<open>generateBranch\<close> returns.\<close>

definition with_branch :: "string \<Rightarrow> string \<Rightarrow> int \<Rightarrow> Message \<Rightarrow> string \<times> Message" where
  "with_branch gen ip port req =
     (if ViaBranch req \<noteq> [] then (ViaBranch req, req)
      else (gen, SetHeader ''Via'' (''SIP/2.0/UDP '' @ ip @ '':'' @ Itoa port @ '';branch='' @ gen) req))"

definition Send :: "string \<Rightarrow> string \<Rightarrow> int \<Rightarrow> bool \<Rightarrow> Message \<Rightarrow> txmanager \<Rightarrow> txmanager" where
  "Send gen ip port sendOk req m =
     (if tm_stopped m then returns None ErrTransactionStopped m
      else case with_branch gen ip port req of
             (branch, req) \<Rightarrow>
               let r = length (tm_txs m);
                   m = m\<lparr>tm_txs := tm_txs m @ [\<lparr>px_branch = branch, px_respCh = []\<rparr>], tm_pending := AList.update branch r (tm_pending m)\<rparr>
               in if sendOk then m\<lparr>tm_wire := tm_wire m @ [msg_Bytes req], tm_waits := tm_waits m @ [InSend branch r]\<rparr>
                  else returns (Some r) ErrSend (removeTx branch m))"

definition ReadResponse :: "string \<Rightarrow> txmanager \<Rightarrow> txmanager" where
  "ReadResponse branch m =
     (case map_of (tm_pending m) branch of
        None \<Rightarrow> returns None ErrNoPending m
      | Some r \<Rightarrow> m\<lparr>tm_waits := tm_waits m @ [InRead r]\<rparr>)"

text \<open>The cases of the two \<open>select\<close> statements; a case that is not ready leaves the call waiting.\<close>

datatype cause = GotResponse | TimerFired | ManagerDone

definition timed_out :: "wait \<Rightarrow> txmanager \<Rightarrow> txmanager" where
  "timed_out w m = (case w of InSend branch r \<Rightarrow> removeTx branch m | InRead r \<Rightarrow> m)"

definition unwait :: "nat \<Rightarrow> txmanager \<Rightarrow> txmanager" where
  "unwait i m = m\<lparr>tm_waits := take i (tm_waits m) @ drop (Suc i) (tm_waits m)\<rparr>"

definition wake :: "nat \<Rightarrow> cause \<Rightarrow> txmanager \<Rightarrow> txmanager" where
  "wake i cause m =
     (if i < length (tm_waits m) then
        let w = tm_waits m ! i; r = wait_tx w; tx = tm_txs m ! r
        in case cause of
             GotResponse \<Rightarrow>
               (case px_respCh tx of
                  [] \<Rightarrow> m
                | msg # rest \<Rightarrow>
                    returns (Some r) (Response msg) (unwait i (m\<lparr>tm_txs := (tm_txs m)[r := tx\<lparr>px_respCh := rest\<rparr>]\<rparr>)))
           | TimerFired \<Rightarrow> returns (Some r) ErrTransactionTimeout (unwait i (timed_out w m))
           | ManagerDone \<Rightarrow> if tm_stopped m then returns (Some r) ErrTransactionStopped (unwait i m) else m
      else m)"

text \<open>The capacity of a response channel.\<close>

definition respCh_size :: nat where "respCh_size = 8"

definition dispatch :: "Message \<Rightarrow> txmanager \<Rightarrow> txmanager" where
  "dispatch msg m =
     (if \<not> IsResponse msg then (if tm_onRequest m then m\<lparr>tm_requests := tm_requests m @ [msg]\<rparr> else m)
      else if ViaBranch msg = [] then m
      else case map_of (tm_pending m) (ViaBranch msg) of
             None \<Rightarrow> m
           | Some r \<Rightarrow>
               let tx = tm_txs m ! r
               in if length (px_respCh tx) < respCh_size
                  then m\<lparr>tm_txs := (tm_txs m)[r := tx\<lparr>px_respCh := px_respCh tx @ [msg]\<rparr>]\<rparr> else m)"

text \<open>A datagram is read by the loop; the loop looks at \<open>done\<close> before each read.\<close>

definition read_datagram :: "string \<Rightarrow> txmanager \<Rightarrow> txmanager" where
  "read_datagram datagram m =
     (if \<not> tm_reading m then m
      else case msg_Parse (Receive datagram) of Inl e \<Rightarrow> m | Inr msg \<Rightarrow> dispatch msg m)"

definition loop_check :: "txmanager \<Rightarrow> txmanager" where
  "loop_check m = (if tm_stopped m then m\<lparr>tm_reading := False\<rparr> else m)"

definition OnRequest :: "txmanager \<Rightarrow> txmanager" where
  "OnRequest m = m\<lparr>tm_onRequest := True\<rparr>"

datatype tm_event =
    DoSend string string int bool Message
  | DoRead string
  | DoRemove string
  | DoStop
  | DoOnRequest
  | Wake nat cause
  | Datagram string
  | LoopCheck

fun tm_step :: "tm_event \<Rightarrow> txmanager \<Rightarrow> txmanager" where
  "tm_step (DoSend gen ip port sendOk req) m = Send gen ip port sendOk req m"
| "tm_step (DoRead branch) m = ReadResponse branch m"
| "tm_step (DoRemove branch) m = removeTx branch m"
| "tm_step DoStop m = tm_Stop m"
| "tm_step DoOnRequest m = OnRequest m"
| "tm_step (Wake i cause) m = wake i cause m"
| "tm_step (Datagram datagram) m = read_datagram datagram m"
| "tm_step LoopCheck m = loop_check m"

section \<open>The REGISTER client\<close>

record ClientConfig =
  cc_Username :: string
  cc_Password :: string
  cc_Domain :: string

record sip_client =
  cl_cfg :: ClientConfig
  cl_localIP :: string
  cl_localPort :: int
  cl_cseq :: int
  cl_callID :: string
  cl_closed :: bool

text \<open>\<open>tag\<close> is the random string of which the From tag is the beginning.\<close>

definition buildRequest :: "string \<Rightarrow> string \<Rightarrow> string \<Rightarrow> (string \<times> string) list \<Rightarrow> sip_client \<Rightarrow> Message \<times> sip_client" where
  "buildRequest tag meth requestURI extraHeaders c =
     (let c = c\<lparr>cl_cseq := cl_cseq c + 1\<rparr>; u = cc_Username (cl_cfg c); d = cc_Domain (cl_cfg c);
          msg = empty_msg\<lparr>Method := meth, RequestURI := requestURI\<rparr>;
          msg = SetHeader ''From'' (''<sip:'' @ u @ ''@'' @ d @ ''>;tag='' @ take 8 tag) msg;
          msg = SetHeader ''To'' (''<sip:'' @ u @ ''@'' @ d @ ''>'') msg;
          msg = SetHeader ''Call-ID'' (cl_callID c) msg;
          msg = SetHeader ''CSeq'' (Itoa (cl_cseq c) @ '' '' @ meth) msg;
          msg = SetHeader ''Contact'' (''<sip:'' @ u @ ''@'' @ cl_localIP c @ '':'' @ Itoa (cl_localPort c) @ ''>'') msg;
          msg = SetHeader ''Max-Forwards'' ''70'' msg;
          msg = SetHeader ''User-Agent'' ''xphone'' msg
      in (fold (\<lambda>(k, v). SetHeader k v) extraHeaders msg, c))"

text \<open>What \<open>SendRegister\<close> returns, the requests it sends, and the client; \<open>send n req\<close> is what \<open>tm.Send\<close> returns for
  the \<open>n\<close>-th request.\<close>

definition SendRegister :: "string \<Rightarrow> string \<Rightarrow> (nat \<Rightarrow> Message \<Rightarrow> tx_result + Message) \<Rightarrow> sip_client \<Rightarrow>
    (tx_result + int \<times> string) \<times> Message list \<times> sip_client" where
  "SendRegister tag tag' snd_req c =
     (if cl_closed c then (Inl ErrTransactionStopped, [], c)
      else let uri = ''sip:'' @ cc_Domain (cl_cfg c)
           in case buildRequest tag ''REGISTER'' uri [] c of
                (req, c) \<Rightarrow>
                  (case snd_req 0 req of
                     Inl e \<Rightarrow> (Inl e, [req], c)
                   | Inr resp \<Rightarrow>
                       if StatusCode resp = 401 then
                         (case ParseChallenge (Header resp ''WWW-Authenticate'') of
                            Inl e \<Rightarrow> (Inr (401, Header resp ''WWW-Authenticate''), [req], c)
                          | Inr ch \<Rightarrow>
                              let creds = \<lparr>cr_Username = cc_Username (cl_cfg c), cr_Password = cc_Password (cl_cfg c)\<rparr>
                              in case buildRequest tag' ''REGISTER'' uri [(''Authorization'', BuildAuthorization ch creds ''REGISTER'' uri)] c of
                                   (retry, c) \<Rightarrow>
                                     (case snd_req 1 retry of
                                        Inl e \<Rightarrow> (Inl e, [req, retry], c)
                                      | Inr resp \<Rightarrow> (Inr (StatusCode resp, Reason resp), [req, retry], c)))
                       else (Inr (StatusCode resp, Reason resp), [req], c)))"

text \<open>\<open>remaining\<close> is the time until the deadline of the context, if it has one.\<close>

definition contextTimeout :: "int option \<Rightarrow> int \<Rightarrow> int" where
  "contextTimeout remaining maxTimeout =
     (case remaining of None \<Rightarrow> maxTimeout | Some t \<Rightarrow> if t < maxTimeout then t else maxTimeout)"

section \<open>Responses\<close>

definition returned_to :: "nat \<Rightarrow> (nat option \<times> tx_result) list \<Rightarrow> Message list" where
  "returned_to r log = concat (map (\<lambda>(r', res). case res of Response msg \<Rightarrow> if r' = Some r then [msg] else [] | _ \<Rightarrow> []) log)"

lemma returned_to_snoc [simp]:
  "returned_to r (log @ [(r', res)]) = returned_to r log @ (case res of Response msg \<Rightarrow> if r' = Some r then [msg] else [] | _ \<Rightarrow> [])"
  by (simp add: returned_to_def)

text \<open>The responses for a branch that a sequence of events brings.\<close>

fun answers :: "string \<Rightarrow> tm_event list \<Rightarrow> Message list" where
  "answers b [] = []"
| "answers b (Datagram d # evs) =
     (case msg_Parse (Receive d) of
        Inl e \<Rightarrow> answers b evs
      | Inr msg \<Rightarrow> (if IsResponse msg \<and> ViaBranch msg = b then [msg] else []) @ answers b evs)"
| "answers b (ev # evs) = answers b evs"

lemma answers_append: "answers b (evs @ evs') = answers b evs @ answers b evs'"
proof (induction evs)
  case (Cons ev evs)
  then show ?case by (cases ev) (auto split: sum.split)
qed simp

lemma set_update_aux: "(k', v') \<in> set (AList.update k v xs) \<Longrightarrow> (k', v') = (k, v) \<or> (k', v') \<in> set xs"
  by (induction xs) (auto split: if_splits)

definition shape :: "txmanager \<Rightarrow> bool" where
  "shape m \<longleftrightarrow>
     (\<forall>(b, r) \<in> set (tm_pending m). r < length (tm_txs m) \<and> px_branch (tm_txs m ! r) = b) \<and>
     (\<forall>w \<in> set (tm_waits m). wait_tx w < length (tm_txs m)) \<and>
     (\<forall>r \<in> set (map fst (tm_returned m)). \<forall>r' \<in> set_option r. r' < length (tm_txs m))"

definition in_order :: "tm_event list \<Rightarrow> txmanager \<Rightarrow> bool" where
  "in_order evs m \<longleftrightarrow>
     (\<forall>r < length (tm_txs m). length (px_respCh (tm_txs m ! r)) \<le> respCh_size \<and>
        subseq (returned_to r (tm_returned m) @ px_respCh (tm_txs m ! r)) (answers (px_branch (tm_txs m ! r)) evs))"

lemma shape_simps [simp]:
  "shape (m\<lparr>tm_requests := x\<rparr>) = shape m" "shape (m\<lparr>tm_onRequest := b\<rparr>) = shape m" "shape (m\<lparr>tm_reading := b\<rparr>) = shape m"
  "shape (m\<lparr>tm_wire := y\<rparr>) = shape m" "shape (m\<lparr>tm_stopped := b\<rparr>) = shape m"
  by (simp_all add: shape_def)

lemma order_simps [simp]:
  "in_order evs (m\<lparr>tm_requests := x\<rparr>) = in_order evs m" "in_order evs (m\<lparr>tm_onRequest := b\<rparr>) = in_order evs m"
  "in_order evs (m\<lparr>tm_reading := b\<rparr>) = in_order evs m" "in_order evs (m\<lparr>tm_wire := y\<rparr>) = in_order evs m"
  "in_order evs (m\<lparr>tm_stopped := b\<rparr>) = in_order evs m" "in_order evs (m\<lparr>tm_pending := p\<rparr>) = in_order evs m"
  "in_order evs (m\<lparr>tm_waits := ws\<rparr>) = in_order evs m" "in_order evs (removeTx b' m) = in_order evs m"
  "in_order evs (unwait i m) = in_order evs m" "in_order evs (timed_out w m) = in_order evs m"
  by (simp_all add: in_order_def removeTx_def unwait_def timed_out_def split: wait.split)

lemma shape_remove: "shape m \<Longrightarrow> shape (removeTx b m)"
  by (auto simp: shape_def removeTx_def AList.delete_eq)

lemma shape_unwait: "shape m \<Longrightarrow> shape (unwait i m)"
  by (auto simp: shape_def unwait_def dest: in_set_takeD in_set_dropD)

lemma shape_timed_out: "shape m \<Longrightarrow> shape (timed_out w m)"
  by (simp add: timed_out_def shape_remove split: wait.split)

lemma shape_returns: "shape m \<Longrightarrow> (\<And>r'. r = Some r' \<Longrightarrow> r' < length (tm_txs m)) \<Longrightarrow> shape (returns r res m)"
  by (auto simp: shape_def returns_def)

lemma order_returns: "in_order evs m \<Longrightarrow> (\<And>msg. res \<noteq> Response msg) \<Longrightarrow> in_order evs (returns r res m)"
  by (cases res) (auto simp: in_order_def returns_def)

lemma shape_buffer: "shape m \<Longrightarrow> shape (m\<lparr>tm_txs := (tm_txs m)[r := (tm_txs m ! r)\<lparr>px_respCh := q\<rparr>]\<rparr>)"
  by (cases "r < length (tm_txs m)") (force simp: shape_def nth_list_update)+

lemma txs_len [simp]: "tm_txs (unwait i m) = tm_txs m" "tm_txs (timed_out w m) = tm_txs m" "tm_txs (removeTx b m) = tm_txs m"
  by (simp_all add: unwait_def timed_out_def removeTx_def split: wait.split)

lemma subseq_more: "subseq xs ys \<Longrightarrow> subseq xs (ys @ zs)"
  using list_emb_append_mono [of "(=)" xs ys "[]" zs] by simp

lemma order_later: "in_order evs m \<Longrightarrow> in_order (evs @ evs') m"
  by (auto simp: in_order_def answers_append intro: subseq_more)

lemma sent_ok:
  assumes "shape m" "in_order evs m"
  shows "shape (Send gen ip port sendOk req m)" "in_order evs (Send gen ip port sendOk req m)"
proof -
  obtain b q where w: "with_branch gen ip port req = (b, q)" by fastforce
  let ?m = "m\<lparr>tm_txs := tm_txs m @ [\<lparr>px_branch = b, px_respCh = []\<rparr>], tm_pending := AList.update b (length (tm_txs m)) (tm_pending m)\<rparr>"
  have "set (AList.update b (length (tm_txs m)) (tm_pending m)) \<subseteq> insert (b, length (tm_txs m)) (set (tm_pending m))"
    using set_update_aux by fastforce
  then have s: "shape ?m" using assms(1) by (fastforce simp: shape_def nth_append)
  have "returned_to (length (tm_txs m)) (tm_returned m) = []"
    using assms(1) by (fastforce simp: shape_def returned_to_def split: tx_result.split)
  then have o: "in_order evs ?m"
    using assms(2) by (auto simp: in_order_def nth_append less_Suc_eq respCh_size_def)
  show "shape (Send gen ip port sendOk req m)"
  proof -
    have "shape (?m\<lparr>tm_wire := tm_wire m @ [msg_Bytes q], tm_waits := tm_waits m @ [InSend b (length (tm_txs m))]\<rparr>)"
      using s by (simp add: shape_def)
    moreover have "shape (returns (Some (length (tm_txs m))) ErrSend (removeTx b ?m))"
      using s by (intro shape_returns shape_remove) simp_all
    moreover have "shape (returns None ErrTransactionStopped m)" using assms(1) by (intro shape_returns) simp_all
    ultimately show ?thesis by (simp add: Send_def w Let_def)
  qed
  show "in_order evs (Send gen ip port sendOk req m)"
    using o assms(2) by (auto simp: Send_def w Let_def order_returns)
qed

lemma woken_ok:
  assumes "shape m" "in_order evs m"
  shows "shape (wake i cause m) \<and> in_order evs (wake i cause m)"
proof (cases "i < length (tm_waits m)")
  case True
  let ?r = "wait_tx (tm_waits m ! i)"
  have r: "?r < length (tm_txs m)" using assms(1) True by (simp add: shape_def)
  show ?thesis
  proof (cases cause)
    case GotResponse
    show ?thesis
    proof (cases "px_respCh (tm_txs m ! ?r)")
      case (Cons msg rest)
      let ?m = "m\<lparr>tm_txs := (tm_txs m)[?r := (tm_txs m ! ?r)\<lparr>px_respCh := rest\<rparr>]\<rparr>"
      have w: "wake i cause m = returns (Some ?r) (Response msg) (unwait i ?m)"
        using True GotResponse Cons by (simp add: wake_def Let_def)
      have "shape (returns (Some ?r) (Response msg) (unwait i ?m))"
        using r shape_buffer [OF assms(1)] by (intro shape_returns shape_unwait) auto
      moreover have "in_order evs (returns (Some ?r) (Response msg) (unwait i ?m))"
        using assms(2) r Cons by (fastforce simp: in_order_def returns_def unwait_def nth_list_update)
      ultimately show ?thesis by (simp add: w)
    qed (use assms True GotResponse in \<open>simp add: wake_def Let_def\<close>)
  next
    case TimerFired
    then have w: "wake i cause m = returns (Some ?r) ErrTransactionTimeout (unwait i (timed_out (tm_waits m ! i) m))"
      using True by (simp add: wake_def Let_def)
    show ?thesis unfolding w using assms r
      by (auto intro!: shape_returns shape_unwait shape_timed_out order_returns)
  next
    case ManagerDone
    then have w: "wake i cause m = (if tm_stopped m then returns (Some ?r) ErrTransactionStopped (unwait i m) else m)"
      using True by (simp add: wake_def Let_def)
    show ?thesis unfolding w using assms r by (auto intro!: shape_returns shape_unwait order_returns)
  qed
qed (use assms in \<open>simp add: wake_def\<close>)

lemma dispatched_ok:
  assumes "shape m" "in_order evs m" "msg_Parse (Receive d) = Inr msg"
  shows "shape (dispatch msg m) \<and> in_order (evs @ [Datagram d]) (dispatch msg m)"
proof -
  have later: "in_order (evs @ [Datagram d]) m" using assms(2) by (rule order_later)
  show ?thesis
  proof (cases "IsResponse msg \<and> ViaBranch msg \<noteq> []")
    case resp: True
    show ?thesis
    proof (cases "map_of (tm_pending m) (ViaBranch msg)")
      case (Some r)
      then have "(ViaBranch msg, r) \<in> set (tm_pending m)" by (rule map_of_SomeD)
      then have r: "r < length (tm_txs m)" "px_branch (tm_txs m ! r) = ViaBranch msg" using assms(1) by (auto simp: shape_def)
      let ?m = "m\<lparr>tm_txs := (tm_txs m)[r := (tm_txs m ! r)\<lparr>px_respCh := px_respCh (tm_txs m ! r) @ [msg]\<rparr>]\<rparr>"
      have d: "dispatch msg m = (if length (px_respCh (tm_txs m ! r)) < respCh_size then ?m else m)"
        using resp Some by (simp add: dispatch_def Let_def)
      have new: "answers b (evs @ [Datagram d]) = answers b evs @ (if ViaBranch msg = b then [msg] else [])" for b
        using resp assms(3) by (simp add: answers_append)
      have "in_order (evs @ [Datagram d]) ?m" if "length (px_respCh (tm_txs m ! r)) < respCh_size"
        unfolding in_order_def
      proof (intro allI impI conjI)
        fix x assume x: "x < length (tm_txs ?m)"
        show "length (px_respCh (tm_txs ?m ! x)) \<le> respCh_size"
          using assms(2) x that r by (auto simp: in_order_def nth_list_update)
        have old: "subseq (returned_to x (tm_returned m) @ px_respCh (tm_txs m ! x)) (answers (px_branch (tm_txs m ! x)) evs)"
          using assms(2) x by (simp add: in_order_def)
        show "subseq (returned_to x (tm_returned ?m) @ px_respCh (tm_txs ?m ! x)) (answers (px_branch (tm_txs ?m ! x)) (evs @ [Datagram d]))"
        proof (cases "x = r")
          case True
          then show ?thesis using list_emb_append_mono [OF old, of "[msg]" "[msg]"] r by (simp add: new)
        next
          case False
          then show ?thesis using subseq_more [OF old] by (simp add: new)
        qed
      qed
      then show ?thesis using later assms(1) shape_buffer by (simp add: d)
    qed (use assms later resp in \<open>simp add: dispatch_def\<close>)
  qed (use assms later in \<open>auto simp: dispatch_def\<close>)
qed

lemma tm_step_ok:
  assumes "shape m" "in_order evs m"
  shows "shape (tm_step ev m) \<and> in_order (evs @ [ev]) (tm_step ev m)"
proof (cases ev)
  case (DoSend gen ip port sendOk req)
  then show ?thesis using sent_ok [OF assms] order_later by simp
next
  case (Wake i cause)
  then show ?thesis using woken_ok [OF assms] order_later by simp
next
  case (Datagram d)
  then show ?thesis using dispatched_ok [OF assms] assms order_later
    by (cases "msg_Parse (Receive d)") (simp_all add: read_datagram_def)
next
  case (DoRead b)
  have "shape (m\<lparr>tm_waits := tm_waits m @ [InRead r]\<rparr>)" if "map_of (tm_pending m) b = Some r" for r
    using assms(1) map_of_SomeD [OF that] by (auto simp: shape_def)
  then have "shape (ReadResponse b m)" "in_order evs (ReadResponse b m)"
    using assms by (auto simp: ReadResponse_def intro!: shape_returns order_returns split: option.split)
  then show ?thesis using DoRead order_later by simp
next
  case DoStop
  have "shape (m\<lparr>tm_stopped := True, tm_pending := []\<rparr>)" using assms(1) by (simp add: shape_def)
  then show ?thesis using DoStop assms order_later [OF assms(2)] by (simp add: tm_Stop_def)
qed (use assms order_later [OF assms(2)] in \<open>simp_all add: shape_remove OnRequest_def loop_check_def\<close>)

lemma tm_run_ok:
  assumes "shape m" "in_order evs m"
  shows "shape (fold tm_step evs' m) \<and> in_order (evs @ evs') (fold tm_step evs' m)"
  using assms
proof (induction evs' arbitrary: m evs)
  case (Cons ev evs')
  then show ?case using Cons.IH [of "tm_step ev m" "evs @ [ev]"] tm_step_ok [OF Cons.prems, of ev] by simp
qed simp

lemma answers_branch: "msg \<in> set (answers b evs) \<Longrightarrow> IsResponse msg \<and> ViaBranch msg = b"
  by (induction b evs rule: answers.induct) (auto split: sum.splits if_splits)

text \<open>C31: Responses reach the transaction they answer.  Whatever is sent, read, removed, timed out and stopped in
  between, the responses that the calls for one transaction have returned are responses to its branch, in
  the order they came from the network and each at most once; at most eight wait to be read.\<close>

theorem responses_in_order:
  assumes "r < length (tm_txs (fold tm_step evs NewTransactionManager))"
  shows "let m = fold tm_step evs NewTransactionManager; b = px_branch (tm_txs m ! r); got = returned_to r (tm_returned m)
    in subseq (got @ px_respCh (tm_txs m ! r)) (answers b evs) \<and> list_all (\<lambda>msg. IsResponse msg \<and> ViaBranch msg = b) got \<and>
       length (px_respCh (tm_txs m ! r)) \<le> 8"
proof -
  define m where "m = fold tm_step evs NewTransactionManager"
  have "in_order [] NewTransactionManager" "shape NewTransactionManager"
    by (simp_all add: in_order_def shape_def NewTransactionManager_def)
  then have o: "in_order evs m" using tm_run_ok [of NewTransactionManager "[]" evs] by (simp add: m_def)
  have sub: "subseq (returned_to r (tm_returned m) @ px_respCh (tm_txs m ! r)) (answers (px_branch (tm_txs m ! r)) evs)"
    using o assms by (simp add: in_order_def m_def)
  have "set (returned_to r (tm_returned m)) \<subseteq> set (answers (px_branch (tm_txs m ! r)) evs)"
  proof
    fix x assume "x \<in> set (returned_to r (tm_returned m))"
    then have "x \<in> set (returned_to r (tm_returned m) @ px_respCh (tm_txs m ! r))" by simp
    from list_emb_set [OF sub this] show "x \<in> set (answers (px_branch (tm_txs m ! r)) evs)" by auto
  qed
  then have "list_all (\<lambda>msg. IsResponse msg \<and> ViaBranch msg = px_branch (tm_txs m ! r)) (returned_to r (tm_returned m))"
    using answers_branch by (auto simp: list_all_iff)
  then show ?thesis using sub o assms by (simp add: Let_def m_def [symmetric] in_order_def respCh_size_def)
qed

section \<open>A request and its answer\<close>

lemma branch_index:
  assumes "CHR ''='' \<notin> set pre" shows "Index (pre @ ''branch='' @ r) ''branch='' = Some (length pre)"
  using assms
proof (induction pre)
  case (Cons c pre)
  have "\<not> prefix ''branch='' (c # pre @ ''branch='' @ r)"
  proof
    assume p: "prefix ''branch='' (c # pre @ ''branch='' @ r)"
    then have "(c # pre @ ''branch='' @ r) ! 6 = CHR ''=''" by (auto elim!: prefixE)
    moreover have "(c # pre @ ''branch='' @ r) ! 6 \<noteq> CHR ''=''"
    proof (cases "length pre \<ge> 6")
      case True
      then have "(pre @ ''branch='' @ r) ! 5 = pre ! 5" "pre ! 5 \<in> set pre" by (simp_all add: nth_append)
      then show ?thesis using Cons.prems by auto
    next
      case False
      then consider "length pre = 0" | "length pre = 1" | "length pre = 2" | "length pre = 3" | "length pre = 4" | "length pre = 5"
        by linarith
      then show ?thesis by cases (simp_all add: nth_append)
    qed
    ultimately show False by simp
  qed
  then show ?case using Cons by simp
qed simp

text \<open>What can stand for a host address and for a branch in a Via header.\<close>

definition branch_ok :: "string \<Rightarrow> bool" where
  "branch_ok b \<longleftrightarrow> b \<noteq> [] \<and> (\<forall>c \<in> set b. c \<notin> set ('';, '' @ [CHR 0x09] @ ''>''))"

lemma IndexAny_none: "(\<And>c. c \<in> set s \<Longrightarrow> c \<notin> set cs) \<Longrightarrow> IndexAny s cs = None"
  by (induction s) auto

lemma lower_eq: "CHR ''='' \<notin> set s \<Longrightarrow> CHR ''='' \<notin> set (ToLower s)"
proof -
  have "lower_char c = CHR ''='' \<Longrightarrow> c = CHR ''=''" for c :: char
  proof -
    assume l: "lower_char c = CHR ''=''"
    show ?thesis
    proof (cases "65 \<le> (of_char c :: nat) \<and> (of_char c :: nat) \<le> 90")
      case True
      then have "char_of (of_char c + 32 :: nat) = CHR ''=''" using l by (simp add: lower_char_def Let_def)
      from arg_cong [OF this, of "of_char :: char \<Rightarrow> nat"] show ?thesis using True by simp
    qed (use l in \<open>auto simp: lower_char_def Let_def\<close>)
  qed
  then show "CHR ''='' \<notin> set s \<Longrightarrow> CHR ''='' \<notin> set (ToLower s)" unfolding ToLower_def by force
qed

lemma via_branch:
  assumes "CHR ''='' \<notin> set pre" "branch_ok b" "Header m ''Via'' = pre @ '';branch='' @ b"
  shows "ViaBranch m = b"
proof -
  have low: "ToLower (pre @ '';branch='' @ b) = (ToLower pre @ '';'') @ ''branch='' @ ToLower b"
    by (simp add: ToLower_def lower_char_def)
  have "CHR ''='' \<notin> set (ToLower pre @ '';'')" using lower_eq [OF assms(1)] by simp
  then have i: "Index (ToLower (pre @ '';branch='' @ b)) ''branch='' = Some (Suc (length pre))"
    unfolding low by (subst branch_index) (simp_all add: ToLower_def)
  have s: "ToLower (''branch'' @ ''='') = ''branch=''" by code_simp
  have "IndexAny b ('';, '' @ [CHR 0x09] @ ''>'') = None"
    using assms(2) by (intro IndexAny_none) (auto simp: branch_ok_def)
  then show ?thesis using i s by (simp add: ViaBranch_def assms(3) paramValue_def Let_def)
qed

text \<open>The Via header of a request without one names the branch of its transaction.\<close>

lemma with_branch_via:
  assumes "ViaBranch req = []" "with_branch gen ip port req = (b, req')" "CHR ''='' \<notin> set ip" "branch_ok gen"
  shows "b = gen" "Header req' ''Via'' = ''SIP/2.0/UDP '' @ ip @ '':'' @ Itoa port @ '';branch='' @ gen" "ViaBranch req' = gen"
proof -
  show b: "b = gen" and via: "Header req' ''Via'' = ''SIP/2.0/UDP '' @ ip @ '':'' @ Itoa port @ '';branch='' @ gen"
    using assms(1,2) by (auto simp: with_branch_def Header_def SetHeader_def header_in_set EqualFold_def)
  show "ViaBranch req' = gen"
    by (rule via_branch [where pre = "''SIP/2.0/UDP '' @ ip @ '':'' @ Itoa port"])
       (use assms via in \<open>auto dest: Itoa_range\<close>)
qed

lemma Itoa_no_eq: "CHR ''='' \<notin> set (Itoa i)"
  by (auto dest: Itoa_range)

text \<open>An answer comes back.  A request without a Via header gets one with the fresh branch; the first response
  with that Via header, whatever else is under way, is what the waiting \<open>Send\<close> returns.\<close>

theorem send_returns_answer:
  assumes "\<not> tm_stopped m" "tm_reading m" "shape m" "ViaBranch req = []" "branch_ok gen" "CHR ''='' \<notin> set ip"
    and "with_branch gen ip port req = (gen, req')" "n = length (tm_waits m)"
    and "msg_Parse (Receive datagram) = Inr resp" "IsResponse resp" "Header resp ''Via'' = Header req' ''Via''"
  shows "tm_wire (fold tm_step [DoSend gen ip port True req, Datagram datagram, Wake n GotResponse] m) = tm_wire m @ [msg_Bytes req'] \<and>
    tm_returned (fold tm_step [DoSend gen ip port True req, Datagram datagram, Wake n GotResponse] m)
      = tm_returned m @ [(Some (length (tm_txs m)), Response resp)] \<and>
    tm_waits (fold tm_step [DoSend gen ip port True req, Datagram datagram, Wake n GotResponse] m) = tm_waits m"
proof -
  have v: "ViaBranch resp = gen"
    using with_branch_via(3) [OF assms(4,7,6,5)] assms(11) by (simp add: ViaBranch_def)
  have gen: "gen \<noteq> []" using assms(5) by (simp add: branch_ok_def)
  let ?r = "length (tm_txs m)"
  define m1 where "m1 = m\<lparr>tm_txs := tm_txs m @ [\<lparr>px_branch = gen, px_respCh = []\<rparr>], tm_pending := AList.update gen ?r (tm_pending m),
    tm_wire := tm_wire m @ [msg_Bytes req'], tm_waits := tm_waits m @ [InSend gen ?r]\<rparr>"
  have 1: "tm_step (DoSend gen ip port True req) m = m1" using assms(1,7) by (simp add: Send_def Let_def m1_def)
  have p: "map_of (tm_pending m1) gen = Some ?r" by (simp add: m1_def update_conv')
  define m2 where "m2 = m1\<lparr>tm_txs := tm_txs m @ [\<lparr>px_branch = gen, px_respCh = [resp]\<rparr>]\<rparr>"
  have 2: "tm_step (Datagram datagram) m1 = m2"
    using assms(2,9,10) v gen p by (simp add: read_datagram_def dispatch_def Let_def respCh_size_def m2_def) (simp add: m1_def)
  have 3: "tm_step (Wake n GotResponse) m2 = returns (Some ?r) (Response resp) (unwait n (m2\<lparr>tm_txs := tm_txs m @ [\<lparr>px_branch = gen, px_respCh = []\<rparr>]\<rparr>))"
    using assms(8) by (simp add: wake_def Let_def m2_def m1_def)
  show ?thesis unfolding fold_simps 1 2 3 using assms(8) by (simp add: returns_def unwait_def m2_def m1_def)
qed

section \<open>The end of the manager\<close>

lemma wake_done:
  assumes "tm_stopped m"
  shows "tm_waits (fold tm_step (replicate (length (tm_waits m)) (Wake 0 ManagerDone)) m) = [] \<and>
    tm_returned (fold tm_step (replicate (length (tm_waits m)) (Wake 0 ManagerDone)) m)
      = tm_returned m @ map (\<lambda>w. (Some (wait_tx w), ErrTransactionStopped)) (tm_waits m)"
  using assms
proof (induction "tm_waits m" arbitrary: m)
  case (Cons w ws)
  let ?m = "returns (Some (wait_tx w)) ErrTransactionStopped (unwait 0 m)"
  have s: "tm_step (Wake 0 ManagerDone) m = ?m" using Cons.hyps(2) [symmetric] Cons.prems by (simp add: wake_def Let_def)
  have f: "tm_waits ?m = ws" "tm_stopped ?m" "tm_returned ?m = tm_returned m @ [(Some (wait_tx w), ErrTransactionStopped)]"
    using Cons.hyps(2) [symmetric] Cons.prems by (simp_all add: returns_def unwait_def)
  then show ?case using Cons.hyps(1) [of ?m] Cons.hyps(2) [symmetric] s by simp
qed simp

text \<open>Stopping releases every caller.  After \<open>Stop\<close> nothing is pending, a new \<open>Send\<close> is refused without a datagram,
  no response reaches a channel any more, and every call that waits returns: each finds the manager done.\<close>

theorem stop_releases_callers:
  assumes "\<not> tm_stopped m"
  shows "tm_pending (tm_Stop m) = [] \<and>
    Send gen ip port ok req (tm_Stop m) = returns None ErrTransactionStopped (tm_Stop m) \<and>
    (IsResponse msg \<longrightarrow> dispatch msg (tm_Stop m) = tm_Stop m) \<and>
    tm_waits (fold tm_step (replicate (length (tm_waits m)) (Wake 0 ManagerDone)) (tm_Stop m)) = [] \<and>
    tm_returned (fold tm_step (replicate (length (tm_waits m)) (Wake 0 ManagerDone)) (tm_Stop m))
      = tm_returned m @ map (\<lambda>w. (Some (wait_tx w), ErrTransactionStopped)) (tm_waits m)"
  using wake_done [of "tm_Stop m"] assms by (simp add: tm_Stop_def Send_def dispatch_def)

section \<open>Registering\<close>

lemma header_set: "Header (SetHeader n v m) k = (if EqualFold n k then v else Header m k)"
  by (simp add: Header_def SetHeader_def header_in_set)

lemma request_headers:
  assumes "buildRequest tag meth uri extra c = (req, c')" "extra = [] \<or> extra = [(''Authorization'', auth)]"
  shows "Header req ''CSeq'' = Itoa (cl_cseq c + 1) @ '' '' @ meth" "Header req ''Call-ID'' = cl_callID c"
    "Header req ''Authorization'' = (if extra = [] then [] else auth)" "Method req = meth" "RequestURI req = uri"
    "c' = c\<lparr>cl_cseq := cl_cseq c + 1\<rparr>"
proof -
  have ne: "\<not> EqualFold a b" if "(a, b) \<in> set [(''From'', ''CSeq''), (''To'', ''CSeq''), (''Call-ID'', ''CSeq''), (''Contact'', ''CSeq''),
      (''Max-Forwards'', ''CSeq''), (''User-Agent'', ''CSeq''), (''Authorization'', ''CSeq''), (''From'', ''Call-ID''), (''To'', ''Call-ID''),
      (''CSeq'', ''Call-ID''), (''Contact'', ''Call-ID''), (''Max-Forwards'', ''Call-ID''), (''User-Agent'', ''Call-ID''),
      (''Authorization'', ''Call-ID''), (''From'', ''Authorization''), (''To'', ''Authorization''), (''Call-ID'', ''Authorization''),
      (''CSeq'', ''Authorization''), (''Contact'', ''Authorization''), (''Max-Forwards'', ''Authorization''), (''User-Agent'', ''Authorization'')]" for a b
    using that by (auto simp: EqualFold_def ToLower_def lower_char_def)
  have same: "EqualFold a a" for a by (simp add: EqualFold_def)
  have bare: "Header (empty_msg\<lparr>Method := x, RequestURI := y\<rparr>) k = []" for x y k by (simp add: Header_def empty_msg_def)
  show "Header req ''CSeq'' = Itoa (cl_cseq c + 1) @ '' '' @ meth" "Header req ''Call-ID'' = cl_callID c"
    "Header req ''Authorization'' = (if extra = [] then [] else auth)"
    using assms by (auto simp: buildRequest_def Let_def header_set ne same bare)
  show "Method req = meth" "RequestURI req = uri" "c' = c\<lparr>cl_cseq := cl_cseq c + 1\<rparr>"
    using assms by (auto simp: buildRequest_def Let_def SetHeader_def)
qed

text \<open>Registering with a challenge.  A REGISTER that is answered 401 is repeated once, in the same call and with the
  next sequence number, with the digest of the configured credentials for the challenge; the result is
  the answer to the second request, and the first carried no credentials.\<close>

theorem register_answers_challenge:
  assumes "\<not> cl_closed c" "StatusCode resp = 401" "ParseChallenge (Header resp ''WWW-Authenticate'') = Inr ch"
  shows "\<exists>req retry. SendRegister tag tag' (\<lambda>n _. Inr (if n = 0 then resp else final)) c =
      (Inr (StatusCode final, Reason final), [req, retry], c\<lparr>cl_cseq := cl_cseq c + 2\<rparr>) \<and>
    Header req ''Authorization'' = [] \<and>
    Header retry ''Authorization'' =
      BuildAuthorization ch \<lparr>cr_Username = cc_Username (cl_cfg c), cr_Password = cc_Password (cl_cfg c)\<rparr> ''REGISTER'' (''sip:'' @ cc_Domain (cl_cfg c)) \<and>
    Header req ''Call-ID'' = cl_callID c \<and> Header retry ''Call-ID'' = cl_callID c \<and>
    Header req ''CSeq'' = Itoa (cl_cseq c + 1) @ '' REGISTER'' \<and> Header retry ''CSeq'' = Itoa (cl_cseq c + 2) @ '' REGISTER''"
proof -
  let ?uri = "''sip:'' @ cc_Domain (cl_cfg c)"
  let ?auth = "BuildAuthorization ch \<lparr>cr_Username = cc_Username (cl_cfg c), cr_Password = cc_Password (cl_cfg c)\<rparr> ''REGISTER'' ?uri"
  obtain req d where req: "buildRequest tag ''REGISTER'' ?uri [] c = (req, d)" by fastforce
  note r = request_headers [OF req, where auth = "[]"]
  have d: "d = c\<lparr>cl_cseq := cl_cseq c + 1\<rparr>" using r(6) by simp
  obtain retry e where retry: "buildRequest tag' ''REGISTER'' ?uri [(''Authorization'', ?auth)] d = (retry, e)" by fastforce
  note q = request_headers [OF retry, where auth = ?auth]
  have "SendRegister tag tag' (\<lambda>n _. Inr (if n = 0 then resp else final)) c = (Inr (StatusCode final, Reason final), [req, retry], e)"
    using assms req retry by (simp add: SendRegister_def Let_def d)
  then show ?thesis using r q d by (auto simp: add.assoc)
qed

section \<open>A concrete exchange\<close>

definition demo_request :: Message where
  "demo_request = empty_msg\<lparr>Method := ''OPTIONS'', RequestURI := ''sip:pbx''\<rparr>"

definition demo_via :: header where
  "demo_via = \<lparr>Name = ''Via'', Value = ''SIP/2.0/UDP 192.0.2.5:5060;branch=z9hG4bK1''\<rparr>"

definition demo_ok :: Message where
  "demo_ok = empty_msg\<lparr>StatusCode := 200, Reason := ''OK'', headers := [demo_via]\<rparr>"

definition demo_resp :: Message where
  "demo_resp = demo_ok\<lparr>headers := [demo_via, \<lparr>Name = ''Content-Length'', Value = ''0''\<rparr>]\<rparr>"

lemma demo_parsed: "msg_Parse (Receive (msg_Bytes demo_ok)) = Inr demo_resp"
proof -
  have d: "Itoa 0 = ''0''" "Itoa 200 = ''200''" "ToLower ''Via'' = ''via''" by code_simp+
  have "wf_msg demo_ok"
    by (simp add: wf_msg_def demo_ok_def demo_via_def IsResponse_def wf_header_def trimmed_def is_space_def empty_msg_def)
  then have "msg_Parse (msg_Bytes demo_ok) = Inr demo_resp"
    using parse_Bytes [of demo_ok] d by (simp add: wire_headers_def cl_header_def is_cl_def demo_resp_def demo_ok_def demo_via_def empty_msg_def)
  moreover have "length (msg_Bytes demo_ok) < maxSIPMessageSize"
    using d by (simp add: msg_Bytes_def start_line_def header_line_def is_cl_def demo_ok_def demo_via_def empty_msg_def CRLF_def IsResponse_def maxSIPMessageSize_def)
  ultimately show ?thesis by (simp add: Receive_def)
qed

lemma demo_resp_facts: "IsResponse demo_resp" "Header demo_resp ''Via'' = ''SIP/2.0/UDP 192.0.2.5:5060;branch=z9hG4bK1''"
  by code_simp+

lemma demo_sent: "ViaBranch demo_request = []" "branch_ok ''z9hG4bK1''" "CHR ''='' \<notin> set ''192.0.2.5''"
  by (simp_all add: ViaBranch_def demo_request_def Header_def empty_msg_def branch_ok_def)

definition demo_tx_events :: "tm_event list" where
  "demo_tx_events =
     [DoSend ''z9hG4bK1'' ''192.0.2.5'' 5060 True demo_request, Datagram (msg_Bytes demo_ok), Wake 0 GotResponse]"

theorem send_returns_answer_witness:
  "tm_returned (fold tm_step demo_tx_events NewTransactionManager) = [(Some 0, Response demo_resp)]"
proof -
  let ?m = NewTransactionManager
  have f: "\<not> tm_stopped ?m" "tm_reading ?m" "shape ?m" "tm_waits ?m = []" "tm_txs ?m = []" "tm_returned ?m = []"
    by (simp_all add: NewTransactionManager_def shape_def)
  obtain req' where w: "with_branch ''z9hG4bK1'' ''192.0.2.5'' 5060 demo_request = (''z9hG4bK1'', req')"
    using demo_sent(1) by (simp add: with_branch_def)
  have i: "Itoa 5060 = ''5060''" by code_simp
  have via: "Header demo_resp ''Via'' = Header req' ''Via''"
    unfolding with_branch_via(2) [OF demo_sent(1) w demo_sent(3,2)] i demo_resp_facts(2) by simp
  show ?thesis
    using send_returns_answer [OF f(1-3) demo_sent w _ demo_parsed demo_resp_facts(1) via, of 0] f(4-6)
    unfolding demo_tx_events_def by simp
qed

theorem responses_in_order_witness:
  "let m = fold tm_step demo_tx_events NewTransactionManager
   in length (tm_txs m) = 1 \<and> subseq (returned_to 0 (tm_returned m) @ px_respCh (tm_txs m ! 0)) (answers ''z9hG4bK1'' demo_tx_events) \<and>
      answers ''z9hG4bK1'' demo_tx_events = [demo_resp]"
proof -
  have v: "ViaBranch demo_resp = ''z9hG4bK1''"
    by (rule via_branch [where pre = "''SIP/2.0/UDP 192.0.2.5:5060''"]) (simp_all add: demo_sent demo_resp_facts)
  have a: "answers ''z9hG4bK1'' demo_tx_events = [demo_resp]"
    using demo_parsed demo_resp_facts v by (simp add: demo_tx_events_def)
  obtain req' where w: "with_branch ''z9hG4bK1'' ''192.0.2.5'' 5060 demo_request = (''z9hG4bK1'', req')"
    using demo_sent(1) by (simp add: with_branch_def)
  have t: "length (tm_txs (fold tm_step demo_tx_events NewTransactionManager)) = 1"
    "px_branch (tm_txs (fold tm_step demo_tx_events NewTransactionManager) ! 0) = ''z9hG4bK1''"
    unfolding demo_tx_events_def using v demo_parsed demo_resp_facts(1)
    by (simp_all add: w NewTransactionManager_def Send_def Let_def read_datagram_def dispatch_def respCh_size_def wake_def returns_def unwait_def)
  show ?thesis using responses_in_order [of 0 demo_tx_events] t a by (simp add: Let_def)
qed

theorem stop_releases_callers_witness:
  "tm_waits (fold tm_step [Wake 0 ManagerDone] (tm_Stop (NewTransactionManager\<lparr>tm_waits := [InRead 0]\<rparr>))) = []"
  using stop_releases_callers [of "NewTransactionManager\<lparr>tm_waits := [InRead 0]\<rparr>"] by (simp add: NewTransactionManager_def)

definition demo_401 :: Message where
  "demo_401 = SetHeader ''WWW-Authenticate'' (buildWWWAuthenticate ''0a1b'') (empty_msg\<lparr>StatusCode := 401, Reason := ''Unauthorized''\<rparr>)"

definition demo_sip_client :: sip_client where
  "demo_sip_client =
     \<lparr>cl_cfg = \<lparr>cc_Username = ''alice'', cc_Password = ''pw'', cc_Domain = ''pbx.local''\<rparr>, cl_localIP = ''192.0.2.5'', cl_localPort = 5060,
       cl_cseq = 0, cl_callID = ''z9hG4bKcall'', cl_closed = False\<rparr>"

theorem register_answers_challenge_witness:
  "\<exists>req retry. SendRegister ''t1'' ''t2'' (\<lambda>n _. Inr (if n = 0 then demo_401 else demo_resp)) demo_sip_client =
      (Inr (StatusCode demo_resp, Reason demo_resp), [req, retry], demo_sip_client\<lparr>cl_cseq := 2\<rparr>) \<and>
    Header retry ''CSeq'' = Itoa 2 @ '' REGISTER''"
proof -
  have "\<not> cl_closed demo_sip_client" "StatusCode demo_401 = 401" "cl_cseq demo_sip_client = 0"
    by (simp_all add: demo_sip_client_def demo_401_def SetHeader_def empty_msg_def)
  moreover have "isl (ParseChallenge (Header demo_401 ''WWW-Authenticate'')) = False" by code_simp
  moreover from this obtain ch where "ParseChallenge (Header demo_401 ''WWW-Authenticate'') = Inr ch"
    by (cases "ParseChallenge (Header demo_401 ''WWW-Authenticate'')") simp_all
  ultimately show ?thesis
    using register_answers_challenge [of demo_sip_client demo_401 ch "''t1''" "''t2''" demo_resp] by auto
qed

end
