(* ===== verification/Dialogs.thy ===== *)
theory Dialogs
  imports UserAgent
begin

text \<open>
  The dialog adapters of \<open>sipgo_dialog.go\<close> and the SIP observer of \<open>sip_observer.go\<close>.  A message of the SIP
  library is a record of what its accessors answer; a session is a record of what its methods answer at
  an instant of the clock, among it the request as \<open>Do\<close> and \<open>WriteRequest\<close> leave it, with the dialog headers
  filled in, and the messages the transport receives meanwhile.  The world the adapters act on is the clock,
  the calls of the observer, the callbacks run and, for the statements, the messages that crossed the wire
  in their order.  The stub dialog of \<open>xphone.go\<close>, which only remembers what it was
  asked, is a record of its fields.
\<close>

section \<open>Messages of the SIP library\<close>

datatype msg_kind = Request string | Response int string

record sip_msg =
  sm_kind :: msg_kind
  sm_Transport :: string
  sm_CallID :: "string option"
  sm_From :: "string option"
  sm_To :: "string option"
  sm_CSeq :: "(string \<times> string) option"
  sm_Contact :: "sip_Uri option"
  sm_Recipient :: sip_Uri
  sm_Headers :: "(string \<times> string) list"
  sm_GetHeaders :: "string \<Rightarrow> string list"

section \<open>Canonical header names (\<open>net/textproto\<close>)\<close>

definition is_lower :: "char \<Rightarrow> bool" where
  "is_lower c \<longleftrightarrow> (97 :: nat) \<le> of_char c \<and> of_char c \<le> (122 :: nat)"

definition is_upper :: "char \<Rightarrow> bool" where
  "is_upper c \<longleftrightarrow> (65 :: nat) \<le> of_char c \<and> of_char c \<le> (90 :: nat)"

definition validHeaderFieldByte :: "char \<Rightarrow> bool" where
  "validHeaderFieldByte c \<longleftrightarrow>
     is_lower c \<or> is_upper c \<or> (48 :: nat) \<le> of_char c \<and> of_char c \<le> (57 :: nat)
     \<or> c \<in> set ''!#$%&*+-.^_|~'' \<or> c = CHR 0x27 \<or> c = CHR 0x60"

fun recase :: "bool \<Rightarrow> string \<Rightarrow> string" where
  "recase upper [] = []"
| "recase upper (c # s) =
     (let c' = (if upper then upper_char c else lower_char c) in c' # recase (c' = CHR ''-'') s)"

definition CanonicalMIMEHeaderKey :: "string \<Rightarrow> string" where
  "CanonicalMIMEHeaderKey s = (if list_all validHeaderFieldByte s then recase True s else s)"

section \<open>The observer\<close>

datatype SIPDirection = SIPInbound | SIPOutbound

record SIPMessage =
  so_Direction :: SIPDirection
  so_IsResponse :: bool
  so_Method :: string
  so_StatusCode :: int
  so_Reason :: string
  so_From :: string
  so_To :: string
  so_CallID :: string
  so_CSeq :: string
  so_Transport :: string
  so_Timestamp :: nat
  so_Headers :: "string \<rightharpoonup> string"

definition redactedValue :: string where "redactedValue = ''REDACTED''"

definition credentialHeaders :: "string \<Rightarrow> bool" where
  "credentialHeaders n \<longleftrightarrow> n = ''authorization'' \<or> n = ''proxy-authorization''"

text \<open>The body of the loop over the headers.\<close>

definition observe_header :: "string \<times> string \<Rightarrow> (string \<rightharpoonup> string) \<Rightarrow> string \<rightharpoonup> string" where
  "observe_header h m =
     (let name = CanonicalMIMEHeaderKey (fst h);
          val = (if credentialHeaders (ToLower name) then redactedValue else snd h)
      in case m name of
           Some existing \<Rightarrow> m(name \<mapsto> existing @ '', '' @ val)
         | None \<Rightarrow> m(name \<mapsto> val))"

definition buildSIPMessage :: "sip_msg \<Rightarrow> SIPDirection \<Rightarrow> nat \<Rightarrow> SIPMessage" where
  "buildSIPMessage msg dir now =
     \<lparr>so_Direction = dir,
      so_IsResponse = (case sm_kind msg of Request _ \<Rightarrow> False | Response _ _ \<Rightarrow> True),
      so_Method = (case sm_kind msg of
                     Request meth \<Rightarrow> meth
                   | Response _ _ \<Rightarrow> (case sm_CSeq msg of Some (_, meth) \<Rightarrow> meth | None \<Rightarrow> [])),
      so_StatusCode = (case sm_kind msg of Request _ \<Rightarrow> 0 | Response code _ \<Rightarrow> code),
      so_Reason = (case sm_kind msg of Request _ \<Rightarrow> [] | Response _ reason \<Rightarrow> reason),
      so_From = case_option [] id (sm_From msg),
      so_To = case_option [] id (sm_To msg),
      so_CallID = case_option [] id (sm_CallID msg),
      so_CSeq = case_option [] fst (sm_CSeq msg),
      so_Transport = sm_Transport msg,
      so_Timestamp = now,
      so_Headers = fold observe_header (sm_Headers msg) Map.empty\<rparr>"

section \<open>Dialogs over a session\<close>

text \<open>A request as the adapters build it: \<open>NewRequest\<close>, \<open>AppendHeader\<close>, \<open>SetBody\<close>.\<close>

record out_req =
  or_Method :: string
  or_Recipient :: sip_Uri
  or_Headers :: "(string \<times> string) list"
  or_Body :: string

text \<open>What the session answers: the messages received while \<open>Do\<close> blocks, each with its delay, how long the
  call blocks, the request as it leaves it, and the result.
  \<open>Do\<close> returns an error, or a response that may be nil: its status code and what \<open>IsSuccess\<close> answers.\<close>

datatype do_result = DoError string | DoResponse "(int \<times> bool) option"

record dlg_session =
  s_Do :: "nat \<Rightarrow> out_req \<Rightarrow> (nat \<times> sip_msg) list \<times> nat \<times> sip_msg \<times> do_result"
  s_WriteRequest :: "nat \<Rightarrow> out_req \<Rightarrow> nat \<times> sip_msg \<times> string option"
  s_Bye :: "nat \<Rightarrow> nat \<times> string option"
  s_Respond :: "nat \<Rightarrow> int \<Rightarrow> string \<Rightarrow> string \<Rightarrow> (string \<times> string) list \<Rightarrow> nat \<times> string option"

record dialogBase =
  d_sess :: dlg_session
  d_invite :: "sip_msg option"
  d_response :: "sip_msg option"
  d_onNotify :: "nat option"
  d_observer :: bool

record dlg_world =
  w_clock :: nat
  w_wire :: "(nat \<times> SIPDirection \<times> sip_msg) list"
  w_seen :: "SIPMessage list"
  w_notified :: "(nat \<times> int) list"

datatype dlg_result = DlgOk | DlgError string | DlgInvalidState | DlgInvalidDigit | DlgPanic

definition emitSIP :: "bool \<Rightarrow> sip_msg \<Rightarrow> SIPDirection \<Rightarrow> dlg_world \<Rightarrow> dlg_world" where
  "emitSIP obs msg dir w =
     (if \<not> obs then w else w\<lparr>w_seen := w_seen w @ [buildSIPMessage msg dir (w_clock w)]\<rparr>)"

definition observeAt :: "dialogBase \<Rightarrow> sip_msg \<Rightarrow> nat \<Rightarrow> dlg_world \<Rightarrow> dlg_world" where
  "observeAt d msg t w =
     (if \<not> d_observer d then w else w\<lparr>w_seen := w_seen w @ [buildSIPMessage msg SIPOutbound t]\<rparr>)"

definition observe :: "dialogBase \<Rightarrow> sip_msg \<Rightarrow> dlg_world \<Rightarrow> dlg_world" where
  "observe d msg w = emitSIP (d_observer d) msg SIPOutbound w"

definition on_wire :: "SIPDirection \<Rightarrow> sip_msg \<Rightarrow> dlg_world \<Rightarrow> dlg_world" where
  "on_wire dir msg w = w\<lparr>w_wire := w_wire w @ [(w_clock w, dir, msg)]\<rparr>"

text \<open>The hook the transport runs on every message it receives.\<close>

definition receive :: "bool \<Rightarrow> nat \<Rightarrow> nat \<times> sip_msg \<Rightarrow> dlg_world \<Rightarrow> dlg_world" where
  "receive obs t0 r w = emitSIP obs (snd r) SIPInbound (on_wire SIPInbound (snd r) (w\<lparr>w_clock := t0 + fst r\<rparr>))"

text \<open>\<open>None\<close> is the nil dereference of a missing INVITE.\<close>

definition remoteTarget :: "dialogBase \<Rightarrow> sip_Uri option" where
  "remoteTarget d =
     (case Option.bind (d_response d) sm_Contact of
        Some a \<Rightarrow> Some a
      | None \<Rightarrow>
          (case d_invite d of
             None \<Rightarrow> None
           | Some invite \<Rightarrow> (case sm_Contact invite of Some a \<Rightarrow> Some a | None \<Rightarrow> Some (sm_Recipient invite))))"

text \<open>The common part of the request helpers: hand the request to \<open>Do\<close>, then show it to the observer with the
  instant it was sent.\<close>

definition do_observed :: "dialogBase \<Rightarrow> out_req \<Rightarrow> dlg_world \<Rightarrow> do_result \<times> dlg_world" where
  "do_observed d req w =
     (let sentAt = w_clock w;
          (inbound, dt, msg, res) = s_Do (d_sess d) sentAt req;
          w = fold (receive (d_observer d) sentAt) inbound (on_wire SIPOutbound msg w)
      in (res, observeAt d msg sentAt (w\<lparr>w_clock := sentAt + dt\<rparr>)))"

definition write_observed :: "dialogBase \<Rightarrow> out_req \<Rightarrow> dlg_world \<Rightarrow> string option \<times> dlg_world" where
  "write_observed d req w =
     (let (dt, msg, err) = s_WriteRequest (d_sess d) (w_clock w) req
      in (err, observe d msg (on_wire SIPOutbound msg (w\<lparr>w_clock := w_clock w + dt\<rparr>))))"

definition dlg_SendBye :: "dialogBase \<Rightarrow> dlg_world \<Rightarrow> dlg_result \<times> dlg_world" where
  "dlg_SendBye d w =
     (let (dt, err) = s_Bye (d_sess d) (w_clock w)
      in (case err of None \<Rightarrow> DlgOk | Some e \<Rightarrow> DlgError e, w\<lparr>w_clock := w_clock w + dt\<rparr>))"

definition contentTypeSDP :: string where "contentTypeSDP = ''application/sdp''"
definition contentTypeDTMFRelay :: string where "contentTypeDTMFRelay = ''application/dtmf-relay''"

definition dlg_SendReInvite :: "dialogBase \<Rightarrow> string \<Rightarrow> dlg_world \<Rightarrow> dlg_result \<times> dlg_world" where
  "dlg_SendReInvite d sdpBody w =
     (case remoteTarget d of
        None \<Rightarrow> (DlgPanic, w)
      | Some target \<Rightarrow>
          let req = \<lparr>or_Method = ''INVITE'', or_Recipient = target,
                     or_Headers = (if sdpBody \<noteq> [] then [(''Content-Type'', contentTypeSDP)] else []), or_Body = sdpBody\<rparr>
          in (case do_observed d req w of
                (DoError e, w) \<Rightarrow> (DlgError e, w)
              | (DoResponse None, w) \<Rightarrow> (DlgPanic, w)
              | (DoResponse (Some (code, isSuccess)), w) \<Rightarrow>
                  if \<not> isSuccess then (DlgError (''re-INVITE rejected: '' @ Itoa code), w)
                  else let ack = \<lparr>or_Method = ''ACK'', or_Recipient = target, or_Headers = [], or_Body = []\<rparr>
                       in (case write_observed d ack w of
                             (Some e, w) \<Rightarrow> (DlgError (''send ACK: '' @ e), w)
                           | (None, w) \<Rightarrow> (DlgOk, w))))"

definition do_only :: "dialogBase \<Rightarrow> out_req \<Rightarrow> dlg_world \<Rightarrow> dlg_result \<times> dlg_world" where
  "do_only d req w =
     (case do_observed d req w of (DoError e, w) \<Rightarrow> (DlgError e, w) | (DoResponse _, w) \<Rightarrow> (DlgOk, w))"

definition dlg_SendRefer :: "dialogBase \<Rightarrow> string \<Rightarrow> dlg_world \<Rightarrow> dlg_result \<times> dlg_world" where
  "dlg_SendRefer d target w =
     (case remoteTarget d of
        None \<Rightarrow> (DlgPanic, w)
      | Some uri \<Rightarrow>
          do_only d \<lparr>or_Method = ''REFER'', or_Recipient = uri, or_Headers = [(''Refer-To'', target)], or_Body = []\<rparr> w)"

definition dlg_SendInfoDTMF :: "dialogBase \<Rightarrow> string \<Rightarrow> int \<Rightarrow> dlg_world \<Rightarrow> dlg_result \<times> dlg_world" where
  "dlg_SendInfoDTMF d digit duration w =
     (case EncodeInfoDTMF digit duration of
        None \<Rightarrow> (DlgInvalidDigit, w)
      | Some body \<Rightarrow>
          (case remoteTarget d of
             None \<Rightarrow> (DlgPanic, w)
           | Some uri \<Rightarrow>
               do_only d \<lparr>or_Method = ''INFO'', or_Recipient = uri,
                 or_Headers = [(''Content-Type'', contentTypeDTMFRelay)], or_Body = body\<rparr> w))"

text \<open>A callback is named by a number.\<close>

definition dlg_OnNotify :: "nat \<Rightarrow> dialogBase \<Rightarrow> dialogBase" where
  "dlg_OnNotify fn d = d\<lparr>d_onNotify := Some fn\<rparr>"

definition dlg_FireNotify :: "dialogBase \<Rightarrow> int \<Rightarrow> dlg_world \<Rightarrow> dlg_world" where
  "dlg_FireNotify d code w =
     (case d_onNotify d of None \<Rightarrow> w | Some fn \<Rightarrow> w\<lparr>w_notified := w_notified w @ [(fn, code)]\<rparr>)"

definition dlg_CallID :: "dialogBase \<Rightarrow> string option" where
  "dlg_CallID d = map_option (\<lambda>invite. case_option [] id (sm_CallID invite)) (d_invite d)"

definition dlg_Header :: "dialogBase \<Rightarrow> string \<Rightarrow> string list" where
  "dlg_Header d name =
     (let vals = (case d_response d of Some r \<Rightarrow> sm_GetHeaders r name | None \<Rightarrow> [])
      in if vals \<noteq> [] then vals
         else case d_invite d of Some invite \<Rightarrow> sm_GetHeaders invite name | None \<Rightarrow> [])"

definition add_header :: "string \<times> string \<Rightarrow> (string \<rightharpoonup> string list) \<Rightarrow> string \<rightharpoonup> string list" where
  "add_header h m = m(fst h \<mapsto> case_option [] id (m (fst h)) @ [snd h])"

definition add_header_if_absent :: "string \<times> string \<Rightarrow> (string \<rightharpoonup> string list) \<Rightarrow> string \<rightharpoonup> string list" where
  "add_header_if_absent h m = (if m (fst h) = None then add_header h m else m)"

definition dlg_Headers :: "dialogBase \<Rightarrow> string \<rightharpoonup> string list" where
  "dlg_Headers d =
     (let result = (case d_response d of Some r \<Rightarrow> fold add_header (sm_Headers r) Map.empty | None \<Rightarrow> Map.empty)
      in case d_invite d of Some invite \<Rightarrow> fold add_header_if_absent (sm_Headers invite) result | None \<Rightarrow> result)"

section \<open>The two sides of a call\<close>

text \<open>\<open>SendCancel\<close> runs the cancel function of the dial context; \<open>cancelled\<close> is whether it has run.\<close>

record sipgoDialogUAC = dialogBase +
  d_cancelFn :: bool
  d_cancelled :: bool

definition uac_Respond :: "sipgoDialogUAC \<Rightarrow> int \<Rightarrow> string \<Rightarrow> string \<Rightarrow> dlg_world \<Rightarrow> dlg_result \<times> dlg_world" where
  "uac_Respond d code reason body w = (DlgInvalidState, w)"

definition uac_SendCancel :: "sipgoDialogUAC \<Rightarrow> dlg_result \<times> sipgoDialogUAC" where
  "uac_SendCancel d = (if \<not> d_cancelFn d then (DlgInvalidState, d) else (DlgOk, d\<lparr>d_cancelled := True\<rparr>))"

definition uas_Respond :: "dialogBase \<Rightarrow> int \<Rightarrow> string \<Rightarrow> string \<Rightarrow> dlg_world \<Rightarrow> dlg_result \<times> dlg_world" where
  "uas_Respond d code reason body w =
     (let headers = (if body \<noteq> [] then [(''Content-Type'', contentTypeSDP)] else []);
          (dt, err) = s_Respond (d_sess d) (w_clock w) code reason body headers
      in (case err of None \<Rightarrow> DlgOk | Some e \<Rightarrow> DlgError e, w\<lparr>w_clock := w_clock w + dt\<rparr>))"

definition uas_SendCancel :: "dialogBase \<Rightarrow> dlg_result" where
  "uas_SendCancel d = DlgInvalidState"

section \<open>What happens to a dialog\<close>

datatype dlg_op =
    OpReInvite string
  | OpRefer string
  | OpInfo string int
  | OpBye
  | OpRespond int string string
  | OpNotify int
  | OpReceive nat sip_msg

fun dlg_step :: "dialogBase \<Rightarrow> dlg_op \<Rightarrow> dlg_world \<Rightarrow> dlg_result \<times> dlg_world" where
  "dlg_step d (OpReInvite sdp) w = dlg_SendReInvite d sdp w"
| "dlg_step d (OpRefer target) w = dlg_SendRefer d target w"
| "dlg_step d (OpInfo digit duration) w = dlg_SendInfoDTMF d digit duration w"
| "dlg_step d OpBye w = dlg_SendBye d w"
| "dlg_step d (OpRespond code reason body) w = uas_Respond d code reason body w"
| "dlg_step d (OpNotify code) w = (DlgOk, dlg_FireNotify d code w)"
| "dlg_step d (OpReceive dt msg) w = (DlgOk, receive (d_observer d) (w_clock w) (dt, msg) w)"

text \<open>A panic ends the program.\<close>

fun dlg_run :: "(dlg_op \<Rightarrow> 'w \<Rightarrow> dlg_result \<times> 'w) \<Rightarrow> dlg_op list \<Rightarrow> 'w \<Rightarrow> dlg_result list \<times> 'w" where
  "dlg_run step [] w = ([], w)"
| "dlg_run step (op # ops) w =
     (case step op w of
        (DlgPanic, w) \<Rightarrow> ([DlgPanic], w)
      | (r, w) \<Rightarrow> apfst (Cons r) (dlg_run step ops w))"

section \<open>The stub dialog of the phone\<close>

text \<open>A Go map is ranged over in some order: the list of its entries in that order, with distinct keys.\<close>

record phoneDialog =
  pd_callID :: string
  pd_headers :: "(string \<times> string list) list"
  pd_onNotify :: "nat option"
  pd_byeSent :: bool
  pd_cancelSent :: bool
  pd_referSent :: bool
  pd_infoSent :: bool
  pd_lastInfoDigit :: string
  pd_lastInfoDuration :: int
  pd_lastRespCode :: int
  pd_lastRespReason :: string
  pd_lastRespBody :: string
  pd_lastReInviteSDP :: string
  pd_lastReferTarget :: string

definition newPhoneDialog :: "string \<Rightarrow> phoneDialog" where
  "newPhoneDialog callID =
     \<lparr>pd_callID = callID, pd_headers = [], pd_onNotify = None, pd_byeSent = False, pd_cancelSent = False,
      pd_referSent = False, pd_infoSent = False, pd_lastInfoDigit = [], pd_lastInfoDuration = 0, pd_lastRespCode = 0,
      pd_lastRespReason = [], pd_lastRespBody = [], pd_lastReInviteSDP = [], pd_lastReferTarget = []\<rparr>"

definition pd_Respond :: "int \<Rightarrow> string \<Rightarrow> string \<Rightarrow> phoneDialog \<Rightarrow> phoneDialog" where
  "pd_Respond code reason body d = d\<lparr>pd_lastRespCode := code, pd_lastRespReason := reason, pd_lastRespBody := body\<rparr>"

definition pd_SendBye :: "phoneDialog \<Rightarrow> phoneDialog" where "pd_SendBye d = d\<lparr>pd_byeSent := True\<rparr>"
definition pd_SendCancel :: "phoneDialog \<Rightarrow> phoneDialog" where "pd_SendCancel d = d\<lparr>pd_cancelSent := True\<rparr>"

definition pd_SendReInvite :: "string \<Rightarrow> phoneDialog \<Rightarrow> phoneDialog" where
  "pd_SendReInvite sdp d = d\<lparr>pd_lastReInviteSDP := sdp\<rparr>"

definition pd_SendRefer :: "string \<Rightarrow> phoneDialog \<Rightarrow> phoneDialog" where
  "pd_SendRefer target d = d\<lparr>pd_referSent := True, pd_lastReferTarget := target\<rparr>"

definition pd_SendInfoDTMF :: "string \<Rightarrow> int \<Rightarrow> phoneDialog \<Rightarrow> phoneDialog" where
  "pd_SendInfoDTMF digit duration d = d\<lparr>pd_infoSent := True, pd_lastInfoDigit := digit, pd_lastInfoDuration := duration\<rparr>"

definition pd_OnNotify :: "nat \<Rightarrow> phoneDialog \<Rightarrow> phoneDialog" where "pd_OnNotify fn d = d\<lparr>pd_onNotify := Some fn\<rparr>"

definition pd_FireNotify :: "int \<Rightarrow> phoneDialog \<Rightarrow> (nat \<times> int) list" where
  "pd_FireNotify code d = (case pd_onNotify d of None \<Rightarrow> [] | Some fn \<Rightarrow> [(fn, code)])"

definition pd_Header :: "phoneDialog \<Rightarrow> string \<Rightarrow> string list" where
  "pd_Header d name = (case find (\<lambda>kv. ToLower (fst kv) = ToLower name) (pd_headers d) of Some (k, v) \<Rightarrow> v | None \<Rightarrow> [])"

definition pd_Headers :: "phoneDialog \<Rightarrow> string \<rightharpoonup> string list" where
  "pd_Headers d = map_of (pd_headers d)"

end
