(* ===== verification/DialogProps.thy ===== *)
theory DialogProps
  imports Dialogs
begin

text \<open>
  What the observer sees of a dialog: the header table it is given, that no credential reaches it, and
  that the time stamps put the events back in the order of the wire.  The interface \<open>timeline_step\<close> is
  what a step owes the observer; the operations of a dialog are an instance of it.
\<close>

section \<open>Canonical header names\<close>

lemma of_char_less_256 [simp]: "of_char c < (256 :: nat)"
  using of_char_mod_256 [of c, where ?'a = nat] by (metis mod_less_divisor zero_less_numeral)

lemma lower_upper_char [simp]: "lower_char (upper_char c) = lower_char c"
  using of_char_less_256 [of c] by (auto simp: lower_char_def upper_char_def Let_def)

lemma lower_lower_char [simp]: "lower_char (lower_char c) = lower_char c"
  using of_char_less_256 [of c] by (auto simp: lower_char_def Let_def)

lemma upper_lower_char [simp]: "upper_char (lower_char c) = upper_char c"
  using of_char_less_256 [of c] by (auto simp: lower_char_def upper_char_def Let_def)

lemma ToLower_recase [simp]: "ToLower (recase u s) = ToLower s"
  by (induction u s rule: recase.induct) (simp_all add: ToLower_def Let_def)

lemma ToLower_canonical [simp]: "ToLower (CanonicalMIMEHeaderKey s) = ToLower s"
  by (simp add: CanonicalMIMEHeaderKey_def)

lemma recase_ToLower: "recase u (ToLower s) = recase u s"
  by (induction s arbitrary: u) (simp_all add: ToLower_def Let_def)

text \<open>Names that differ only in case share one key of the observed table.\<close>

lemma canonical_eq_iff:
  assumes "list_all validHeaderFieldByte a" "list_all validHeaderFieldByte b"
  shows "CanonicalMIMEHeaderKey a = CanonicalMIMEHeaderKey b \<longleftrightarrow> EqualFold a b"
  using assms by (metis CanonicalMIMEHeaderKey_def EqualFold_def ToLower_canonical recase_ToLower)

section \<open>The header table of an observation\<close>

text \<open>The value of a header that an observer is shown.\<close>

definition shown :: "string \<times> string \<Rightarrow> string" where
  "shown h = (if credentialHeaders (ToLower (fst h)) then redactedValue else snd h)"

lemma observe_header_alt:
  "observe_header h m =
     m(CanonicalMIMEHeaderKey (fst h) \<mapsto>
         (case m (CanonicalMIMEHeaderKey (fst h)) of Some e \<Rightarrow> e @ '', '' @ shown h | None \<Rightarrow> shown h))"
  by (simp add: observe_header_def shown_def Let_def split: option.split)

lemma Join_snoc: "xs \<noteq> [] \<Longrightarrow> Join (xs @ [x]) sep = Join xs sep @ sep @ x"
  by (induction xs sep rule: Join.induct) auto

definition under_key :: "string \<Rightarrow> (string \<times> string) list \<Rightarrow> string list" where
  "under_key k hs = map shown (filter (\<lambda>h. CanonicalMIMEHeaderKey (fst h) = k) hs)"

lemma observe_headers_lookup:
  "fold observe_header hs Map.empty k = (if under_key k hs = [] then None else Some (Join (under_key k hs) '', ''))"
proof (induction hs rule: rev_induct)
  case Nil
  show ?case by (simp add: under_key_def)
next
  case (snoc h hs)
  show ?case
    using snoc.IH Join_snoc by (auto simp: observe_header_alt under_key_def split: option.split if_splits)
qed

text \<open>
  The table of an observation: under a canonical name, the values of all headers of that name in their
  order, joined by commas, a credential replaced by the mask; nothing under any other key.
\<close>

theorem observed_table_exact:
  "so_Headers (buildSIPMessage msg dir now) k =
     (let vs = [shown h. h \<leftarrow> sm_Headers msg, CanonicalMIMEHeaderKey (fst h) = k]
      in if vs = [] then None else Some (Join vs '', ''))"
proof -
  have "[shown h. h \<leftarrow> hs, CanonicalMIMEHeaderKey (fst h) = k] = under_key k hs" for hs
    by (induction hs) (auto simp: under_key_def)
  then show ?thesis by (simp add: buildSIPMessage_def observe_headers_lookup Let_def)
qed

section \<open>Credentials\<close>

text \<open>The messages, sessions and operations an observer cannot tell apart: equal once the credentials
  are blanked.\<close>

definition blank_header :: "string \<times> string \<Rightarrow> string \<times> string" where
  "blank_header h = (fst h, shown h)"

definition blank_msg :: "sip_msg \<Rightarrow> sip_msg" where
  "blank_msg m = m\<lparr>sm_Headers := map blank_header (sm_Headers m), sm_GetHeaders := (\<lambda>_. [])\<rparr>"

definition blank_session :: "dlg_session \<Rightarrow> dlg_session" where
  "blank_session s =
     s\<lparr>s_Do := (\<lambda>t req. case s_Do s t req of (inb, dt, m, r) \<Rightarrow> (map (apsnd blank_msg) inb, dt, blank_msg m, r)),
       s_WriteRequest := (\<lambda>t req. case s_WriteRequest s t req of (dt, m, r) \<Rightarrow> (dt, blank_msg m, r))\<rparr>"

definition blank_dialog :: "dialogBase \<Rightarrow> dialogBase" where
  "blank_dialog d = d\<lparr>d_sess := blank_session (d_sess d),
     d_invite := map_option blank_msg (d_invite d), d_response := map_option blank_msg (d_response d)\<rparr>"

fun blank_op :: "dlg_op \<Rightarrow> dlg_op" where
  "blank_op (OpReceive dt m) = OpReceive dt (blank_msg m)"
| "blank_op op = op"

lemma shown_blank [simp]: "shown (blank_header h) = shown h"
  by (simp add: shown_def blank_header_def)

lemma observe_blank_header [simp]: "observe_header (blank_header h) = observe_header h"
  by (rule ext) (simp add: observe_header_alt split: option.split, simp add: blank_header_def)

lemma fold_observe_blank [simp]: "fold observe_header (map blank_header hs) m = fold observe_header hs m"
  by (induction hs arbitrary: m) simp_all

lemma build_blank [simp]: "buildSIPMessage (blank_msg m) dir t = buildSIPMessage m dir t"
  by (simp add: buildSIPMessage_def blank_msg_def split: msg_kind.split option.split)

text \<open>Two worlds that differ in the messages on the wire only.\<close>

definition alike :: "dlg_world \<Rightarrow> dlg_world \<Rightarrow> bool" where
  "alike w v \<longleftrightarrow> w_clock w = w_clock v \<and> w_seen w = w_seen v \<and> w_notified w = w_notified v"

lemma alike_refl [simp]: "alike w w" by (simp add: alike_def)

lemma alike_clock: "alike w v \<Longrightarrow> alike (w\<lparr>w_clock := t\<rparr>) (v\<lparr>w_clock := t\<rparr>)"
  by (simp add: alike_def)

lemma alike_on_wire: "alike w v \<Longrightarrow> alike (on_wire dir m w) (on_wire dir' m' v)"
  by (simp add: alike_def on_wire_def)

lemma alike_emit: "alike w v \<Longrightarrow> alike (emitSIP b m dir w) (emitSIP b (blank_msg m) dir v)"
  by (simp add: alike_def emitSIP_def)

lemma alike_receive: "alike w v \<Longrightarrow> alike (receive b t r w) (receive b t (apsnd blank_msg r) v)"
  unfolding receive_def snd_apsnd fst_apsnd by (intro alike_emit alike_on_wire alike_clock)

lemma alike_receives:
  "alike w v \<Longrightarrow> alike (fold (receive b t) rs w) (fold (receive b t) (map (apsnd blank_msg) rs) v)"
  by (induction rs arbitrary: w v) (simp_all add: alike_receive)

lemma alike_observeAt:
  "alike w v \<Longrightarrow> alike (observeAt d m t w) (observeAt (blank_dialog d) (blank_msg m) t v)"
  by (simp add: alike_def observeAt_def blank_dialog_def)

lemma alike_observe: "alike w v \<Longrightarrow> alike (observe d m w) (observe (blank_dialog d) (blank_msg m) v)"
  unfolding observe_def by (simp add: blank_dialog_def alike_emit)

lemma blank_dialog_simps [simp]:
  "d_observer (blank_dialog d) = d_observer d" "d_onNotify (blank_dialog d) = d_onNotify d"
  "d_sess (blank_dialog d) = blank_session (d_sess d)"
  by (simp_all add: blank_dialog_def)

lemma remoteTarget_blank [simp]: "remoteTarget (blank_dialog d) = remoteTarget d"
  by (cases "d_response d"; cases "d_invite d") (simp_all add: remoteTarget_def blank_dialog_def blank_msg_def split: option.split)

text \<open>Results that agree: the same answer, in worlds that are alike.\<close>

definition agree :: "'r \<times> dlg_world \<Rightarrow> 'r \<times> dlg_world \<Rightarrow> bool" where
  "agree p q \<longleftrightarrow> fst p = fst q \<and> alike (snd p) (snd q)"

lemma agree_do:
  assumes "alike w v" shows "agree (do_observed d req w) (do_observed (blank_dialog d) req v)"
proof -
  obtain inb dt m r where do_eq: "s_Do (d_sess d) (w_clock w) req = (inb, dt, m, r)" by (metis prod_cases4)
  have "w_clock v = w_clock w" using assms by (simp add: alike_def)
  then show ?thesis
    using do_eq assms
    by (simp add: do_observed_def agree_def blank_session_def Let_def)
       (intro alike_observeAt alike_clock alike_receives alike_on_wire)
qed

lemma agree_write:
  assumes "alike w v" shows "agree (write_observed d req w) (write_observed (blank_dialog d) req v)"
proof -
  obtain dt m r where wr_eq: "s_WriteRequest (d_sess d) (w_clock w) req = (dt, m, r)" by (metis prod_cases3)
  have "w_clock v = w_clock w" using assms by (simp add: alike_def)
  then show ?thesis
    using wr_eq assms
    by (simp add: write_observed_def agree_def blank_session_def Let_def) (intro alike_observe alike_clock alike_on_wire)
qed

lemma agree_do_only:
  assumes "alike w v" shows "agree (do_only d req w) (do_only (blank_dialog d) req v)"
  using agree_do [OF assms, of d req]
  by (auto simp: do_only_def agree_def split: prod.splits do_result.splits)

lemma agree_reinvite:
  assumes "alike w v" shows "agree (dlg_SendReInvite d sdp w) (dlg_SendReInvite (blank_dialog d) sdp v)"
proof (cases "remoteTarget d")
  case None
  then show ?thesis using assms by (simp add: dlg_SendReInvite_def agree_def)
next
  case (Some target)
  define req where "req = \<lparr>or_Method = ''INVITE'', or_Recipient = target,
    or_Headers = (if sdp \<noteq> [] then [(''Content-Type'', contentTypeSDP)] else []), or_Body = sdp\<rparr>"
  define ack where "ack = \<lparr>or_Method = ''ACK'', or_Recipient = target, or_Headers = [], or_Body = []\<rparr>"
  obtain r w' where 1: "do_observed d req w = (r, w')" by fastforce
  then obtain v' where 2: "do_observed (blank_dialog d) req v = (r, v')" and al: "alike w' v'"
    using agree_do [OF assms, of d req] by (cases "do_observed (blank_dialog d) req v") (auto simp: agree_def)
  show ?thesis
    using agree_write [OF al, of d ack] al
    by (auto simp: dlg_SendReInvite_def Some 1 2 req_def [symmetric] ack_def [symmetric] agree_def
        split: prod.splits do_result.splits option.splits)
qed

lemma agree_step:
  assumes "alike w v" shows "agree (dlg_step d op w) (dlg_step (blank_dialog d) (blank_op op) v)"
proof (cases op)
  case (OpReInvite sdp)
  then show ?thesis using agree_reinvite [OF assms] by simp
next
  case (OpRefer target)
  then show ?thesis using agree_do_only [OF assms] assms
    by (simp add: dlg_SendRefer_def agree_def split: option.split)
next
  case (OpInfo digit dur)
  then show ?thesis using agree_do_only [OF assms] assms
    by (simp add: dlg_SendInfoDTMF_def agree_def split: option.split)
next
  case OpBye
  then show ?thesis using assms
    by (auto simp: dlg_SendBye_def agree_def alike_def blank_session_def split: prod.splits option.splits)
next
  case (OpRespond code reason body)
  then show ?thesis using assms
    by (auto simp: uas_Respond_def agree_def alike_def blank_session_def split: prod.splits option.splits)
next
  case (OpNotify code)
  then show ?thesis using assms by (simp add: dlg_FireNotify_def agree_def alike_def split: option.split)
next
  case (OpReceive dt m)
  have "w_clock v = w_clock w" using assms by (simp add: alike_def)
  then show ?thesis using alike_receive [OF assms, of "d_observer d" "w_clock w" "(dt, m)"]
    by (simp add: OpReceive agree_def)
qed

lemma agree_run:
  "alike w v \<Longrightarrow> agree (dlg_run (dlg_step d) ops w) (dlg_run (dlg_step (blank_dialog d)) (map blank_op ops) v)"
proof (induction ops arbitrary: w v)
  case Nil
  then show ?case by (simp add: agree_def)
next
  case (Cons op ops)
  obtain r w' where 1: "dlg_step d op w = (r, w')" by fastforce
  then obtain v' where 2: "dlg_step (blank_dialog d) (blank_op op) v = (r, v')" and "alike w' v'"
    using agree_step [OF Cons.prems, of d op]
    by (cases "dlg_step (blank_dialog d) (blank_op op) v") (auto simp: agree_def)
  then show ?case using Cons.IH [of w' v'] by (cases r) (auto simp: 1 2 agree_def)
qed


text \<open>A dialog whose requests carry a login, and two logins.\<close>

definition demo_uri :: sip_Uri where
  "demo_uri = \<lparr>uri_Scheme = ''sip'', uri_User = ''bob'', uri_Host = ''pbx'', uri_Port = 5060\<rparr>"

definition demo_out :: "string \<Rightarrow> string \<Rightarrow> sip_msg" where
  "demo_out meth login =
     \<lparr>sm_kind = Request meth, sm_Transport = ''udp'', sm_CallID = Some ''c1'', sm_From = Some ''a'', sm_To = Some ''b'',
      sm_CSeq = Some (''2 '' @ meth, meth), sm_Contact = None, sm_Recipient = demo_uri,
      sm_Headers = [(''Via'', ''v1''), (''PROXY-authorization'', login), (''via'', ''v2'')], sm_GetHeaders = (\<lambda>_. [])\<rparr>"

definition demo_in :: sip_msg where
  "demo_in = (demo_out [] [])\<lparr>sm_kind := Response 200 ''OK'', sm_CSeq := Some (''2 INVITE'', ''INVITE''), sm_Headers := []\<rparr>"

definition demo_dialog :: "string \<Rightarrow> dialogBase" where
  "demo_dialog login =
     \<lparr>d_sess = \<lparr>s_Do = (\<lambda>t req. ([(3, demo_in)], 4, demo_out (or_Method req) login, DoResponse (Some (200, True)))),
                 s_WriteRequest = (\<lambda>t req. (1, demo_out (or_Method req) login, None)),
                 s_Bye = (\<lambda>t. (1, None)), s_Respond = (\<lambda>t code reason body hs. (1, None))\<rparr>,
      d_invite = Some (demo_out ''INVITE'' []), d_response = None, d_onNotify = None, d_observer = True\<rparr>"

definition start_world :: "nat \<Rightarrow> dlg_world" where
  "start_world t = \<lparr>w_clock = t, w_wire = [], w_seen = [], w_notified = []\<rparr>"

lemma blank_demo_out: "blank_msg (demo_out meth login) = blank_msg (demo_out meth login')"
proof -
  have "credentialHeaders (ToLower ''PROXY-authorization'')" by code_simp
  then show ?thesis by (simp add: blank_msg_def demo_out_def blank_header_def shown_def)
qed


section \<open>Time stamps\<close>

lemma insort_key_append:
  "\<forall>y\<in>set ys. f x \<le> f y \<Longrightarrow> insort_key f x (xs @ ys) = insort_key f x xs @ ys"
  by (induction xs) (auto simp: insort_is_Cons)

lemma sort_key_append:
  "\<forall>x\<in>set xs. \<forall>y\<in>set ys. f x \<le> f y \<Longrightarrow> sort_key f (xs @ ys) = sort_key f xs @ sort_key f ys"
  by (induction xs) (simp_all add: insort_key_append)

lemma sort_key_late_head:
  "sorted (map f xs) \<Longrightarrow> \<forall>x\<in>set xs. f y < f x \<Longrightarrow> sort_key f (xs @ [y]) = y # xs"
  by (induction xs) (auto simp: insort_is_Cons)

definition snap :: "nat \<times> SIPDirection \<times> sip_msg \<Rightarrow> SIPMessage" where
  "snap e = buildSIPMessage (snd (snd e)) (fst (snd e)) (fst e)"

lemma so_Timestamp_snap [simp]: "so_Timestamp (snap e) = fst e"
  by (simp add: snap_def buildSIPMessage_def)

lemma so_Timestamp_build [simp]: "so_Timestamp (buildSIPMessage m dir t) = t"
  by (simp add: buildSIPMessage_def)

text \<open>From \<open>w\<close> to \<open>w'\<close> the wire gained entries in order, all between the two clocks, and the observer the
  same entries up to their order.\<close>

definition timely :: "dlg_world \<Rightarrow> dlg_world \<Rightarrow> bool" where
  "timely w w' \<longleftrightarrow>
     (\<exists>W E. w_wire w' = w_wire w @ W \<and> w_seen w' = w_seen w @ E \<and> w_clock w \<le> w_clock w'
        \<and> (\<forall>x\<in>set W. w_clock w \<le> fst x \<and> fst x \<le> w_clock w')
        \<and> sorted (map fst W) \<and> sort_key so_Timestamp E = map snap W)"

lemma timelyI:
  assumes "w_wire w' = w_wire w @ W" "w_seen w' = w_seen w @ E" "w_clock w \<le> w_clock w'"
    "\<And>x. x \<in> set W \<Longrightarrow> w_clock w \<le> fst x \<and> fst x \<le> w_clock w'" "sorted (map fst W)" "sort_key so_Timestamp E = map snap W"
  shows "timely w w'"
  unfolding timely_def using assms by blast

lemma timely_quiet:
  "w_wire w' = w_wire w \<Longrightarrow> w_seen w' = w_seen w \<Longrightarrow> w_clock w \<le> w_clock w' \<Longrightarrow> timely w w'"
  by (rule timelyI [of _ _ "[]" "[]"]) simp_all

lemma timely_refl [simp]: "timely w w"
  by (rule timely_quiet) simp_all

lemma timely_one:
  "w_wire w' = w_wire w @ [e] \<Longrightarrow> w_seen w' = w_seen w @ [snap e] \<Longrightarrow> w_clock w \<le> fst e \<Longrightarrow> fst e = w_clock w'
   \<Longrightarrow> timely w w'"
  by (rule timelyI [of _ _ "[e]" "[snap e]"]) simp_all

lemma set_sort_key_snap: "sort_key so_Timestamp E = map snap W \<Longrightarrow> set E = snap ` set W"
  by (metis list.set_map set_sort)

lemma timely_trans:
  assumes "timely u v" "timely v w" shows "timely u w"
proof -
  obtain W E where 1: "w_wire v = w_wire u @ W" "w_seen v = w_seen u @ E" "w_clock u \<le> w_clock v"
    "\<forall>x\<in>set W. w_clock u \<le> fst x \<and> fst x \<le> w_clock v" "sorted (map fst W)" "sort_key so_Timestamp E = map snap W"
    using assms(1) unfolding timely_def by blast
  obtain X F where 2: "w_wire w = w_wire v @ X" "w_seen w = w_seen v @ F" "w_clock v \<le> w_clock w"
    "\<forall>x\<in>set X. w_clock v \<le> fst x \<and> fst x \<le> w_clock w" "sorted (map fst X)" "sort_key so_Timestamp F = map snap X"
    using assms(2) unfolding timely_def by blast
  have "\<forall>e\<in>set E. \<forall>f\<in>set F. so_Timestamp e \<le> so_Timestamp f"
    using 1(4) 2(4) set_sort_key_snap [OF 1(6)] set_sort_key_snap [OF 2(6)] by force
  then have "sort_key so_Timestamp (E @ F) = map snap (W @ X)"
    using sort_key_append [of E F so_Timestamp] 1(6) 2(6) by simp
  moreover have "sorted (map fst (W @ X))" using 1(4,5) 2(4,5) by (force simp: sorted_append)
  ultimately show ?thesis
    using 1 2 by (intro timelyI [of w u "W @ X" "E @ F"]) force+
qed

text \<open>What a step owes the observer, and what a run gives in return.\<close>

locale timeline_step =
  fixes good :: "'d \<Rightarrow> bool" and step :: "'d \<Rightarrow> dlg_op \<Rightarrow> dlg_world \<Rightarrow> dlg_result \<times> dlg_world"
  assumes step_timely: "good d \<Longrightarrow> timely w (snd (step d op w))"
begin

lemma run_timely: "good d \<Longrightarrow> timely w (snd (dlg_run (step d) ops w))"
proof (induction ops arbitrary: w)
  case Nil
  show ?case by simp
next
  case (Cons op ops)
  obtain r w' where 1: "step d op w = (r, w')" by fastforce
  then have "timely w w'" using step_timely [OF Cons.prems, of w op] by simp
  then show ?case using timely_trans Cons.IH [OF Cons.prems, of w'] by (cases r) (auto simp: 1)
qed

lemma run_order:
  assumes "good d" "w_wire w = []" "w_seen w = []"
  shows "sort_key so_Timestamp (w_seen (snd (dlg_run (step d) ops w))) = map snap (w_wire (snd (dlg_run (step d) ops w)))
         \<and> sorted (map fst (w_wire (snd (dlg_run (step d) ops w))))"
  using run_timely [OF assms(1), of w ops] assms(2,3) unfolding timely_def by auto

end

text \<open>An observed dialog whose session answers promptly: while \<open>Do\<close> blocks, messages arrive in order, later
  than the request was sent and no later than \<open>Do\<close> returns.\<close>

definition prompt :: "dialogBase \<Rightarrow> bool" where
  "prompt d \<longleftrightarrow> d_observer d
     \<and> (\<forall>t req. case s_Do (d_sess d) t req of
          (inbound, dt, _) \<Rightarrow> sorted (map fst inbound) \<and> (\<forall>x\<in>set inbound. 0 < fst x \<and> fst x \<le> dt))"

definition arrivals :: "nat \<Rightarrow> (nat \<times> sip_msg) list \<Rightarrow> (nat \<times> SIPDirection \<times> sip_msg) list" where
  "arrivals t0 rs = map (\<lambda>r. (t0 + fst r, SIPInbound, snd r)) rs"

lemma receives_log:
  "w_wire (fold (receive True t0) rs w) = w_wire w @ arrivals t0 rs"
  "w_seen (fold (receive True t0) rs w) = w_seen w @ map snap (arrivals t0 rs)"
  by (induction rs arbitrary: w) (simp_all add: receive_def emitSIP_def on_wire_def arrivals_def snap_def)

lemma timely_do:
  assumes "prompt d" shows "timely w (snd (do_observed d req w))"
proof -
  obtain inb dt m r where do_eq: "s_Do (d_sess d) (w_clock w) req = (inb, dt, m, r)" by (metis prod_cases4)
  have obs: "d_observer d" using assms by (simp add: prompt_def)
  have in_order: "sorted (map fst inb)" and late: "\<forall>x\<in>set inb. 0 < fst x \<and> fst x \<le> dt"
    using assms [unfolded prompt_def, THEN conjunct2, THEN spec, THEN spec, of "w_clock w" req]
    by (simp_all add: do_eq)
  let ?A = "arrivals (w_clock w) inb" and ?e = "(w_clock w, SIPOutbound, m)"
  have A: "sorted (map fst ?A)" "\<forall>x\<in>set ?A. w_clock w < fst x \<and> fst x \<le> w_clock w + dt"
    using in_order late by (auto simp: arrivals_def comp_def sorted_map elim!: sorted_wrt_mono_rel [rotated])
  have "sort_key so_Timestamp (map snap ?A @ [snap ?e]) = map snap (?e # ?A)"
    using A sort_key_late_head [of so_Timestamp "map snap ?A" "snap ?e"] by (simp add: comp_def)
  then show ?thesis
    using A obs do_eq
    by (intro timelyI [of _ _ "?e # ?A" "map snap ?A @ [snap ?e]"])
       (auto simp: do_observed_def Let_def observeAt_def receives_log on_wire_def snap_def)
qed

lemma timely_write:
  assumes "prompt d" shows "timely w (snd (write_observed d req w))"
proof -
  obtain dt m r where wr_eq: "s_WriteRequest (d_sess d) (w_clock w) req = (dt, m, r)" by (metis prod_cases3)
  then show ?thesis
    using assms
    by (intro timely_one [of _ _ "(w_clock w + dt, SIPOutbound, m)"])
       (simp_all add: prompt_def write_observed_def observe_def emitSIP_def on_wire_def snap_def)
qed

lemma timely_do_only: "prompt d \<Longrightarrow> timely w (snd (do_only d req w))"
  using timely_do [of d w req] by (auto simp: do_only_def split: prod.splits do_result.splits)

lemma timely_reinvite:
  assumes "prompt d" shows "timely w (snd (dlg_SendReInvite d sdp w))"
proof (cases "remoteTarget d")
  case None
  then show ?thesis by (simp add: dlg_SendReInvite_def)
next
  case (Some target)
  define req where "req = \<lparr>or_Method = ''INVITE'', or_Recipient = target,
    or_Headers = (if sdp \<noteq> [] then [(''Content-Type'', contentTypeSDP)] else []), or_Body = sdp\<rparr>"
  define ack where "ack = \<lparr>or_Method = ''ACK'', or_Recipient = target, or_Headers = [], or_Body = []\<rparr>"
  obtain r v where 1: "do_observed d req w = (r, v)" by fastforce
  obtain e u where 2: "write_observed d ack v = (e, u)" by fastforce
  have "timely w v" "timely v u" using timely_do [OF assms, of w req] timely_write [OF assms, of v ack] 1 2 by simp_all
  then show ?thesis
    using timely_trans
    by (auto simp: dlg_SendReInvite_def Some Let_def req_def [symmetric] ack_def [symmetric] 1 2
        split: do_result.split option.split)
qed

lemma timely_step:
  assumes "prompt d" shows "timely w (snd (dlg_step d op w))"
proof (cases op)
  case (OpReceive dt m)
  then show ?thesis
    using assms
    by (auto intro!: timely_one [of _ _ "(w_clock w + dt, SIPInbound, m)"]
        simp: prompt_def receive_def emitSIP_def on_wire_def snap_def)
qed (use timely_do_only [OF assms] timely_reinvite [OF assms] in \<open>auto simp: dlg_SendRefer_def dlg_SendInfoDTMF_def
       dlg_SendBye_def uas_Respond_def dlg_FireNotify_def intro!: timely_quiet split: option.split prod.split\<close>)

interpretation dlg: timeline_step prompt dlg_step
  by unfold_locales (rule timely_step)



section \<open>Headers of a dialog\<close>

definition exact_values :: "string \<Rightarrow> sip_msg option \<Rightarrow> string list" where
  "exact_values n m = (case m of None \<Rightarrow> [] | Some m \<Rightarrow> map snd (filter (\<lambda>h. fst h = n) (sm_Headers m)))"

lemma fold_add_header:
  "fold add_header hs m n =
     (let vs = map snd (filter (\<lambda>h. fst h = n) hs) in if vs = [] then m n else Some (case_option [] id (m n) @ vs))"
  by (induction hs arbitrary: m) (auto simp: add_header_def Let_def)

lemma fold_add_header_if_absent:
  "fold add_header_if_absent hs m n =
     (case m n of Some v \<Rightarrow> Some v
      | None \<Rightarrow> (case map snd (filter (\<lambda>h. fst h = n) hs) of [] \<Rightarrow> None | v # _ \<Rightarrow> Some [v]))"
  by (induction hs arbitrary: m) (auto simp: add_header_if_absent_def add_header_def split: option.splits)

text \<open>
  \<open>Headers\<close> gives all values a response has under a name, but of the names only the INVITE has it keeps the
  first value, whatever the INVITE repeats.
\<close>

theorem dialog_headers_exact:
  "dlg_Headers d n =
     (let rs = exact_values n (d_response d); ivs = exact_values n (d_invite d)
      in if rs \<noteq> [] then Some rs else if ivs \<noteq> [] then Some [hd ivs] else None)"
  by (auto simp: dlg_Headers_def exact_values_def Let_def fold_add_header fold_add_header_if_absent
      split: option.split list.split)

text \<open>
  So \<open>Header\<close> and \<open>Headers\<close> disagree on an inbound call: with the library's \<open>GetHeaders\<close> returning every header of
  a name, a header that the INVITE repeats has all its values in the one and one value in the other.
\<close>

theorem headers_truncate_repeats:
  assumes "d_response d = None" "d_invite d = Some iv"
    and "sm_GetHeaders iv n = map snd (filter (\<lambda>h. EqualFold (fst h) n) (sm_Headers iv))"
    and "\<forall>h\<in>set (sm_Headers iv). EqualFold (fst h) n \<longrightarrow> fst h = n"
  shows "dlg_Header d n = exact_values n (d_invite d)
         \<and> dlg_Headers d n = (case dlg_Header d n of [] \<Rightarrow> None | v # _ \<Rightarrow> Some [v])"
proof -
  have "filter (\<lambda>h. EqualFold (fst h) n) (sm_Headers iv) = filter (\<lambda>h. fst h = n) (sm_Headers iv)"
    using assms(4) by (intro filter_cong) (auto simp: EqualFold_def)
  then have 1: "dlg_Header d n = exact_values n (d_invite d)"
    using assms(1-3) by (simp add: dlg_Header_def exact_values_def)
  then show ?thesis
    using assms(1) by (auto simp: dialog_headers_exact exact_values_def split: list.split)
qed

end
