(* ===== verification/Mocks.thy ===== *)
theory Mocks
  imports CallProps PhoneLifecycle "HOL-Library.AList"
begin

text \<open>
  The mocks the library ships for the tests of its users, \<open>mock_call.go\<close> and \<open>mock_phone.go\<close>.  A mock call is a
  record of its fields; a callback is named by a number, and an operation returns the list of the
  callbacks it ran, in order.  The mock phone keeps its calls in a heap of objects, its table maps Call-IDs
  to them, in the order in which a range over the map meets them.
\<close>

section \<open>The mock call\<close>

record MockCall =
  mc_id :: string
  mc_callID :: string
  mc_state :: CallState
  mc_direction :: Direction
  mc_from :: string
  mc_to :: string
  mc_fromName :: string
  mc_remoteURI :: string
  mc_remoteIP :: string
  mc_remotePort :: int
  mc_codec :: int
  mc_localSDP :: string
  mc_remoteSDP :: string
  mc_startTime :: "int option"
  mc_muted :: bool
  mc_mediaActive :: bool
  mc_sentDTMF :: "string list"
  mc_transferTo :: string
  mc_headers :: "(string \<times> string list) list"
  mc_onDTMFFns :: "nat list"
  mc_onHoldFns :: "nat list"
  mc_onResumeFns :: "nat list"
  mc_onMuteFns :: "nat list"
  mc_onUnmuteFns :: "nat list"
  mc_onMediaFns :: "nat list"
  mc_onStateFns :: "nat list"
  mc_onEndedFns :: "nat list"
  mc_onEndedCleanup :: "string option"
  mc_onStatePhone :: "nat list option"
  mc_onEndedPhone :: "nat list option"
  mc_onDTMFPhone :: "nat list option"
  mc_rtpReader :: "rtp_packet list"
  mc_audioSrc :: "nat option"
  mc_hasVideo :: bool
  mc_videoCodecType :: int
  mc_videoMuted :: bool

text \<open>A callback that ran: the table cleanup, those of the phone, those of the call.\<close>

datatype mock_event =
    Cleanup string
  | PhoneStateFn nat CallState
  | StateFn nat CallState
  | PhoneEndedFn nat EndReason
  | EndedFn nat EndReason
  | HoldFn nat
  | ResumeFn nat
  | MuteFn nat
  | UnmuteFn nat
  | PhoneDTMFFn nat string
  | DTMFFn nat string

definition NewMockCall :: "string \<Rightarrow> string \<Rightarrow> MockCall" where
  "NewMockCall i callID =
     \<lparr>mc_id = i, mc_callID = callID, mc_state = StateRinging, mc_direction = DirectionInbound, mc_from = [], mc_to = [],
      mc_fromName = [], mc_remoteURI = [], mc_remoteIP = [], mc_remotePort = 0, mc_codec = 0, mc_localSDP = [],
      mc_remoteSDP = [], mc_startTime = None, mc_muted = False, mc_mediaActive = False, mc_sentDTMF = [],
      mc_transferTo = [], mc_headers = [], mc_onDTMFFns = [], mc_onHoldFns = [], mc_onResumeFns = [],
      mc_onMuteFns = [], mc_onUnmuteFns = [], mc_onMediaFns = [], mc_onStateFns = [], mc_onEndedFns = [],
      mc_onEndedCleanup = None, mc_onStatePhone = None, mc_onEndedPhone = None, mc_onDTMFPhone = None,
      mc_rtpReader = [], mc_audioSrc = None, mc_hasVideo = False, mc_videoCodecType = 0, mc_videoMuted = False\<rparr>"

definition mc_RemoteDID :: "MockCall \<Rightarrow> string" where
  "mc_RemoteDID c = (if mc_direction c = DirectionInbound then mc_from c else mc_to c)"

definition mc_Duration :: "int \<Rightarrow> MockCall \<Rightarrow> int" where
  "mc_Duration now c = (case mc_startTime c of None \<Rightarrow> 0 | Some t \<Rightarrow> now - t)"

definition mc_Header :: "MockCall \<Rightarrow> string \<Rightarrow> string list" where
  "mc_Header c name = (case find (\<lambda>kv. ToLower (fst kv) = ToLower name) (mc_headers c) of Some (k, v) \<Rightarrow> v | None \<Rightarrow> [])"

definition mc_Headers :: "MockCall \<Rightarrow> string \<rightharpoonup> string list" where
  "mc_Headers c = map_of (mc_headers c)"

subsection \<open>Answering, ending, holding\<close>

definition state_fns :: "CallState \<Rightarrow> MockCall \<Rightarrow> mock_event list" where
  "state_fns st c = map (\<lambda>f. PhoneStateFn f st) (case_option [] id (mc_onStatePhone c)) @ map (\<lambda>f. StateFn f st) (mc_onStateFns c)"

definition ended_fns :: "EndReason \<Rightarrow> MockCall \<Rightarrow> mock_event list" where
  "ended_fns r c =
     (case mc_onEndedCleanup c of None \<Rightarrow> [] | Some callID \<Rightarrow> [Cleanup callID])
     @ state_fns StateEnded c
     @ map (\<lambda>f. PhoneEndedFn f r) (case_option [] id (mc_onEndedPhone c)) @ map (\<lambda>f. EndedFn f r) (mc_onEndedFns c)"

type_synonym mock_result = "call_error option \<times> MockCall \<times> mock_event list"

definition mc_Accept :: "int \<Rightarrow> MockCall \<Rightarrow> mock_result" where
  "mc_Accept now c =
     (if mc_state c \<noteq> StateRinging then (Some call_error.ErrInvalidState, c, [])
      else (None, c\<lparr>mc_state := StateActive, mc_startTime := Some now\<rparr>, state_fns StateActive c))"

definition mc_Reject :: "int \<Rightarrow> string \<Rightarrow> MockCall \<Rightarrow> mock_result" where
  "mc_Reject code reason c =
     (if mc_state c \<noteq> StateRinging then (Some call_error.ErrInvalidState, c, [])
      else (None, c\<lparr>mc_state := StateEnded\<rparr>, ended_fns EndedByRejected c))"

definition mc_end_reason :: "CallState \<Rightarrow> EndReason option" where
  "mc_end_reason st =
     (if st \<in> {StateDialing, StateRemoteRinging, StateEarlyMedia} then Some EndedByCancelled
      else if st \<in> {StateActive, StateOnHold} then Some EndedByLocal else None)"

definition mc_End :: "MockCall \<Rightarrow> mock_result" where
  "mc_End c =
     (case mc_end_reason (mc_state c) of
        None \<Rightarrow> (Some call_error.ErrInvalidState, c, [])
      | Some reason \<Rightarrow> (None, c\<lparr>mc_state := StateEnded\<rparr>, ended_fns reason c))"

definition mc_Hold :: "MockCall \<Rightarrow> mock_result" where
  "mc_Hold c =
     (if mc_state c \<noteq> StateActive then (Some call_error.ErrInvalidState, c, [])
      else (None, c\<lparr>mc_state := StateOnHold\<rparr>, state_fns StateOnHold c @ map HoldFn (mc_onHoldFns c)))"

definition mc_Resume :: "MockCall \<Rightarrow> mock_result" where
  "mc_Resume c =
     (if mc_state c \<noteq> StateOnHold then (Some call_error.ErrInvalidState, c, [])
      else (None, c\<lparr>mc_state := StateActive\<rparr>, state_fns StateActive c @ map ResumeFn (mc_onResumeFns c)))"

definition mc_Mute :: "MockCall \<Rightarrow> mock_result" where
  "mc_Mute c =
     (if mc_state c \<noteq> StateActive then (Some call_error.ErrInvalidState, c, [])
      else if mc_muted c then (Some ErrAlreadyMuted, c, [])
      else (None, c\<lparr>mc_muted := True\<rparr>, map MuteFn (mc_onMuteFns c)))"

definition mc_Unmute :: "MockCall \<Rightarrow> mock_result" where
  "mc_Unmute c =
     (if mc_state c \<noteq> StateActive then (Some call_error.ErrInvalidState, c, [])
      else if \<not> mc_muted c then (Some ErrNotMuted, c, [])
      else (None, c\<lparr>mc_muted := False\<rparr>, map UnmuteFn (mc_onUnmuteFns c)))"

definition mc_MuteAudio :: "MockCall \<Rightarrow> mock_result" where "mc_MuteAudio c = mc_Mute c"
definition mc_UnmuteAudio :: "MockCall \<Rightarrow> mock_result" where "mc_UnmuteAudio c = mc_Unmute c"

definition mc_SendDTMF :: "string \<Rightarrow> MockCall \<Rightarrow> mock_result" where
  "mc_SendDTMF digit c =
     (if mc_state c \<noteq> StateActive then (Some call_error.ErrInvalidState, c, [])
      else (None, c\<lparr>mc_sentDTMF := mc_sentDTMF c @ [digit]\<rparr>, []))"

definition mc_BlindTransfer :: "string \<Rightarrow> MockCall \<Rightarrow> mock_result" where
  "mc_BlindTransfer target c =
     (if mc_state c \<noteq> StateActive \<and> mc_state c \<noteq> StateOnHold then (Some call_error.ErrInvalidState, c, [])
      else (None, c\<lparr>mc_transferTo := target\<rparr>, []))"

definition mc_AttendedTransfer :: "MockCall \<Rightarrow> mock_result" where
  "mc_AttendedTransfer c =
     (if mc_state c \<noteq> StateActive \<and> mc_state c \<noteq> StateOnHold then (Some call_error.ErrInvalidState, c, []) else (None, c, []))"

definition mc_ReplaceAudioWriter :: "nat \<Rightarrow> MockCall \<Rightarrow> mock_result" where
  "mc_ReplaceAudioWriter src c =
     (if mc_state c = StateEnded then (Some call_error.ErrInvalidState, c, []) else (None, c\<lparr>mc_audioSrc := Some src\<rparr>, []))"

subsection \<open>Callbacks and settings\<close>

definition mc_OnDTMF :: "nat \<Rightarrow> MockCall \<Rightarrow> MockCall" where "mc_OnDTMF f c = c\<lparr>mc_onDTMFFns := mc_onDTMFFns c @ [f]\<rparr>"
definition mc_OnHold :: "nat \<Rightarrow> MockCall \<Rightarrow> MockCall" where "mc_OnHold f c = c\<lparr>mc_onHoldFns := mc_onHoldFns c @ [f]\<rparr>"
definition mc_OnResume :: "nat \<Rightarrow> MockCall \<Rightarrow> MockCall" where "mc_OnResume f c = c\<lparr>mc_onResumeFns := mc_onResumeFns c @ [f]\<rparr>"
definition mc_OnMute :: "nat \<Rightarrow> MockCall \<Rightarrow> MockCall" where "mc_OnMute f c = c\<lparr>mc_onMuteFns := mc_onMuteFns c @ [f]\<rparr>"
definition mc_OnUnmute :: "nat \<Rightarrow> MockCall \<Rightarrow> MockCall" where "mc_OnUnmute f c = c\<lparr>mc_onUnmuteFns := mc_onUnmuteFns c @ [f]\<rparr>"
definition mc_OnMedia :: "nat \<Rightarrow> MockCall \<Rightarrow> MockCall" where "mc_OnMedia f c = c\<lparr>mc_onMediaFns := mc_onMediaFns c @ [f]\<rparr>"
definition mc_OnState :: "nat \<Rightarrow> MockCall \<Rightarrow> MockCall" where "mc_OnState f c = c\<lparr>mc_onStateFns := mc_onStateFns c @ [f]\<rparr>"
definition mc_OnEnded :: "nat \<Rightarrow> MockCall \<Rightarrow> MockCall" where "mc_OnEnded f c = c\<lparr>mc_onEndedFns := mc_onEndedFns c @ [f]\<rparr>"

definition mc_SetState :: "CallState \<Rightarrow> MockCall \<Rightarrow> MockCall" where "mc_SetState s c = c\<lparr>mc_state := s\<rparr>"
definition mc_SetDirection :: "Direction \<Rightarrow> MockCall \<Rightarrow> MockCall" where "mc_SetDirection d c = c\<lparr>mc_direction := d\<rparr>"
definition mc_SetRemoteURI :: "string \<Rightarrow> MockCall \<Rightarrow> MockCall" where "mc_SetRemoteURI u c = c\<lparr>mc_remoteURI := u\<rparr>"
definition mc_SetRemoteIP :: "string \<Rightarrow> MockCall \<Rightarrow> MockCall" where "mc_SetRemoteIP i c = c\<lparr>mc_remoteIP := i\<rparr>"
definition mc_SetRemotePort :: "int \<Rightarrow> MockCall \<Rightarrow> MockCall" where "mc_SetRemotePort p c = c\<lparr>mc_remotePort := p\<rparr>"
definition mc_SetCodec :: "int \<Rightarrow> MockCall \<Rightarrow> MockCall" where "mc_SetCodec k c = c\<lparr>mc_codec := k\<rparr>"
definition mc_SetLocalSDP :: "string \<Rightarrow> MockCall \<Rightarrow> MockCall" where "mc_SetLocalSDP s c = c\<lparr>mc_localSDP := s\<rparr>"
definition mc_SetRemoteSDP :: "string \<Rightarrow> MockCall \<Rightarrow> MockCall" where "mc_SetRemoteSDP s c = c\<lparr>mc_remoteSDP := s\<rparr>"
definition mc_SetStartTime :: "int option \<Rightarrow> MockCall \<Rightarrow> MockCall" where "mc_SetStartTime t c = c\<lparr>mc_startTime := t\<rparr>"
definition mc_SetMediaSessionActive :: "bool \<Rightarrow> MockCall \<Rightarrow> MockCall" where "mc_SetMediaSessionActive a c = c\<lparr>mc_mediaActive := a\<rparr>"
definition mc_SetHasVideo :: "bool \<Rightarrow> MockCall \<Rightarrow> MockCall" where "mc_SetHasVideo v c = c\<lparr>mc_hasVideo := v\<rparr>"
definition mc_SetVideoCodec :: "int \<Rightarrow> MockCall \<Rightarrow> MockCall" where "mc_SetVideoCodec v c = c\<lparr>mc_videoCodecType := v\<rparr>"

text \<open>Writing to a Go map replaces the entry of an equal key; where a new one lands in the range order is
  up to the runtime, here at the end.\<close>

definition mc_SetHeader :: "string \<Rightarrow> string \<Rightarrow> MockCall \<Rightarrow> MockCall" where
  "mc_SetHeader name value c = c\<lparr>mc_headers := AList.update name [value] (mc_headers c)\<rparr>"

definition mc_SimulateDTMF :: "string \<Rightarrow> MockCall \<Rightarrow> mock_event list" where
  "mc_SimulateDTMF digit c =
     map (\<lambda>f. PhoneDTMFFn f digit) (case_option [] id (mc_onDTMFPhone c)) @ map (\<lambda>f. DTMFFn f digit) (mc_onDTMFFns c)"

text \<open>A send on the channel of 256 packets; \<open>None\<close> is a send that blocks.\<close>

definition mc_InjectRTP :: "rtp_packet \<Rightarrow> MockCall \<Rightarrow> MockCall option" where
  "mc_InjectRTP pkt c = (if length (mc_rtpReader c) < 256 then Some (c\<lparr>mc_rtpReader := mc_rtpReader c @ [pkt]\<rparr>) else None)"

subsection \<open>Video\<close>

definition mc_MuteVideo :: "MockCall \<Rightarrow> mock_result" where
  "mc_MuteVideo c =
     (if mc_state c \<noteq> StateActive then (Some call_error.ErrInvalidState, c, [])
      else if \<not> mc_hasVideo c then (Some ErrNoVideo, c, [])
      else if mc_videoMuted c then (Some ErrAlreadyMuted, c, [])
      else (None, c\<lparr>mc_videoMuted := True\<rparr>, []))"

definition mc_UnmuteVideo :: "MockCall \<Rightarrow> mock_result" where
  "mc_UnmuteVideo c =
     (if mc_state c \<noteq> StateActive then (Some call_error.ErrInvalidState, c, [])
      else if \<not> mc_hasVideo c then (Some ErrNoVideo, c, [])
      else if \<not> mc_videoMuted c then (Some ErrNotMuted, c, [])
      else (None, c\<lparr>mc_videoMuted := False\<rparr>, []))"

definition mc_RequestKeyframe :: "MockCall \<Rightarrow> mock_result" where
  "mc_RequestKeyframe c =
     (if mc_state c \<noteq> StateActive then (Some call_error.ErrInvalidState, c, [])
      else if \<not> mc_hasVideo c then (Some ErrNoVideo, c, []) else (None, c, []))"

definition mc_AddVideo :: "int list \<Rightarrow> MockCall \<Rightarrow> mock_result" where
  "mc_AddVideo codecs c =
     (if mc_state c \<noteq> StateActive then (Some call_error.ErrInvalidState, c, [])
      else if mc_hasVideo c then (Some ErrVideoAlreadyActive, c, [])
      else (None, c\<lparr>mc_hasVideo := True, mc_videoCodecType := (case codecs of v # _ \<Rightarrow> v | [] \<Rightarrow> VideoCodecH264)\<rparr>, []))"

section \<open>Operations of a call\<close>

datatype mc_api =
    MAccept int
  | MReject int string
  | MEnd
  | MHold
  | MResume
  | MMute
  | MUnmute
  | MSendDTMF string
  | MBlindTransfer string
  | MAttendedTransfer
  | MReplaceAudioWriter nat
  | MMuteVideo
  | MUnmuteVideo
  | MRequestKeyframe
  | MAddVideo "int list"

fun mc_step :: "mc_api \<Rightarrow> MockCall \<Rightarrow> mock_result" where
  "mc_step (MAccept now) c = mc_Accept now c"
| "mc_step (MReject code reason) c = mc_Reject code reason c"
| "mc_step MEnd c = mc_End c"
| "mc_step MHold c = mc_Hold c"
| "mc_step MResume c = mc_Resume c"
| "mc_step MMute c = mc_Mute c"
| "mc_step MUnmute c = mc_Unmute c"
| "mc_step (MSendDTMF d) c = mc_SendDTMF d c"
| "mc_step (MBlindTransfer t) c = mc_BlindTransfer t c"
| "mc_step MAttendedTransfer c = mc_AttendedTransfer c"
| "mc_step (MReplaceAudioWriter src) c = mc_ReplaceAudioWriter src c"
| "mc_step MMuteVideo c = mc_MuteVideo c"
| "mc_step MUnmuteVideo c = mc_UnmuteVideo c"
| "mc_step MRequestKeyframe c = mc_RequestKeyframe c"
| "mc_step (MAddVideo codecs) c = mc_AddVideo codecs c"

fun mc_run :: "mc_api list \<Rightarrow> MockCall \<Rightarrow> call_error option list \<times> MockCall \<times> mock_event list" where
  "mc_run [] c = ([], c, [])"
| "mc_run (op # ops) c =
     (case mc_step op c of
        (r, c, ev) \<Rightarrow> (case mc_run ops c of (rs, c, evs) \<Rightarrow> (r # rs, c, ev @ evs)))"

section \<open>The mock phone\<close>

datatype phone_event =
    IncomingFn nat nat
  | RegisteredFn nat
  | UnregFn nat
  | ErrorFn nat string
  | VoicemailFn nat string
  | MessageFn nat string
  | CallEvent nat mock_event

record MockPhone =
  mp_state :: PhoneState
  mp_onIncomingFns :: "nat list"
  mp_onRegisteredFns :: "nat list"
  mp_onUnregFns :: "nat list"
  mp_onErrorFns :: "nat list"
  mp_onCallStateFns :: "nat list"
  mp_onCallEndedFns :: "nat list"
  mp_onCallDTMFFns :: "nat list"
  mp_onVoicemailFns :: "nat list"
  mp_onMessageFns :: "nat list"
  mp_lastCall :: "nat option"
  mp_calls :: "(string \<times> nat) list"
  mp_heap :: "MockCall list"
  mp_log :: "phone_event list"

definition NewMockPhone :: MockPhone where
  "NewMockPhone =
     \<lparr>mp_state = PhoneStateDisconnected, mp_onIncomingFns = [], mp_onRegisteredFns = [], mp_onUnregFns = [],
      mp_onErrorFns = [], mp_onCallStateFns = [], mp_onCallEndedFns = [], mp_onCallDTMFFns = [],
      mp_onVoicemailFns = [], mp_onMessageFns = [], mp_lastCall = None, mp_calls = [], mp_heap = [], mp_log = []\<rparr>"

definition ran :: "phone_event list \<Rightarrow> MockPhone \<Rightarrow> MockPhone" where
  "ran evs p = p\<lparr>mp_log := mp_log p @ evs\<rparr>"

definition mp_untrackCall :: "string \<Rightarrow> MockPhone \<Rightarrow> MockPhone" where
  "mp_untrackCall callID p = p\<lparr>mp_calls := AList.delete callID (mp_calls p)\<rparr>"

text \<open>The callbacks of a call run; the cleanup is the phone's.\<close>

fun mp_dispatch :: "nat \<Rightarrow> mock_event list \<Rightarrow> MockPhone \<Rightarrow> MockPhone" where
  "mp_dispatch r [] p = p"
| "mp_dispatch r (Cleanup callID # evs) p = mp_dispatch r evs (mp_untrackCall callID p)"
| "mp_dispatch r (ev # evs) p = mp_dispatch r evs (ran [CallEvent r ev] p)"

definition mp_call :: "nat \<Rightarrow> mc_api \<Rightarrow> MockPhone \<Rightarrow> call_error option \<times> MockPhone" where
  "mp_call r op p =
     (case mc_step op (mp_heap p ! r) of
        (err, c, evs) \<Rightarrow> (err, mp_dispatch r evs (p\<lparr>mp_heap := (mp_heap p)[r := c]\<rparr>)))"

definition mp_Connect :: "MockPhone \<Rightarrow> api_result \<times> MockPhone" where
  "mp_Connect p =
     (if mp_state p \<noteq> PhoneStateDisconnected then (ErrAlreadyConnected, p)
      else (Success, ran (map RegisteredFn (mp_onRegisteredFns p)) (p\<lparr>mp_state := PhoneStateRegistered\<rparr>)))"

definition mp_Prepare :: "MockPhone \<Rightarrow> api_result \<times> MockPhone" where
  "mp_Prepare p =
     (if mp_state p = PhoneStateRegistering \<or> mp_state p = PhoneStateUnregistering then (api_result.ErrInvalidState, p)
      else if mp_state p = PhoneStateDisconnected then (Success, p\<lparr>mp_state := PhoneStatePrepared\<rparr>)
      else (Success, p))"

definition mp_Register :: "MockPhone \<Rightarrow> api_result \<times> MockPhone" where
  "mp_Register p =
     (if mp_state p = PhoneStateRegistered then (Success, p)
      else if mp_state p = PhoneStateRegistering \<or> mp_state p = PhoneStateUnregistering then (api_result.ErrInvalidState, p)
      else (Success, ran (map RegisteredFn (mp_onRegisteredFns p)) (p\<lparr>mp_state := PhoneStateRegistered\<rparr>)))"

definition mp_Unregister :: "MockPhone \<Rightarrow> api_result \<times> MockPhone" where
  "mp_Unregister p =
     (if mp_state p \<noteq> PhoneStateRegistered \<and> mp_state p \<noteq> PhoneStateRegistrationFailed then (api_result.ErrInvalidState, p)
      else (Success, ran (map UnregFn (mp_onUnregFns p)) (p\<lparr>mp_state := PhoneStatePrepared\<rparr>)))"

definition mp_Disconnect :: "MockPhone \<Rightarrow> api_result \<times> MockPhone" where
  "mp_Disconnect p =
     (if mp_state p = PhoneStateDisconnected then (ErrNotConnected, p)
      else let unregFns = mp_onUnregFns p;
               activeCalls = map snd (mp_calls p);
               p = p\<lparr>mp_state := PhoneStateDisconnected, mp_calls := []\<rparr>;
               p = fold (\<lambda>r p. snd (mp_call r MEnd p)) activeCalls p
           in (Success, ran (map UnregFn unregFns) p))"

definition wireCallCallbacks :: "MockPhone \<Rightarrow> MockCall \<Rightarrow> MockCall" where
  "wireCallCallbacks p c =
     (let c = (if mp_onCallStateFns p \<noteq> [] then c\<lparr>mc_onStatePhone := Some (mp_onCallStateFns p)\<rparr> else c);
          c = (if mp_onCallEndedFns p \<noteq> [] then c\<lparr>mc_onEndedPhone := Some (mp_onCallEndedFns p)\<rparr> else c)
      in if mp_onCallDTMFFns p \<noteq> [] then c\<lparr>mc_onDTMFPhone := Some (mp_onCallDTMFFns p)\<rparr> else c)"

text \<open>The part \<open>Dial\<close> and \<open>SimulateIncoming\<close> share: the new call becomes the last one, is tracked and wired.\<close>

definition mp_track :: "MockCall \<Rightarrow> MockPhone \<Rightarrow> MockPhone" where
  "mp_track c p =
     (let r = length (mp_heap p);
          c = (wireCallCallbacks p c)\<lparr>mc_onEndedCleanup := Some (mc_callID c)\<rparr>
      in p\<lparr>mp_lastCall := Some r, mp_calls := AList.update (mc_callID c) r (mp_calls p), mp_heap := mp_heap p @ [c]\<rparr>)"

text \<open>\<open>Dial\<close> returns the new call, or \<open>ErrNotRegistered\<close>.\<close>

definition mp_Dial :: "string \<Rightarrow> string \<Rightarrow> string \<Rightarrow> MockPhone \<Rightarrow> nat option \<times> MockPhone" where
  "mp_Dial i callID target p =
     (if mp_state p \<noteq> PhoneStateRegistered then (None, p)
      else (Some (length (mp_heap p)),
            mp_track ((NewMockCall i callID)\<lparr>mc_state := StateActive, mc_direction := DirectionOutbound, mc_remoteURI := target\<rparr>) p))"

definition mp_SimulateIncoming :: "string \<Rightarrow> string \<Rightarrow> string \<Rightarrow> MockPhone \<Rightarrow> MockPhone" where
  "mp_SimulateIncoming i callID caller p =
     (let p' = mp_track (mc_SetRemoteURI caller (NewMockCall i callID)) p
      in ran (map (\<lambda>f. IncomingFn f (length (mp_heap p))) (mp_onIncomingFns p)) p')"

definition mp_OnIncoming :: "nat \<Rightarrow> MockPhone \<Rightarrow> MockPhone" where "mp_OnIncoming f p = p\<lparr>mp_onIncomingFns := mp_onIncomingFns p @ [f]\<rparr>"
definition mp_OnRegistered :: "nat \<Rightarrow> MockPhone \<Rightarrow> MockPhone" where "mp_OnRegistered f p = p\<lparr>mp_onRegisteredFns := mp_onRegisteredFns p @ [f]\<rparr>"
definition mp_OnUnregistered :: "nat \<Rightarrow> MockPhone \<Rightarrow> MockPhone" where "mp_OnUnregistered f p = p\<lparr>mp_onUnregFns := mp_onUnregFns p @ [f]\<rparr>"
definition mp_OnError :: "nat \<Rightarrow> MockPhone \<Rightarrow> MockPhone" where "mp_OnError f p = p\<lparr>mp_onErrorFns := mp_onErrorFns p @ [f]\<rparr>"
definition mp_OnCallState :: "nat \<Rightarrow> MockPhone \<Rightarrow> MockPhone" where "mp_OnCallState f p = p\<lparr>mp_onCallStateFns := mp_onCallStateFns p @ [f]\<rparr>"
definition mp_OnCallEnded :: "nat \<Rightarrow> MockPhone \<Rightarrow> MockPhone" where "mp_OnCallEnded f p = p\<lparr>mp_onCallEndedFns := mp_onCallEndedFns p @ [f]\<rparr>"
definition mp_OnCallDTMF :: "nat \<Rightarrow> MockPhone \<Rightarrow> MockPhone" where "mp_OnCallDTMF f p = p\<lparr>mp_onCallDTMFFns := mp_onCallDTMFFns p @ [f]\<rparr>"
definition mp_OnVoicemail :: "nat \<Rightarrow> MockPhone \<Rightarrow> MockPhone" where "mp_OnVoicemail f p = p\<lparr>mp_onVoicemailFns := mp_onVoicemailFns p @ [f]\<rparr>"
definition mp_OnMessage :: "nat \<Rightarrow> MockPhone \<Rightarrow> MockPhone" where "mp_OnMessage f p = p\<lparr>mp_onMessageFns := mp_onMessageFns p @ [f]\<rparr>"

definition mp_FindCall :: "MockPhone \<Rightarrow> string \<Rightarrow> nat option" where "mp_FindCall p callID = map_of (mp_calls p) callID"
definition mp_Calls :: "MockPhone \<Rightarrow> nat list" where "mp_Calls p = map snd (mp_calls p)"

definition mp_SimulateError :: "string \<Rightarrow> MockPhone \<Rightarrow> MockPhone" where
  "mp_SimulateError err p = ran (map (\<lambda>f. ErrorFn f err) (mp_onErrorFns p)) p"

definition mp_SimulateMWI :: "string \<Rightarrow> MockPhone \<Rightarrow> MockPhone" where
  "mp_SimulateMWI status p = ran (map (\<lambda>f. VoicemailFn f status) (mp_onVoicemailFns p)) p"

definition mp_SimulateMessage :: "string \<Rightarrow> MockPhone \<Rightarrow> MockPhone" where
  "mp_SimulateMessage msg p = ran (map (\<lambda>f. MessageFn f msg) (mp_onMessageFns p)) p"

text \<open>What a test does with the phone and its calls.\<close>

datatype mp_op =
    PConnect
  | PPrepare
  | PRegister
  | PUnregister
  | PDisconnect
  | PDial string string string
  | PIncoming string string string
  | PCall nat mc_api
  | POnCallState nat
  | POnCallEnded nat
  | POnUnregistered nat

fun mp_step :: "mp_op \<Rightarrow> MockPhone \<Rightarrow> MockPhone" where
  "mp_step PConnect p = snd (mp_Connect p)"
| "mp_step PPrepare p = snd (mp_Prepare p)"
| "mp_step PRegister p = snd (mp_Register p)"
| "mp_step PUnregister p = snd (mp_Unregister p)"
| "mp_step PDisconnect p = snd (mp_Disconnect p)"
| "mp_step (PDial i callID target) p = snd (mp_Dial i callID target p)"
| "mp_step (PIncoming i callID caller) p = mp_SimulateIncoming i callID caller p"
| "mp_step (PCall r op) p = snd (mp_call r op p)"
| "mp_step (POnCallState f) p = mp_OnCallState f p"
| "mp_step (POnCallEnded f) p = mp_OnCallEnded f p"
| "mp_step (POnUnregistered f) p = mp_OnUnregistered f p"

end
