(* ===== verification/MockProps.thy ===== *)
theory MockProps
  imports Mocks
begin

text \<open>
  The mocks against what they stand for: on the operations the two share, a mock call answers, moves and
  reports as a call does, with one exception; and the mock phone tracks exactly the calls that have not
  ended.
\<close>

section \<open>The mute flag of a call\<close>

named_theorems mute_frame \<open>what leaves the mute flag of a call alone\<close>

lemma audioMuted_setup [mute_frame]:
  "c_audioMuted (send m c) = c_audioMuted c"
  "c_audioMuted (setRemoteEndpoint e s c) = c_audioMuted c"
  "c_audioMuted (snd (ensureRTPPort e c)) = c_audioMuted c"
  "c_audioMuted (snd (buildICEParams e c)) = c_audioMuted c"
  "c_audioMuted (learn_ice s c) = c_audioMuted c"
  by (simp_all add: send_def setRemoteEndpoint_def ensureRTPPort_def buildICEParams_def learn_ice_def Let_def
      split: list.split option.split)

lemma audioMuted_negotiate [mute_frame]:
  "c_audioMuted (negotiateCodec s c) = c_audioMuted c"
  "c_audioMuted (setVideoRemoteEndpoint e s c) = c_audioMuted c"
  "c_audioMuted (initVideoChannels c) = c_audioMuted c"
  by (simp_all add: negotiateAudioCodec_def negotiateVideoCodec_def negotiateCodec_def setVideoRemoteEndpoint_def
      initVideoChannels_def Let_def split: option.split)

lemma audioMuted_build [mute_frame]:
  "c_audioMuted (snd (buildLocalSDP e d c)) = c_audioMuted c" "c_audioMuted (snd (buildAnswerSDP e s d c)) = c_audioMuted c"
  by (simp_all add: buildLocalSDP_call buildAnswerSDP_call mute_frame)

lemma audioMuted_end [mute_frame]:
  "c_audioMuted (signalMediaTimerReset d c) = c_audioMuted c" "c_audioMuted (startSessionTimer c) = c_audioMuted c"
  "c_audioMuted (enter st c) = c_audioMuted c" "c_audioMuted (finish r c) = c_audioMuted c"
  by (simp_all add: signalMediaTimerReset_def startSessionTimer_def enter_def finish_def fireOnState_def fireOnEnded_def
      fire_def Let_def split: list.split option.split)

lemma audioMuted_accept_section: "c_audioMuted (snd (accept_section e c)) = c_audioMuted c"
  by (simp add: accept_section_def Let_def case_prod_beta fireOnState_def fire_def mute_frame split: option.split)

lemma audioMuted_accept_tail: "accept_tail e a b c = Some c' \<Longrightarrow> c_audioMuted c' = c_audioMuted c"
  by (auto simp: accept_tail_def startMedia_def startVideoMedia_def fire_def Let_def split: if_splits option.splits)

section \<open>Calls and mock calls side by side\<close>

text \<open>The operations both have; \<open>None\<close> is a panic of the call, or an operation that is not compared.\<close>

fun call_api :: "env \<Rightarrow> mc_api \<Rightarrow> call \<Rightarrow> (call_error option \<times> call) option" where
  "call_api e (MAccept now) c = Accept (e\<lparr>ev_now := now\<rparr>) c"
| "call_api e (MReject code reason) c = Some (Reject code reason c)"
| "call_api e MEnd c = Some (Call.End c)"
| "call_api e MHold c = Some (Hold e c)"
| "call_api e MResume c = Some (Resume e c)"
| "call_api e MMute c = Some (Mute c)"
| "call_api e MUnmute c = Some (Unmute c)"
| "call_api e (MBlindTransfer t) c = Some (BlindTransfer t c)"
| "call_api e _ c = None"

fun call_api_run :: "env \<Rightarrow> mc_api list \<Rightarrow> call \<Rightarrow> (call_error option list \<times> call) option" where
  "call_api_run e [] c = Some ([], c)"
| "call_api_run e (op # ops) c =
     (case call_api e op c of
        None \<Rightarrow> None
      | Some (r, c) \<Rightarrow> map_option (apfst (Cons r)) (call_api_run e ops c))"

text \<open>What a callback \<open>f\<close> registered on a mock call hears.\<close>

fun told_states :: "nat \<Rightarrow> mock_event list \<Rightarrow> CallState list" where
  "told_states f [] = []"
| "told_states f (StateFn g st # evs) = (if g = f then st # told_states f evs else told_states f evs)"
| "told_states f (ev # evs) = told_states f evs"

fun told_ends :: "nat \<Rightarrow> mock_event list \<Rightarrow> EndReason list" where
  "told_ends f [] = []"
| "told_ends f (EndedFn g r # evs) = (if g = f then r # told_ends f evs else told_ends f evs)"
| "told_ends f (ev # evs) = told_ends f evs"

lemma told_states_append [simp]: "told_states f (xs @ ys) = told_states f xs @ told_states f ys"
  by (induction f xs rule: told_states.induct) simp_all

lemma told_ends_append [simp]: "told_ends f (xs @ ys) = told_ends f xs @ told_ends f ys"
  by (induction f xs rule: told_ends.induct) simp_all

lemma told_map [simp]:
  "told_states f (map (\<lambda>g. PhoneStateFn g st) gs) = []" "told_ends f (map (\<lambda>g. PhoneStateFn g st) gs) = []"
  "told_states f (map (\<lambda>g. StateFn g st) gs) = replicate (length (filter ((=) f) gs)) st"
  "told_ends f (map (\<lambda>g. StateFn g st) gs) = []"
  "told_states f (map (\<lambda>g. PhoneEndedFn g r) gs) = []" "told_ends f (map (\<lambda>g. PhoneEndedFn g r) gs) = []"
  "told_states f (map (\<lambda>g. EndedFn g r) gs) = []"
  "told_ends f (map (\<lambda>g. EndedFn g r) gs) = replicate (length (filter ((=) f) gs)) r"
  "told_states f (map HoldFn gs) = []" "told_ends f (map HoldFn gs) = []"
  "told_states f (map ResumeFn gs) = []" "told_ends f (map ResumeFn gs) = []"
  "told_states f (map MuteFn gs) = []" "told_ends f (map MuteFn gs) = []"
  "told_states f (map UnmuteFn gs) = []" "told_ends f (map UnmuteFn gs) = []"
  by (induction gs) auto

text \<open>\<open>f\<close> is registered once, for the states and for the end.\<close>

definition listens :: "nat \<Rightarrow> MockCall \<Rightarrow> bool" where
  "listens f m \<longleftrightarrow> length (filter ((=) f) (mc_onStateFns m)) = 1 \<and> length (filter ((=) f) (mc_onEndedFns m)) = 1"

lemma listens_frame [simp]:
  "listens f (m\<lparr>mc_state := st\<rparr>) = listens f m" "listens f (m\<lparr>mc_startTime := t\<rparr>) = listens f m"
  "listens f (m\<lparr>mc_muted := b\<rparr>) = listens f m" "listens f (m\<lparr>mc_transferTo := s\<rparr>) = listens f m"
  by (simp_all add: listens_def)

lemma told_state_fns:
  "listens f m \<Longrightarrow> told_states f (state_fns st m) = [st]" "told_ends f (state_fns st m) = []"
  by (simp_all add: state_fns_def listens_def)

lemma told_ended_fns:
  "listens f m \<Longrightarrow> told_states f (ended_fns r m) = [StateEnded]" "listens f m \<Longrightarrow> told_ends f (ended_fns r m) = [r]"
  by (simp_all add: ended_fns_def told_state_fns listens_def split: option.split)

definition mirrors :: "call \<Rightarrow> MockCall \<Rightarrow> bool" where
  "mirrors c m \<longleftrightarrow> c_state c = mc_state m \<and> c_audioMuted c = mc_muted m"

definition reports :: "call \<Rightarrow> call \<Rightarrow> CallState list \<Rightarrow> EndReason list \<Rightarrow> bool" where
  "reports c c' ss rs \<longleftrightarrow> (\<exists>ks. c_fired c' = c_fired c @ ks \<and> state_events ks = ss \<and> end_events ks = rs)"

lemma reports_none: "c_fired c' = c_fired c \<Longrightarrow> reports c c' [] []"
  by (simp add: reports_def)

lemma reports_trans: "reports a b ss rs \<Longrightarrow> reports b c ts qs \<Longrightarrow> reports a c (ss @ ts) (rs @ qs)"
  unfolding reports_def by (metis append.assoc end_events_append state_events_append)

lemma reports_enter: "c_fired c' = c_fired c @ [FireState st] \<Longrightarrow> reports c c' [st] []"
  by (simp add: reports_def)

lemma reports_finish: "c_fired d = c_fired c \<Longrightarrow> reports c (finish r d) [StateEnded] [r]"
  by (simp add: reports_def finish_fields)

lemma reports_quiet: "quiet c c' \<Longrightarrow> reports c c' [] []"
  by (auto simp: reports_def quiet_def)

lemma Accept_effect:
  assumes "Accept e c = Some (r, c')"
  shows "if c_state c \<noteq> StateRinging then r = Some call_error.ErrInvalidState \<and> c' = c
         else r = None \<and> c_state c' = StateActive \<and> c_audioMuted c' = c_audioMuted c \<and> reports c c' [StateActive] []"
proof (cases "c_state c = StateRinging")
  case False
  then show ?thesis using assms by (auto simp: Accept_def accept_section_def)
next
  case True
  obtain d where d: "accept_section e c = (None, d)" "c_state d = StateActive" "c_fired d = c_fired c @ [FireState StateActive]"
    using accept_section_moves [OF True, of e] by (cases "accept_section e c") auto
  have muted: "c_audioMuted d = c_audioMuted c" using audioMuted_accept_section [of e c] d(1) by simp
  have r: "r = None" and tail: "accept_tail e (c_rtpConn d \<noteq> None) (c_hasVideo d \<and> c_videoRTPConn d \<noteq> None) d = Some c'"
    using assms d(1) by (auto simp: Accept_def)
  have "reports c c' ([StateActive] @ []) ([] @ [])"
    using reports_trans [OF reports_enter [OF d(3)] reports_quiet [OF accept_tail_quiet [OF tail]]] by simp
  then show ?thesis
    using True d r muted audioMuted_accept_tail [OF tail] accept_tail_quiet [OF tail] by (auto simp: quiet_def)
qed

text \<open>The simulation: one operation on both sides.  The call's SIP requests succeed, and a call that still
  rings is not ended.\<close>

definition in_step :: "nat \<Rightarrow> call \<Rightarrow> MockCall \<Rightarrow> call_error option \<Rightarrow> call \<Rightarrow> mock_result \<Rightarrow> bool" where
  "in_step f c m r c' res \<longleftrightarrow>
     (case res of (r', m', evs) \<Rightarrow>
        r' = r \<and> mirrors c' m' \<and> listens f m' \<and> reports c c' (told_states f evs) (told_ends f evs))"

lemma in_step_refused: "mirrors c m \<Longrightarrow> listens f m \<Longrightarrow> in_step f c m r c (r, m, [])"
  by (simp add: in_step_def reports_none)

lemma mock_step_simulates:
  assumes "mirrors c m" "listens f m" "ev_sendOk e" "op = MEnd \<longrightarrow> mc_state m \<noteq> StateRinging" "call_api e op c = Some (r, c')"
  shows "in_step f c m r c' (mc_step op m)"
proof (cases op)
  case (MAccept now)
  then show ?thesis
    using assms Accept_effect [of "e\<lparr>ev_now := now\<rparr>" c r c']
    by (auto simp: mc_Accept_def in_step_def mirrors_def told_state_fns reports_none split: if_splits)
next
  case (MReject code reason)
  then show ?thesis
    using assms by (auto simp: Reject_def mc_Reject_def in_step_def mirrors_def finish_fields mute_frame call_frame
        told_ended_fns reports_none intro!: reports_finish)
next
  case MEnd
  then show ?thesis
    using assms
    by (cases "mc_state m") (auto simp: Call.End_def mc_End_def mc_end_reason_def in_step_def mirrors_def finish_fields
        mute_frame call_frame told_ended_fns reports_none intro!: reports_finish)
next
  case MHold
  then show ?thesis
    using assms by (auto simp: Hold_def mc_Hold_def in_step_def mirrors_def Let_def case_prod_beta enter_fields mute_frame
        call_frame told_state_fns reports_none intro!: reports_enter split: if_splits)
next
  case MResume
  then show ?thesis
    using assms by (auto simp: Resume_def mc_Resume_def in_step_def mirrors_def Let_def case_prod_beta enter_fields mute_frame
        call_frame told_state_fns reports_none intro!: reports_enter split: if_splits)
next
  case MMute
  then show ?thesis
    using assms mute_quiet(1) [of c, THEN reports_quiet]
    by (auto simp: Mute_def mc_Mute_def in_step_def mirrors_def fire_def split: if_splits)
next
  case MUnmute
  then show ?thesis
    using assms mute_quiet(2) [of c, THEN reports_quiet]
    by (auto simp: Unmute_def mc_Unmute_def in_step_def mirrors_def fire_def split: if_splits)
next
  case (MBlindTransfer t)
  then show ?thesis
    using assms signalling_quiet(5) [of c t, THEN reports_quiet]
    by (auto simp: BlindTransfer_def mc_BlindTransfer_def in_step_def mirrors_def send_def split: if_splits)
qed (use assms in simp_all)

text \<open>No ringing call is ended.\<close>

fun comparable :: "mc_api list \<Rightarrow> MockCall \<Rightarrow> bool" where
  "comparable [] m = True"
| "comparable (op # ops) m =
     ((op = MEnd \<longrightarrow> mc_state m \<noteq> StateRinging) \<and> comparable ops (fst (snd (mc_step op m))))"


definition demo_ringing :: call where
  "demo_ringing = newInboundCall (\<lambda>_. []) ''id''"

definition demo_mock :: MockCall where
  "demo_mock = mc_OnEnded 4 (mc_OnState 4 (NewMockCall ''i'' ''id''))"

lemma hasVideo_build: "c_hasVideo (snd (buildLocalSDP e d c)) = c_hasVideo c"
  by (simp add: buildLocalSDP_call ensureRTPPort_def buildICEParams_def Let_def split: option.split)

lemma startMedia_ok: "c_rtpConn c = Some p \<Longrightarrow> startMedia e c \<noteq> None"
  by (auto simp: startMedia_def Let_def split: option.split)

lemma audio_accept_returns:
  assumes "c_remoteSDP c = []" "\<not> c_hasVideo c" shows "\<exists>r c'. Accept e c = Some (r, c')"
proof -
  have "c_hasVideo (startSessionTimer x) = c_hasVideo x" for x
    by (simp add: startSessionTimer_def split: list.split option.split)
  then have "\<not> c_hasVideo (snd (accept_section e c))"
    using assms by (simp add: accept_section_def Let_def case_prod_beta fireOnState_def fire_def send_def hasVideo_build)
  then show ?thesis
    by (auto simp: Accept_def accept_tail_def startMedia_ok split: prod.split option.split)
qed

lemma demo_accept: "\<exists>r c. Accept e demo_ringing = Some (r, c)"
  by (rule audio_accept_returns) (simp_all add: demo_ringing_def newInboundCall_def blank_call_def)


text \<open>
  The exception: \<open>End\<close> on an incoming call that rings ends a call with a 487, the mock refuses it.
\<close>

theorem mock_end_refuses_ringing:
  assumes "c_state c = StateRinging" "mc_state m = StateRinging"
  shows "fst (Call.End c) = None \<and> c_state (snd (Call.End c)) = StateEnded
         \<and> mc_End m = (Some call_error.ErrInvalidState, m, [])"
  using assms by (simp add: Call.End_def mc_End_def mc_end_reason_def finish_fields)

section \<open>The calls of the mock phone\<close>

lemma no_cleanup_state_fns [simp]: "Cleanup k \<notin> set (state_fns st c)"
  by (auto simp: state_fns_def)

lemma cleanup_ended_fns [simp]: "Cleanup k \<in> set (ended_fns r c) \<longleftrightarrow> mc_onEndedCleanup c = Some k"
  by (auto simp: ended_fns_def split: option.splits)

lemma mc_step_effect:
  assumes "mc_onEndedCleanup c = Some k0" "mc_step op c = (err, c', evs)"
  shows "mc_callID c' = mc_callID c" "mc_onEndedCleanup c' = Some k0"
    "mc_state c \<noteq> StateIdle \<Longrightarrow> mc_state c' \<noteq> StateIdle" "mc_state c = StateEnded \<Longrightarrow> mc_state c' = StateEnded"
    "Cleanup k \<in> set evs \<longleftrightarrow> k = k0 \<and> mc_state c \<noteq> StateEnded \<and> mc_state c' = StateEnded"
proof -
  note defs = mc_Accept_def mc_Reject_def mc_End_def mc_end_reason_def mc_Hold_def mc_Resume_def mc_Mute_def mc_Unmute_def
    mc_SendDTMF_def mc_BlindTransfer_def mc_AttendedTransfer_def mc_ReplaceAudioWriter_def mc_MuteVideo_def
    mc_UnmuteVideo_def mc_RequestKeyframe_def mc_AddVideo_def
  have "mc_callID c' = mc_callID c \<and> mc_onEndedCleanup c' = Some k0 \<and> (mc_state c \<noteq> StateIdle \<longrightarrow> mc_state c' \<noteq> StateIdle)
      \<and> (mc_state c = StateEnded \<longrightarrow> mc_state c' = StateEnded)
      \<and> (Cleanup k \<in> set evs \<longleftrightarrow> k = k0 \<and> mc_state c \<noteq> StateEnded \<and> mc_state c' = StateEnded)"
    using assms by (cases op) (auto simp: defs split: if_splits option.splits)
  then show "mc_callID c' = mc_callID c" "mc_onEndedCleanup c' = Some k0"
    "mc_state c \<noteq> StateIdle \<Longrightarrow> mc_state c' \<noteq> StateIdle" "mc_state c = StateEnded \<Longrightarrow> mc_state c' = StateEnded"
    "Cleanup k \<in> set evs \<longleftrightarrow> k = k0 \<and> mc_state c \<noteq> StateEnded \<and> mc_state c' = StateEnded"
    by simp_all
qed

lemma dispatch_heap [simp]: "mp_heap (mp_dispatch r evs p) = mp_heap p"
  by (induction r evs p rule: mp_dispatch.induct) (simp_all add: ran_def mp_untrackCall_def)

lemma dispatch_calls: "mp_calls (mp_dispatch r evs p) = filter (\<lambda>kv. Cleanup (fst kv) \<notin> set evs) (mp_calls p)"
  by (induction r evs p rule: mp_dispatch.induct)
     (auto simp: ran_def mp_untrackCall_def AList.delete_eq intro!: filter_cong)

definition wired :: "MockPhone \<Rightarrow> bool" where
  "wired p \<longleftrightarrow> distinct (map mc_callID (mp_heap p))
     \<and> (\<forall>r < length (mp_heap p). mc_onEndedCleanup (mp_heap p ! r) = Some (mc_callID (mp_heap p ! r))
          \<and> mc_state (mp_heap p ! r) \<noteq> StateIdle)"

definition tracks :: "MockPhone \<Rightarrow> bool" where
  "tracks p \<longleftrightarrow> distinct (map fst (mp_calls p))
     \<and> set (mp_calls p) = {(mc_callID (mp_heap p ! r), r) |r. r < length (mp_heap p) \<and> mc_state (mp_heap p ! r) \<noteq> StateEnded}"

lemma mp_call_heap: "mp_heap (snd (mp_call r op p)) = (mp_heap p)[r := fst (snd (mc_step op (mp_heap p ! r)))]"
  by (simp add: mp_call_def split: prod.split)

lemma mp_call_calls:
  "mp_calls (snd (mp_call r op p)) =
     filter (\<lambda>kv. Cleanup (fst kv) \<notin> set (snd (snd (mc_step op (mp_heap p ! r))))) (mp_calls p)"
  by (simp add: mp_call_def dispatch_calls split: prod.split)

lemma map_update_same: "f x = f (xs ! r) \<Longrightarrow> map f (xs[r := x]) = map f xs"
  by (metis list_update_id map_update)

lemma wired_call:
  assumes "wired p" "r < length (mp_heap p)" shows "wired (snd (mp_call r op p))"
proof -
  let ?c = "mp_heap p ! r"
  obtain err c' evs where st: "mc_step op ?c = (err, c', evs)" by (metis prod_cases3)
  have c: "mc_onEndedCleanup ?c = Some (mc_callID ?c)" "mc_state ?c \<noteq> StateIdle" using assms by (auto simp: wired_def)
  note eff = mc_step_effect [OF c(1) st]
  show ?thesis
    using assms eff(1,2) eff(3) [OF c(2)]
    by (auto simp: wired_def mp_call_heap st map_update_same nth_list_update)
qed

lemma tracks_call:
  assumes "wired p" "tracks p" "r < length (mp_heap p)" shows "tracks (snd (mp_call r op p))"
proof -
  let ?c = "mp_heap p ! r" and ?p = "snd (mp_call r op p)"
  obtain err c' evs where st: "mc_step op ?c = (err, c', evs)" by (metis prod_cases3)
  have "mc_onEndedCleanup ?c = Some (mc_callID ?c)" using assms by (auto simp: wired_def)
  note eff = mc_step_effect [OF this st]
  have other: "mc_callID (mp_heap p ! i) \<noteq> mc_callID ?c" if "i < length (mp_heap p)" "i \<noteq> r" for i
    using that assms(1,3) by (auto simp: wired_def distinct_conv_nth)
  have "set (mp_calls ?p) = {(mc_callID (mp_heap ?p ! i), i) |i. i < length (mp_heap ?p) \<and> mc_state (mp_heap ?p ! i) \<noteq> StateEnded}"
    using assms(2,3) eff(1,4,5) other
    by (auto simp: tracks_def mp_call_calls mp_call_heap st nth_list_update)
  moreover have "distinct (map fst (mp_calls ?p))"
    using assms(2) by (auto simp: tracks_def mp_call_calls distinct_map intro: inj_on_subset)
  ultimately show ?thesis by (simp add: tracks_def)
qed

text \<open>A new call with a fresh Call-ID.\<close>

lemma wire_frame [simp]:
  "mc_callID (wireCallCallbacks p c) = mc_callID c" "mc_state (wireCallCallbacks p c) = mc_state c"
  by (simp_all add: wireCallCallbacks_def Let_def)

lemma new_call_fields [simp]: "mc_callID (NewMockCall i k) = k" "mc_state (NewMockCall i k) = StateRinging"
  by (simp_all add: NewMockCall_def)

lemma fresh_update:
  "k \<notin> set (map fst xs) \<Longrightarrow> AList.update k v xs = xs @ [(k, v)]"
  by (induction xs) auto

lemma track_keeps:
  assumes "wired p" "tracks p" "mc_callID c \<notin> set (map mc_callID (mp_heap p))" "mc_state c \<noteq> StateIdle" "mc_state c \<noteq> StateEnded"
  shows "wired (mp_track c p) \<and> tracks (mp_track c p)"
proof -
  have "fst ` set (mp_calls p) \<subseteq> mc_callID ` set (mp_heap p)" using assms(2) by (auto simp: tracks_def)
  then have "mc_callID c \<notin> set (map fst (mp_calls p))" using assms(3) by auto
  then have calls: "mp_calls (mp_track c p) = mp_calls p @ [(mc_callID c, length (mp_heap p))]"
    by (simp add: mp_track_def Let_def fresh_update)
  have heap: "mp_heap (mp_track c p) = mp_heap p @ [(wireCallCallbacks p c)\<lparr>mc_onEndedCleanup := Some (mc_callID c)\<rparr>]"
    by (simp add: mp_track_def Let_def)
  have "wired (mp_track c p)"
    using assms by (auto simp: wired_def heap nth_append)
  moreover have "distinct (map fst (mp_calls (mp_track c p)))"
    using assms(2) \<open>mc_callID c \<notin> set (map fst (mp_calls p))\<close> by (simp add: tracks_def calls)
  moreover have "set (mp_calls (mp_track c p)) = {(mc_callID (mp_heap (mp_track c p) ! i), i) |i.
      i < length (mp_heap (mp_track c p)) \<and> mc_state (mp_heap (mp_track c p) ! i) \<noteq> StateEnded}"
    using assms(2,5) by (auto simp: tracks_def calls heap nth_append less_Suc_eq)
  ultimately show ?thesis by (simp add: tracks_def)
qed

text \<open>Disconnecting ends every call it finds that has left the ringing state.\<close>

abbreviation end_call :: "nat \<Rightarrow> MockPhone \<Rightarrow> MockPhone" where
  "end_call \<equiv> \<lambda>r p. snd (mp_call r MEnd p)"

lemma end_call_ends:
  "mc_state c \<noteq> StateRinging \<Longrightarrow> mc_state c \<noteq> StateIdle \<Longrightarrow> mc_state (fst (snd (mc_End c))) = StateEnded"
  by (cases "mc_state c") (simp_all add: mc_End_def mc_end_reason_def)

lemma mock_calls_ended:
  assumes "wired p" "set rs \<subseteq> {..<length (mp_heap p)}" "\<forall>r\<in>set rs. mc_state (mp_heap p ! r) \<noteq> StateRinging" "mp_calls p = []"
  shows "wired (fold end_call rs p) \<and> mp_calls (fold end_call rs p) = []
         \<and> length (mp_heap (fold end_call rs p)) = length (mp_heap p)
         \<and> (\<forall>r < length (mp_heap p). (mc_state (mp_heap (fold end_call rs p) ! r) = StateEnded)
              = (r \<in> set rs \<or> mc_state (mp_heap p ! r) = StateEnded))"
  using assms
proof (induction rs arbitrary: p)
  case Nil
  then show ?case by simp
next
  case (Cons r rs)
  let ?p = "end_call r p"
  have r: "r < length (mp_heap p)" using Cons.prems(2) by simp
  have idle: "mc_state (mp_heap p ! r) \<noteq> StateIdle" using Cons.prems(1) r by (simp add: wired_def)
  then have ended: "mc_state (mp_heap ?p ! r) = StateEnded"
    using Cons.prems(3) r end_call_ends by (simp add: mp_call_heap)
  have rest: "mc_state (mp_heap ?p ! i) = mc_state (mp_heap p ! i)" if "i \<noteq> r" for i using that by (simp add: mp_call_heap)
  have len: "length (mp_heap ?p) = length (mp_heap p)" by (simp add: mp_call_heap)
  have "\<forall>i\<in>set rs. mc_state (mp_heap ?p ! i) \<noteq> StateRinging"
    using Cons.prems(3) ended rest by (metis CallState.distinct(25) list.set_intros(2))
  then have IH: "wired (fold end_call rs ?p) \<and> mp_calls (fold end_call rs ?p) = []
      \<and> length (mp_heap (fold end_call rs ?p)) = length (mp_heap ?p)
      \<and> (\<forall>i < length (mp_heap ?p). (mc_state (mp_heap (fold end_call rs ?p) ! i) = StateEnded)
           = (i \<in> set rs \<or> mc_state (mp_heap ?p ! i) = StateEnded))"
    using Cons.prems len by (intro Cons.IH wired_call r) (simp_all add: mp_call_calls)
  have "(mc_state (mp_heap ?p ! i) = StateEnded) = (i = r \<or> mc_state (mp_heap p ! i) = StateEnded)" for i
    using ended rest by (cases "i = r") simp_all
  then show ?case using IH len by (simp del: list.size) blast
qed

lemma disconnect_keeps:
  assumes "wired p" "tracks p" "\<forall>kv\<in>set (mp_calls p). mc_state (mp_heap p ! snd kv) \<noteq> StateRinging"
  shows "wired (snd (mp_Disconnect p)) \<and> tracks (snd (mp_Disconnect p))"
proof (cases "mp_state p = PhoneStateDisconnected")
  case True
  then show ?thesis using assms by (simp add: mp_Disconnect_def)
next
  case False
  let ?q = "p\<lparr>mp_state := PhoneStateDisconnected, mp_calls := []\<rparr>" and ?rs = "map snd (mp_calls p)"
  have rs: "set ?rs = {r. r < length (mp_heap p) \<and> mc_state (mp_heap p ! r) \<noteq> StateEnded}"
    using assms(2) by (auto simp: tracks_def image_iff)
  have not_ringing: "\<forall>r\<in>set ?rs. mc_state (mp_heap p ! r) \<noteq> StateRinging" using assms(3) by auto
  have sub: "set ?rs \<subseteq> {..<length (mp_heap p)}" unfolding rs by auto
  have "wired ?q" using assms(1) by (simp add: wired_def)
  then have q: "wired (fold end_call ?rs ?q) \<and> mp_calls (fold end_call ?rs ?q) = []
      \<and> length (mp_heap (fold end_call ?rs ?q)) = length (mp_heap ?q)
      \<and> (\<forall>r < length (mp_heap ?q). (mc_state (mp_heap (fold end_call ?rs ?q) ! r) = StateEnded)
           = (r \<in> set ?rs \<or> mc_state (mp_heap ?q ! r) = StateEnded))"
    using not_ringing sub by (intro mock_calls_ended) (simp_all del: set_map)
  then have "tracks (fold end_call ?rs ?q)" unfolding rs by (simp add: tracks_def)
  then show ?thesis
    using q False by (simp add: mp_Disconnect_def Let_def ran_def wired_def tracks_def)
qed

text \<open>What the operations of a test may assume: new calls get fresh Call-IDs, operations are on calls of the
  phone, and the phone is not disconnected while a call still rings.\<close>

fun sane_op :: "mp_op \<Rightarrow> MockPhone \<Rightarrow> bool" where
  "sane_op (PDial i k target) p = (k \<notin> set (map mc_callID (mp_heap p)))"
| "sane_op (PIncoming i k caller) p = (k \<notin> set (map mc_callID (mp_heap p)))"
| "sane_op (PCall r op) p = (r < length (mp_heap p))"
| "sane_op PDisconnect p = list_all (\<lambda>kv. mc_state (mp_heap p ! snd kv) \<noteq> StateRinging) (mp_calls p)"
| "sane_op _ p = True"

lemma keeps_frame [simp]:
  "wired (p\<lparr>mp_state := x\<rparr>) = wired p" "tracks (p\<lparr>mp_state := x\<rparr>) = tracks p"
  "wired (p\<lparr>mp_log := l\<rparr>) = wired p" "tracks (p\<lparr>mp_log := l\<rparr>) = tracks p"
  "wired (p\<lparr>mp_onCallStateFns := f\<rparr>) = wired p" "tracks (p\<lparr>mp_onCallStateFns := f\<rparr>) = tracks p"
  "wired (p\<lparr>mp_onCallEndedFns := f\<rparr>) = wired p" "tracks (p\<lparr>mp_onCallEndedFns := f\<rparr>) = tracks p"
  "wired (p\<lparr>mp_onUnregFns := f\<rparr>) = wired p" "tracks (p\<lparr>mp_onUnregFns := f\<rparr>) = tracks p"
  by (simp_all add: wired_def tracks_def)

lemma mp_step_keeps:
  assumes "wired p \<and> tracks p" "sane_op op p" shows "wired (mp_step op p) \<and> tracks (mp_step op p)"
proof (cases op)
  case (PDial i k target)
  then show ?thesis using assms track_keeps [of p] by (simp add: mp_Dial_def)
next
  case (PIncoming i k caller)
  then have "wired (mp_track (mc_SetRemoteURI caller (NewMockCall i k)) p) \<and> tracks (mp_track (mc_SetRemoteURI caller (NewMockCall i k)) p)"
    using assms by (intro track_keeps) (simp_all add: mc_SetRemoteURI_def)
  then show ?thesis by (simp add: PIncoming mp_SimulateIncoming_def Let_def ran_def)
next
  case (PCall r op)
  then show ?thesis using assms wired_call tracks_call by simp
next
  case PDisconnect
  then show ?thesis using assms disconnect_keeps by (simp add: list_all_iff)
qed (use assms in \<open>auto simp: mp_Connect_def mp_Prepare_def mp_Register_def mp_Unregister_def mp_OnCallState_def
       mp_OnCallEnded_def mp_OnUnregistered_def ran_def\<close>)

fun mp_run :: "mp_op list \<Rightarrow> MockPhone \<Rightarrow> MockPhone option" where
  "mp_run [] p = Some p"
| "mp_run (op # ops) p = (if sane_op op p then mp_run ops (mp_step op p) else None)"

lemma mp_run_keeps: "wired p \<and> tracks p \<Longrightarrow> mp_run ops p = Some p' \<Longrightarrow> wired p' \<and> tracks p'"
proof (induction ops arbitrary: p)
  case Nil
  then show ?case by simp
next
  case (Cons op ops)
  then show ?case using mp_step_keeps by (auto split: if_splits)
qed

text \<open>
  The mock phone tracks exactly its live calls: after any operations on a new mock phone and on its
  calls, with fresh Call-IDs and no disconnect while a call rings, \<open>FindCall\<close> finds a call under its Call-ID just as
  long as the call has not ended, and nothing else.
\<close>

theorem mock_phone_tracks_live:
  assumes "mp_run ops NewMockPhone = Some p"
  shows "mp_FindCall p k = Some r \<longleftrightarrow>
    r < length (mp_heap p) \<and> mc_callID (mp_heap p ! r) = k \<and> mc_state (mp_heap p ! r) \<noteq> StateEnded"
proof -
  have "wired NewMockPhone \<and> tracks NewMockPhone" by (simp add: wired_def tracks_def NewMockPhone_def)
  then have "tracks p" using mp_run_keeps assms by blast
  then show ?thesis by (auto simp: mp_FindCall_def tracks_def map_of_eq_Some_iff)
qed

theorem mock_phone_tracks_live_witness:
  "mp_FindCall (the (mp_run [PConnect, PDial ''i'' ''a'' ''bob'', PIncoming ''j'' ''b'' ''eve'', PCall 1 (MAccept 3), PCall 0 MEnd] NewMockPhone)) ''b'' = Some 1
   \<and> mp_FindCall (the (mp_run [PConnect, PDial ''i'' ''a'' ''bob'', PIncoming ''j'' ''b'' ''eve'', PCall 1 (MAccept 3), PCall 0 MEnd] NewMockPhone)) ''a'' \<noteq> Some 0"
proof -
  let ?ops = "[PConnect, PDial ''i'' ''a'' ''bob'', PIncoming ''j'' ''b'' ''eve'', PCall 1 (MAccept 3), PCall 0 MEnd]"
  have "mp_run ?ops NewMockPhone \<noteq> None" by code_simp
  then have run: "mp_run ?ops NewMockPhone = Some (the (mp_run ?ops NewMockPhone))" by simp
  have facts: "1 < length (mp_heap (the (mp_run ?ops NewMockPhone)))" "mc_callID (mp_heap (the (mp_run ?ops NewMockPhone)) ! 1) = ''b''"
    "mc_state (mp_heap (the (mp_run ?ops NewMockPhone)) ! 1) \<noteq> StateEnded" "mc_state (mp_heap (the (mp_run ?ops NewMockPhone)) ! 0) = StateEnded"
    by code_simp+
  show ?thesis
    using mock_phone_tracks_live [OF run, of "''b''" 1] mock_phone_tracks_live [OF run, of "''a''" 0] facts by blast
qed

text \<open>
  Disconnecting with a call that rings forgets the call without ending it: it is tracked no longer, it still
  rings, and no callback hears of its end.
\<close>

theorem mock_disconnect_orphans_ringing:
  "let p = fold mp_step [POnCallEnded 5, PConnect, PIncoming ''j'' ''b'' ''eve'', PDisconnect] NewMockPhone
   in mp_state p = PhoneStateDisconnected \<and> mp_calls p = [] \<and> mc_state (mp_heap p ! 0) = StateRinging \<and> mp_log p = []"
  by code_simp

end
