(* ===== verification/Candidates.thy ===== *)
theory Candidates
  imports Ice
begin

text \<open>
  The parser of candidate lines and the random credentials of \<open>ice/ice.go\<close>.  \<open>net.ParseIP\<close> is the parameter
  \<open>pIP\<close>; of it the round trip needs that it reads a dotted IPv4 address.
\<close>

section \<open>Parsing\<close>

text \<open>\<open>strconv.ParseUint (s, 10, 32)\<close>: digits only, a value of 32 bits.\<close>

definition ParseUint32 :: "string \<Rightarrow> nat option" where
  "ParseUint32 s =
     (if s = [] then None
      else case digits_val 0 s of Some n \<Rightarrow> if n < 2 ^ 32 then Some n else None | None \<Rightarrow> None)"

datatype cand_error = CandTooShort | BadComponent | BadPriority | BadPort | MissingTyp | UnknownType string

definition cand_type_of :: "string \<Rightarrow> CandidateType option" where
  "cand_type_of s =
     (if s = ''host'' then Some CandidateHost else if s = ''srflx'' then Some CandidateServerReflexive
      else if s = ''relay'' then Some CandidateRelay else None)"

definition cand_related :: "(string \<Rightarrow> IP) \<Rightarrow> string list \<Rightarrow> UDPAddr option" where
  "cand_related pIP parts =
     (if 12 \<le> length parts \<and> parts ! 8 = ''raddr'' \<and> parts ! 10 = ''rport'' then
        (case Atoi (parts ! 11) of Some rport \<Rightarrow> Some \<lparr>udp_IP = pIP (parts ! 9), udp_Port = rport\<rparr> | None \<Rightarrow> None)
      else None)"

definition ParseCandidate :: "(string \<Rightarrow> IP) \<Rightarrow> string \<Rightarrow> cand_error + Candidate" where
  "ParseCandidate pIP line =
     (let parts = Fields line
      in if length parts < 8 then Inl CandTooShort
         else case ParseUint32 (parts ! 1) of
           None \<Rightarrow> Inl BadComponent
         | Some component \<Rightarrow>
        (case ParseUint32 (parts ! 3) of
           None \<Rightarrow> Inl BadPriority
         | Some priority \<Rightarrow>
        (case Atoi (parts ! 5) of
           None \<Rightarrow> Inl BadPort
         | Some port \<Rightarrow>
           if parts ! 6 \<noteq> ''typ'' then Inl MissingTyp
           else case cand_type_of (parts ! 7) of
             None \<Rightarrow> Inl (UnknownType (parts ! 7))
           | Some t \<Rightarrow>
               Inr \<lparr>Foundation = parts ! 0, Component = word_of_nat component, Transport = parts ! 2,
                    Priority = word_of_nat priority, Addr = \<lparr>udp_IP = pIP (parts ! 4), udp_Port = port\<rparr>,
                    cand_Type = t, RelAddr = cand_related pIP parts\<rparr>)))"

section \<open>Credentials\<close>

definition ice_chars :: string where
  "ice_chars = ''abcdefghijklmnopqrstuvwxyzABCDEFGHIJKLMNOPQRSTUVWXYZ0123456789''"

text \<open>The random bytes are an argument.\<close>

definition randomICEString :: "bytes \<Rightarrow> string" where
  "randomICEString b = map (\<lambda>x. ice_chars ! (unat x mod length ice_chars)) b"

definition GenerateCredentials :: "bytes \<Rightarrow> bytes \<Rightarrow> ice_Credentials" where
  "GenerateCredentials r1 r2 = \<lparr>Ufrag = randomICEString (take 8 r1), Pwd = randomICEString (take 24 r2)\<rparr>"

section \<open>Round trip\<close>

lemma ParseUint32_word: "ParseUint32 (Itoa (uint (w :: u32))) = Some (unat w)"
proof -
  have "Itoa (uint w) = nat_str (unat w)" by (simp add: Itoa_def)
  moreover have "unat w < 2 ^ 32" using unsigned_less [of w, where ?'a = nat] by simp
  ultimately show ?thesis by (simp add: ParseUint32_def digits_val_nat_str nat_str_not_Nil)
qed

definition v4 :: "UDPAddr \<Rightarrow> bool" where
  "v4 a \<longleftrightarrow> (case udp_IP a of IPv4 _ _ _ _ \<Rightarrow> True | IPv6 _ \<Rightarrow> False) \<and> 0 \<le> udp_Port a \<and> udp_Port a < 65536"

definition plain_candidate :: "Candidate \<Rightarrow> bool" where
  "plain_candidate c \<longleftrightarrow> field (Foundation c) \<and> field (Transport c) \<and> v4 (Addr c) \<and> case_option True v4 (RelAddr c)"

lemma field_ip_String: "field (ip_String a b c d)"
  using field_Itoa unfolding field_def ip_String_def
  by (simp add: ball_Un) (simp add: is_space_def)

lemma field_udp: "v4 a \<Longrightarrow> field (udp_String a)"
  by (simp add: v4_def udp_String_def field_ip_String split: IP.splits)

lemma cand_type_roundtrip [simp]: "cand_type_of (cand_String t) = Some t" "field (cand_String t)"
  by (cases t; simp add: cand_type_of_def field_def is_space_def)+

definition cand_words :: "Candidate \<Rightarrow> string list" where
  "cand_words c =
     [Foundation c, Itoa (uint (Component c)), Transport c, Itoa (uint (Priority c)), udp_String (Addr c),
      Itoa (udp_Port (Addr c)), ''typ'', cand_String (cand_Type c)]
     @ (case RelAddr c of None \<Rightarrow> [] | Some r \<Rightarrow> [''raddr'', udp_String r, ''rport'', Itoa (udp_Port r)])"

lemma SDPValue_words: "SDPValue c = Join (cand_words c) '' ''"
  by (simp add: SDPValue_def cand_words_def split: option.split)

lemma Fields_SDPValue: "plain_candidate c \<Longrightarrow> Fields (SDPValue c) = cand_words c"
  unfolding SDPValue_words
  by (rule Fields_Join)
     (auto simp: cand_words_def plain_candidate_def field_udp field_def [of "''typ''"] field_def [of "''raddr''"]
       field_def [of "''rport''"] is_space_def split: option.splits)

lemma Atoi_port: "v4 a \<Longrightarrow> Atoi (Itoa (udp_Port a)) = Some (udp_Port a)"
  by (rule Atoi_Itoa) (simp_all add: v4_def)

lemma parsed_addr:
  "\<forall>a b c d. pIP (ip_String a b c d) = IPv4 a b c d \<Longrightarrow> v4 x \<Longrightarrow> \<lparr>udp_IP = pIP (udp_String x), udp_Port = udp_Port x\<rparr> = x"
  by (cases x) (auto simp: v4_def udp_String_def split: IP.splits)

text \<open>
  A candidate printed for the session description is read back as the same candidate, related address
  included, for IPv4 addresses and a foundation and transport without spaces.
\<close>

theorem candidate_roundtrip:
  assumes "plain_candidate c" "\<forall>a b c d. pIP (ip_String a b c d) = IPv4 a b c d"
  shows "ParseCandidate pIP (SDPValue c) = Inr c"
proof -
  have rel: "cand_related pIP (cand_words c) = RelAddr c"
    using assms(1) parsed_addr [OF assms(2)]
    by (auto simp: cand_related_def cand_words_def plain_candidate_def Atoi_port nth_append split: option.splits)
  have "v4 (Addr c)" using assms(1) by (simp add: plain_candidate_def)
  moreover have "cand_words c ! 0 = Foundation c" "cand_words c ! 1 = Itoa (uint (Component c))" "cand_words c ! 2 = Transport c"
    "cand_words c ! 3 = Itoa (uint (Priority c))" "cand_words c ! 4 = udp_String (Addr c)" "cand_words c ! 5 = Itoa (udp_Port (Addr c))"
    "cand_words c ! 6 = ''typ''" "cand_words c ! 7 = cand_String (cand_Type c)" "8 \<le> length (cand_words c)"
    by (simp_all add: cand_words_def)
  ultimately show ?thesis
    using Fields_SDPValue [OF assms(1)] rel parsed_addr [OF assms(2)]
    by (simp add: ParseCandidate_def Let_def ParseUint32_word Atoi_port)
qed

definition demo_candidate :: Candidate where
  "demo_candidate = \<lparr>Foundation = ''2'', Component = 1, Transport = ''UDP'', Priority = 1694498815,
     Addr = \<lparr>udp_IP = IPv4 203 0 113 5, udp_Port = 4000\<rparr>, cand_Type = CandidateServerReflexive,
     RelAddr = Some \<lparr>udp_IP = IPv4 10 0 0 9, udp_Port = 4000\<rparr>\<rparr>"

text \<open>A parser of dotted addresses, as an instance of the hypothesis.\<close>

definition dotted_ParseIP :: "string \<Rightarrow> IP" where
  "dotted_ParseIP s =
     (case map Atoi (Split s ''.'') of
        [Some a, Some b, Some c, Some d] \<Rightarrow> IPv4 (word_of_int a) (word_of_int b) (word_of_int c) (word_of_int d)
      | _ \<Rightarrow> IPv6 [])"

lemma Atoi_byte: "Atoi (Itoa (uint (w :: byte))) = Some (uint w)"
proof (rule Atoi_Itoa)
  show "- (2 ^ 63) \<le> uint w" by (rule order_trans [of _ 0]) simp_all
  show "uint w < 2 ^ 63" using uint_bounded [of w] by simp
qed

lemma dotted_ParseIP_reads: "dotted_ParseIP (ip_String a b c d) = IPv4 a b c d"
proof -
  have "CHR ''.'' \<notin> set (Itoa i)" for i using Itoa_range [of "CHR ''.''" i] by auto
  then have "Split (ip_String a b c d) ''.'' = [Itoa (uint a), Itoa (uint b), Itoa (uint c), Itoa (uint d)]"
    unfolding ip_String_def by (intro Split_Join) auto
  then show ?thesis by (simp add: dotted_ParseIP_def Atoi_byte)
qed

theorem candidate_roundtrip_witness:
  "plain_candidate demo_candidate \<and> ParseCandidate dotted_ParseIP (SDPValue demo_candidate) = Inr demo_candidate"
proof -
  have "plain_candidate demo_candidate"
    by (simp add: plain_candidate_def demo_candidate_def v4_def field_def is_space_def)
  then show ?thesis using candidate_roundtrip [of demo_candidate dotted_ParseIP] dotted_ParseIP_reads by simp
qed

text \<open>Credentials are of the lengths RFC 8445 asks for, in letters and digits.\<close>

theorem credentials_well_formed:
  assumes "8 \<le> length r1" "24 \<le> length r2"
  shows "length (Ufrag (GenerateCredentials r1 r2)) = 8 \<and> length (Pwd (GenerateCredentials r1 r2)) = 24
         \<and> set (Ufrag (GenerateCredentials r1 r2)) \<subseteq> set ice_chars \<and> set (Pwd (GenerateCredentials r1 r2)) \<subseteq> set ice_chars"
proof -
  have "0 < length ice_chars" by (simp add: ice_chars_def)
  then have "set (randomICEString b) \<subseteq> set ice_chars" for b
    by (auto simp: randomICEString_def intro!: nth_mem mod_less_divisor)
  then show ?thesis using assms by (simp add: GenerateCredentials_def randomICEString_def)
qed

end
