(* ===== verification/Spec2Isabelle.thy ===== *)
theory Spec2Isabelle
  imports MediaLoop Registry UserAgentProps SubscriptionProps TurnProps Transactions DialogProps MockProps Candidates
begin

text \<open>
  A verification development for the SIP user agent library xphone-go.

  \<^bold>\<open>The program.\<close>  A \<open>Phone\<close> (\<open>xphone.go\<close>) registers with a SIP registrar (\<open>registry.go\<close>) and places and
  takes calls; a \<open>Server\<close> (\<open>server.go\<close>) does the same for trunk peers without registration, authenticates
  them (\<open>server_auth.go\<close>) and fails over between their addresses (\<open>dial_failover.go\<close>).  Both own calls
  (\<open>call.go\<close>, \<open>video_upgrade.go\<close>): a call negotiates media with SDP (\<open>internal/sdp\<close>) and runs a media
  pipeline per stream (\<open>media.go\<close>) over RTP, with SRTP (\<open>internal/srtp\<close>), RTCP (\<open>internal/rtcp\<close>), a jitter
  buffer, audio codecs and video payload formats (\<open>internal/media\<close>), DTMF (\<open>dtmf.go\<close>), and ICE-Lite
  (\<open>ice\<close>) over STUN (\<open>internal/stun\<close>).  \<open>internal/sip\<close> has a SIP message parser and digest client.

  \<^bold>\<open>Theories, from the bottom up.\<close>
  \<^item> \<open>XPrelude\<close>: words at Go's widths, slices, big-endian accessors, and the rewrite rules
    \<open>wire_simps\<close> that read back what was written.  \<open>GoStrings\<close>: the \<open>strings\<close> and \<open>strconv\<close>
    functions the sources call.  \<open>Crypto\<close>: SHA-1, HMAC, MD5, AES-128 and Base64 as the Go
    standard library computes them, executable.
  \<^item> \<open>ReplayWindow\<close>, \<open>Srtp\<close>, \<open>SrtpProps\<close> (\<open>internal/srtp/srtp.go\<close>): the 128-bit replay window and its
    refinement of a set of indices (locale \<open>replay_guard\<close>), SRTP and SRTCP protection, streams that
    survive loss, reordering and sequence wrap-around, replay safety, zeroization.
  \<^item> \<open>Rtp\<close>, \<open>JitterBuffer\<close>, \<open>G711\<close>, \<open>Video\<close>, \<open>H264\<close> (\<open>internal/media\<close>): the jitter buffer sorts,
    drops duplicates and conserves packets; the G.711 codecs and their error bounds
    (locales \<open>companding_codec\<close>, \<open>lossless_codec\<close>); the VP8 and
    H.264 payload formats as two interpretations of the locale \<open>video_codec\<close>.
  \<^item> \<open>Rtcp\<close> (\<open>internal/rtcp/rtcp.go\<close>): loss accounting, reports and their parser.
  \<^item> \<open>Stun\<close>, \<open>Ice\<close>, \<open>Candidates\<close> (\<open>internal/stun\<close>, \<open>ice/ice.go\<close>): messages, integrity, the agent, candidate lines.
  \<^item> \<open>SipMessage\<close>, \<open>DigestAuth\<close> (\<open>internal/sip\<close>, \<open>server_auth.go\<close>): message round trip,
    header updates (locale \<open>header_store\<close>), digest client
    against digest server, peer authentication.
  \<^item> \<open>Sdp\<close>, \<open>Dtmf\<close>: session descriptions and their parser; telephone events.
  \<^item> \<open>DialFailover\<close> (\<open>dial_failover.go\<close>, \<open>Dial\<close> of \<open>server.go\<close>): the lazy candidate iterator (locale
    \<open>lazy_list\<close>) and the failover loop, with termination.
  \<^item> \<open>PhoneLifecycle\<close> (\<open>xphone.go\<close>), \<open>Registry\<close> (\<open>registry.go\<close>): the lifecycle operations as
    concurrent threads of critical sections, and registration with its retry loop, as step relations.
  \<^item> \<open>Call\<close>, \<open>CallProps\<close> (\<open>call.go\<close>, \<open>video_upgrade.go\<close>): every operation on a call, the handlers of
    peer messages and timers, and the invariant of a call's life.
  \<^item> \<open>Media\<close>, \<open>MediaProps\<close>, \<open>MediaLoop\<close> (\<open>media.go\<close>): the audio, video and reader goroutines, every case of
    their \<open>select\<close> as a step; audio and video end to end over the locale \<open>ordered_link\<close>, the pacer and
    the media timer.
  \<^item> \<open>Options\<close> (\<open>options.go\<close>): configurations and their defaults.
  \<^item> \<open>CallTable\<close>, \<open>Server\<close>, \<open>ServerProps\<close>, \<open>ServerCalls\<close>, \<open>UserAgent\<close>, \<open>UserAgentProps\<close> (\<open>server.go\<close>,
    \<open>xphone.go\<close>, \<open>sipua.go\<close>): calls as objects on a heap, the table that tracks them and its invariants
    (locale \<open>tracks_calls\<close>, interpreted for the server and for the phone); the server and the phone's user
    agent as transition functions over requests, goroutine steps and timers, and what they promise.
  \<^item> \<open>Subscriptions\<close>, \<open>SubscriptionProps\<close> (\<open>subscribe.go\<close>, \<open>mwi.go\<close>, \<open>dialog_info.go\<close>): SUBSCRIBE dialogs, every
    goroutine a task that runs up to its next lock, send or callback; no subscription is left without a
    refresher, a stopped manager is silent, watch reports, message summaries, and two ways it goes wrong.
  \<^item> \<open>Turn\<close>, \<open>TurnProps\<close> (\<open>turn/turn.go\<close>): the TURN client over the STUN messages; login at the server,
    authentication of every request, channel numbers, frames.
  \<^item> \<open>Transactions\<close> (\<open>transaction.go\<close>, \<open>client.go\<close> and \<open>conn.go\<close> of \<open>internal/sip\<close>): client transactions with their
    waiting calls, responses in order to the request they answer, and REGISTER with a challenge.
  \<^item> \<open>Dialogs\<close>, \<open>DialogProps\<close> (\<open>sipgo_dialog.go\<close>, \<open>sip_observer.go\<close>, the stub dialog of \<open>xphone.go\<close>): the dialog adapters
    over a session of the SIP library, and the observer: no credential reaches it, and its time stamps
    restore the order of the wire (locale \<open>timeline_step\<close>).
  \<^item> \<open>Mocks\<close>, \<open>MockProps\<close> (\<open>mock_call.go\<close>, \<open>mock_phone.go\<close>): the exported mocks; a mock call simulates a call of \<open>Call\<close>,
    and the mock phone tracks its live calls.
  \<^bold>\<open>State and effects.\<close>  A Go struct is a record, a method a function on it; a critical section under
  a mutex is one function, and what runs between sections is a program point of a thread.  What a
  method sends, fires or writes is recorded in the state in order.  Errors are sum or option values,
  and a nil dereference is a value of the model wherever the code can reach one.  Clocks, sockets, random
  numbers, name resolution and the third-party libraries (\<open>sipgo\<close>, \<open>pion/rtp\<close>, the G.722, G.729 and Opus
  codecs) are parameters; what is relied on of them is a named hypothesis, and every theorem with one has
  a witness on a concrete instance.

  \<^bold>\<open>Bounds and fuel.\<close>  No definition uses fuel: every loop is structural or has a measure.  The stream
  theorems bound what they must: \<open>2^32\<close> packets for one SRTP key, 32768 packets where a fresh stream
  is followed from sequence number zero (half the sequence space, in which order is unambiguous), 1478
  bytes of payload (the reader's 1500-byte buffer less header and tag).

  \<^bold>\<open>Not modelled.\<close>  The set-up of the objects of the SIP library, whose behaviour is the library's; option setters;
  the wrappers of third-party codecs; the doubles under \<open>testutil\<close> and the terminal client.  Lost wake-ups of channels that are full are not modelled except where the
  code drops on purpose (\<open>sendDropOldest\<close>), and \<open>float64\<close> rounding of the jitter estimate is not.
\<close>

end
